(* ===== verification/Prelude.thy ===== *)
theory Prelude
  imports Main "HOL-Library.Word"
begin

text \<open>
  Shared vocabulary of the development.

  \<^item> Machine integers: \<open>u8\<close> to \<open>u256\<close> are words; \<open>usize\<close> lengths and indices are
    \<open>nat\<close>; \<open>i64\<close> timestamps are \<open>int\<close>, with Rust's saturation written out.
  \<^item> \<open>outcome\<close> is the result of a Rust call: a value (\<open>Ok\<close>), an error value (\<open>Err\<close>),
    or a panic. \<open>obind\<close> is the question-mark operator.
  \<^item> Byte strings, big- and little-endian integers, hexadecimal and decimal text,
    splitting on a separator: the parts of the Rust standard library the sources use.
  Rust strings are their UTF-8 bytes, one \<open>char\<close> per byte.
\<close>

named_theorems outcome_simps \<open>inversion of outcome combinators\<close>
named_theorems bytes_simps \<open>lengths and round trips of byte encodings\<close>

subsection \<open>Types\<close>

type_synonym u8 = "8 word"
type_synonym u32 = "32 word"
type_synonym u64 = "64 word"
type_synonym u128 = "128 word"
type_synonym u256 = "256 word"
type_synonym i64 = int
type_synonym bytes = "u8 list"
type_synonym ulid = u128

subsection \<open>Outcomes of fallible calls\<close>

datatype ('e, 'a) outcome = Ok 'a | Err 'e | Panic string

primrec obind :: "('e, 'a) outcome \<Rightarrow> ('a \<Rightarrow> ('e, 'b) outcome) \<Rightarrow> ('e, 'b) outcome" where
  "obind (Ok x) f = f x"
| "obind (Err e) f = Err e"
| "obind (Panic m) f = Panic m"

primrec map_err :: "('e \<Rightarrow> 'f) \<Rightarrow> ('e, 'a) outcome \<Rightarrow> ('f, 'a) outcome" where
  "map_err g (Ok x) = Ok x"
| "map_err g (Err e) = Err (g e)"
| "map_err g (Panic m) = Panic m"

primrec ok_or :: "'a option \<Rightarrow> 'e \<Rightarrow> ('e, 'a) outcome" where
  "ok_or None e = Err e"
| "ok_or (Some x) e = Ok x"

primrec ok_opt :: "('e, 'a) outcome \<Rightarrow> 'a option" where
  "ok_opt (Ok x) = Some x"
| "ok_opt (Err e) = None"
| "ok_opt (Panic m) = None"

definition fail_if :: "bool \<Rightarrow> 'e \<Rightarrow> ('e, unit) outcome" where
  "fail_if b e = (if b then Err e else Ok ())"

definition index_at :: "'a list \<Rightarrow> nat \<Rightarrow> ('e, 'a) outcome" where
  "index_at xs i = (if i < length xs then Ok (xs ! i) else Panic ''index out of bounds'')"

text \<open>The slice \<open>xs[a..b]\<close>, which panics unless \<open>a \<le> b \<le> len\<close>.\<close>

definition slice :: "'a list \<Rightarrow> nat \<Rightarrow> nat \<Rightarrow> ('e, 'a list) outcome" where
  "slice xs a b = (if a \<le> b \<and> b \<le> length xs then Ok (take (b - a) (drop a xs))
                   else Panic ''slice index out of range'')"

text \<open>A \<open>for\<close> loop whose body pushes one value and may return early with an error.\<close>

primrec omap :: "('a \<Rightarrow> ('e, 'b) outcome) \<Rightarrow> 'a list \<Rightarrow> ('e, 'b list) outcome" where
  "omap f [] = Ok []"
| "omap f (x # xs) = obind (f x) (\<lambda>y. obind (omap f xs) (\<lambda>ys. Ok (y # ys)))"

text \<open>A \<open>for\<close> loop that only checks.\<close>

primrec oforeach :: "('a \<Rightarrow> ('e, unit) outcome) \<Rightarrow> 'a list \<Rightarrow> ('e, unit) outcome" where
  "oforeach f [] = Ok ()"
| "oforeach f (x # xs) = obind (f x) (\<lambda>_. oforeach f xs)"

text \<open>A \<open>for\<close> loop with a mutable accumulator (\<open>try_fold\<close>).\<close>

primrec ofold :: "('s \<Rightarrow> 'a \<Rightarrow> ('e, 's) outcome) \<Rightarrow> 's \<Rightarrow> 'a list \<Rightarrow> ('e, 's) outcome" where
  "ofold f s [] = Ok s"
| "ofold f s (x # xs) = obind (f s x) (\<lambda>s'. ofold f s' xs)"

lemma obind_eq_Ok [outcome_simps]: "obind m f = Ok y \<longleftrightarrow> (\<exists>x. m = Ok x \<and> f x = Ok y)"
  by (cases m) auto

lemma obind_eq_Err [outcome_simps]:
  "obind m f = Err e \<longleftrightarrow> m = Err e \<or> (\<exists>x. m = Ok x \<and> f x = Err e)"
  by (cases m) auto

lemma obind_eq_Panic [outcome_simps]:
  "obind m f = Panic p \<longleftrightarrow> m = Panic p \<or> (\<exists>x. m = Ok x \<and> f x = Panic p)"
  by (cases m) auto

lemma obind_assoc: "obind (obind m f) g = obind m (\<lambda>x. obind (f x) g)"
  by (cases m) auto

lemma map_err_eq_Ok [outcome_simps]: "map_err g m = Ok y \<longleftrightarrow> m = Ok y"
  by (cases m) auto

lemma map_err_eq_Err [outcome_simps]: "map_err g m = Err e \<longleftrightarrow> (\<exists>d. m = Err d \<and> e = g d)"
  by (cases m) auto

lemma map_err_eq_Panic [outcome_simps]: "map_err g m = Panic p \<longleftrightarrow> m = Panic p"
  by (cases m) auto

lemma ok_or_eq_Ok [outcome_simps]: "ok_or v e = Ok x \<longleftrightarrow> v = Some x"
  by (cases v) auto

lemma ok_or_eq_Err [outcome_simps]: "ok_or v e = Err d \<longleftrightarrow> v = None \<and> d = e"
  by (cases v) auto

lemma ok_or_not_Panic [simp]: "ok_or v e \<noteq> Panic p"
  by (cases v) auto

lemma ok_opt_eq_Some [outcome_simps]: "ok_opt m = Some x \<longleftrightarrow> m = Ok x"
  by (cases m) auto

lemma ok_opt_eq_None [outcome_simps]: "ok_opt m = None \<longleftrightarrow> (\<forall>x. m \<noteq> Ok x)"
  by (cases m) auto

lemma fail_if_eq_Ok [outcome_simps]: "fail_if b e = Ok u \<longleftrightarrow> \<not> b"
  by (simp add: fail_if_def)

lemma fail_if_eq_Err [outcome_simps]: "fail_if b e = Err d \<longleftrightarrow> b \<and> d = e"
  by (auto simp: fail_if_def)

lemma fail_if_not_Panic [simp]: "fail_if b e \<noteq> Panic p"
  by (simp add: fail_if_def)

lemma fail_if_simps [simp]: "fail_if True e = Err e" "fail_if False e = Ok ()"
  by (simp_all add: fail_if_def)

lemma index_at_eq_Ok [outcome_simps]: "index_at xs i = Ok x \<longleftrightarrow> i < length xs \<and> x = xs ! i"
  by (auto simp: index_at_def)

lemma index_at_in [simp]: "i < length xs \<Longrightarrow> index_at xs i = Ok (xs ! i)"
  by (simp add: index_at_def)

lemma index_at_not_Err [simp]: "index_at xs i \<noteq> Err e"
  by (simp add: index_at_def)

lemma index_at_eq_Panic [outcome_simps]:
  "index_at xs i = Panic p \<longleftrightarrow> length xs \<le> i \<and> p = ''index out of bounds''"
  by (auto simp: index_at_def)

lemma slice_eq_Ok [outcome_simps]:
  "slice xs a b = Ok ys \<longleftrightarrow> a \<le> b \<and> b \<le> length xs \<and> ys = take (b - a) (drop a xs)"
  by (auto simp: slice_def)

lemma slice_in [simp]: "a \<le> b \<Longrightarrow> b \<le> length xs \<Longrightarrow> slice xs a b = Ok (take (b - a) (drop a xs))"
  by (simp add: slice_def)

lemma slice_not_Err [simp]: "slice xs a b \<noteq> Err e"
  by (simp add: slice_def)

lemma omap_eq_Ok: "omap f xs = Ok ys \<longleftrightarrow> list_all2 (\<lambda>x y. f x = Ok y) xs ys"
  by (induction xs arbitrary: ys) (auto simp: outcome_simps list_all2_Cons1)

lemma omap_Ok_map: "(\<And>x. x \<in> set xs \<Longrightarrow> f x = Ok (g x)) \<Longrightarrow> omap f xs = Ok (map g xs)"
  by (induction xs) auto

lemma omap_Ok_length: "omap f xs = Ok ys \<Longrightarrow> length ys = length xs"
  by (auto simp: omap_eq_Ok dest: list_all2_lengthD)

lemma omap_Ok_set: "omap f xs = Ok ys \<Longrightarrow> y \<in> set ys \<Longrightarrow> \<exists>x \<in> set xs. f x = Ok y"
  by (induction xs arbitrary: ys) (auto simp: outcome_simps)

lemma omap_not_Panic: "(\<And>x. x \<in> set xs \<Longrightarrow> f x \<noteq> Panic p) \<Longrightarrow> omap f xs \<noteq> Panic p"
  by (induction xs) (auto simp: outcome_simps)

lemma oforeach_eq_Ok: "oforeach f xs = Ok u \<longleftrightarrow> (\<forall>x \<in> set xs. f x = Ok ())"
  by (induction xs) (auto simp: outcome_simps)

lemma oforeach_not_Panic: "(\<And>x. x \<in> set xs \<Longrightarrow> f x \<noteq> Panic p) \<Longrightarrow> oforeach f xs \<noteq> Panic p"
  by (induction xs) (auto simp: outcome_simps)

lemma oforeach_eq_Err_ex: "oforeach f xs = Err e \<Longrightarrow> \<exists>x \<in> set xs. f x = Err e"
  by (induction xs) (auto simp: outcome_simps)

subsection \<open>Fixed-width integers as bytes\<close>

lemma unsigned_word_eqI_iff: "unat (x :: 'a::len word) = unat y \<longleftrightarrow> x = y"
  by (auto intro: unsigned_word_eqI)

lemma unat_lt: "unat (w :: 'a::len word) < 2 ^ LENGTH('a)"
  by (rule unsigned_less)

lemma unat_u8_lt: "unat (b :: u8) < 256"
  using unat_lt [of b] by simp

primrec be_bytes :: "nat \<Rightarrow> nat \<Rightarrow> bytes" where
  "be_bytes 0 x = []"
| "be_bytes (Suc n) x = be_bytes n (x div 256) @ [word_of_nat (x mod 256)]"

definition be_nat :: "bytes \<Rightarrow> nat" where
  "be_nat bs = foldl (\<lambda>a b. a * 256 + unat b) 0 bs"

definition le_bytes :: "nat \<Rightarrow> nat \<Rightarrow> bytes" where
  "le_bytes n x = rev (be_bytes n x)"

definition le_nat :: "bytes \<Rightarrow> nat" where
  "le_nat bs = be_nat (rev bs)"

lemma length_be_bytes [simp, bytes_simps]: "length (be_bytes n x) = n"
  by (induction n arbitrary: x) auto

lemma length_le_bytes [simp, bytes_simps]: "length (le_bytes n x) = n"
  by (simp add: le_bytes_def)

lemma be_nat_Nil [simp]: "be_nat [] = 0"
  by (simp add: be_nat_def)

lemma be_nat_snoc [simp]: "be_nat (bs @ [b]) = be_nat bs * 256 + unat b"
  by (simp add: be_nat_def)

lemma unat_word_of_nat_u8 [simp]: "unat (word_of_nat (x mod 256) :: u8) = x mod 256"
  by (simp add: unat_of_nat)

lemma be_nat_be_bytes [bytes_simps]: "be_nat (be_bytes n x) = x mod 256 ^ n"
proof (induction n arbitrary: x)
  case 0
  then show ?case by simp
next
  case (Suc n)
  have "x mod 256 ^ Suc n = x mod 256 + 256 * (x div 256 mod 256 ^ n)"
    using mod_mult2_eq [of x 256 "256 ^ n"] by simp
  with Suc show ?case by simp
qed

lemma be_nat_lt: "be_nat bs < 256 ^ length bs"
proof (induction bs rule: rev_induct)
  case Nil
  then show ?case by simp
next
  case (snoc b bs)
  have b: "unat b < 256" by (rule unat_u8_lt)
  from snoc have "be_nat bs * 256 + 256 \<le> 256 ^ length bs * 256"
    by (metis Suc_leI add.commute mult_Suc mult_le_mono1)
  with b show ?case by simp
qed

lemma be_bytes_be_nat [bytes_simps]: "be_bytes (length bs) (be_nat bs) = bs"
proof (induction bs rule: rev_induct)
  case Nil
  then show ?case by simp
next
  case (snoc b bs)
  have b: "unat b < 256" by (rule unat_u8_lt)
  then have "(be_nat bs * 256 + unat b) div 256 = be_nat bs"
    "(be_nat bs * 256 + unat b) mod 256 = unat b" by auto
  with snoc show ?case by simp
qed

lemma le_nat_le_bytes [bytes_simps]: "le_nat (le_bytes n x) = x mod 256 ^ n"
  by (simp add: le_nat_def le_bytes_def be_nat_be_bytes)

lemma be_bytes_inject:
  "x < 256 ^ n \<Longrightarrow> y < 256 ^ n \<Longrightarrow> be_bytes n x = be_bytes n y \<longleftrightarrow> x = y"
  by (metis be_nat_be_bytes mod_less)

text \<open>\<open>to_be_bytes\<close> of an unsigned word of \<open>n\<close> bytes and of a two's-complement \<open>i64\<close>.\<close>

definition u32_be :: "u32 \<Rightarrow> bytes" where
  "u32_be x = be_bytes 4 (unat x)"

definition u64_be :: "u64 \<Rightarrow> bytes" where
  "u64_be x = be_bytes 8 (unat x)"

definition i64_be :: "i64 \<Rightarrow> bytes" where
  "i64_be x = be_bytes 8 (nat (x mod 2 ^ 64))"

definition i64_ok :: "i64 \<Rightarrow> bool" where
  "i64_ok x \<longleftrightarrow> - (2 ^ 63) \<le> x \<and> x < 2 ^ 63"

lemma length_int_be [simp, bytes_simps]:
  "length (u32_be x) = 4" "length (u64_be y) = 8" "length (i64_be z) = 8"
  by (simp_all add: u32_be_def u64_be_def i64_be_def)

lemma u32_be_inject [simp]: "u32_be x = u32_be y \<longleftrightarrow> x = y"
  using be_bytes_inject [of "unat x" 4 "unat y"] unat_lt [of x] unat_lt [of y]
  by (simp add: u32_be_def unsigned_word_eqI_iff)

lemma u64_be_inject [simp]: "u64_be x = u64_be y \<longleftrightarrow> x = y"
  using be_bytes_inject [of "unat x" 8 "unat y"] unat_lt [of x] unat_lt [of y]
  by (simp add: u64_be_def unsigned_word_eqI_iff)

lemma i64_be_inject: "i64_ok x \<Longrightarrow> i64_ok y \<Longrightarrow> i64_be x = i64_be y \<longleftrightarrow> x = y"
proof -
  assume ok: "i64_ok x" "i64_ok y"
  have lt: "nat (z mod 2 ^ 64) < 256 ^ 8" for z :: int
    by (simp add: nat_less_iff)
  have "i64_be x = i64_be y \<longleftrightarrow> x mod 2 ^ 64 = y mod 2 ^ 64"
    unfolding i64_be_def be_bytes_inject [OF lt lt] by (simp add: nat_eq_iff)
  also have "\<dots> \<longleftrightarrow> x = y"
  proof
    assume "x mod 2 ^ 64 = y mod 2 ^ 64"
    then have "(2 ^ 64 :: int) dvd x - y" by (simp add: mod_eq_dvd_iff)
    then obtain k where k: "x - y = 2 ^ 64 * k" by (rule dvdE)
    with ok have "k = 0" unfolding i64_ok_def by (simp add: eq_diff_eq)
    with k show "x = y" by simp
  qed simp
  finally show ?thesis .
qed

subsection \<open>Signed arithmetic\<close>

definition i64_saturate :: "int \<Rightarrow> i64" where
  "i64_saturate x = max (- (2 ^ 63)) (min (2 ^ 63 - 1) x)"

definition i64_saturating_sub :: "i64 \<Rightarrow> i64 \<Rightarrow> i64" where
  "i64_saturating_sub a b = i64_saturate (a - b)"

text \<open>Division by a positive constant \<open>k\<close>: Rust drops the fraction, so a negative dividend is
  rounded up. The sources divide by unit factors only (1000, 1000000).\<close>

definition whole_units :: "nat \<Rightarrow> int \<Rightarrow> int" where
  "whole_units k x = (if x < 0 then - int (nat (- x) div k) else int (nat x div k))"

lemma whole_units_nonneg: "0 \<le> x \<Longrightarrow> whole_units k x = x div int k"
  by (simp add: whole_units_def zdiv_int)

lemma i64_saturating_sub_neg: "i64_saturating_sub a b < 0 \<longleftrightarrow> a < b"
  by (auto simp: i64_saturating_sub_def i64_saturate_def)

lemma i64_saturating_sub_nonneg:
  "b \<le> a \<Longrightarrow> i64_saturating_sub a b = min (2 ^ 63 - 1) (a - b)"
  by (auto simp: i64_saturating_sub_def i64_saturate_def)

subsection \<open>Text\<close>

definition as_bytes :: "string \<Rightarrow> bytes" where
  "as_bytes s = map (\<lambda>c. word_of_nat (of_char c)) s"

lemma length_as_bytes [simp]: "length (as_bytes s) = length s"
  by (simp add: as_bytes_def)

lemma as_bytes_append [simp]: "as_bytes (s @ t) = as_bytes s @ as_bytes t"
  by (simp add: as_bytes_def)

lemma byte_of_char_inject [simp]:
  "(word_of_nat (of_char c) :: u8) = word_of_nat (of_char d) \<longleftrightarrow> c = (d :: char)"
proof
  assume eq: "(word_of_nat (of_char c) :: u8) = word_of_nat (of_char d)"
  have "unat (word_of_nat (of_char x) :: u8) = of_char x" for x :: char
    by (simp add: unat_of_nat)
  with eq have "(of_char c :: nat) = of_char d" by metis
  then show "c = d" by simp
qed simp

lemma as_bytes_inject [simp]: "as_bytes s = as_bytes t \<longleftrightarrow> s = t"
  by (simp add: as_bytes_def inj_map_eq_map inj_def)

fun split_on :: "'a \<Rightarrow> 'a list \<Rightarrow> 'a list list" where
  "split_on c [] = [[]]"
| "split_on c (x # xs) = (if x = c then [] # split_on c xs
     else (case split_on c xs of [] \<Rightarrow> [[x]] | y # ys \<Rightarrow> (x # y) # ys))"

lemma split_on_not_Nil [simp]: "split_on c xs \<noteq> []"
  by (induction xs) (auto split: list.splits)

lemma split_on_no_sep [simp]: "c \<notin> set xs \<Longrightarrow> split_on c xs = [xs]"
  by (induction xs) auto

lemma split_on_append_sep [simp]:
  "c \<notin> set xs \<Longrightarrow> split_on c (xs @ c # ys) = xs # split_on c ys"
  by (induction xs) auto

subsection \<open>Decimal text\<close>

definition digit_char :: "nat \<Rightarrow> char" where
  "digit_char d = char_of (48 + d)"

definition is_digit :: "char \<Rightarrow> bool" where
  "is_digit c \<longleftrightarrow> 48 \<le> (of_char c :: nat) \<and> (of_char c :: nat) \<le> 57"

definition digit_val :: "char \<Rightarrow> nat" where
  "digit_val c = of_char c - 48"

fun show_nat :: "nat \<Rightarrow> string" where
  "show_nat n = (if n < 10 then [digit_char n] else show_nat (n div 10) @ [digit_char (n mod 10)])"

declare show_nat.simps [simp del]

definition dec_value :: "string \<Rightarrow> nat" where
  "dec_value s = foldl (\<lambda>a c. a * 10 + digit_val c) 0 s"

lemma of_char_digit_char: "d < 10 \<Longrightarrow> (of_char (digit_char d) :: nat) = 48 + d"
  by (simp add: digit_char_def)

lemma is_digit_digit_char [simp]: "d < 10 \<Longrightarrow> is_digit (digit_char d)"
  by (simp add: is_digit_def of_char_digit_char)

lemma digit_val_digit_char [simp]: "d < 10 \<Longrightarrow> digit_val (digit_char d) = d"
  by (simp add: digit_val_def of_char_digit_char)

lemma show_nat_not_Nil [simp]: "show_nat n \<noteq> []"
  by (subst show_nat.simps) simp

lemma show_nat_digits: "\<forall>c \<in> set (show_nat n). is_digit c"
proof (induction n rule: show_nat.induct)
  case (1 n)
  then show ?case
    by (cases "n < 10") (simp_all add: show_nat.simps [of n])
qed

lemma dec_value_show_nat [simp]: "dec_value (show_nat n) = n"
proof (induction n rule: show_nat.induct)
  case (1 n)
  then show ?case
    by (cases "n < 10") (simp_all add: show_nat.simps [of n] dec_value_def)
qed

lemma show_nat_inject [simp]: "show_nat m = show_nat n \<longleftrightarrow> m = n"
  by (metis dec_value_show_nat)

text \<open>
  \<open>str::parse::<u32>\<close>: an optional leading plus sign, then at least one digit and nothing
  else, with a value below \<open>2^32\<close>.
\<close>

definition parse_uint :: "nat \<Rightarrow> string \<Rightarrow> nat option" where
  "parse_uint bits s =
     (let ds = (case s of c # cs \<Rightarrow> if c = CHR ''+'' then cs else s | [] \<Rightarrow> [])
      in if ds \<noteq> [] \<and> list_all is_digit ds \<and> dec_value ds < 2 ^ bits
         then Some (dec_value ds) else None)"

lemma not_digit_plus: "\<not> is_digit (CHR ''+'')"
  by (simp add: is_digit_def)

lemma parse_uint_show_nat [simp]: "n < 2 ^ bits \<Longrightarrow> parse_uint bits (show_nat n) = Some n"
proof -
  assume n: "n < 2 ^ bits"
  obtain c cs where s: "show_nat n = c # cs" by (cases "show_nat n") auto
  with show_nat_digits [of n] have "is_digit c" by simp
  then have "c \<noteq> CHR ''+''" using not_digit_plus by auto
  with n s show_nat_digits [of n] show ?thesis
    by (auto simp: parse_uint_def list_all_iff Let_def) (metis dec_value_show_nat)+
qed

lemma parse_uint_lt: "parse_uint bits s = Some n \<Longrightarrow> n < 2 ^ bits"
  by (auto simp: parse_uint_def Let_def split: if_splits)

subsection \<open>Hexadecimal text\<close>

definition nibble_char :: "nat \<Rightarrow> char" where
  "nibble_char d = (if d < 10 then char_of (48 + d) else char_of (87 + d))"

definition hex_of_byte :: "u8 \<Rightarrow> string" where
  "hex_of_byte b = [nibble_char (unat b div 16), nibble_char (unat b mod 16)]"

text \<open>The loop \<open>for b in bytes: write!(s, "{b:02x}")\<close>.\<close>

definition hex_encode :: "bytes \<Rightarrow> string" where
  "hex_encode bs = concat (map hex_of_byte bs)"

definition is_ascii_hexdigit :: "char \<Rightarrow> bool" where
  "is_ascii_hexdigit c \<longleftrightarrow> (let n = (of_char c :: nat) in
     48 \<le> n \<and> n \<le> 57 \<or> 65 \<le> n \<and> n \<le> 70 \<or> 97 \<le> n \<and> n \<le> 102)"

definition to_ascii_lower :: "char \<Rightarrow> char" where
  "to_ascii_lower c = (let n = (of_char c :: nat) in if 65 \<le> n \<and> n \<le> 90 then char_of (n + 32) else c)"

definition to_ascii_lowercase :: "string \<Rightarrow> string" where
  "to_ascii_lowercase s = map to_ascii_lower s"

lemma of_char_nibble_char:
  "d < 16 \<Longrightarrow> (of_char (nibble_char d) :: nat) = (if d < 10 then 48 + d else 87 + d)"
  by (simp add: nibble_char_def)

lemma nibble_char_inject: "a < 16 \<Longrightarrow> b < 16 \<Longrightarrow> nibble_char a = nibble_char b \<longleftrightarrow> a = b"
proof
  assume ab: "a < 16" "b < 16" and "nibble_char a = nibble_char b"
  then have "(of_char (nibble_char a) :: nat) = of_char (nibble_char b)" by simp
  with ab show "a = b" by (auto simp: of_char_nibble_char split: if_splits)
qed simp

lemma hex_of_byte_inject [simp]: "hex_of_byte a = hex_of_byte b \<longleftrightarrow> a = b"
proof
  assume "hex_of_byte a = hex_of_byte b"
  moreover have "unat a div 16 < 16" "unat b div 16 < 16"
    using unat_u8_lt [of a] unat_u8_lt [of b] by auto
  ultimately have "unat a div 16 = unat b div 16" "unat a mod 16 = unat b mod 16"
    by (auto simp: hex_of_byte_def nibble_char_inject)
  then show "a = b" by (metis div_mult_mod_eq unsigned_word_eqI)
qed simp

lemma length_hex_encode [simp]: "length (hex_encode bs) = 2 * length bs"
  by (induction bs) (auto simp: hex_encode_def hex_of_byte_def)

lemma hex_encode_inject [simp]: "hex_encode as = hex_encode bs \<longleftrightarrow> as = bs"
proof (induction as arbitrary: bs)
  case Nil
  then show ?case by (cases bs) (auto simp: hex_encode_def hex_of_byte_def)
next
  case (Cons a as)
  show ?case
  proof (cases bs)
    case Nil
    then show ?thesis by (simp add: hex_encode_def hex_of_byte_def)
  next
    case (Cons b bs')
    have l: "length (hex_of_byte a) = length (hex_of_byte b)" by (simp add: hex_of_byte_def)
    have "hex_encode (a # as) = hex_encode bs \<longleftrightarrow>
        hex_of_byte a = hex_of_byte b \<and> hex_encode as = hex_encode bs'"
      using l by (simp add: Cons hex_encode_def)
    with Cons Cons.IH show ?thesis by simp
  qed
qed

subsection \<open>Lists\<close>

lemma append_eq_same_length:
  "length a = length b \<Longrightarrow> a @ c = b @ d \<longleftrightarrow> a = b \<and> c = d"
  by simp

lemma find_Some_iff_first:
  "find P xs = Some x \<Longrightarrow> x \<in> set xs \<and> P x"
  by (auto simp: find_Some_iff)

lemma append_sep_inject:
  assumes "c \<notin> set a" "c \<notin> set b"
  shows "a @ c # x = b @ c # y \<longleftrightarrow> a = b \<and> x = y"
  using assms
proof (induction a arbitrary: b)
  case Nil
  then show ?case by (cases b) auto
next
  case (Cons u a)
  then show ?case by (cases b) auto
qed

subsection \<open>Trimming white space\<close>

text \<open>\<open>str::trim\<close> on UTF-8 bytes: the encodings of the code points with the Unicode property
  White\_Space, stripped from both ends.\<close>

definition white_space :: "string list" where
  "white_space =
    [[CHR 0x09], [CHR 0x0A], [CHR 0x0B], [CHR 0x0C], [CHR 0x0D], [CHR 0x20], [CHR 0xC2, CHR 0x85],
     [CHR 0xC2, CHR 0xA0], [CHR 0xE1, CHR 0x9A, CHR 0x80], [CHR 0xE2, CHR 0x80, CHR 0x80],
     [CHR 0xE2, CHR 0x80, CHR 0x81], [CHR 0xE2, CHR 0x80, CHR 0x82],
     [CHR 0xE2, CHR 0x80, CHR 0x83], [CHR 0xE2, CHR 0x80, CHR 0x84],
     [CHR 0xE2, CHR 0x80, CHR 0x85], [CHR 0xE2, CHR 0x80, CHR 0x86],
     [CHR 0xE2, CHR 0x80, CHR 0x87], [CHR 0xE2, CHR 0x80, CHR 0x88],
     [CHR 0xE2, CHR 0x80, CHR 0x89], [CHR 0xE2, CHR 0x80, CHR 0x8A],
     [CHR 0xE2, CHR 0x80, CHR 0xA8], [CHR 0xE2, CHR 0x80, CHR 0xA9],
     [CHR 0xE2, CHR 0x80, CHR 0xAF], [CHR 0xE2, CHR 0x81, CHR 0x9F], [CHR 0xE3, CHR 0x80, CHR 0x80]]"

definition strip_any :: "string list \<Rightarrow> string \<Rightarrow> string option" where
  "strip_any ws s =
     map_option (\<lambda>w. drop (length w) s) (find (\<lambda>w. w \<noteq> [] \<and> take (length w) s = w) ws)"

function strip_all :: "string list \<Rightarrow> string \<Rightarrow> string" where
  "strip_all ws s = (case strip_any ws s of None \<Rightarrow> s | Some t \<Rightarrow> strip_all ws t)"
  by pat_completeness auto

termination strip_all
proof (relation "measure (length \<circ> snd)")
  fix ws s t
  assume "strip_any ws s = Some t"
  then obtain w where "w \<noteq> []" "take (length w) s = w" "t = drop (length w) s"
    by (auto simp: strip_any_def find_Some_iff)
  moreover from this have "s \<noteq> []" by auto
  ultimately show "((ws, t), (ws, s)) \<in> measure (length \<circ> snd)" by simp
qed simp

declare strip_all.simps [simp del]

definition trim :: "string \<Rightarrow> string" where
  "trim s = rev (strip_all (map rev white_space) (rev (strip_all white_space s)))"

lemma strip_all_id:
  assumes "\<forall>w \<in> set ws. w \<noteq> [] \<and> hd w \<noteq> hd s" "s \<noteq> []"
  shows "strip_all ws s = s"
proof -
  have "\<not> (w \<noteq> [] \<and> take (length w) s = w)" if "w \<in> set ws" for w
    using assms that by (cases w; cases s) auto
  then have "strip_any ws s = None" unfolding strip_any_def by (simp add: find_None_iff)
  then show ?thesis by (simp add: strip_all.simps)
qed

definition is_graphic :: "char \<Rightarrow> bool" where
  "is_graphic c \<longleftrightarrow> 33 \<le> (of_char c :: nat) \<and> of_char c \<le> (126 :: nat)"

lemma white_space_ends:
  "list_all (\<lambda>w. w \<noteq> [] \<and> \<not> is_graphic (hd w) \<and> \<not> is_graphic (last w)) white_space"
  by (simp add: white_space_def is_graphic_def)

lemma trim_graphic:
  assumes "s \<noteq> []" "is_graphic (hd s)" "is_graphic (last s)"
  shows "trim s = s"
proof -
  have "strip_all white_space s = s"
    using white_space_ends assms by (intro strip_all_id) (auto simp: list_all_iff)
  moreover have "strip_all (map rev white_space) (rev s) = rev s"
    using white_space_ends assms by (intro strip_all_id) (auto simp: list_all_iff hd_rev)
  ultimately show ?thesis by (simp add: trim_def)
qed

end
