(* ===== verification/Wallet_Types.thy ===== *)
theory Wallet_Types
  imports Prelude
begin

text \<open>
  The crate \<open>qfc-wallet-types\<close>: signing schemes and hash algorithms (\<open>scheme.rs\<close>), the
  identifier newtypes (\<open>ids.rs\<close>), secret buffers (\<open>secret.rs\<close>) and hierarchical
  derivation paths with their text form (\<open>hd_path.rs\<close>).

  The text form of a ULID belongs to the \<open>ulid\<close> crate: functions that print an
  identifier take it as an argument \<open>ulid_str\<close>.
\<close>

subsection \<open>Schemes and hash algorithms (scheme.rs)\<close>

datatype signing_scheme =
    Ed25519 | Secp256k1 | Secp256k1Recoverable | MlDsa44 | MlDsa65 | MlDsa87

definition is_hd_capable :: "signing_scheme \<Rightarrow> bool" where
  "is_hd_capable s = (case s of
     Ed25519 \<Rightarrow> True | Secp256k1 \<Rightarrow> True | Secp256k1Recoverable \<Rightarrow> True | _ \<Rightarrow> False)"

definition is_classical :: "signing_scheme \<Rightarrow> bool" where
  "is_classical s = (case s of
     Ed25519 \<Rightarrow> True | Secp256k1 \<Rightarrow> True | Secp256k1Recoverable \<Rightarrow> True | _ \<Rightarrow> False)"

definition is_post_quantum :: "signing_scheme \<Rightarrow> bool" where
  "is_post_quantum s = (\<not> is_classical s)"

datatype hash_alg = HashNone | Sha256 | Keccak256 | Blake3

subsection \<open>Identifiers (ids.rs)\<close>

datatype wallet_id = WalletId (wallet_ulid: ulid)
datatype request_id = RequestId (request_ulid: ulid)
datatype decision_id = DecisionId (decision_ulid: ulid)
datatype approval_id = ApprovalId (approval_ulid: ulid)
datatype event_id = EventId (event_ulid: ulid)
datatype policy_id = PolicyId (policy_ulid: ulid)
datatype approver_set_id = ApproverSetId (approver_set_ulid: ulid)
datatype approver_id = ApproverId (approver_ulid: ulid)
datatype owner_id = OwnerId (owner_str: string)

record share_id =
  sid_wallet_id :: wallet_id
  sid_index :: u8

text \<open>What the code relies on of the \<open>ulid\<close> crate's text form: 26 characters, one form per
  identifier, and no separator character in it.\<close>

definition ulid_text :: "(ulid \<Rightarrow> string) \<Rightarrow> bool" where
  "ulid_text f \<longleftrightarrow> inj f \<and> (\<forall>u. length (f u) = 26) \<and> (\<forall>u. CHR ''|'' \<notin> set (f u))"

definition share_id_to_string :: "(ulid \<Rightarrow> string) \<Rightarrow> share_id \<Rightarrow> string" where
  "share_id_to_string ulid_str s =
     ulid_str (wallet_ulid (sid_wallet_id s)) @ ''#'' @ show_nat (unat (sid_index s))"

lemma ulid_text_length: "ulid_text f \<Longrightarrow> length (f u) = 26"
  by (simp add: ulid_text_def)

lemma ulid_text_inject: "ulid_text f \<Longrightarrow> f u = f v \<longleftrightarrow> u = v"
  by (auto simp: ulid_text_def inj_eq)

text \<open>A concrete text form of the documented shape: 26 base-32 digits.\<close>

definition base32_char :: "nat \<Rightarrow> char" where
  "base32_char d = ''0123456789ABCDEFGHJKMNPQRSTVWXYZ'' ! d"

primrec base32 :: "nat \<Rightarrow> nat \<Rightarrow> string" where
  "base32 0 x = []"
| "base32 (Suc n) x = base32 n (x div 32) @ [base32_char (x mod 32)]"

definition crockford :: "ulid \<Rightarrow> string" where
  "crockford u = base32 26 (unat u)"

subsection \<open>Secret buffers (secret.rs)\<close>

datatype secret_bytes = SecretBytes (expose: bytes)

definition secret_len :: "secret_bytes \<Rightarrow> nat" where
  "secret_len s = length (expose s)"

definition secret_debug :: "secret_bytes \<Rightarrow> string" where
  "secret_debug s = ''SecretBytes(<'' @ show_nat (secret_len s) @ '' bytes redacted>)''"

definition secret_display :: "secret_bytes \<Rightarrow> string" where
  "secret_display s = ''<'' @ show_nat (secret_len s) @ '' bytes redacted>''"

subsection \<open>Derivation paths (hd\_path.rs)\<close>

datatype hd_path_segment = Normal u32 | Hardened u32

type_synonym hd_path = "hd_path_segment list"

text \<open>The payload of \<open>ParseError::InvalidHdPath\<close>: which message, and its argument.\<close>

datatype hd_path_error =
    EmptyString | PathMustStartWithM string | EmptySegment
  | NonNumericSegment string | SegmentExceeds nat

primrec child_index :: "hd_path_segment \<Rightarrow> u32" where
  "child_index (Normal i) = i"
| "child_index (Hardened i) = or i 0x80000000"

primrec is_hardened :: "hd_path_segment \<Rightarrow> bool" where
  "is_hardened (Normal i) = False"
| "is_hardened (Hardened i) = True"

primrec segment_to_string :: "hd_path_segment \<Rightarrow> string" where
  "segment_to_string (Normal i) = show_nat (unat i)"
| "segment_to_string (Hardened i) = show_nat (unat i) @ [CHR 0x27]"

definition hd_path_to_string :: "hd_path \<Rightarrow> string" where
  "hd_path_to_string p = ''m'' @ concat (map (\<lambda>seg. CHR ''/'' # segment_to_string seg) p)"

definition strip_suffix :: "char \<Rightarrow> string \<Rightarrow> string option" where
  "strip_suffix c s = (if s \<noteq> [] \<and> last s = c then Some (butlast s) else None)"

definition split_hardened :: "string \<Rightarrow> string \<times> bool" where
  "split_hardened raw =
     (case strip_suffix (CHR 0x27) raw of
        Some rest \<Rightarrow> (rest, True)
      | None \<Rightarrow> (case strip_suffix (CHR ''h'') raw of
          Some rest \<Rightarrow> (rest, True)
        | None \<Rightarrow> (case strip_suffix (CHR ''H'') raw of
            Some rest \<Rightarrow> (rest, True)
          | None \<Rightarrow> (raw, False))))"

definition parse_segment :: "string \<Rightarrow> (hd_path_error, hd_path_segment) outcome" where
  "parse_segment raw =
     (if raw = [] then Err EmptySegment
      else case split_hardened raw of (digits, hardened) \<Rightarrow>
        obind (ok_or (parse_uint 32 digits) (NonNumericSegment raw)) (\<lambda>value.
        if value \<ge> 0x80000000 then Err (SegmentExceeds value)
        else Ok (if hardened then Hardened (word_of_nat value) else Normal (word_of_nat value))))"

definition hd_path_from_str :: "string \<Rightarrow> (hd_path_error, hd_path) outcome" where
  "hd_path_from_str s =
     (if s = [] then Err EmptyString
      else case split_on (CHR ''/'') s of
        [] \<Rightarrow> Panic ''split always yields >=1 part''
      | head # parts \<Rightarrow>
          if head \<noteq> ''m'' \<and> head \<noteq> ''M'' then Err (PathMustStartWithM head)
          else omap parse_segment parts)"

text \<open>Segments as the type documents them: the stored index is below \<open>2^31\<close>.\<close>

primrec segment_ok :: "hd_path_segment \<Rightarrow> bool" where
  "segment_ok (Normal i) = (unat i < 2 ^ 31)"
| "segment_ok (Hardened i) = (unat i < 2 ^ 31)"

subsection \<open>Lemmas on schemes and identifiers\<close>

lemma hd_capable_eq_classical: "is_hd_capable s = is_classical s"
  by (simp add: is_hd_capable_def is_classical_def)

lemma length_base32 [simp]: "length (base32 n x) = n"
  by (induction n arbitrary: x) auto

lemma base32_chars: "set (base32 n x) \<subseteq> set ''0123456789ABCDEFGHJKMNPQRSTVWXYZ''"
proof (induction n arbitrary: x)
  case 0
  then show ?case by simp
next
  case (Suc n)
  have "base32_char (x mod 32) \<in> set ''0123456789ABCDEFGHJKMNPQRSTVWXYZ''"
    unfolding base32_char_def by (rule nth_mem) simp
  with Suc [of "x div 32"] show ?case unfolding base32.simps set_append by (simp only: list.set Un_subset_iff) simp
qed

lemma base32_char_inject: "a < 32 \<Longrightarrow> b < 32 \<Longrightarrow> base32_char a = base32_char b \<longleftrightarrow> a = b"
  unfolding base32_char_def by (rule nth_eq_iff_index_eq) simp_all

lemma base32_inject: "x < 32 ^ n \<Longrightarrow> y < 32 ^ n \<Longrightarrow> base32 n x = base32 n y \<Longrightarrow> x = y"
proof (induction n arbitrary: x y)
  case 0
  then show ?case by simp
next
  case (Suc n)
  from Suc.prems have "x div 32 < 32 ^ n" "y div 32 < 32 ^ n"
    by (simp_all add: less_mult_imp_div_less mult.commute)
  moreover from Suc.prems(3) have "base32 n (x div 32) = base32 n (y div 32)"
    and m: "x mod 32 = y mod 32"
    by (simp_all add: base32_char_inject)
  ultimately have "x div 32 = y div 32" using Suc.IH by blast
  with m show ?case by (metis div_mult_mod_eq)
qed

lemma ulid_text_crockford: "ulid_text crockford"
proof -
  have "inj crockford"
  proof (rule injI)
    fix u v :: ulid
    assume "crockford u = crockford v"
    moreover have "unat w < 32 ^ 26" for w :: ulid
      using unat_lt [of w] by simp
    ultimately have "unat u = unat v" unfolding crockford_def using base32_inject by blast
    then show "u = v" by (simp add: unsigned_word_eqI_iff)
  qed
  moreover have "CHR ''|'' \<notin> set (crockford u)" for u
    using base32_chars [of 26 "unat u"] unfolding crockford_def by auto
  ultimately show ?thesis by (simp add: ulid_text_def crockford_def)
qed

subsection \<open>Lemmas on derivation paths\<close>

lemma last_show_nat_digit: "is_digit (last (show_nat n))"
  using show_nat_digits [of n] by simp

lemma not_digit_seps: "\<not> is_digit (CHR 0x27)" "\<not> is_digit (CHR ''h'')" "\<not> is_digit (CHR ''H'')"
  "\<not> is_digit (CHR ''/'')"
  by (simp_all add: is_digit_def)

lemma strip_suffix_show_nat:
  "\<not> is_digit c \<Longrightarrow> strip_suffix c (show_nat n) = None"
  using last_show_nat_digit [of n] by (auto simp: strip_suffix_def)

lemma strip_suffix_snoc [simp]: "strip_suffix c (s @ [c]) = Some s"
  by (simp add: strip_suffix_def)

lemma parse_segment_to_string: "segment_ok seg \<Longrightarrow> parse_segment (segment_to_string seg) = Ok seg"
proof (cases seg)
  case (Normal i)
  assume ok: "segment_ok seg"
  with Normal have "unat i < 2 ^ 32" by simp
  with Normal ok show ?thesis
    by (simp add: parse_segment_def split_hardened_def strip_suffix_show_nat not_digit_seps)
next
  case (Hardened i)
  assume ok: "segment_ok seg"
  with Hardened have "unat i < 2 ^ 32" by simp
  with Hardened ok show ?thesis
    by (simp add: parse_segment_def split_hardened_def)
qed

lemma parse_segment_ok: "parse_segment raw = Ok seg \<Longrightarrow> segment_ok seg"
proof -
  assume "parse_segment raw = Ok seg"
  then obtain v where "v < 0x80000000"
    and "seg = Hardened (word_of_nat v) \<or> seg = Normal (word_of_nat v)"
    by (auto simp: parse_segment_def outcome_simps not_le split: if_splits prod.splits)
  then show ?thesis by (auto simp: unat_of_nat)
qed

lemma no_slash_segment: "CHR ''/'' \<notin> set (segment_to_string seg)"
  using show_nat_digits not_digit_seps(4) by (cases seg) auto

lemma split_hd_path_tail:
  "c \<notin> set s \<Longrightarrow> \<forall>seg \<in> set p. c \<notin> set (f seg) \<Longrightarrow>
   split_on c (s @ concat (map (\<lambda>seg. c # f seg) p)) = s # map f p"
proof (induction p arbitrary: s)
  case Nil
  then show ?case by simp
next
  case (Cons seg p)
  then show ?case by simp
qed

lemma hd_path_round_trip:
  assumes "\<forall>seg \<in> set p. segment_ok seg"
  shows "hd_path_from_str (hd_path_to_string p) = Ok p"
proof -
  have "split_on (CHR ''/'') (hd_path_to_string p) = ''m'' # map segment_to_string p"
    unfolding hd_path_to_string_def by (rule split_hd_path_tail) (auto simp: no_slash_segment)
  moreover have "omap parse_segment (map segment_to_string p) = Ok p"
    using assms by (induction p) (auto simp: parse_segment_to_string)
  moreover have "hd_path_to_string p \<noteq> []"
    by (simp add: hd_path_to_string_def)
  ultimately show ?thesis by (simp add: hd_path_from_str_def)
qed

lemma hd_path_from_str_ok:
  assumes "hd_path_from_str s = Ok p"
  shows "\<forall>seg \<in> set p. segment_ok seg"
proof -
  from assms obtain parts where "omap parse_segment parts = Ok p"
    by (auto simp: hd_path_from_str_def split: if_splits list.splits)
  then show ?thesis by (auto dest: omap_Ok_set parse_segment_ok)
qed

text \<open>Printing and parsing derivation paths agree: every path that parses from some text, in any of
  its spellings of a hardened segment, is what its own printed form parses to, and these are exactly
  the paths whose segments are below \<open>2^31\<close>.\<close>

theorem hd_path_print_parse:
  "((\<exists>s. hd_path_from_str s = Ok p) \<longleftrightarrow> list_all segment_ok p) \<and>
   (hd_path_from_str (hd_path_to_string p) = Ok p \<longleftrightarrow> list_all segment_ok p)"
proof -
  have "list_all segment_ok p" if "hd_path_from_str s = Ok p" for s
    using hd_path_from_str_ok [OF that] by (simp add: list_all_iff)
  moreover have "hd_path_from_str (hd_path_to_string p) = Ok p" if "list_all segment_ok p"
    using that by (intro hd_path_round_trip) (simp add: list_all_iff)
  ultimately show ?thesis by blast
qed

end
