(* ===== verification/Policy_Types.thy ===== *)
theory Policy_Types
  imports Wallet_Types
begin

text \<open>
  The data of the crate \<open>qfc-policy\<close>: signing requests (\<open>request.rs\<close>), the decoded
  transaction shape (\<open>vm.rs\<close>), decisions with their rule trace (\<open>decision.rs\<close>), the rule
  schema with its hexadecimal helpers (\<open>rules.rs\<close>), and the signed decision with its
  canonical preimage (\<open>signed_decision.rs\<close>, \<open>policy_service_signer.rs\<close>).

  Other crates are arguments: \<open>hex::decode\<close>, \<open>serde_json::to_vec\<close>, the \<open>ed25519\<close>
  signing function and the text form of a ULID.
\<close>

subsection \<open>Requests (request.rs)\<close>

text \<open>The values of \<open>serde_json::Value\<close> the sources build.\<close>

datatype json =
    JNull | JBool bool | JNum int | JStr string | JArr "json list" | JObj "(string \<times> json) list"

datatype requester =
    ApiKey string
  | OAuthSubject string
  | NestedWalletRequester wallet_id
  | OnChainContract u64 bytes

datatype vm_type = Evm | Qvm | Wasm

datatype signing_payload =
    Raw bytes
  | PersonalSign bytes
  | TypedData json
  | VmTransaction (payload_vm: vm_type) (payload_chain_id: u64) (payload_to: "bytes option") (payload_raw: bytes)

primrec vm_of :: "signing_payload \<Rightarrow> vm_type option" where
  "vm_of (VmTransaction vm c t r) = Some vm"
| "vm_of (Raw b) = None"
| "vm_of (PersonalSign b) = None"
| "vm_of (TypedData j) = None"

primrec chain_id_of :: "signing_payload \<Rightarrow> u64 option" where
  "chain_id_of (VmTransaction vm c t r) = Some c"
| "chain_id_of (Raw b) = None"
| "chain_id_of (PersonalSign b) = None"
| "chain_id_of (TypedData j) = None"

record signing_request =
  sr_request_id :: request_id
  sr_wallet_id :: wallet_id
  sr_requester :: requester
  sr_payload :: signing_payload
  sr_hd_path :: "hd_path option"
  sr_received_at_unix_ms :: i64

subsection \<open>Decoded transactions (vm.rs)\<close>

record decoded_tx =
  dtx_chain_id :: u64
  dtx_to :: "bytes option"
  dtx_value :: "u256 option"
  dtx_gas_limit :: "u64 option"
  dtx_method_selector :: "bytes option"
  dtx_raw_args :: "bytes option"

definition decoded_tx_minimal :: "u64 \<Rightarrow> decoded_tx" where
  "decoded_tx_minimal c = \<lparr>dtx_chain_id = c, dtx_to = None, dtx_value = None,
     dtx_gas_limit = None, dtx_method_selector = None, dtx_raw_args = None\<rparr>"

text \<open>\<open>VmDecoder::decode\<close>: \<open>None\<close> on malformed input.\<close>

type_synonym vm_decoder = "vm_type \<Rightarrow> bytes \<Rightarrow> decoded_tx option"

subsection \<open>Decisions (decision.rs)\<close>

datatype rule_effect = EffectAllow | EffectDeny | EffectRequireQuorum

record rule_hit =
  hit_rule_id :: string
  hit_effect :: rule_effect
  hit_reason :: "string option"

datatype deny_reason =
    ChainNotAllowed | ChainDenied | RequesterNotAllowed | WalletInactive | OtherReason string

datatype policy_decision =
    Allow decision_id policy_id "rule_hit list"
  | Deny decision_id policy_id deny_reason "rule_hit list"
  | RequireQuorum decision_id policy_id u8 u8 approver_set_id "rule_hit list"

datatype policy_error = Misconfiguration string | InternalError string

primrec is_immediate_allow :: "policy_decision \<Rightarrow> bool" where
  "is_immediate_allow (Allow d p r) = True"
| "is_immediate_allow (Deny d p e r) = False"
| "is_immediate_allow (RequireQuorum d p t n s r) = False"

primrec is_deny :: "policy_decision \<Rightarrow> bool" where
  "is_deny (Allow d p r) = False"
| "is_deny (Deny d p e r) = True"
| "is_deny (RequireQuorum d p t n s r) = False"

primrec requires_quorum :: "policy_decision \<Rightarrow> bool" where
  "requires_quorum (Allow d p r) = False"
| "requires_quorum (Deny d p e r) = False"
| "requires_quorum (RequireQuorum d p t n s r) = True"

primrec decision_id_of :: "policy_decision \<Rightarrow> decision_id" where
  "decision_id_of (Allow d p r) = d"
| "decision_id_of (Deny d p e r) = d"
| "decision_id_of (RequireQuorum d p t n s r) = d"

primrec rationale_of :: "policy_decision \<Rightarrow> rule_hit list" where
  "rationale_of (Allow d p r) = r"
| "rationale_of (Deny d p e r) = r"
| "rationale_of (RequireQuorum d p t n s r) = r"

primrec policy_id_of :: "policy_decision \<Rightarrow> policy_id" where
  "policy_id_of (Allow d p r) = p"
| "policy_id_of (Deny d p e r) = p"
| "policy_id_of (RequireQuorum d p t n s r) = p"

text \<open>The effect a decision has, and when its rule trace explains it: the last hit has that
  effect and every earlier hit let the request through.\<close>

primrec effect_of :: "policy_decision \<Rightarrow> rule_effect" where
  "effect_of (Allow d p r) = EffectAllow"
| "effect_of (Deny d p e r) = EffectDeny"
| "effect_of (RequireQuorum d p t n s r) = EffectRequireQuorum"

definition passed_only :: "rule_hit list \<Rightarrow> bool" where
  "passed_only hits \<longleftrightarrow> list_all (\<lambda>h. hit_effect h = EffectAllow) hits"

definition explained :: "policy_decision \<Rightarrow> bool" where
  "explained dec \<longleftrightarrow> rationale_of dec \<noteq> [] \<and>
     hit_effect (last (rationale_of dec)) = effect_of dec \<and> passed_only (butlast (rationale_of dec))"

subsection \<open>The rule schema (rules.rs, static\_policy.rs)\<close>

datatype allow_default = DefaultAllow | DefaultDeny

datatype rate_limit_scope = PerWallet | PerRequester | PerWalletRequester

datatype quorum_trigger =
    Always
  | ValueGte u64 string
  | OutsideTimeWindow u8 u8 u8

record vm_shape_constraints =
  max_gas :: "u64 option"
  allowed_method_selectors :: "string list option"
  max_value :: "string option"

datatype rule =
    AllowChain "u64 list"
  | DenyChain "u64 list"
  | AllowContract u64 "string list"
  | DenyContract u64 "string list"
  | AllowMethod u64 "string option" "string list"
  | ValueCap u64 string
  | TimeWindow u8 u8 u8
  | RateLimit u32 u32 rate_limit_scope
  | QuorumRule u8 u8 approver_set_id quorum_trigger
  | VmShape vm_type vm_shape_constraints

record rule_set =
  rs_version :: u32
  rs_policy_id :: policy_id
  rs_rules :: "rule list"
  rs_default :: allow_default

definition strip_prefix :: "string \<Rightarrow> string \<Rightarrow> string option" where
  "strip_prefix p s = (if take (length p) s = p then Some (drop (length p) s) else None)"

definition normalize_hex :: "string \<Rightarrow> string option" where
  "normalize_hex s =
     (let stripped = (case strip_prefix ''0x'' s of Some t \<Rightarrow> t
        | None \<Rightarrow> (case strip_prefix ''0X'' s of Some t \<Rightarrow> t | None \<Rightarrow> s))
      in if stripped = [] \<or> \<not> list_all is_ascii_hexdigit stripped then None
         else if length stripped mod 2 \<noteq> 0 then None
         else Some (to_ascii_lowercase stripped))"

definition hex_to_bytes :: "(string \<Rightarrow> bytes option) \<Rightarrow> string \<Rightarrow> bytes option" where
  "hex_to_bytes hex_decode s = Option.bind (normalize_hex s) hex_decode"

text \<open>\<open>hex::decode\<close> inverts lower-case hexadecimal text.\<close>

definition hex_decode_spec :: "(string \<Rightarrow> bytes option) \<Rightarrow> bool" where
  "hex_decode_spec hex_decode \<longleftrightarrow> (\<forall>bs. hex_decode (hex_encode bs) = Some bs)"

text \<open>An executable decoder of the documented behaviour, for concrete evaluations.\<close>

definition nibble_val :: "char \<Rightarrow> nat" where
  "nibble_val c = (let n = of_char c in
     if n \<le> 57 then n - 48 else if n \<le> 70 then n - 55 else n - 87)"

fun hex_decode_ref :: "string \<Rightarrow> bytes option" where
  "hex_decode_ref [] = Some []"
| "hex_decode_ref [c] = None"
| "hex_decode_ref (c # d # s) =
     (if is_ascii_hexdigit c \<and> is_ascii_hexdigit d
      then map_option ((#) (word_of_nat (16 * nibble_val c + nibble_val d))) (hex_decode_ref s)
      else None)"

subsection \<open>Signed decisions (signed\_decision.rs, policy\_service\_signer.rs)\<close>

record signed_policy_decision =
  spd_decision :: policy_decision
  spd_request_id :: request_id
  spd_wallet_id :: wallet_id
  spd_raw_payload :: bytes
  spd_signature :: bytes
  spd_signed_at_unix_ms :: i64
  spd_max_age_secs :: u32

definition POLICY_DECISION_DOMAIN :: string where
  "POLICY_DECISION_DOMAIN = ''qfc-policy-decision-v1''"

definition build_preimage ::
  "(policy_decision \<Rightarrow> bytes) \<Rightarrow> (ulid \<Rightarrow> string) \<Rightarrow>
   policy_decision \<Rightarrow> request_id \<Rightarrow> wallet_id \<Rightarrow> i64 \<Rightarrow> u32 \<Rightarrow> bytes" where
  "build_preimage decision_json ulid_str d r w signed_at max_age =
     as_bytes POLICY_DECISION_DOMAIN @ [0] @
     decision_json d @ [0] @
     as_bytes (ulid_str (request_ulid r)) @ [0] @
     as_bytes (ulid_str (wallet_ulid w)) @ [0] @
     i64_be signed_at @ [0] @
     u32_be max_age"

datatype policy_signer_error = ClockError | BackendError string

text \<open>\<open>nanos\<close> is the clock reading, an \<open>i128\<close> count of nanoseconds.\<close>

definition current_unix_ms :: "int \<Rightarrow> (policy_signer_error, i64) outcome" where
  "current_unix_ms nanos =
     (let ms = whole_units 1000000 nanos in if i64_ok ms then Ok ms else Err ClockError)"

text \<open>\<open>LocalPolicyServiceSigner\<close>; \<open>sign\<close> is the ed25519 key's signing function.\<close>

definition sign_decision ::
  "(policy_decision \<Rightarrow> bytes) \<Rightarrow> (ulid \<Rightarrow> string) \<Rightarrow> (bytes \<Rightarrow> bytes) \<Rightarrow> int \<Rightarrow>
   policy_decision \<Rightarrow> request_id \<Rightarrow> wallet_id \<Rightarrow> u32 \<Rightarrow>
   (policy_signer_error, signed_policy_decision) outcome" where
  "sign_decision decision_json ulid_str sign nanos d r w max_age =
     obind (current_unix_ms nanos) (\<lambda>now.
     let preimage = build_preimage decision_json ulid_str d r w now max_age in
     Ok \<lparr>spd_decision = d, spd_request_id = r, spd_wallet_id = w,
       spd_raw_payload = preimage, spd_signature = sign preimage,
       spd_signed_at_unix_ms = now, spd_max_age_secs = max_age\<rparr>)"

subsection \<open>Lemmas on hexadecimal text\<close>

lemma to_ascii_lower_hexdigit:
  "is_ascii_hexdigit c \<Longrightarrow> is_ascii_hexdigit (to_ascii_lower c)"
  by (auto simp: is_ascii_hexdigit_def to_ascii_lower_def Let_def)

lemma to_ascii_lower_idem [simp]: "to_ascii_lower (to_ascii_lower c) = to_ascii_lower c"
  by (auto simp: to_ascii_lower_def Let_def)

lemma to_ascii_lowercase_idem [simp]:
  "to_ascii_lowercase (to_ascii_lowercase s) = to_ascii_lowercase s"
  by (simp add: to_ascii_lowercase_def)

lemma length_to_ascii_lowercase [simp]: "length (to_ascii_lowercase s) = length s"
  by (simp add: to_ascii_lowercase_def)

lemma not_hexdigit_x: "\<not> is_ascii_hexdigit (CHR ''x'')" "\<not> is_ascii_hexdigit (CHR ''X'')"
  by (simp_all add: is_ascii_hexdigit_def)

lemma strip_prefix_0x_None:
  assumes "list_all is_ascii_hexdigit s" and "\<not> is_ascii_hexdigit c"
  shows "strip_prefix [CHR ''0'', c] s = None"
  using assms by (cases s; cases "tl s") (auto simp: strip_prefix_def)

lemma normalize_hex_Some:
  assumes "normalize_hex s = Some t"
  shows "t \<noteq> [] \<and> list_all is_ascii_hexdigit t \<and> even (length t) \<and> to_ascii_lowercase t = t"
  using assms
  by (auto simp: normalize_hex_def Let_def to_ascii_lowercase_def list_all_iff
      to_ascii_lower_hexdigit split: if_splits)

lemma normalize_hex_canonical:
  assumes "t \<noteq> []" "list_all is_ascii_hexdigit t" "even (length t)"
  shows "normalize_hex t = Some (to_ascii_lowercase t)"
  using assms strip_prefix_0x_None [OF assms(2) not_hexdigit_x(1)]
    strip_prefix_0x_None [OF assms(2) not_hexdigit_x(2)]
  by (simp add: normalize_hex_def)

lemma normalize_hex_prefix: "normalize_hex (''0x'' @ t) = normalize_hex (''0X'' @ t)"
  by (simp add: normalize_hex_def strip_prefix_def)

lemma nibble_char_hexdigit: "d < 16 \<Longrightarrow> is_ascii_hexdigit (nibble_char d)"
  by (auto simp: is_ascii_hexdigit_def of_char_nibble_char Let_def)

lemma nibble_val_char: "d < 16 \<Longrightarrow> nibble_val (nibble_char d) = d"
  by (auto simp: nibble_val_def of_char_nibble_char Let_def)

lemma nibble_char_lower: "d < 16 \<Longrightarrow> to_ascii_lower (nibble_char d) = nibble_char d"
  by (auto simp: to_ascii_lower_def of_char_nibble_char Let_def)

lemma byte_nibbles: "unat (b :: u8) div 16 < 16" "unat b mod 16 < 16"
  using unat_u8_lt [of b] by auto

lemma hex_decode_spec_ref: "hex_decode_spec hex_decode_ref"
  unfolding hex_decode_spec_def
proof
  fix bs show "hex_decode_ref (hex_encode bs) = Some bs"
  proof (induction bs)
    case Nil
    then show ?case by (simp add: hex_encode_def)
  next
    case (Cons b bs)
    then show ?case
      by (simp add: hex_encode_def hex_of_byte_def nibble_char_hexdigit nibble_val_char byte_nibbles)
  qed
qed

lemma hex_encode_canonical:
  "list_all is_ascii_hexdigit (hex_encode bs)" "to_ascii_lowercase (hex_encode bs) = hex_encode bs"
  by (induction bs) (auto simp: hex_encode_def hex_of_byte_def to_ascii_lowercase_def
      nibble_char_hexdigit nibble_char_lower byte_nibbles)

lemma hex_encode_eq_Nil [simp]: "hex_encode bs = [] \<longleftrightarrow> bs = []"
  by (cases bs) (simp_all add: hex_encode_def hex_of_byte_def)

lemma normalize_hex_encode: "bs \<noteq> [] \<Longrightarrow> normalize_hex (hex_encode bs) = Some (hex_encode bs)"
  using normalize_hex_canonical [of "hex_encode bs"] by (simp add: hex_encode_canonical)

text \<open>Lower-case hexadecimal text of even length is the encoding of some bytes.\<close>

lemma lower_hexdigit_nibble:
  assumes "is_ascii_hexdigit c" "to_ascii_lower c = c"
  shows "\<exists>d<16. c = nibble_char d"
proof -
  let ?n = "of_char c :: nat"
  have n: "48 \<le> ?n \<and> ?n \<le> 57 \<or> 97 \<le> ?n \<and> ?n \<le> 102"
  proof (rule ccontr)
    assume "\<not> ?thesis"
    with assms(1) have u: "65 \<le> ?n" "?n \<le> 70" by (auto simp: is_ascii_hexdigit_def Let_def)
    then have "(of_char (to_ascii_lower c) :: nat) = ?n + 32" by (simp add: to_ascii_lower_def)
    with assms(2) show False by simp
  qed
  define d where "d = (if ?n \<le> 57 then ?n - 48 else ?n - 87)"
  from n have "d < 16" and "?n = (if d < 10 then 48 + d else 87 + d)"
    by (auto simp: d_def)
  then have "?n = of_char (nibble_char d)" by (simp add: of_char_nibble_char)
  then have "c = nibble_char d" by simp
  with \<open>d < 16\<close> show ?thesis by blast
qed

lemma hex_text_is_encoding:
  "even (length t) \<Longrightarrow> list_all is_ascii_hexdigit t \<Longrightarrow> to_ascii_lowercase t = t \<Longrightarrow>
   \<exists>bs. t = hex_encode bs"
proof (induction t rule: hex_decode_ref.induct)
  case 1
  have "[] = hex_encode []" by (simp add: hex_encode_def)
  then show ?case by blast
next
  case (2 c)
  then show ?case by simp
next
  case (3 c d s)
  from 3 obtain bs where bs: "s = hex_encode bs" by (auto simp: to_ascii_lowercase_def)
  from "3.prems" obtain a b where ab: "a < 16" "b < 16" "c = nibble_char a" "d = nibble_char b"
    using lower_hexdigit_nibble by (auto simp: to_ascii_lowercase_def) metis
  have "unat (word_of_nat (16 * a + b) :: u8) = 16 * a + b"
    by (subst unat_of_nat) (use ab in simp)
  with ab have "hex_of_byte (word_of_nat (16 * a + b)) = [c, d]"
    by (simp add: hex_of_byte_def del: of_nat_add of_nat_mult)
  with bs have "c # d # s = hex_encode (word_of_nat (16 * a + b) # bs)"
    by (simp add: hex_encode_def)
  then show ?case by blast
qed

lemma hex_to_bytes_iff:
  assumes "hex_decode_spec hex_decode"
  shows "hex_to_bytes hex_decode s = Some bs \<longleftrightarrow> normalize_hex s = Some (hex_encode bs)"
proof
  assume "hex_to_bytes hex_decode s = Some bs"
  then obtain t where t: "normalize_hex s = Some t" "hex_decode t = Some bs"
    by (auto simp: hex_to_bytes_def bind_eq_Some_conv)
  from normalize_hex_Some [OF t(1)] obtain bs' where "t = hex_encode bs'"
    using hex_text_is_encoding by blast
  with assms t show "normalize_hex s = Some (hex_encode bs)" by (simp add: hex_decode_spec_def)
next
  assume "normalize_hex s = Some (hex_encode bs)"
  with assms show "hex_to_bytes hex_decode s = Some bs"
    by (simp add: hex_to_bytes_def hex_decode_spec_def)
qed

subsection \<open>The contract of the Policy trait (policy.rs)\<close>

text \<open>
  What the wallet service relies on: \<open>evaluate\<close> returns (it never panics), its decision
  carries the fresh decision id and the policy's own id, and the trace explains the verdict.
  The type \<open>'s\<close> is the policy's internal state (the rate limiter of a rule set).
\<close>

locale policy_engine =
  fixes evaluate :: "decision_id \<Rightarrow> 's \<Rightarrow> signing_request \<Rightarrow>
      (policy_error, policy_decision) outcome \<times> 's"
    and pid :: policy_id
  assumes returns: "fst (evaluate d s r) \<noteq> Panic m"
    and decides: "evaluate d s r = (Ok dec, s') \<Longrightarrow>
      decision_id_of dec = d \<and> policy_id_of dec = pid \<and> explained dec"
begin

lemma allow_has_no_deny_hit:
  assumes "evaluate d s r = (Ok (Allow d' p hits), s')"
  shows "d' = d \<and> p = pid \<and> passed_only hits"
proof -
  from decides [OF assms] have h: "d' = d" "p = pid" "hits \<noteq> []"
      "hit_effect (last hits) = EffectAllow" "passed_only (butlast hits)"
    by (simp_all add: explained_def)
  have "set hits = insert (last hits) (set (butlast hits))"
    using h(3) append_butlast_last_id [of hits] by (metis Un_insert_right list.set(1,2) set_append sup_bot_right)
  with h show ?thesis by (auto simp: passed_only_def list_all_iff)
qed

lemma verdict_is_explained:
  assumes "evaluate d s r = (Ok dec, s')"
  shows "\<exists>pre h. rationale_of dec = pre @ [h] \<and> passed_only pre \<and> hit_effect h = effect_of dec"
  using decides [OF assms] unfolding explained_def by (metis append_butlast_last_id)

end

subsection \<open>Lemmas on the decision preimage\<close>

lemma build_preimage_inject:
  assumes "ulid_text ulid_str" and "i64_ok t" "i64_ok t'"
    and eq: "build_preimage decision_json ulid_str d r w t a = build_preimage decision_json ulid_str d' r' w' t' a'"
  shows "decision_json d = decision_json d' \<and> r = r' \<and> w = w' \<and> t = t' \<and> a = a'"
proof -
  let ?tail = "\<lambda>r w t a. [0] @ as_bytes (ulid_str (request_ulid r)) @ [0] @
     as_bytes (ulid_str (wallet_ulid w)) @ [0] @ i64_be t @ [0] @ u32_be a"
  have len: "length (?tail r w t a) = length (?tail r' w' t' a')"
    using assms(1) by (simp add: ulid_text_length)
  from eq have "decision_json d @ ?tail r w t a = decision_json d' @ ?tail r' w' t' a'"
    by (simp add: build_preimage_def)
  with len have "decision_json d = decision_json d'" and "?tail r w t a = ?tail r' w' t' a'"
    using append_eq_append_conv by blast+
  then show ?thesis
    using assms(1-3)
    by (auto simp: ulid_text_length ulid_text_inject i64_be_inject
        request_id.expand wallet_id.expand)
qed

lemma preimage_has_domain:
  "take 22 (build_preimage decision_json ulid_str d r w t a) = as_bytes POLICY_DECISION_DOMAIN"
  by (simp add: build_preimage_def POLICY_DECISION_DOMAIN_def)

text \<open>The preimage of a signed decision binds everything it is signed for: two preimages are equal
  only if the decisions serialize alike and the request, the wallet, the issuance time and the
  maximum age are the same.\<close>

theorem preimage_binds_decision:
  assumes "ulid_text ulid_str" "i64_ok t" "i64_ok t'"
    and "build_preimage decision_json ulid_str d r w t a = build_preimage decision_json ulid_str d' r' w' t' a'"
  shows "decision_json d = decision_json d' \<and> r = r' \<and> w = w' \<and> t = t' \<and> a = a'"
  using assms by (rule build_preimage_inject)

theorem preimage_binds_decision_witness:
  "(\<lambda>d. [0]) (Allow (DecisionId 1) (PolicyId 2) []) = ([0] :: bytes) \<and> RequestId 3 = RequestId 3 \<and>
    WalletId 4 = WalletId 4 \<and> (5 :: i64) = 5 \<and> (60 :: u32) = 60"
  by (rule preimage_binds_decision [OF ulid_text_crockford, where decision_json = "\<lambda>d. [0]"
        and d = "Allow (DecisionId 1) (PolicyId 2) []" and d' = "Allow (DecisionId 1) (PolicyId 2) []"])
    (simp_all add: i64_ok_def)

end
