(* ===== verification/Static_Policy.thy ===== *)
theory Static_Policy
  imports Policy_Types
begin

text \<open>
  The static allow/deny backend of \<open>qfc-policy/src/static_policy.rs\<close>: its configuration
  as a record, the canonical requester key and \<open>evaluate\<close> with its fixed precedence. The
  fresh decision id is an argument.
\<close>

subsection \<open>The policy\<close>

record static_policy =
  sp_policy_id :: policy_id
  sp_allowed_chains :: "u64 set option"
  sp_denied_chains :: "u64 set"
  sp_allowed_requesters :: "string set option"
  sp_denied_requesters :: "string set"
  sp_wallet_inactive :: bool
  sp_default :: allow_default

definition static_default :: "policy_id \<Rightarrow> static_policy" where
  "static_default pid = \<lparr>sp_policy_id = pid, sp_allowed_chains = None, sp_denied_chains = {},
     sp_allowed_requesters = None, sp_denied_requesters = {}, sp_wallet_inactive = False,
     sp_default = DefaultDeny\<rparr>"

definition allow_all :: "policy_id \<Rightarrow> static_policy" where
  "allow_all pid = (static_default pid)\<lparr>sp_default := DefaultAllow\<rparr>"

definition deny_all :: "policy_id \<Rightarrow> static_policy" where
  "deny_all pid = (static_default pid)\<lparr>sp_default := DefaultDeny\<rparr>"

fun requester_key :: "(ulid \<Rightarrow> string) \<Rightarrow> requester \<Rightarrow> string" where
  "requester_key ulid_str (ApiKey key_id) = ''api:'' @ key_id"
| "requester_key ulid_str (OAuthSubject sub) = ''oauth:'' @ sub"
| "requester_key ulid_str (NestedWalletRequester w) = ''wallet:'' @ ulid_str (wallet_ulid w)"
| "requester_key ulid_str (OnChainContract chain_id address) =
     ''contract:'' @ show_nat (unat chain_id) @ '':'' @ hex_encode address"

text \<open>\<open>rationale.push(RuleHit {..})\<close> with a reason.\<close>

definition push_hit :: "rule_hit list \<Rightarrow> string \<Rightarrow> rule_effect \<Rightarrow> string \<Rightarrow> rule_hit list" where
  "push_hit rationale rule_id effect reason =
     rationale @ [\<lparr>hit_rule_id = rule_id, hit_effect = effect, hit_reason = Some reason\<rparr>]"

definition static_evaluate ::
  "(ulid \<Rightarrow> string) \<Rightarrow> static_policy \<Rightarrow> decision_id \<Rightarrow> signing_request \<Rightarrow>
   (policy_error, policy_decision) outcome" where
  "static_evaluate ulid_str self decision_id request =
     (let rationale = [];
          deny = (\<lambda>rule_id message reason. Ok (Deny decision_id (sp_policy_id self) reason
                   (push_hit rationale rule_id EffectDeny message)));
          after_chain =
            (let req_key = requester_key ulid_str (sr_requester request) in
             if req_key \<in> sp_denied_requesters self
             then deny ''denied-requester'' (''requester '' @ req_key @ '' is denied'') RequesterNotAllowed
             else if (case sp_allowed_requesters self of Some allow \<Rightarrow> req_key \<notin> allow | None \<Rightarrow> False)
             then deny ''requester-not-on-allow-list''
                    (''requester '' @ req_key @ '' not in allow list'') RequesterNotAllowed
             else (case sp_default self of
                 DefaultAllow \<Rightarrow> Ok (Allow decision_id (sp_policy_id self)
                   (push_hit rationale ''default-allow'' EffectAllow
                      ''no explicit deny matched; default is allow''))
               | DefaultDeny \<Rightarrow> deny ''default-deny''
                   ''no explicit allow matched; default is deny'' (OtherReason ''policy default'')))
      in
      if sp_wallet_inactive self
      then deny ''wallet-inactive'' ''wallet is frozen or revoked'' WalletInactive
      else (case chain_id_of (sr_payload request) of
          None \<Rightarrow> after_chain
        | Some chain_id \<Rightarrow>
            if chain_id \<in> sp_denied_chains self
            then deny ''denied-chain'' (''chain '' @ show_nat (unat chain_id) @ '' is denied'') ChainDenied
            else if (case sp_allowed_chains self of Some allow \<Rightarrow> chain_id \<notin> allow | None \<Rightarrow> False)
            then deny ''chain-not-on-allow-list''
                   (''chain '' @ show_nat (unat chain_id) @ '' not in allow list'') ChainNotAllowed
            else after_chain))"

subsection \<open>Requester keys are unambiguous\<close>

lemma colon_not_in_show_nat: "CHR '':'' \<notin> set (show_nat n)"
  using show_nat_digits [of n] by (auto simp: is_digit_def)

lemma requester_key_inject:
  assumes "ulid_text ulid_str"
  shows "requester_key ulid_str a = requester_key ulid_str b \<longleftrightarrow> a = b"
proof (cases a; cases b)
  fix c ad c' ad'
  assume "a = OnChainContract c ad" "b = OnChainContract c' ad'"
  then show ?thesis
    using append_sep_inject [OF colon_not_in_show_nat colon_not_in_show_nat]
    by (simp add: hex_encode_inject unsigned_word_eqI_iff)
qed (use assms in \<open>auto simp: ulid_text_inject intro: wallet_id.expand\<close>)

subsection \<open>What a request is denied for\<close>

definition chain_passes :: "static_policy \<Rightarrow> signing_request \<Rightarrow> bool" where
  "chain_passes self r \<longleftrightarrow>
     (case chain_id_of (sr_payload r) of None \<Rightarrow> True
      | Some c \<Rightarrow> c \<notin> sp_denied_chains self \<and>
          (case sp_allowed_chains self of None \<Rightarrow> True | Some allow \<Rightarrow> c \<in> allow))"

definition requester_passes :: "(ulid \<Rightarrow> string) \<Rightarrow> static_policy \<Rightarrow> signing_request \<Rightarrow> bool" where
  "requester_passes ulid_str self r \<longleftrightarrow>
     (let k = requester_key ulid_str (sr_requester r) in k \<notin> sp_denied_requesters self \<and>
        (case sp_allowed_requesters self of None \<Rightarrow> True | Some allow \<Rightarrow> k \<in> allow))"

lemma static_evaluate_explained:
  "\<exists>dec. static_evaluate ulid_str self d r = Ok dec \<and> decision_id_of dec = d \<and>
     policy_id_of dec = sp_policy_id self \<and> explained dec \<and> \<not> requires_quorum dec"
  unfolding static_evaluate_def Let_def push_hit_def
  by (simp add: explained_def passed_only_def split: option.split allow_default.split)

interpretation static_engine: policy_engine
    "\<lambda>d (s :: unit) r. (static_evaluate ulid_str self d r, s)" "sp_policy_id self"
  for ulid_str self
proof
  fix d s r m
  show "fst (static_evaluate ulid_str self d r, s :: unit) \<noteq> Panic m"
    using static_evaluate_explained [of ulid_str self d r] by auto
next
  fix d r dec and s s' :: unit
  assume "(static_evaluate ulid_str self d r, s) = (Ok dec, s')"
  then show "decision_id_of dec = d \<and> policy_id_of dec = sp_policy_id self \<and> explained dec"
    using static_evaluate_explained [of ulid_str self d r] by auto
qed

text \<open>The static policy allows a request exactly when the wallet is active, the chain and the
  requester pass both of their lists, and the default is allow; otherwise it denies (it never asks
  for a quorum and never errs), with the first failing check of the documented precedence as the
  reason.\<close>

theorem static_evaluate_precedence:
  "\<exists>hits. static_evaluate ulid_str self d r =
     Ok (if sp_wallet_inactive self then Deny d (sp_policy_id self) WalletInactive hits
         else if \<not> chain_passes self r then
           Deny d (sp_policy_id self)
             (if the (chain_id_of (sr_payload r)) \<in> sp_denied_chains self then ChainDenied else ChainNotAllowed) hits
         else if \<not> requester_passes ulid_str self r then Deny d (sp_policy_id self) RequesterNotAllowed hits
         else if sp_default self = DefaultAllow then Allow d (sp_policy_id self) hits
         else Deny d (sp_policy_id self) (OtherReason ''policy default'') hits)"
  unfolding static_evaluate_def Let_def
  by (auto simp: chain_passes_def requester_passes_def Let_def split: option.splits allow_default.splits)

end
