(* ===== verification/Float64.thy ===== *)
theory Float64
  imports Complex_Main
begin

text \<open>
  Rust's \<open>f64\<close> as the rate limiter uses it: finite values are rationals, and every
  operation is the exact rational operation followed by IEEE 754 rounding to a 53-bit
  significand, ties to even. The exponent is unbounded here: the limiter's magnitudes lie
  between \<open>2^-42\<close> (one millisecond at the slowest refill) and \<open>2^63\<close>, far inside the
  exponent range of the format, so neither overflow nor subnormal numbers arise.
\<close>

subsection \<open>Rounding\<close>

fun nat_log2 :: "nat \<Rightarrow> nat" where
  "nat_log2 n = (if n < 2 then 0 else Suc (nat_log2 (n div 2)))"

declare nat_log2.simps [simp del]

definition binade :: "rat \<Rightarrow> int" where
  "binade x = (case quotient_of x of (a, b) \<Rightarrow>
     let k = int (nat_log2 (nat a)) - int (nat_log2 (nat b))
     in if 2 powi k \<le> x then k else k - 1)"

definition round_half_even :: "rat \<Rightarrow> int" where
  "round_half_even x = (let f = \<lfloor>x\<rfloor>; d = x - of_int f in
     if d < 1 / 2 then f else if d > 1 / 2 then f + 1 else if even f then f else f + 1)"

definition f64_round :: "rat \<Rightarrow> rat" where
  "f64_round x = (if x = 0 then 0
     else let q = 2 powi (binade \<bar>x\<bar> - 52)
          in sgn x * of_int (round_half_even (\<bar>x\<bar> / q)) * q)"

definition f64_add :: "rat \<Rightarrow> rat \<Rightarrow> rat" where "f64_add x y = f64_round (x + y)"
definition f64_sub :: "rat \<Rightarrow> rat \<Rightarrow> rat" where "f64_sub x y = f64_round (x - y)"
definition f64_mul :: "rat \<Rightarrow> rat \<Rightarrow> rat" where "f64_mul x y = f64_round (x * y)"
definition f64_div :: "rat \<Rightarrow> rat \<Rightarrow> rat" where "f64_div x y = f64_round (x / y)"
definition f64_of_int :: "int \<Rightarrow> rat" where "f64_of_int z = f64_round (of_int z)"

subsection \<open>Lemmas\<close>

lemma nat_log2_bounds: "0 < n \<Longrightarrow> 2 ^ nat_log2 n \<le> n \<and> n < 2 ^ Suc (nat_log2 n)"
proof (induction n rule: nat_log2.induct)
  case (1 n)
  show ?case
  proof (cases "n < 2")
    case True
    with "1.prems" show ?thesis by (simp add: nat_log2.simps [of n])
  next
    case False
    then have "2 ^ nat_log2 (n div 2) \<le> n div 2 \<and> n div 2 < 2 ^ Suc (nat_log2 (n div 2))"
      using "1.IH" by simp
    with False show ?thesis by (auto simp: nat_log2.simps [of n])
  qed
qed

lemma pow2_le_of_int: "0 < a \<Longrightarrow> 2 ^ l \<le> nat a \<Longrightarrow> (2 ^ l :: rat) \<le> of_int a"
proof -
  assume "0 < a" "2 ^ l \<le> nat a"
  then have "int (2 ^ l) \<le> a" by (simp add: le_nat_iff)
  then have "(of_int (int (2 ^ l)) :: rat) \<le> of_int a" by (simp only: of_int_le_iff)
  then show ?thesis by simp
qed

lemma of_int_less_pow2: "0 < a \<Longrightarrow> nat a < 2 ^ l \<Longrightarrow> of_int a < (2 ^ l :: rat)"
proof -
  assume "0 < a" "nat a < 2 ^ l"
  then have "a < int (2 ^ l)" by (simp add: nat_less_iff)
  then have "(of_int a :: rat) < of_int (int (2 ^ l))" by (simp only: of_int_less_iff)
  then show ?thesis by simp
qed

lemma binade_bounds:
  assumes "0 < x"
  shows "2 powi binade x \<le> x \<and> x < 2 powi (binade x + 1)"
proof -
  obtain a b where q: "quotient_of x = (a, b)" by (cases "quotient_of x")
  then have b: "0 < b" and x: "x = of_int a / of_int b"
    by (auto intro: quotient_of_denom_pos quotient_of_div)
  with assms have a: "0 < a" by (simp add: zero_less_divide_iff)
  define la lb where "la = nat_log2 (nat a)" and "lb = nat_log2 (nat b)"
  have A: "2 ^ la \<le> nat a" "nat a < 2 ^ Suc la"
    and B: "2 ^ lb \<le> nat b" "nat b < 2 ^ Suc lb"
    using nat_log2_bounds [of "nat a"] nat_log2_bounds [of "nat b"] a b
    by (auto simp: la_def lb_def)
  from A B a b have A': "(2 ^ la :: rat) \<le> of_int a" "(of_int a :: rat) < 2 ^ Suc la"
    and B': "(2 ^ lb :: rat) \<le> of_int b" "(of_int b :: rat) < 2 ^ Suc lb"
    by (auto intro: pow2_le_of_int of_int_less_pow2 simp del: power_Suc)
  let ?k = "int la - int lb"
  have up: "x < 2 powi (?k + 1)"
  proof -
    have "of_int a < (2 ^ Suc la :: rat)" by (fact A')
    also have "\<dots> = 2 powi (?k + 1) * 2 ^ lb"
      by (simp add: power_int_add power_int_diff field_simps flip: power_int_of_nat)
    also have "\<dots> \<le> 2 powi (?k + 1) * of_int b"
      using B' by (intro mult_left_mono) simp_all
    finally show ?thesis using b by (simp add: x pos_divide_less_eq)
  qed
  have low: "2 powi (?k - 1) < x"
  proof -
    have "2 powi (?k - 1) * of_int b < 2 powi (?k - 1) * (2 ^ Suc lb :: rat)"
      using B' by (intro mult_strict_left_mono) simp_all
    also have "\<dots> = 2 ^ la"
      by (simp add: power_int_diff field_simps flip: power_int_of_nat)
    also have "\<dots> \<le> of_int a" by (fact A')
    finally show ?thesis using b by (simp add: x pos_less_divide_eq)
  qed
  from up low show ?thesis
    by (auto simp: binade_def q Let_def la_def lb_def)
qed

lemma binade_unique_le:
  assumes "0 < x" "x \<le> y" shows "binade x \<le> binade y"
proof (rule ccontr)
  assume "\<not> ?thesis"
  then have "binade y + 1 \<le> binade x" by simp
  then have "(2 :: rat) powi (binade y + 1) \<le> 2 powi binade x"
    by (intro power_int_increasing) simp_all
  with binade_bounds [of x] binade_bounds [of y] assms show False by simp
qed

lemma round_half_even_of_int [simp]: "round_half_even (of_int n) = n"
  by (simp add: round_half_even_def)

lemma round_half_even_bounds: "\<lfloor>x\<rfloor> \<le> round_half_even x" "round_half_even x \<le> \<lfloor>x\<rfloor> + 1"
  by (auto simp: round_half_even_def Let_def)

lemma round_half_even_mono: "x \<le> y \<Longrightarrow> round_half_even x \<le> round_half_even y"
proof -
  assume le: "x \<le> y"
  then have fl: "\<lfloor>x\<rfloor> \<le> \<lfloor>y\<rfloor>" by (rule floor_mono)
  show ?thesis
  proof (cases "\<lfloor>x\<rfloor> = \<lfloor>y\<rfloor>")
    case True
    with le show ?thesis by (auto simp: round_half_even_def Let_def)
  next
    case False
    with fl have "\<lfloor>x\<rfloor> + 1 \<le> \<lfloor>y\<rfloor>" by simp
    with round_half_even_bounds [of x] round_half_even_bounds [of y] show ?thesis by linarith
  qed
qed

lemma f64_round_0 [simp]: "f64_round 0 = 0"
  by (simp add: f64_round_def)

lemma f64_round_pos_eq:
  "0 < x \<Longrightarrow> f64_round x = of_int (round_half_even (x / 2 powi (binade x - 52))) * 2 powi (binade x - 52)"
  by (simp add: f64_round_def Let_def)

lemma two_powi_quot: "(2 :: rat) powi a / 2 powi b = 2 powi (a - b)"
  by (simp add: power_int_diff)

text \<open>The rounded value stays in the closed binade of its argument.\<close>

lemma f64_round_binade:
  assumes "0 < x"
  shows "2 powi binade x \<le> f64_round x \<and> f64_round x \<le> 2 powi (binade x + 1)"
proof -
  let ?q = "(2 :: rat) powi (binade x - 52)"
  have q: "0 < ?q" by simp
  have e52: "(2 :: rat) powi binade x / ?q = of_int (2 ^ 52)"
    by (subst two_powi_quot) simp
  have e53: "(2 :: rat) powi (binade x + 1) / ?q = of_int (2 ^ 53)"
    by (subst two_powi_quot) (simp add: power_int_add)
  have "round_half_even (of_int (2 ^ 52)) \<le> round_half_even (x / ?q)"
    using binade_bounds [OF assms] q unfolding e52 [symmetric]
    by (intro round_half_even_mono divide_right_mono) simp_all
  moreover have "round_half_even (x / ?q) \<le> round_half_even (of_int (2 ^ 53))"
    using binade_bounds [OF assms] q unfolding e53 [symmetric]
    by (intro round_half_even_mono divide_right_mono) simp_all
  ultimately have "2 ^ 52 \<le> round_half_even (x / ?q)" "round_half_even (x / ?q) \<le> 2 ^ 53"
    by (simp_all only: round_half_even_of_int)
  then have "of_int (2 ^ 52) * ?q \<le> of_int (round_half_even (x / ?q)) * ?q"
    "of_int (round_half_even (x / ?q)) * ?q \<le> of_int (2 ^ 53) * ?q"
    using q by (intro mult_right_mono; simp only: of_int_le_iff less_imp_le)+
  then show ?thesis
    using e52 e53 q by (simp add: f64_round_pos_eq [OF assms] field_simps)
qed

lemma f64_round_nonneg: "0 \<le> x \<Longrightarrow> 0 \<le> f64_round x"
proof (cases "x = 0")
  case False
  assume "0 \<le> x"
  with False have "2 powi binade x \<le> f64_round x" using f64_round_binade by simp
  then show ?thesis by (meson order_trans zero_le_power_int zero_le_numeral)
qed simp

lemma f64_round_mono:
  assumes "0 \<le> x" "x \<le> y" shows "f64_round x \<le> f64_round y"
proof (cases "x = 0")
  case True
  with assms f64_round_nonneg show ?thesis by simp
next
  case False
  with assms have x: "0 < x" and y: "0 < y" by simp_all
  show ?thesis
  proof (cases "binade x = binade y")
    case True
    have "round_half_even (x / 2 powi (binade x - 52)) \<le> round_half_even (y / 2 powi (binade x - 52))"
      using assms by (intro round_half_even_mono divide_right_mono) simp_all
    then show ?thesis
      by (simp add: f64_round_pos_eq x y True [symmetric])
  next
    case False
    with binade_unique_le [OF x assms(2)] have "binade x + 1 \<le> binade y" by simp
    then have "(2 :: rat) powi (binade x + 1) \<le> 2 powi binade y"
      by (intro power_int_increasing) simp_all
    with f64_round_binade [OF x] f64_round_binade [OF y] show ?thesis by linarith
  qed
qed

text \<open>Integers up to \<open>2^53\<close> are represented exactly.\<close>

lemma f64_round_of_nat:
  assumes "n \<le> 2 ^ 53" shows "f64_round (of_nat n) = of_nat n"
proof (cases "n = 0")
  case False
  let ?x = "of_nat n :: rat"
  have x: "0 < ?x" using False by simp
  have int: "\<exists>z. ?x / 2 powi (binade ?x - 52) = of_int z"
  proof (cases "binade ?x \<le> 52")
    case True
    then obtain k where e: "binade ?x - 52 = - int k"
      by (metis diff_ge_0_iff_ge minus_diff_eq nonneg_int_cases)
    have "?x / 2 powi (binade ?x - 52) = of_int (int n * 2 ^ k)"
      unfolding e by (simp add: power_int_minus divide_inverse)
    then show ?thesis by blast
  next
    case False
    then have "(2 :: rat) powi 53 \<le> 2 powi binade ?x"
      by (intro power_int_increasing) simp_all
    with binade_bounds [OF x] have ge: "2 ^ 53 \<le> ?x" by simp
    with assms have n: "n = 2 ^ 53"
      using of_nat_le_iff [of "2 ^ 53" n, where ?'a = rat] by simp
    have "binade ?x = 53"
    proof (rule antisym)
      show "53 \<le> binade ?x" using False by simp
      show "binade ?x \<le> 53"
      proof (rule ccontr)
        assume "\<not> binade ?x \<le> 53"
        then have "(2 :: rat) powi 54 \<le> 2 powi binade ?x"
          by (intro power_int_increasing) simp_all
        with binade_bounds [OF x] n show False by simp
      qed
    qed
    with n have "?x / 2 powi (binade ?x - 52) = of_int (2 ^ 52)" by simp
    then show ?thesis by blast
  qed
  then obtain z where z: "?x / 2 powi (binade ?x - 52) = of_int z" by blast
  then have "?x = of_int z * 2 powi (binade ?x - 52)" by (simp add: divide_eq_eq)
  with z show ?thesis by (simp add: f64_round_pos_eq [OF x])
qed simp

lemma f64_sub_of_nat: "1 \<le> n \<Longrightarrow> n \<le> 2 ^ 53 \<Longrightarrow> f64_sub (of_nat n) 1 = of_nat (n - 1)"
  using f64_round_of_nat [of "n - 1"] by (simp add: f64_sub_def of_nat_diff)

end
