(* ===== verification/Rate_Limit.thy ===== *)
theory Rate_Limit
  imports Prelude Float64
begin

text \<open>
  The token-bucket limiter of \<open>qfc-policy/src/rate_limit.rs\<close>. The limiter is a map from
  bucket keys to bucket states; \<open>try_acquire\<close> takes the clock reading as an argument and
  returns the new map. Token counts are \<open>f64\<close> values with their rounding.

  The locale \<open>bucket_budget\<close> is the contract of one key: a counter of whole tokens that a
  call decrements or finds empty. Its lemma counts the grants of a whole call sequence; the
  limiter instantiates it for buckets that never refill and for calls at one instant.
\<close>

subsection \<open>Clocks\<close>

definition system_clock_ms :: "nat \<Rightarrow> i64" where
  "system_clock_ms millis = (if millis < 2 ^ 63 then int millis else 2 ^ 63 - 1)"

definition i64_wrap :: "int \<Rightarrow> i64" where
  "i64_wrap x = (x + 2 ^ 63) mod 2 ^ 64 - 2 ^ 63"

definition manual_clock_advance :: "i64 \<Rightarrow> i64 \<Rightarrow> i64" where
  "manual_clock_advance now_ms delta_ms = i64_wrap (now_ms + delta_ms)"

subsection \<open>The limiter\<close>

record bucket_state =
  tokens :: rat
  last_refill_unix_ms :: i64

type_synonym limiter = "string \<rightharpoonup> bucket_state"

definition limiter_new :: limiter where
  "limiter_new = Map.empty"

definition f64_of_u32 :: "u32 \<Rightarrow> rat" where
  "f64_of_u32 c = of_nat (unat c)"

definition refill_bucket :: "i64 \<Rightarrow> rat \<Rightarrow> u32 \<Rightarrow> bucket_state \<Rightarrow> bucket_state" where
  "refill_bucket now_ms cap_f refill_per_secs entry =
     (if refill_per_secs > 0 then
        let dt_ms = max (i64_wrap (now_ms - last_refill_unix_ms entry)) 0;
            dt = f64_div (f64_of_int dt_ms) 1000;
            rate = f64_div 1 (f64_of_u32 refill_per_secs);
            refill = f64_mul dt rate
        in entry\<lparr>tokens := min (f64_add (tokens entry) refill) cap_f,
                 last_refill_unix_ms := now_ms\<rparr>
      else entry)"

definition try_acquire :: "i64 \<Rightarrow> limiter \<Rightarrow> string \<Rightarrow> u32 \<Rightarrow> u32 \<Rightarrow> bool \<times> limiter" where
  "try_acquire now_ms lm key capacity refill_per_secs =
     (if capacity = 0 then (False, lm)
      else
        let cap_f = f64_of_u32 capacity;
            entry = (case lm key of Some b \<Rightarrow> b
                     | None \<Rightarrow> \<lparr>tokens = cap_f, last_refill_unix_ms = now_ms\<rparr>);
            entry = refill_bucket now_ms cap_f refill_per_secs entry
        in if tokens entry \<ge> 1
           then (True, lm(key \<mapsto> entry\<lparr>tokens := f64_sub (tokens entry) 1\<rparr>))
           else (False, lm(key \<mapsto> entry)))"

text \<open>A sequence of calls on one limiter: clock reading, key, capacity and refill period of each.\<close>

record acquire_call =
  ac_now :: i64
  ac_key :: string
  ac_capacity :: u32
  ac_refill :: u32

fun acquire_run :: "limiter \<Rightarrow> acquire_call list \<Rightarrow> bool list \<times> limiter" where
  "acquire_run lm [] = ([], lm)"
| "acquire_run lm (c # cs) =
     (case try_acquire (ac_now c) lm (ac_key c) (ac_capacity c) (ac_refill c) of
        (ok, lm1) \<Rightarrow> (case acquire_run lm1 cs of (oks, lm2) \<Rightarrow> (ok # oks, lm2)))"

text \<open>The grants of a run on one key.\<close>

definition grants :: "string \<Rightarrow> acquire_call list \<Rightarrow> bool list \<Rightarrow> nat" where
  "grants k cs oks = length (filter (\<lambda>(c, ok). ac_key c = k \<and> ok) (zip cs oks))"

subsection \<open>The bucket invariant\<close>

definition bucket_ok :: "u32 \<Rightarrow> bucket_state \<Rightarrow> bool" where
  "bucket_ok cap b \<longleftrightarrow> 0 \<le> tokens b \<and> tokens b \<le> f64_of_u32 cap"

lemma u32_le_exact: "unat (c :: u32) \<le> 2 ^ 53"
  using unat_lt [of c] by simp

lemma f64_of_u32_nonneg [simp]: "0 \<le> f64_of_u32 c"
  unfolding f64_of_u32_def by (rule of_nat_0_le_iff)

lemma f64_round_of_u32 [simp]: "f64_round (f64_of_u32 c) = f64_of_u32 c"
  unfolding f64_of_u32_def by (rule f64_round_of_nat [OF u32_le_exact])

lemma refill_amount_nonneg:
  "0 \<le> f64_mul (f64_div (f64_of_int (max d 0)) 1000) (f64_div 1 (f64_of_u32 n))"
  by (simp add: f64_mul_def f64_div_def f64_of_int_def f64_round_nonneg)

lemma refill_bucket_ok:
  assumes "bucket_ok cap b"
  shows "bucket_ok cap (refill_bucket now (f64_of_u32 cap) r b)"
  using assms
  by (auto simp: bucket_ok_def refill_bucket_def Let_def f64_add_def
      intro!: f64_round_nonneg add_nonneg_nonneg refill_amount_nonneg)

lemma acquire_sub_ok:
  assumes b: "bucket_ok cap b" "1 \<le> tokens b"
  shows "bucket_ok cap (b\<lparr>tokens := f64_sub (tokens b) 1\<rparr>)"
proof -
  from b have "f64_round (tokens b - 1) \<le> f64_round (f64_of_u32 cap)"
    by (intro f64_round_mono) (auto simp: bucket_ok_def)
  with b show ?thesis
    by (simp add: bucket_ok_def f64_sub_def f64_round_nonneg)
qed

text \<open>Every bucket of the limiter is within its key's capacity.\<close>

definition limiter_ok :: "(string \<Rightarrow> u32) \<Rightarrow> limiter \<Rightarrow> bool" where
  "limiter_ok cap lm \<longleftrightarrow> (\<forall>k b. lm k = Some b \<longrightarrow> bucket_ok (cap k) b)"

lemma limiter_ok_new: "limiter_ok cap limiter_new"
  by (simp add: limiter_ok_def limiter_new_def)

lemma limiter_ok_upd: "limiter_ok cap lm \<Longrightarrow> bucket_ok (cap k) b \<Longrightarrow> limiter_ok cap (lm(k \<mapsto> b))"
  by (simp add: limiter_ok_def)

lemma try_acquire_ok:
  assumes "limiter_ok cap lm" and "try_acquire now lm k (cap k) r = (ok, lm')"
  shows "limiter_ok cap lm'"
proof -
  let ?e = "case lm k of Some b \<Rightarrow> b
    | None \<Rightarrow> \<lparr>tokens = f64_of_u32 (cap k), last_refill_unix_ms = now\<rparr>"
  have "bucket_ok (cap k) ?e"
    using assms(1) by (auto simp: limiter_ok_def bucket_ok_def split: option.splits)
  then have e: "bucket_ok (cap k) (refill_bucket now (f64_of_u32 (cap k)) r ?e)"
    by (rule refill_bucket_ok)
  with assms show ?thesis
    by (auto simp: try_acquire_def Let_def limiter_ok_upd acquire_sub_ok
        split: if_splits)
qed

lemma try_acquire_other_keys:
  "try_acquire now lm k c r = (ok, lm') \<Longrightarrow> k' \<noteq> k \<Longrightarrow> lm' k' = lm k'"
  by (auto simp: try_acquire_def Let_def split: if_splits)

lemma try_acquire_depends_on_bucket:
  "lm k = lm2 k \<Longrightarrow> fst (try_acquire now lm k c r) = fst (try_acquire now lm2 k c r) \<and>
   snd (try_acquire now lm k c r) k = snd (try_acquire now lm2 k c r) k"
  by (auto simp: try_acquire_def Let_def)

lemma acquire_run_length: "acquire_run lm cs = (oks, lm') \<Longrightarrow> length oks = length cs"
  by (induction cs arbitrary: lm oks lm') (auto split: prod.splits)

lemma acquire_run_ok:
  "limiter_ok cap lm \<Longrightarrow> \<forall>c \<in> set cs. ac_capacity c = cap (ac_key c) \<Longrightarrow>
   limiter_ok cap (snd (acquire_run lm cs))"
proof (induction cs arbitrary: lm)
  case Nil
  then show ?case by simp
next
  case (Cons c cs)
  obtain ok lm1 where t: "try_acquire (ac_now c) lm (ac_key c) (ac_capacity c) (ac_refill c) = (ok, lm1)"
    by fastforce
  with Cons.prems have "limiter_ok cap lm1" using try_acquire_ok by simp
  then have "limiter_ok cap (snd (acquire_run lm1 cs))" using Cons by simp
  moreover obtain oks lm2 where "acquire_run lm1 cs = (oks, lm2)" by fastforce
  ultimately show ?case using t by simp
qed

subsection \<open>Counting grants\<close>

text \<open>
  The contract of one key: while the calls stay in the regime \<open>quiet\<close>, a bucket that holds
  \<open>n\<close> whole tokens grants a call exactly when \<open>n > 0\<close>, and then holds \<open>n - 1\<close>.
\<close>

locale bucket_budget =
  fixes key :: string and quiet :: "acquire_call \<Rightarrow> bool"
    and holds :: "limiter \<Rightarrow> nat \<Rightarrow> bool"
  assumes grant: "holds lm n \<Longrightarrow> ac_key c = key \<Longrightarrow> quiet c \<Longrightarrow>
      fst (try_acquire (ac_now c) lm key (ac_capacity c) (ac_refill c)) = (0 < n) \<and>
      holds (snd (try_acquire (ac_now c) lm key (ac_capacity c) (ac_refill c))) (n - 1)"
    and frame: "holds lm n \<Longrightarrow> lm' key = lm key \<Longrightarrow> holds lm' n"
begin

lemma run_grants:
  "holds lm n \<Longrightarrow> \<forall>c \<in> set cs. ac_key c = key \<longrightarrow> quiet c \<Longrightarrow> acquire_run lm cs = (oks, lm') \<Longrightarrow>
   grants key cs oks = min n (length (filter (\<lambda>c. ac_key c = key) cs))"
proof (induction cs arbitrary: lm n oks lm')
  case Nil
  then show ?case by (simp add: grants_def)
next
  case (Cons c cs)
  obtain ok lm1 where t: "try_acquire (ac_now c) lm (ac_key c) (ac_capacity c) (ac_refill c) = (ok, lm1)"
    by fastforce
  obtain oks1 lm2 where r: "acquire_run lm1 cs = (oks1, lm2)" by fastforce
  from Cons.prems(3) t r have oks: "oks = ok # oks1" by simp
  show ?case
  proof (cases "ac_key c = key")
    case True
    with Cons.prems t grant [OF Cons.prems(1) True] have "ok = (0 < n)" "holds lm1 (n - 1)"
      by auto
    with Cons.IH [OF \<open>holds lm1 (n - 1)\<close> _ r] Cons.prems(2) True show ?thesis
      by (auto simp: oks grants_def)
  next
    case False
    with t have "lm1 key = lm key" using try_acquire_other_keys by metis
    with Cons.prems(1) have "holds lm1 n" by (rule frame)
    with Cons.IH [OF this _ r] Cons.prems(2) False show ?thesis
      by (auto simp: oks grants_def)
  qed
qed

end

text \<open>A fresh key holds its whole capacity; a touched key holds what its bucket says.\<close>

definition holds_tokens :: "string \<Rightarrow> u32 \<Rightarrow> limiter \<Rightarrow> nat \<Rightarrow> bool" where
  "holds_tokens k cap lm n \<longleftrightarrow> n \<le> unat cap \<and>
     (case lm k of None \<Rightarrow> n = unat cap | Some b \<Rightarrow> tokens b = of_nat n)"

definition holds_tokens_at :: "string \<Rightarrow> u32 \<Rightarrow> i64 \<Rightarrow> limiter \<Rightarrow> nat \<Rightarrow> bool" where
  "holds_tokens_at k cap now lm n \<longleftrightarrow> holds_tokens k cap lm n \<and>
     (case lm k of None \<Rightarrow> True | Some b \<Rightarrow> last_refill_unix_ms b = now)"

lemma one_le_of_nat: "of_nat n \<ge> (1 :: rat) \<longleftrightarrow> 0 < n"
  by (cases n) auto

lemma of_nat_le_f64_of_u32: "n \<le> unat c \<Longrightarrow> (of_nat n :: rat) \<le> f64_of_u32 c"
  unfolding f64_of_u32_def by (rule of_nat_mono)

lemma min_of_nat_cap: "n \<le> unat c \<Longrightarrow>
   min (f64_add (of_nat n) 0) (f64_of_u32 c) = (of_nat n :: rat)"
  using u32_le_exact [of c] of_nat_le_f64_of_u32 [of n c]
  by (simp add: f64_add_def f64_round_of_nat)

lemma f64_sub_1_of_nat: "0 < n \<Longrightarrow> n \<le> unat (c :: u32) \<Longrightarrow>
   f64_sub (of_nat n) 1 = of_nat (n - 1)"
  using f64_sub_of_nat [of n] u32_le_exact [of c] by simp

lemma refill_no_time:
  assumes "tokens b = of_nat n" "n \<le> unat cap" "now = last_refill_unix_ms b"
  shows "tokens (refill_bucket now (f64_of_u32 cap) r b) = of_nat n"
    and "last_refill_unix_ms (refill_bucket now (f64_of_u32 cap) r b) = now"
  using assms u32_le_exact [of cap]
  by (auto simp: refill_bucket_def Let_def f64_mul_def f64_div_def f64_of_int_def min_of_nat_cap i64_wrap_def)

text \<open>The entry a call works on, before the refill.\<close>

definition entry_of :: "limiter \<Rightarrow> string \<Rightarrow> u32 \<Rightarrow> i64 \<Rightarrow> bucket_state" where
  "entry_of lm k cap now = (case lm k of Some b \<Rightarrow> b
     | None \<Rightarrow> \<lparr>tokens = f64_of_u32 cap, last_refill_unix_ms = now\<rparr>)"

lemma entry_of_holds: "holds_tokens k cap lm n \<Longrightarrow> tokens (entry_of lm k cap now) = of_nat n"
  unfolding holds_tokens_def entry_of_def f64_of_u32_def
  by (cases "lm k") (simp_all del: of_nat_unat)

lemma try_acquire_whole_tokens:
  assumes "tokens (refill_bucket now (f64_of_u32 cap) r (entry_of lm k cap now)) = of_nat n"
    and "n \<le> unat cap"
  shows "fst (try_acquire now lm k cap r) = (0 < n)"
    and "0 < unat cap \<Longrightarrow> snd (try_acquire now lm k cap r) k =
      Some ((refill_bucket now (f64_of_u32 cap) r (entry_of lm k cap now))\<lparr>tokens := of_nat (n - 1)\<rparr>)"
  using assms f64_sub_1_of_nat [of n cap]
  by (auto simp: try_acquire_def Let_def one_le_of_nat unat_eq_zero simp flip: entry_of_def)

lemma try_acquire_capacity_0: "unat cap = 0 \<Longrightarrow> snd (try_acquire now lm k cap r) = lm"
  by (simp add: try_acquire_def unat_eq_zero)

text \<open>The two regimes: a bucket that never refills, and calls at one clock reading.\<close>

interpretation no_refill: bucket_budget k "\<lambda>c. ac_capacity c = cap \<and> ac_refill c = 0" "holds_tokens k cap"
  for k cap
proof
  fix lm n and c :: acquire_call
  assume h: "holds_tokens k cap lm n" and q: "ac_capacity c = cap \<and> ac_refill c = 0"
  then have n: "n \<le> unat cap" by (simp add: holds_tokens_def)
  have "tokens (refill_bucket (ac_now c) (f64_of_u32 cap) 0 (entry_of lm k cap (ac_now c))) = of_nat n"
    using entry_of_holds [OF h] by (simp add: refill_bucket_def)
  note a = try_acquire_whole_tokens [OF this n]
  show "fst (try_acquire (ac_now c) lm k (ac_capacity c) (ac_refill c)) = (0 < n) \<and>
      holds_tokens k cap (snd (try_acquire (ac_now c) lm k (ac_capacity c) (ac_refill c))) (n - 1)"
    using a h q n try_acquire_capacity_0 [of cap "ac_now c" lm k 0]
    by (cases "unat cap = 0") (auto simp: holds_tokens_def)
next
  fix lm n and lm' :: limiter
  assume "holds_tokens k cap lm n" "lm' k = lm k"
  then show "holds_tokens k cap lm' n" by (simp add: holds_tokens_def)
qed

interpretation one_instant: bucket_budget k "\<lambda>c. ac_capacity c = cap \<and> ac_now c = now"
    "holds_tokens_at k cap now"
  for k cap now
proof
  fix lm n and c :: acquire_call
  assume h: "holds_tokens_at k cap now lm n" and q: "ac_capacity c = cap \<and> ac_now c = now"
  have n: "n \<le> unat cap" and e: "tokens (entry_of lm k cap now) = of_nat n"
    and l: "now = last_refill_unix_ms (entry_of lm k cap now)"
    using h entry_of_holds by (auto simp: holds_tokens_at_def holds_tokens_def entry_of_def split: option.splits)
  note e' = refill_no_time [OF e n l, where r = "ac_refill c"]
  note a = try_acquire_whole_tokens [OF e'(1) n]
  show "fst (try_acquire (ac_now c) lm k (ac_capacity c) (ac_refill c)) = (0 < n) \<and>
      holds_tokens_at k cap now (snd (try_acquire (ac_now c) lm k (ac_capacity c) (ac_refill c))) (n - 1)"
    using a e' h q n try_acquire_capacity_0 [of cap now lm k "ac_refill c"]
    by (cases "unat cap = 0") (auto simp: holds_tokens_at_def holds_tokens_def)
next
  fix lm n and lm' :: limiter
  assume "holds_tokens_at k cap now lm n" "lm' k = lm k"
  then show "holds_tokens_at k cap now lm' n" by (simp add: holds_tokens_at_def holds_tokens_def)
qed

end
