(* ===== verification/Rule_Set_Policy.thy ===== *)
theory Rule_Set_Policy
  imports Static_Policy Rate_Limit
begin

text \<open>
  The rule-set engine of \<open>qfc-policy/src/rule_set_policy.rs\<close>. Each numbered stage of
  \<open>evaluate\<close> is a definition of its own; a stage either continues with the extended
  rationale or returns a decision, and \<open>evaluate\<close> threads the rate limiter through them.
  The clock reading and the fresh decision id are arguments.

  The record \<open>policy_crates\<close> holds what the engine calls of other crates: \<open>hex::decode\<close>,
  \<open>U256::from_dec_str\<close>, \<open>OffsetDateTime::from_unix_timestamp\<close> (read as weekday counted
  from Monday and hour) and the text form of a ULID.
\<close>

unbundle bit_operations_syntax

subsection \<open>Crates and configuration\<close>

record policy_crates =
  pc_hex_decode :: "string \<Rightarrow> bytes option"
  pc_u256_from_dec_str :: "string \<Rightarrow> u256 option"
  pc_utc_from_unix :: "int \<Rightarrow> (nat \<times> u8) option"
  pc_ulid_str :: "ulid \<Rightarrow> string"

record rule_set_policy =
  rsp_rules :: rule_set
  rsp_decoder :: "vm_decoder option"

definition parse_u256 :: "policy_crates \<Rightarrow> string \<Rightarrow> u256 option" where
  "parse_u256 pc s =
     (let trimmed = trim s in if trimmed = [] then None else pc_u256_from_dec_str pc trimmed)"

subsection \<open>Validation\<close>

definition validate_selectors :: "policy_crates \<Rightarrow> string \<Rightarrow> string \<Rightarrow> string list \<Rightarrow> (policy_error, unit) outcome" where
  "validate_selectors pc bad_hex bad_len sels =
     oforeach (\<lambda>sel.
       obind (ok_or (hex_to_bytes (pc_hex_decode pc) sel) (Misconfiguration bad_hex)) (\<lambda>b.
       fail_if (length b \<noteq> 4) (Misconfiguration bad_len))) sels"

definition validate_u256 :: "policy_crates \<Rightarrow> string \<Rightarrow> string \<Rightarrow> (policy_error, unit) outcome" where
  "validate_u256 pc msg s = fail_if (parse_u256 pc s = None) (Misconfiguration msg)"

definition validate_addresses :: "policy_crates \<Rightarrow> string list \<Rightarrow> (policy_error, unit) outcome" where
  "validate_addresses pc addresses =
     oforeach (\<lambda>a. fail_if (hex_to_bytes (pc_hex_decode pc) a = None)
       (Misconfiguration ''invalid hex address in contract rule'')) addresses"

fun validate_rule :: "policy_crates \<Rightarrow> rule \<Rightarrow> (policy_error, unit) outcome" where
  "validate_rule pc (AllowContract chain_id addresses) = validate_addresses pc addresses"
| "validate_rule pc (DenyContract chain_id addresses) = validate_addresses pc addresses"
| "validate_rule pc (AllowMethod chain_id contract selectors) =
     obind (case contract of
         Some c \<Rightarrow> fail_if (hex_to_bytes (pc_hex_decode pc) c = None)
                     (Misconfiguration ''invalid hex contract in allow_method rule'')
       | None \<Rightarrow> Ok ()) (\<lambda>_.
     validate_selectors pc ''invalid hex selector in allow_method rule''
       ''method selector must be exactly 4 bytes'' selectors)"
| "validate_rule pc (ValueCap chain_id max_val) =
     validate_u256 pc ''invalid decimal U256 in value_cap rule'' max_val"
| "validate_rule pc (RateLimit toks refill_per_secs scope) =
     fail_if (toks = 0) (Misconfiguration ''rate_limit tokens must be > 0'')"
| "validate_rule pc (TimeWindow weekday_mask hour_utc_start hour_utc_end) =
     obind (fail_if (weekday_mask AND 0x80 \<noteq> 0) (Misconfiguration ''weekday_mask bit 7 is reserved'')) (\<lambda>_.
     fail_if (hour_utc_start > 23 \<or> hour_utc_end > 24) (Misconfiguration ''time_window hours out of range''))"
| "validate_rule pc (QuorumRule threshold tot approver_set trigger) =
     obind (fail_if (threshold = 0 \<or> tot = 0 \<or> threshold > tot)
              (Misconfiguration ''quorum threshold/total invalid'')) (\<lambda>_.
     case trigger of
       ValueGte c v \<Rightarrow> validate_u256 pc ''invalid decimal U256 in quorum trigger'' v
     | _ \<Rightarrow> Ok ())"
| "validate_rule pc (VmShape vm constraints) =
     obind (case max_value constraints of
         Some v \<Rightarrow> validate_u256 pc ''invalid decimal U256 in vm_shape.max_value'' v
       | None \<Rightarrow> Ok ()) (\<lambda>_.
     case allowed_method_selectors constraints of
       Some sels \<Rightarrow> validate_selectors pc ''invalid hex selector in vm_shape rule''
                      ''vm_shape selector must be exactly 4 bytes'' sels
     | None \<Rightarrow> Ok ())"
| "validate_rule pc (AllowChain chain_ids) = Ok ()"
| "validate_rule pc (DenyChain chain_ids) = Ok ()"

definition validate :: "policy_crates \<Rightarrow> rule_set \<Rightarrow> (policy_error, unit) outcome" where
  "validate pc rs =
     obind (fail_if (rs_version rs \<noteq> 1) (Misconfiguration ''unsupported policy version'')) (\<lambda>_.
     oforeach (validate_rule pc) (rs_rules rs))"

text \<open>\<open>with_components\<close> (and \<open>new\<close>, which passes no decoder); the limiter is kept apart,
  as the state of \<open>evaluate\<close>.\<close>

definition with_components ::
  "policy_crates \<Rightarrow> rule_set \<Rightarrow> vm_decoder option \<Rightarrow> (policy_error, rule_set_policy) outcome" where
  "with_components pc rules decoder =
     obind (validate pc rules) (\<lambda>_. Ok \<lparr>rsp_rules = rules, rsp_decoder = decoder\<rparr>)"

definition rule_set_policy_new :: "policy_crates \<Rightarrow> rule_set \<Rightarrow> (policy_error, rule_set_policy) outcome" where
  "rule_set_policy_new pc rules = with_components pc rules None"

definition rule_set_policy_from_json ::
  "policy_crates \<Rightarrow> (bytes \<Rightarrow> rule_set option) \<Rightarrow> bytes \<Rightarrow> (policy_error, rule_set_policy) outcome" where
  "rule_set_policy_from_json pc from_slice bs =
     obind (ok_or (from_slice bs) (Misconfiguration ''malformed policy JSON'')) (rule_set_policy_new pc)"

subsection \<open>Helpers\<close>

fun rate_limit_key :: "(ulid \<Rightarrow> string) \<Rightarrow> rate_limit_scope \<Rightarrow> signing_request \<Rightarrow> string" where
  "rate_limit_key ulid_str PerWallet req = ''wallet:'' @ ulid_str (wallet_ulid (sr_wallet_id req))"
| "rate_limit_key ulid_str PerRequester req = ''req:'' @ requester_key ulid_str (sr_requester req)"
| "rate_limit_key ulid_str PerWalletRequester req =
     ''wr:'' @ ulid_str (wallet_ulid (sr_wallet_id req)) @ ''|'' @ requester_key ulid_str (sr_requester req)"

definition hour_in_window :: "u8 \<Rightarrow> u8 \<Rightarrow> u8 \<Rightarrow> bool" where
  "hour_in_window hour_utc_start hour_utc_end hour =
     (if hour_utc_end > hour_utc_start then hour \<ge> hour_utc_start \<and> hour < hour_utc_end
      else hour \<ge> hour_utc_start \<or> hour < hour_utc_end)"

definition time_window_contains :: "policy_crates \<Rightarrow> i64 \<Rightarrow> u8 \<Rightarrow> u8 \<Rightarrow> u8 \<Rightarrow> bool" where
  "time_window_contains pc unix_ms weekday_mask hour_utc_start hour_utc_end =
     (case pc_utc_from_unix pc (whole_units 1000 unix_ms) of
        None \<Rightarrow> False
      | Some (weekday_idx, hour) \<Rightarrow>
          if drop_bit weekday_idx weekday_mask AND 1 \<noteq> 1 then False
          else hour_in_window hour_utc_start hour_utc_end hour)"

definition address_eq :: "policy_crates \<Rightarrow> string \<Rightarrow> bytes \<Rightarrow> bool" where
  "address_eq pc addr_hex to_bytes =
     (case normalize_hex addr_hex of None \<Rightarrow> False
      | Some canonical \<Rightarrow> (case pc_hex_decode pc canonical of None \<Rightarrow> False
          | Some b \<Rightarrow> b = to_bytes))"

definition address_in :: "policy_crates \<Rightarrow> string list \<Rightarrow> bytes \<Rightarrow> bool" where
  "address_in pc addresses to_bytes = list_ex (\<lambda>a. address_eq pc a to_bytes) addresses"

definition selector_in :: "policy_crates \<Rightarrow> string list \<Rightarrow> bytes \<Rightarrow> bool" where
  "selector_in pc selectors sel =
     list_ex (\<lambda>s. case hex_to_bytes (pc_hex_decode pc) s of Some b \<Rightarrow> b = sel | None \<Rightarrow> False) selectors"

subsection \<open>The stages of evaluate\<close>

text \<open>The locals of \<open>evaluate\<close> that every stage reads.\<close>

record eval_ctx =
  ctx_decision_id :: decision_id
  ctx_policy_id :: policy_id
  ctx_request :: signing_request
  ctx_req_chain :: "u64 option"
  ctx_req_to :: "bytes option"
  ctx_req_vm :: "vm_type option"
  ctx_decoded :: "decoded_tx option"

definition req_to_of :: "signing_payload \<Rightarrow> bytes option" where
  "req_to_of p = (case p of VmTransaction vm c t raw \<Rightarrow> t | _ \<Rightarrow> None)"

definition raw_bytes_of :: "signing_payload \<Rightarrow> bytes" where
  "raw_bytes_of p = (case p of VmTransaction vm c t raw \<Rightarrow> raw | _ \<Rightarrow> [])"

definition eval_prologue :: "rule_set_policy \<Rightarrow> decision_id \<Rightarrow> signing_request \<Rightarrow> eval_ctx" where
  "eval_prologue self d request =
     (let p = sr_payload request; req_vm = vm_of p in
      \<lparr>ctx_decision_id = d, ctx_policy_id = rs_policy_id (rsp_rules self), ctx_request = request,
       ctx_req_chain = chain_id_of p, ctx_req_to = req_to_of p, ctx_req_vm = req_vm,
       ctx_decoded = (case (rsp_decoder self, req_vm) of
           (Some dec, Some vm) \<Rightarrow> dec vm (raw_bytes_of p)
         | _ \<Rightarrow> None)\<rparr>)"

datatype flow = Continue "rule_hit list" | Return policy_decision

type_synonym stage = "rule list \<Rightarrow> rule_hit list \<Rightarrow> (policy_error, flow) outcome"

definition deny_with :: "eval_ctx \<Rightarrow> rule_hit list \<Rightarrow> string \<Rightarrow> string \<Rightarrow> deny_reason \<Rightarrow> flow" where
  "deny_with ctx rationale rule_id message reason =
     Return (Deny (ctx_decision_id ctx) (ctx_policy_id ctx) reason
       (push_hit rationale rule_id EffectDeny message))"

definition decoded_value :: "eval_ctx \<Rightarrow> u256 option" where
  "decoded_value ctx = Option.bind (ctx_decoded ctx) dtx_value"

definition decoded_selector :: "eval_ctx \<Rightarrow> bytes option" where
  "decoded_selector ctx = Option.bind (ctx_decoded ctx) dtx_method_selector"

definition decoded_gas :: "eval_ctx \<Rightarrow> u64 option" where
  "decoded_gas ctx = Option.bind (ctx_decoded ctx) dtx_gas_limit"

text \<open>A stage that returns at the first rule on which \<open>bad\<close> holds.\<close>

fun first_rule :: "(rule \<Rightarrow> bool) \<Rightarrow> flow \<Rightarrow> rule list \<Rightarrow> flow \<Rightarrow> flow" where
  "first_rule bad ret [] cont = cont"
| "first_rule bad ret (rule # rules) cont =
     (if bad rule then ret else first_rule bad ret rules cont)"

definition denies_chain :: "u64 \<Rightarrow> rule \<Rightarrow> bool" where
  "denies_chain chain rule = (case rule of DenyChain chain_ids \<Rightarrow> chain \<in> set chain_ids | _ \<Rightarrow> False)"

definition stage_deny_chain :: "eval_ctx \<Rightarrow> stage" where
  "stage_deny_chain ctx rules rationale = Ok
     (case ctx_req_chain ctx of
        None \<Rightarrow> Continue rationale
      | Some chain \<Rightarrow>
          first_rule (denies_chain chain)
            (deny_with ctx rationale ''deny-chain''
               (''chain '' @ show_nat (unat chain) @ '' is on deny list'') ChainDenied)
            rules (Continue rationale))"

definition denies_contract :: "policy_crates \<Rightarrow> u64 \<Rightarrow> bytes \<Rightarrow> rule \<Rightarrow> bool" where
  "denies_contract pc chain to rule =
     (case rule of DenyContract chain_id addresses \<Rightarrow> chain_id = chain \<and> address_in pc addresses to
      | _ \<Rightarrow> False)"

definition stage_deny_contract :: "policy_crates \<Rightarrow> eval_ctx \<Rightarrow> stage" where
  "stage_deny_contract pc ctx rules rationale = Ok
     (case (ctx_req_chain ctx, ctx_req_to ctx) of
        (Some chain, Some to) \<Rightarrow>
          first_rule (denies_contract pc chain to)
            (deny_with ctx rationale ''deny-contract'' ''contract address is on deny list''
               (OtherReason ''contract denied''))
            rules (Continue rationale)
      | _ \<Rightarrow> Continue rationale)"

definition is_allow_chain :: "rule \<Rightarrow> bool" where
  "is_allow_chain rule = (case rule of AllowChain chain_ids \<Rightarrow> True | _ \<Rightarrow> False)"

definition allows_chain :: "u64 \<Rightarrow> rule \<Rightarrow> bool" where
  "allows_chain chain rule = (case rule of AllowChain chain_ids \<Rightarrow> chain \<in> set chain_ids | _ \<Rightarrow> False)"

definition stage_allow_chain :: "eval_ctx \<Rightarrow> stage" where
  "stage_allow_chain ctx rules rationale = Ok
     (let any_allow_chain = list_ex is_allow_chain rules in
      if any_allow_chain then
        let chain_allowed = (case ctx_req_chain ctx of None \<Rightarrow> False
              | Some c \<Rightarrow> list_ex (allows_chain c) rules) in
        if \<not> chain_allowed
        then deny_with ctx rationale ''allow-chain-filter''
               ''chain not present in any allow_chain rule'' ChainNotAllowed
        else Continue (push_hit rationale ''allow-chain-filter'' EffectAllow
               ''chain present in allow_chain rule'')
      else Continue rationale)"

definition is_allow_contract :: "u64 \<Rightarrow> rule \<Rightarrow> bool" where
  "is_allow_contract chain rule =
     (case rule of AllowContract chain_id addresses \<Rightarrow> chain_id = chain | _ \<Rightarrow> False)"

definition allows_contract :: "policy_crates \<Rightarrow> u64 \<Rightarrow> bytes \<Rightarrow> rule \<Rightarrow> bool" where
  "allows_contract pc chain to rule =
     (case rule of AllowContract chain_id addresses \<Rightarrow> chain_id = chain \<and> address_in pc addresses to
      | _ \<Rightarrow> False)"

definition stage_allow_contract :: "policy_crates \<Rightarrow> eval_ctx \<Rightarrow> stage" where
  "stage_allow_contract pc ctx rules rationale = Ok
     (case ctx_req_chain ctx of
        None \<Rightarrow> Continue rationale
      | Some chain \<Rightarrow>
          let any_allow_contract_for_chain = list_ex (is_allow_contract chain) rules in
          if any_allow_contract_for_chain then
            let allowed = (case ctx_req_to ctx of None \<Rightarrow> False
                  | Some to \<Rightarrow> list_ex (allows_contract pc chain to) rules) in
            if \<not> allowed
            then deny_with ctx rationale ''allow-contract-filter''
                   ''contract not on allow list for chain'' (OtherReason ''contract not on allow list'')
            else Continue (push_hit rationale ''allow-contract-filter'' EffectAllow ''contract on allow list'')
          else Continue rationale)"

definition method_rule_applies :: "policy_crates \<Rightarrow> u64 \<Rightarrow> bytes option \<Rightarrow> rule \<Rightarrow> bool" where
  "method_rule_applies pc chain req_to rule =
     (case rule of
        AllowMethod chain_id contract selectors \<Rightarrow>
          chain_id = chain \<and>
          (case (contract, req_to) of
             (None, _) \<Rightarrow> True
           | (Some addr, Some to) \<Rightarrow> address_eq pc addr to
           | (Some _, None) \<Rightarrow> False)
      | _ \<Rightarrow> False)"

definition allows_selector :: "policy_crates \<Rightarrow> bytes \<Rightarrow> rule \<Rightarrow> bool" where
  "allows_selector pc sel rule =
     (case rule of AllowMethod chain_id contract selectors \<Rightarrow> selector_in pc selectors sel | _ \<Rightarrow> False)"

definition stage_allow_method :: "policy_crates \<Rightarrow> eval_ctx \<Rightarrow> stage" where
  "stage_allow_method pc ctx rules rationale = Ok
     (case ctx_req_chain ctx of
        None \<Rightarrow> Continue rationale
      | Some chain \<Rightarrow>
          let applicable = filter (method_rule_applies pc chain (ctx_req_to ctx)) rules in
          if applicable \<noteq> [] then
            let selector = decoded_selector ctx;
                ok = (case selector of None \<Rightarrow> False
                  | Some sel \<Rightarrow> list_ex (allows_selector pc sel) applicable) in
            if \<not> ok
            then deny_with ctx rationale ''allow-method-filter''
                   ''method selector not on allow list (or missing decoder)'' (OtherReason ''method not allowed'')
            else Continue (push_hit rationale ''allow-method-filter'' EffectAllow ''method selector on allow list'')
          else Continue rationale)"

fun value_cap_loop :: "policy_crates \<Rightarrow> eval_ctx \<Rightarrow> u64 \<Rightarrow> u256 option \<Rightarrow> stage" where
  "value_cap_loop pc ctx chain req_value [] rationale = Ok (Continue rationale)"
| "value_cap_loop pc ctx chain req_value (ValueCap chain_id max_val # rules) rationale =
     (if chain_id \<noteq> chain then value_cap_loop pc ctx chain req_value rules rationale
      else obind (ok_or (parse_u256 pc max_val) (Misconfiguration ''invalid U256 in value_cap'')) (\<lambda>max.
        case req_value of
          Some v \<Rightarrow>
            if v > max
            then Ok (deny_with ctx rationale ''value-cap'' ''transaction value exceeds cap''
                   (OtherReason ''value cap exceeded''))
            else value_cap_loop pc ctx chain req_value rules rationale
        | None \<Rightarrow> value_cap_loop pc ctx chain req_value rules rationale))"
| "value_cap_loop pc ctx chain req_value (rule # rules) rationale =
     value_cap_loop pc ctx chain req_value rules rationale"

definition stage_value_cap :: "policy_crates \<Rightarrow> eval_ctx \<Rightarrow> stage" where
  "stage_value_cap pc ctx rules rationale =
     (case ctx_req_chain ctx of
        None \<Rightarrow> Ok (Continue rationale)
      | Some chain \<Rightarrow> value_cap_loop pc ctx chain (decoded_value ctx) rules rationale)"

definition outside_window :: "policy_crates \<Rightarrow> i64 \<Rightarrow> rule \<Rightarrow> bool" where
  "outside_window pc t rule =
     (case rule of TimeWindow weekday_mask hour_utc_start hour_utc_end \<Rightarrow>
        \<not> time_window_contains pc t weekday_mask hour_utc_start hour_utc_end
      | _ \<Rightarrow> False)"

definition stage_time_window :: "policy_crates \<Rightarrow> eval_ctx \<Rightarrow> stage" where
  "stage_time_window pc ctx rules rationale = Ok
     (first_rule (outside_window pc (sr_received_at_unix_ms (ctx_request ctx)))
        (deny_with ctx rationale ''time-window'' ''request outside permitted UTC time window''
           (OtherReason ''outside time window''))
        rules (Continue rationale))"

fun stage_rate_limit ::
  "(ulid \<Rightarrow> string) \<Rightarrow> i64 \<Rightarrow> eval_ctx \<Rightarrow> rule list \<Rightarrow> rule_hit list \<Rightarrow> limiter \<Rightarrow> flow \<times> limiter" where
  "stage_rate_limit ulid_str now ctx [] rationale lm = (Continue rationale, lm)"
| "stage_rate_limit ulid_str now ctx (RateLimit toks refill_per_secs scope # rules) rationale lm =
     (let key = rate_limit_key ulid_str scope (ctx_request ctx) in
      case try_acquire now lm key toks refill_per_secs of (ok, lm) \<Rightarrow>
        if \<not> ok
        then (deny_with ctx rationale ''rate-limit'' ''token-bucket exhausted'' (OtherReason ''rate limited''), lm)
        else stage_rate_limit ulid_str now ctx rules rationale lm)"
| "stage_rate_limit ulid_str now ctx (rule # rules) rationale lm =
     stage_rate_limit ulid_str now ctx rules rationale lm"

text \<open>The three checks of one \<open>VmShape\<close> rule: \<open>Some\<close> is the returned decision.\<close>

definition vm_shape_check ::
  "policy_crates \<Rightarrow> eval_ctx \<Rightarrow> vm_shape_constraints \<Rightarrow> rule_hit list \<Rightarrow> (policy_error, flow option) outcome" where
  "vm_shape_check pc ctx constraints rationale =
     obind (case max_value constraints of
         None \<Rightarrow> Ok None
       | Some max_v_str \<Rightarrow>
           obind (ok_or (parse_u256 pc max_v_str) (Misconfiguration ''invalid U256 in vm_shape.max_value'')) (\<lambda>max.
           Ok (case decoded_value ctx of
                 Some v \<Rightarrow> if v > max
                   then Some (deny_with ctx rationale ''vm-shape-max-value'' ''vm_shape.max_value exceeded''
                                (OtherReason ''vm-shape constraint''))
                   else None
               | None \<Rightarrow> None))) (\<lambda>r.
     Ok (case r of Some f \<Rightarrow> Some f
       | None \<Rightarrow>
         (case (max_gas constraints, decoded_gas ctx) of
            (Some mg, Some g) \<Rightarrow> if g > mg
              then Some (deny_with ctx rationale ''vm-shape-max-gas'' ''vm_shape.max_gas exceeded''
                           (OtherReason ''vm-shape constraint''))
              else None
          | _ \<Rightarrow> None)))"

definition vm_shape_method ::
  "policy_crates \<Rightarrow> eval_ctx \<Rightarrow> vm_shape_constraints \<Rightarrow> rule_hit list \<Rightarrow> flow option" where
  "vm_shape_method pc ctx constraints rationale =
     (case (allowed_method_selectors constraints, decoded_selector ctx) of
        (Some allowed_sels, Some sel) \<Rightarrow>
          if \<not> selector_in pc allowed_sels sel
          then Some (deny_with ctx rationale ''vm-shape-method'' ''vm_shape selector not allowed''
                       (OtherReason ''vm-shape constraint''))
          else None
      | _ \<Rightarrow> None)"

fun vm_shape_loop :: "policy_crates \<Rightarrow> eval_ctx \<Rightarrow> vm_type \<Rightarrow> stage" where
  "vm_shape_loop pc ctx req_vm [] rationale = Ok (Continue rationale)"
| "vm_shape_loop pc ctx req_vm (VmShape vm constraints # rules) rationale =
     (if vm \<noteq> req_vm then vm_shape_loop pc ctx req_vm rules rationale
      else obind (vm_shape_check pc ctx constraints rationale) (\<lambda>r.
        case r of Some f \<Rightarrow> Ok f
        | None \<Rightarrow> (case vm_shape_method pc ctx constraints rationale of Some f \<Rightarrow> Ok f
            | None \<Rightarrow> vm_shape_loop pc ctx req_vm rules rationale)))"
| "vm_shape_loop pc ctx req_vm (rule # rules) rationale = vm_shape_loop pc ctx req_vm rules rationale"

definition stage_vm_shape :: "policy_crates \<Rightarrow> eval_ctx \<Rightarrow> stage" where
  "stage_vm_shape pc ctx rules rationale =
     (case ctx_req_vm ctx of
        None \<Rightarrow> Ok (Continue rationale)
      | Some req_vm \<Rightarrow> vm_shape_loop pc ctx req_vm rules rationale)"

fun trigger_fires :: "policy_crates \<Rightarrow> eval_ctx \<Rightarrow> quorum_trigger \<Rightarrow> (policy_error, bool) outcome" where
  "trigger_fires pc ctx Always = Ok True"
| "trigger_fires pc ctx (ValueGte chain_id value) =
     obind (ok_or (parse_u256 pc value) (Misconfiguration ''invalid U256 in quorum value_gte trigger'')) (\<lambda>thresh.
     Ok (case (ctx_req_chain ctx, decoded_value ctx) of
           (Some c, Some v) \<Rightarrow> c = chain_id \<and> v \<ge> thresh
         | _ \<Rightarrow> False))"
| "trigger_fires pc ctx (OutsideTimeWindow weekday_mask hour_utc_start hour_utc_end) =
     Ok (\<not> time_window_contains pc (sr_received_at_unix_ms (ctx_request ctx)) weekday_mask hour_utc_start hour_utc_end)"

fun stage_require_quorum :: "policy_crates \<Rightarrow> eval_ctx \<Rightarrow> stage" where
  "stage_require_quorum pc ctx [] rationale = Ok (Continue rationale)"
| "stage_require_quorum pc ctx (QuorumRule threshold tot approver_set trigger # rules) rationale =
     obind (trigger_fires pc ctx trigger) (\<lambda>fires.
       if fires
       then Ok (Return (RequireQuorum (ctx_decision_id ctx) (ctx_policy_id ctx) threshold tot approver_set
              (push_hit rationale ''require-quorum'' EffectRequireQuorum ''quorum trigger matched'')))
       else stage_require_quorum pc ctx rules rationale)"
| "stage_require_quorum pc ctx (rule # rules) rationale = stage_require_quorum pc ctx rules rationale"

definition stage_default :: "eval_ctx \<Rightarrow> allow_default \<Rightarrow> rule_hit list \<Rightarrow> policy_decision" where
  "stage_default ctx dflt rationale =
     (case dflt of
        DefaultAllow \<Rightarrow> Allow (ctx_decision_id ctx) (ctx_policy_id ctx)
          (push_hit rationale ''default-allow'' EffectAllow ''no terminating rule matched; default is allow'')
      | DefaultDeny \<Rightarrow> Deny (ctx_decision_id ctx) (ctx_policy_id ctx) (OtherReason ''policy default'')
          (push_hit rationale ''default-deny'' EffectDeny ''no terminating rule matched; default is deny''))"

subsection \<open>evaluate\<close>

text \<open>The next stage runs on the rationale of the one before, unless that one returned.\<close>

definition andthen :: "(policy_error, flow) outcome \<Rightarrow> (rule_hit list \<Rightarrow> (policy_error, flow) outcome) \<Rightarrow>
   (policy_error, flow) outcome" where
  "andthen s next = obind s (\<lambda>f. case f of Continue rationale \<Rightarrow> next rationale | Return d \<Rightarrow> Ok (Return d))"

definition eval_filters :: "policy_crates \<Rightarrow> eval_ctx \<Rightarrow> rule list \<Rightarrow> (policy_error, flow) outcome" where
  "eval_filters pc ctx rules =
     andthen (andthen (andthen (andthen (andthen (andthen
       (stage_deny_chain ctx rules [])
       (stage_deny_contract pc ctx rules))
       (stage_allow_chain ctx rules))
       (stage_allow_contract pc ctx rules))
       (stage_allow_method pc ctx rules))
       (stage_value_cap pc ctx rules))
       (stage_time_window pc ctx rules)"

definition eval_tail ::
  "policy_crates \<Rightarrow> eval_ctx \<Rightarrow> allow_default \<Rightarrow> rule list \<Rightarrow> rule_hit list \<Rightarrow> (policy_error, policy_decision) outcome" where
  "eval_tail pc ctx dflt rules rationale =
     obind (andthen (stage_vm_shape pc ctx rules rationale) (stage_require_quorum pc ctx rules)) (\<lambda>f.
       case f of Continue rationale \<Rightarrow> Ok (stage_default ctx dflt rationale) | Return d \<Rightarrow> Ok d)"

definition rs_evaluate ::
  "policy_crates \<Rightarrow> rule_set_policy \<Rightarrow> i64 \<Rightarrow> decision_id \<Rightarrow> limiter \<Rightarrow> signing_request \<Rightarrow>
   (policy_error, policy_decision) outcome \<times> limiter" where
  "rs_evaluate pc self now d lm request =
     (let ctx = eval_prologue self d request; rules = rs_rules (rsp_rules self) in
      case eval_filters pc ctx rules of
        Err e \<Rightarrow> (Err e, lm)
      | Panic m \<Rightarrow> (Panic m, lm)
      | Ok (Return dec) \<Rightarrow> (Ok dec, lm)
      | Ok (Continue rationale) \<Rightarrow>
          (case stage_rate_limit (pc_ulid_str pc) now ctx rules rationale lm of
             (Return dec, lm) \<Rightarrow> (Ok dec, lm)
           | (Continue rationale, lm) \<Rightarrow>
               (eval_tail pc ctx (rs_default (rsp_rules self)) rules rationale, lm)))"

subsection \<open>The order-free reading of the stages\<close>

text \<open>
  The abstract policy: each stage as a predicate on the set of rules. \<open>filters_pass\<close> is
  the conjunction of stages 1 to 7, \<open>shape_ok\<close> is stage 9.
\<close>

definition chain_not_denied :: "eval_ctx \<Rightarrow> rule set \<Rightarrow> bool" where
  "chain_not_denied ctx R \<longleftrightarrow> (\<forall>c. ctx_req_chain ctx = Some c \<longrightarrow> (\<forall>r \<in> R. \<not> denies_chain c r))"

definition contract_not_denied :: "policy_crates \<Rightarrow> eval_ctx \<Rightarrow> rule set \<Rightarrow> bool" where
  "contract_not_denied pc ctx R \<longleftrightarrow>
     (\<forall>c t. ctx_req_chain ctx = Some c \<longrightarrow> ctx_req_to ctx = Some t \<longrightarrow> (\<forall>r \<in> R. \<not> denies_contract pc c t r))"

definition chain_allowed :: "eval_ctx \<Rightarrow> rule set \<Rightarrow> bool" where
  "chain_allowed ctx R \<longleftrightarrow> (\<exists>r \<in> R. is_allow_chain r) \<longrightarrow>
     (\<exists>c. ctx_req_chain ctx = Some c \<and> (\<exists>r \<in> R. allows_chain c r))"

definition contract_allowed :: "policy_crates \<Rightarrow> eval_ctx \<Rightarrow> rule set \<Rightarrow> bool" where
  "contract_allowed pc ctx R \<longleftrightarrow>
     (\<forall>c. ctx_req_chain ctx = Some c \<longrightarrow> (\<exists>r \<in> R. is_allow_contract c r) \<longrightarrow>
        (\<exists>t. ctx_req_to ctx = Some t \<and> (\<exists>r \<in> R. allows_contract pc c t r)))"

definition method_allowed :: "policy_crates \<Rightarrow> eval_ctx \<Rightarrow> rule set \<Rightarrow> bool" where
  "method_allowed pc ctx R \<longleftrightarrow>
     (\<forall>c. ctx_req_chain ctx = Some c \<longrightarrow> (\<exists>r \<in> R. method_rule_applies pc c (ctx_req_to ctx) r) \<longrightarrow>
        (\<exists>sel. decoded_selector ctx = Some sel \<and>
          (\<exists>r \<in> R. method_rule_applies pc c (ctx_req_to ctx) r \<and> allows_selector pc sel r)))"

definition cap_respected :: "policy_crates \<Rightarrow> eval_ctx \<Rightarrow> rule \<Rightarrow> bool" where
  "cap_respected pc ctx rule =
     (case rule of ValueCap c m \<Rightarrow> ctx_req_chain ctx = Some c \<longrightarrow>
        (\<forall>v mx. decoded_value ctx = Some v \<longrightarrow> parse_u256 pc m = Some mx \<longrightarrow> v \<le> mx)
      | _ \<Rightarrow> True)"

definition within_caps :: "policy_crates \<Rightarrow> eval_ctx \<Rightarrow> rule set \<Rightarrow> bool" where
  "within_caps pc ctx R \<longleftrightarrow> (\<forall>r \<in> R. cap_respected pc ctx r)"

definition within_windows :: "policy_crates \<Rightarrow> eval_ctx \<Rightarrow> rule set \<Rightarrow> bool" where
  "within_windows pc ctx R \<longleftrightarrow>
     (\<forall>r \<in> R. \<not> outside_window pc (sr_received_at_unix_ms (ctx_request ctx)) r)"

definition filters_pass :: "policy_crates \<Rightarrow> eval_ctx \<Rightarrow> rule set \<Rightarrow> bool" where
  "filters_pass pc ctx R \<longleftrightarrow> chain_not_denied ctx R \<and> contract_not_denied pc ctx R \<and> chain_allowed ctx R \<and>
     contract_allowed pc ctx R \<and> method_allowed pc ctx R \<and> within_caps pc ctx R \<and> within_windows pc ctx R"

definition constraints_ok :: "policy_crates \<Rightarrow> eval_ctx \<Rightarrow> vm_shape_constraints \<Rightarrow> bool" where
  "constraints_ok pc ctx k \<longleftrightarrow>
     (\<forall>m mx v. max_value k = Some m \<longrightarrow> parse_u256 pc m = Some mx \<longrightarrow> decoded_value ctx = Some v \<longrightarrow> v \<le> mx) \<and>
     (\<forall>mg g. max_gas k = Some mg \<longrightarrow> decoded_gas ctx = Some g \<longrightarrow> g \<le> mg) \<and>
     (\<forall>sels sel. allowed_method_selectors k = Some sels \<longrightarrow> decoded_selector ctx = Some sel \<longrightarrow>
        selector_in pc sels sel)"

definition shape_respected :: "policy_crates \<Rightarrow> eval_ctx \<Rightarrow> rule \<Rightarrow> bool" where
  "shape_respected pc ctx rule =
     (case rule of VmShape vm k \<Rightarrow> ctx_req_vm ctx = Some vm \<longrightarrow> constraints_ok pc ctx k | _ \<Rightarrow> True)"

definition shape_ok :: "policy_crates \<Rightarrow> eval_ctx \<Rightarrow> rule set \<Rightarrow> bool" where
  "shape_ok pc ctx R \<longleftrightarrow> (\<forall>r \<in> R. shape_respected pc ctx r)"

definition quorum_fires :: "policy_crates \<Rightarrow> eval_ctx \<Rightarrow> rule \<Rightarrow> bool" where
  "quorum_fires pc ctx rule =
     (case rule of QuorumRule t n s trig \<Rightarrow> trigger_fires pc ctx trig = Ok True | _ \<Rightarrow> False)"

text \<open>The rate-limit calls of a request, and charging them until the first refusal.\<close>

fun rate_call :: "(ulid \<Rightarrow> string) \<Rightarrow> i64 \<Rightarrow> signing_request \<Rightarrow> rule \<Rightarrow> acquire_call list" where
  "rate_call ulid_str now req (RateLimit t f sc) =
     [\<lparr>ac_now = now, ac_key = rate_limit_key ulid_str sc req, ac_capacity = t, ac_refill = f\<rparr>]"
| "rate_call ulid_str now req rule = []"

definition rate_calls :: "(ulid \<Rightarrow> string) \<Rightarrow> i64 \<Rightarrow> signing_request \<Rightarrow> rule list \<Rightarrow> acquire_call list" where
  "rate_calls ulid_str now req rules = concat (map (rate_call ulid_str now req) rules)"

fun charge :: "limiter \<Rightarrow> acquire_call list \<Rightarrow> bool \<times> limiter" where
  "charge lm [] = (True, lm)"
| "charge lm (c # cs) =
     (case try_acquire (ac_now c) lm (ac_key c) (ac_capacity c) (ac_refill c) of
        (ok, lm) \<Rightarrow> if ok then charge lm cs else (False, lm))"

datatype verdict = VAllow | VDeny | VQuorum u8 u8 approver_set_id

primrec verdict_of :: "policy_decision \<Rightarrow> verdict" where
  "verdict_of (Allow d p r) = VAllow"
| "verdict_of (Deny d p e r) = VDeny"
| "verdict_of (RequireQuorum d p t n s r) = VQuorum t n s"

definition quorum_verdict :: "policy_crates \<Rightarrow> eval_ctx \<Rightarrow> allow_default \<Rightarrow> rule list \<Rightarrow> verdict" where
  "quorum_verdict pc ctx dflt rules =
     (case find (quorum_fires pc ctx) rules of
        Some (QuorumRule t n s trig) \<Rightarrow> VQuorum t n s
      | _ \<Rightarrow> (case dflt of DefaultAllow \<Rightarrow> VAllow | DefaultDeny \<Rightarrow> VDeny))"

definition spec_evaluate ::
  "policy_crates \<Rightarrow> rule_set_policy \<Rightarrow> i64 \<Rightarrow> decision_id \<Rightarrow> limiter \<Rightarrow> signing_request \<Rightarrow> verdict \<times> limiter" where
  "spec_evaluate pc self now d lm request =
     (let ctx = eval_prologue self d request; rules = rs_rules (rsp_rules self) in
      if \<not> filters_pass pc ctx (set rules) then (VDeny, lm)
      else (case charge lm (rate_calls (pc_ulid_str pc) now request rules) of
          (ok, lm) \<Rightarrow>
            (if ok \<and> shape_ok pc ctx (set rules) then quorum_verdict pc ctx (rs_default (rsp_rules self)) rules
             else VDeny, lm)))"

definition valid_rules :: "policy_crates \<Rightarrow> rule list \<Rightarrow> bool" where
  "valid_rules pc rules \<longleftrightarrow> list_all (\<lambda>r. validate_rule pc r = Ok ()) rules"

subsection \<open>Stages as checks\<close>

definition own :: "eval_ctx \<Rightarrow> policy_decision \<Rightarrow> bool" where
  "own ctx dec \<longleftrightarrow> decision_id_of dec = ctx_decision_id ctx \<and> policy_id_of dec = ctx_policy_id ctx \<and> explained dec"

text \<open>The result of a stage that denies exactly when its check fails.\<close>

definition checks :: "eval_ctx \<Rightarrow> bool \<Rightarrow> (policy_error, flow) outcome \<Rightarrow> bool" where
  "checks ctx pass res \<longleftrightarrow>
     (if pass then \<exists>rat. res = Ok (Continue rat) \<and> passed_only rat
      else \<exists>dec. res = Ok (Return dec) \<and> is_deny dec \<and> own ctx dec)"

named_theorems stage_checks

lemma passed_only_push [simp]:
  "passed_only (push_hit rat i e m) \<longleftrightarrow> passed_only rat \<and> e = EffectAllow"
  by (auto simp: passed_only_def push_hit_def)

lemma own_deny [simp]:
  "passed_only rat \<Longrightarrow> own ctx (Deny (ctx_decision_id ctx) (ctx_policy_id ctx) e (push_hit rat i EffectDeny m))"
  by (simp add: own_def explained_def push_hit_def passed_only_def)

lemma checks_continue [simp]: "passed_only rat \<Longrightarrow> checks ctx pass (Ok (Continue rat)) = pass"
  by (simp add: checks_def)

lemma checks_deny [simp]: "passed_only rat \<Longrightarrow> checks ctx pass (Ok (deny_with ctx rat i m e)) = (\<not> pass)"
  by (simp add: checks_def deny_with_def)

lemma checks_andthen:
  assumes "checks ctx p s" and "\<And>rat. passed_only rat \<Longrightarrow> checks ctx q (next rat)"
  shows "checks ctx (p \<and> q) (andthen s next)"
  using assms by (cases p) (auto simp: checks_def andthen_def)

lemma first_rule_eq: "first_rule bad ret rules cont = (if \<exists>r \<in> set rules. bad r then ret else cont)"
  by (induction rules) auto

lemma stage_deny_chain_checks [stage_checks]:
  "passed_only rat \<Longrightarrow> checks ctx (chain_not_denied ctx (set rules)) (stage_deny_chain ctx rules rat)"
  by (auto simp: stage_deny_chain_def chain_not_denied_def first_rule_eq split: option.split)

lemma stage_deny_contract_checks [stage_checks]:
  "passed_only rat \<Longrightarrow> checks ctx (contract_not_denied pc ctx (set rules)) (stage_deny_contract pc ctx rules rat)"
  by (auto simp: stage_deny_contract_def contract_not_denied_def first_rule_eq split: option.split)

lemma stage_allow_chain_checks [stage_checks]:
  "passed_only rat \<Longrightarrow> checks ctx (chain_allowed ctx (set rules)) (stage_allow_chain ctx rules rat)"
  by (auto simp: stage_allow_chain_def chain_allowed_def list_ex_iff Let_def split: option.split)

lemma stage_allow_contract_checks [stage_checks]:
  "passed_only rat \<Longrightarrow> checks ctx (contract_allowed pc ctx (set rules)) (stage_allow_contract pc ctx rules rat)"
  by (auto simp: stage_allow_contract_def contract_allowed_def list_ex_iff Let_def split: option.split)

lemma stage_allow_method_checks [stage_checks]:
  "passed_only rat \<Longrightarrow> checks ctx (method_allowed pc ctx (set rules)) (stage_allow_method pc ctx rules rat)"
  by (auto simp: stage_allow_method_def method_allowed_def list_ex_iff Let_def filter_empty_conv split: option.split)

lemma validate_u256_Ok [simp]: "validate_u256 pc msg m = Ok () \<longleftrightarrow> parse_u256 pc m \<noteq> None"
  by (auto simp: validate_u256_def fail_if_def)

lemma valid_rules_Cons [simp]:
  "valid_rules pc (r # rs) \<longleftrightarrow> validate_rule pc r = Ok () \<and> valid_rules pc rs"
  by (simp add: valid_rules_def)

lemma value_cap_loop_checks:
  "passed_only rat \<Longrightarrow> valid_rules pc rules \<Longrightarrow> ctx_req_chain ctx = Some c \<Longrightarrow> decoded_value ctx = val \<Longrightarrow>
   checks ctx (\<forall>r \<in> set rules. cap_respected pc ctx r) (value_cap_loop pc ctx c val rules rat)"
proof (induction pc ctx c val rules rat rule: value_cap_loop.induct)
  case (2 pc ctx c val chain_id m rules rat)
  from "2.prems" obtain mx where mx: "parse_u256 pc m = Some mx" by auto
  have cap: "cap_respected pc ctx (ValueCap chain_id m) \<longleftrightarrow> (chain_id = c \<longrightarrow> (\<forall>v. val = Some v \<longrightarrow> v \<le> mx))"
    using "2.prems" mx by (auto simp: cap_respected_def)
  show ?case
  proof (cases "cap_respected pc ctx (ValueCap chain_id m)")
    case True
    with 2 mx show ?thesis by (auto simp: cap split: option.splits)
  next
    case False
    then obtain v where "chain_id = c" "val = Some v" "mx < v" by (auto simp: cap not_le)
    with "2.prems" mx False show ?thesis by simp
  qed
qed (auto simp: cap_respected_def)

lemma stage_value_cap_checks [stage_checks]:
  "passed_only rat \<Longrightarrow> valid_rules pc rules \<Longrightarrow>
   checks ctx (within_caps pc ctx (set rules)) (stage_value_cap pc ctx rules rat)"
proof (cases "ctx_req_chain ctx")
  case None
  then have "cap_respected pc ctx r" for r by (auto simp: cap_respected_def split: rule.split)
  with None show "passed_only rat \<Longrightarrow> ?thesis" by (simp add: stage_value_cap_def within_caps_def)
qed (simp add: stage_value_cap_def within_caps_def value_cap_loop_checks)

lemma stage_time_window_checks [stage_checks]:
  "passed_only rat \<Longrightarrow> checks ctx (within_windows pc ctx (set rules)) (stage_time_window pc ctx rules rat)"
  by (auto simp: stage_time_window_def within_windows_def first_rule_eq)

lemma eval_filters_checks:
  assumes "valid_rules pc rules"
  shows "checks ctx (filters_pass pc ctx (set rules)) (eval_filters pc ctx rules)"
  unfolding filters_pass_def eval_filters_def conj_assoc [symmetric]
  by (intro checks_andthen stage_checks assms) (simp_all add: passed_only_def)

text \<open>One \<open>VmShape\<close> rule: the three checks return a denial exactly when a constraint is broken.\<close>

definition shape_result ::
  "policy_crates \<Rightarrow> eval_ctx \<Rightarrow> vm_shape_constraints \<Rightarrow> rule_hit list \<Rightarrow> (policy_error, flow option) outcome" where
  "shape_result pc ctx k rat = obind (vm_shape_check pc ctx k rat) (\<lambda>r.
     Ok (case r of Some f \<Rightarrow> Some f | None \<Rightarrow> vm_shape_method pc ctx k rat))"

lemma shape_result_ok:
  assumes "validate_rule pc (VmShape vm k) = Ok ()" "constraints_ok pc ctx k"
  shows "shape_result pc ctx k rat = Ok None"
proof (cases "max_value k")
  case None
  with assms(2) show ?thesis
    by (auto simp: shape_result_def vm_shape_check_def vm_shape_method_def constraints_ok_def not_less
        split: option.splits)
next
  case (Some m)
  with assms(1) obtain mx where "parse_u256 pc m = Some mx" by (auto simp: outcome_simps)
  with Some assms(2) show ?thesis
    by (auto simp: shape_result_def vm_shape_check_def vm_shape_method_def constraints_ok_def not_less
        split: option.splits)
qed

lemma shape_result_bad:
  assumes "validate_rule pc (VmShape vm k) = Ok ()" "\<not> constraints_ok pc ctx k"
  shows "\<exists>i m e. shape_result pc ctx k rat = Ok (Some (deny_with ctx rat i m e))"
proof (cases "max_value k")
  case None
  with assms(2) show ?thesis
    by (auto simp: shape_result_def vm_shape_check_def vm_shape_method_def constraints_ok_def not_le
        split: option.splits)
next
  case (Some m)
  with assms(1) obtain mx where "parse_u256 pc m = Some mx" by (auto simp: outcome_simps)
  with Some assms(2) show ?thesis
    by (auto simp: shape_result_def vm_shape_check_def vm_shape_method_def constraints_ok_def not_le
        split: option.splits)
qed

lemma vm_shape_loop_step:
  "vm_shape_loop pc ctx vm (VmShape vm k # rules) rat = obind (shape_result pc ctx k rat) (\<lambda>r.
     case r of Some f \<Rightarrow> Ok f | None \<Rightarrow> vm_shape_loop pc ctx vm rules rat)"
  by (cases "vm_shape_check pc ctx k rat") (auto simp: shape_result_def split: option.split)

lemma vm_shape_loop_checks:
  "passed_only rat \<Longrightarrow> valid_rules pc rules \<Longrightarrow> ctx_req_vm ctx = Some vm \<Longrightarrow>
   checks ctx (\<forall>r \<in> set rules. shape_respected pc ctx r) (vm_shape_loop pc ctx vm rules rat)"
proof (induction rules)
  case Nil
  then show ?case by simp
next
  case (Cons r rules)
  then have v: "validate_rule pc r = Ok ()" and
    IH: "checks ctx (\<forall>r \<in> set rules. shape_respected pc ctx r) (vm_shape_loop pc ctx vm rules rat)"
    by simp_all
  show ?case
  proof (cases "\<exists>k. r = VmShape vm k")
    case True
    then obtain k where r: "r = VmShape vm k" by blast
    with Cons.prems have sr: "shape_respected pc ctx r \<longleftrightarrow> constraints_ok pc ctx k"
      by (simp add: shape_respected_def)
    show ?thesis
    proof (cases "constraints_ok pc ctx k")
      case True
      with v r have "shape_result pc ctx k rat = Ok None" by (intro shape_result_ok) simp_all
      with sr IH True show ?thesis by (simp add: r vm_shape_loop_step del: vm_shape_loop.simps)
    next
      case False
      with v r obtain i m e where "shape_result pc ctx k rat = Ok (Some (deny_with ctx rat i m e))"
        using shape_result_bad by blast
      with sr False Cons.prems(1) show ?thesis by (simp add: r vm_shape_loop_step del: vm_shape_loop.simps)
    qed
  next
    case False
    then have "vm_shape_loop pc ctx vm (r # rules) rat = vm_shape_loop pc ctx vm rules rat"
      and "shape_respected pc ctx r"
      using Cons.prems(3) by (cases r; auto simp: shape_respected_def)+
    with IH show ?thesis by simp
  qed
qed

lemma stage_vm_shape_checks [stage_checks]:
  "passed_only rat \<Longrightarrow> valid_rules pc rules \<Longrightarrow>
   checks ctx (shape_ok pc ctx (set rules)) (stage_vm_shape pc ctx rules rat)"
proof (cases "ctx_req_vm ctx")
  case None
  then have "shape_respected pc ctx r" for r by (auto simp: shape_respected_def split: rule.split)
  with None show "passed_only rat \<Longrightarrow> ?thesis" by (simp add: stage_vm_shape_def shape_ok_def)
qed (simp add: stage_vm_shape_def shape_ok_def vm_shape_loop_checks)

subsection \<open>Rate limits, quorum and default\<close>

lemma rate_calls_Cons: "rate_calls u now req (r # rules) = rate_call u now req r @ rate_calls u now req rules"
  by (simp add: rate_calls_def)

lemma stage_rate_limit_charge:
  assumes "passed_only rat" and "charge lm (rate_calls u now (ctx_request ctx) rules) = (ok, lm')"
  shows "snd (stage_rate_limit u now ctx rules rat lm) = lm'"
    and "ok \<Longrightarrow> fst (stage_rate_limit u now ctx rules rat lm) = Continue rat"
    and "\<not> ok \<Longrightarrow> \<exists>dec. fst (stage_rate_limit u now ctx rules rat lm) = Return dec \<and> is_deny dec \<and> own ctx dec"
proof -
  have "snd (stage_rate_limit u now ctx rules rat lm) = lm' \<and>
    (if ok then fst (stage_rate_limit u now ctx rules rat lm) = Continue rat
     else \<exists>dec. fst (stage_rate_limit u now ctx rules rat lm) = Return dec \<and> is_deny dec \<and> own ctx dec)"
    using assms
    by (induction u now ctx rules rat lm rule: stage_rate_limit.induct)
      (auto simp: rate_calls_Cons rate_calls_def Let_def deny_with_def split: prod.splits if_splits)
  then show "snd (stage_rate_limit u now ctx rules rat lm) = lm'"
    and "ok \<Longrightarrow> fst (stage_rate_limit u now ctx rules rat lm) = Continue rat"
    and "\<not> ok \<Longrightarrow> \<exists>dec. fst (stage_rate_limit u now ctx rules rat lm) = Return dec \<and> is_deny dec \<and> own ctx dec"
    by (auto split: if_splits)
qed

lemma trigger_fires_valid:
  "validate_rule pc (QuorumRule t n s trig) = Ok () \<Longrightarrow> \<exists>b. trigger_fires pc ctx trig = Ok b"
  by (cases trig) (auto simp: outcome_simps)

lemma stage_require_quorum_find:
  assumes "valid_rules pc rules"
  shows "case find (quorum_fires pc ctx) rules of
      Some (QuorumRule t n s trig) \<Rightarrow> stage_require_quorum pc ctx rules rat =
        Ok (Return (RequireQuorum (ctx_decision_id ctx) (ctx_policy_id ctx) t n s
          (push_hit rat ''require-quorum'' EffectRequireQuorum ''quorum trigger matched'')))
    | Some _ \<Rightarrow> False
    | None \<Rightarrow> stage_require_quorum pc ctx rules rat = Ok (Continue rat)"
  using assms
proof (induction rules)
  case Nil
  then show ?case by simp
next
  case (Cons r rules)
  show ?case
  proof (cases "quorum_fires pc ctx r")
    case True
    then show ?thesis by (cases r) (simp_all add: quorum_fires_def)
  next
    case False
    have eq: "stage_require_quorum pc ctx (r # rules) rat = stage_require_quorum pc ctx rules rat"
    proof (cases r)
      case (QuorumRule t n s trig)
      with False Cons.prems have "trigger_fires pc ctx trig = Ok False"
        using trigger_fires_valid [of pc t n s trig ctx] by (auto simp: quorum_fires_def)
      with QuorumRule show ?thesis by simp
    qed simp_all
    from False Cons show ?thesis unfolding eq by simp
  qed
qed

lemma eval_tail_verdict:
  assumes "valid_rules pc rules" "passed_only rat"
  shows "\<exists>dec. eval_tail pc ctx dflt rules rat = Ok dec \<and> own ctx dec \<and>
    verdict_of dec = (if shape_ok pc ctx (set rules) then quorum_verdict pc ctx dflt rules else VDeny)"
proof (cases "shape_ok pc ctx (set rules)")
  case True
  with stage_vm_shape_checks [OF assms(2,1), of ctx] obtain rat'
    where s: "stage_vm_shape pc ctx rules rat = Ok (Continue rat')" "passed_only rat'"
    by (auto simp: checks_def)
  from stage_require_quorum_find [OF assms(1), of ctx rat'] s True show ?thesis
    by (auto simp: eval_tail_def andthen_def quorum_verdict_def own_def explained_def push_hit_def
        stage_default_def passed_only_def split: option.splits rule.splits allow_default.splits)
next
  case False
  with stage_vm_shape_checks [OF assms(2,1), of ctx] obtain dec
    where "stage_vm_shape pc ctx rules rat = Ok (Return dec)" "is_deny dec" "own ctx dec"
    by (auto simp: checks_def)
  with False show ?thesis by (cases dec) (auto simp: eval_tail_def andthen_def)
qed

subsection \<open>evaluate refines the abstract policy\<close>

lemma eval_prologue_simps [simp]:
  "ctx_request (eval_prologue self d r) = r" "ctx_decision_id (eval_prologue self d r) = d"
  "ctx_policy_id (eval_prologue self d r) = rs_policy_id (rsp_rules self)"
  "ctx_req_chain (eval_prologue self d r) = chain_id_of (sr_payload r)"
  "ctx_req_to (eval_prologue self d r) = req_to_of (sr_payload r)"
  "ctx_req_vm (eval_prologue self d r) = vm_of (sr_payload r)"
  by (simp_all add: eval_prologue_def Let_def)

lemma is_deny_verdict: "is_deny dec \<longleftrightarrow> verdict_of dec = VDeny"
  by (cases dec) simp_all

lemma rs_evaluate_verdict:
  assumes "valid_rules pc (rs_rules (rsp_rules self))"
  shows "\<exists>dec. fst (rs_evaluate pc self now d lm r) = Ok dec \<and> own (eval_prologue self d r) dec \<and>
    (verdict_of dec, snd (rs_evaluate pc self now d lm r)) = spec_evaluate pc self now d lm r"
proof (cases "filters_pass pc (eval_prologue self d r) (set (rs_rules (rsp_rules self)))")
  let ?ctx = "eval_prologue self d r" and ?rules = "rs_rules (rsp_rules self)"
  case True
  with eval_filters_checks [OF assms, of ?ctx] obtain rat
    where f: "eval_filters pc ?ctx ?rules = Ok (Continue rat)" "passed_only rat"
    by (auto simp: checks_def)
  obtain ok lm' where c: "charge lm (rate_calls (pc_ulid_str pc) now (ctx_request ?ctx) ?rules) = (ok, lm')"
    by fastforce
  obtain fl lm'' where st: "stage_rate_limit (pc_ulid_str pc) now ?ctx ?rules rat lm = (fl, lm'')"
    by fastforce
  note sc = stage_rate_limit_charge [OF f(2) c, unfolded st fst_conv snd_conv]
  from eval_tail_verdict [OF assms f(2), of ?ctx "rs_default (rsp_rules self)"] show ?thesis
    using True f c st sc
    by (cases ok) (auto simp: rs_evaluate_def spec_evaluate_def Let_def is_deny_verdict)
next
  let ?ctx = "eval_prologue self d r" and ?rules = "rs_rules (rsp_rules self)"
  case False
  with eval_filters_checks [OF assms, of ?ctx] obtain dec
    where "eval_filters pc ?ctx ?rules = Ok (Return dec)" "is_deny dec" "own ?ctx dec"
    by (auto simp: checks_def)
  with False show ?thesis
    by (auto simp: rs_evaluate_def spec_evaluate_def Let_def is_deny_verdict)
qed

lemma with_components_Ok:
  "with_components pc rules dec = Ok self \<longleftrightarrow>
   rs_version rules = 1 \<and> valid_rules pc (rs_rules rules) \<and> self = \<lparr>rsp_rules = rules, rsp_decoder = dec\<rparr>"
  by (auto simp: with_components_def validate_def valid_rules_def outcome_simps oforeach_eq_Ok list_all_iff fail_if_def)

subsection \<open>The engine behind the Policy trait\<close>

text \<open>A configured policy: construction, then evaluation. The fields of \<open>RuleSetPolicy\<close> are
  private, so every policy the service holds went through \<open>with_components\<close>.\<close>

definition configured_evaluate ::
  "policy_crates \<Rightarrow> rule_set \<Rightarrow> vm_decoder option \<Rightarrow> i64 \<Rightarrow> decision_id \<Rightarrow> limiter \<Rightarrow> signing_request \<Rightarrow>
   (policy_error, policy_decision) outcome \<times> limiter" where
  "configured_evaluate pc rules decoder now d lm r =
     (case with_components pc rules decoder of
        Ok self \<Rightarrow> rs_evaluate pc self now d lm r
      | Err e \<Rightarrow> (Err e, lm) | Panic m \<Rightarrow> (Panic m, lm))"

lemma validate_rule_not_Panic: "validate_rule pc r \<noteq> Panic m"
proof -
  have "validate_selectors pc a b sels \<noteq> Panic m" for a b sels
    unfolding validate_selectors_def
    by (rule oforeach_not_Panic) (auto simp: outcome_simps fail_if_def)
  moreover have "validate_addresses pc as \<noteq> Panic m" for as
    unfolding validate_addresses_def by (rule oforeach_not_Panic) (simp add: fail_if_def)
  ultimately show ?thesis
    by (cases r) (auto simp: validate_u256_def fail_if_def split: option.split quorum_trigger.split)
qed

lemma with_components_not_Panic: "with_components pc rules dec \<noteq> Panic m"
  using oforeach_not_Panic [of _ "validate_rule pc"] validate_rule_not_Panic
  by (auto simp: with_components_def validate_def fail_if_def outcome_simps)

interpretation rule_set_engine: policy_engine
    "configured_evaluate pc rules decoder now" "rs_policy_id rules"
  for pc rules decoder now
proof
  fix d lm r m
  show "fst (configured_evaluate pc rules decoder now d lm r) \<noteq> Panic m"
  proof (cases "with_components pc rules decoder")
    case (Ok self)
    then have "valid_rules pc (rs_rules (rsp_rules self))" by (simp add: with_components_Ok)
    from rs_evaluate_verdict [OF this, of now d lm r] Ok show ?thesis
      by (auto simp: configured_evaluate_def)
  qed (simp_all add: configured_evaluate_def with_components_not_Panic)
next
  fix d lm r dec lm'
  assume "configured_evaluate pc rules decoder now d lm r = (Ok dec, lm')"
  then obtain self where self: "with_components pc rules decoder = Ok self"
      "rs_evaluate pc self now d lm r = (Ok dec, lm')"
    by (auto simp: configured_evaluate_def split: outcome.splits)
  then show "decision_id_of dec = d \<and> policy_id_of dec = rs_policy_id rules \<and> explained dec"
    using rs_evaluate_verdict [of pc self now d lm r] by (auto simp: with_components_Ok own_def)
qed

subsection \<open>Bucket keys and budgets\<close>

lemma rate_limit_key_scope: "rate_limit_key u s r = rate_limit_key u s' r' \<Longrightarrow> s = s'"
  by (cases s; cases s') simp_all

fun rs_run :: "policy_crates \<Rightarrow> rule_set_policy \<Rightarrow> limiter \<Rightarrow> (i64 \<times> decision_id \<times> signing_request) list \<Rightarrow>
   (policy_error, policy_decision) outcome list" where
  "rs_run pc self lm [] = []"
| "rs_run pc self lm ((now, d, r) # is) =
     (case rs_evaluate pc self now d lm r of (res, lm) \<Rightarrow> res # rs_run pc self lm is)"

definition not_denied :: "(policy_error, policy_decision) outcome \<Rightarrow> bool" where
  "not_denied res = (case res of Ok dec \<Rightarrow> \<not> is_deny dec | _ \<Rightarrow> False)"

definition passed_count :: "(ulid \<Rightarrow> string) \<Rightarrow> rate_limit_scope \<Rightarrow> string \<Rightarrow>
   (i64 \<times> decision_id \<times> signing_request) list \<Rightarrow> (policy_error, policy_decision) outcome list \<Rightarrow> nat" where
  "passed_count u sc k is os =
     length (filter (\<lambda>((now, d, r), res). rate_limit_key u sc r = k \<and> not_denied res) (zip is os))"

text \<open>Charging is a run of acquisitions on a prefix of the calls; a charge that succeeds grants all.\<close>

lemma charge_run:
  assumes "charge lm cs = (ok, lm')"
  shows "\<exists>cs1 oks. acquire_run lm cs1 = (oks, lm') \<and> set cs1 \<subseteq> set cs \<and>
    (ok \<longrightarrow> cs1 = cs \<and> list_all (\<lambda>b. b) oks)"
  using assms
proof (induction cs arbitrary: lm)
  case Nil
  then show ?case by (intro exI [of _ "[]"]) simp
next
  case (Cons c cs)
  obtain g lm1 where t: "try_acquire (ac_now c) lm (ac_key c) (ac_capacity c) (ac_refill c) = (g, lm1)"
    by fastforce
  show ?case
  proof (cases g)
    case True
    with Cons t obtain cs1 oks where "acquire_run lm1 cs1 = (oks, lm')" "set cs1 \<subseteq> set cs"
        "ok \<longrightarrow> cs1 = cs \<and> list_all (\<lambda>b. b) oks"
      by fastforce
    with t True show ?thesis by (intro exI [of _ "c # cs1"] exI [of _ "True # oks"]) auto
  next
    case False
    with Cons.prems t have "lm1 = lm'" "\<not> ok" by auto
    with t False show ?thesis by (intro exI [of _ "[c]"] exI [of _ "[False]"]) simp
  qed
qed

lemma acquire_run_append:
  "acquire_run lm cs = (oks, lm1) \<Longrightarrow> acquire_run lm1 cs' = (oks', lm2) \<Longrightarrow>
   acquire_run lm (cs @ cs') = (oks @ oks', lm2)"
  by (induction cs arbitrary: lm oks) (auto split: prod.splits)

lemma grants_append: "length cs = length oks \<Longrightarrow> grants k (cs @ cs') (oks @ oks') = grants k cs oks + grants k cs' oks'"
  by (simp add: grants_def)

lemma grants_all_granted:
  assumes "length cs = length oks" "list_all (\<lambda>b. b) oks" "c \<in> set cs" "ac_key c = k"
  shows "1 \<le> grants k cs oks"
proof -
  from assms(1,3) obtain i where "i < length cs" "c = cs ! i" "i < length oks"
    by (auto simp: in_set_conv_nth)
  with assms have "(c, True) \<in> set (filter (\<lambda>(c, ok). ac_key c = k \<and> ok) (zip cs oks))"
    by (auto simp: in_set_zip list_all_length)
  then show ?thesis unfolding grants_def by (metis length_pos_if_in_set less_eq_Suc_le One_nat_def)
qed

lemma rate_calls_key:
  assumes "c \<in> set (rate_calls u now r rules)" "ac_key c = rate_limit_key u sc r'"
  shows "RateLimit (ac_capacity c) (ac_refill c) sc \<in> set rules"
proof -
  from assms(1) obtain ru where ru: "ru \<in> set rules" "c \<in> set (rate_call u now r ru)"
    by (auto simp: rate_calls_def)
  with assms(2) show ?thesis by (cases ru) (auto dest: rate_limit_key_scope)
qed

text \<open>What one evaluation does to the limiter: some acquisitions of the request's own calls, all of
  them granted when the request is not denied.\<close>

lemma rs_evaluate_acquires:
  assumes "valid_rules pc (rs_rules (rsp_rules self))" "rs_evaluate pc self now d lm r = (res, lm')"
  shows "\<exists>cs oks. acquire_run lm cs = (oks, lm') \<and>
    set cs \<subseteq> set (rate_calls (pc_ulid_str pc) now r (rs_rules (rsp_rules self))) \<and>
    (not_denied res \<longrightarrow> cs = rate_calls (pc_ulid_str pc) now r (rs_rules (rsp_rules self)) \<and> list_all (\<lambda>b. b) oks)"
proof -
  let ?calls = "rate_calls (pc_ulid_str pc) now r (rs_rules (rsp_rules self))"
  obtain ok lmc where c: "charge lm ?calls = (ok, lmc)" by fastforce
  from rs_evaluate_verdict [OF assms(1), of now d lm r] assms(2) obtain dec
    where dec: "res = Ok dec" "(verdict_of dec, lm') = spec_evaluate pc self now d lm r" by auto
  show ?thesis
  proof (cases "filters_pass pc (eval_prologue self d r) (set (rs_rules (rsp_rules self)))")
    case True
    with dec c have "lm' = lmc" and "not_denied res \<longrightarrow> ok"
      by (auto simp: spec_evaluate_def Let_def not_denied_def is_deny_verdict split: if_splits)
    with charge_run [OF c] show ?thesis by blast
  next
    case False
    with dec have "lm' = lm" "\<not> not_denied res"
      by (auto simp: spec_evaluate_def Let_def not_denied_def is_deny_verdict)
    then show ?thesis by (intro exI [of _ "[]"]) simp
  qed
qed

lemma rs_run_grants:
  assumes "valid_rules pc (rs_rules (rsp_rules self))"
    and "RateLimit c 0 sc \<in> set (rs_rules (rsp_rules self))" and k: "k = rate_limit_key (pc_ulid_str pc) sc r0"
  shows "\<exists>cs oks lm'. acquire_run lm cs = (oks, lm') \<and>
    (\<forall>a \<in> set cs. ac_key a = k \<longrightarrow> RateLimit (ac_capacity a) (ac_refill a) sc \<in> set (rs_rules (rsp_rules self))) \<and>
    passed_count (pc_ulid_str pc) sc k is (rs_run pc self lm is) \<le> grants k cs oks"
proof (induction "is" arbitrary: lm)
  case Nil
  show ?case by (intro exI [of _ "[]"]) (simp add: passed_count_def)
next
  case (Cons i "is")
  obtain now d r where i: "i = (now, d, r)" by (cases i) auto
  obtain res lm1 where e: "rs_evaluate pc self now d lm r = (res, lm1)" by fastforce
  let ?calls = "rate_calls (pc_ulid_str pc) now r (rs_rules (rsp_rules self))"
  from rs_evaluate_acquires [OF assms(1) e] obtain cs oks where a: "acquire_run lm cs = (oks, lm1)"
      "set cs \<subseteq> set ?calls" "not_denied res \<longrightarrow> cs = ?calls \<and> list_all (\<lambda>b. b) oks" by blast
  from Cons.IH [of lm1] obtain cs2 oks2 lm2 where b: "acquire_run lm1 cs2 = (oks2, lm2)"
      "\<forall>a \<in> set cs2. ac_key a = k \<longrightarrow> RateLimit (ac_capacity a) (ac_refill a) sc \<in> set (rs_rules (rsp_rules self))"
      "passed_count (pc_ulid_str pc) sc k is (rs_run pc self lm1 is) \<le> grants k cs2 oks2" by blast
  have len: "length cs = length oks" using acquire_run_length [OF a(1)] by simp
  have hit: "1 \<le> grants k cs oks" if "rate_limit_key (pc_ulid_str pc) sc r = k" "not_denied res"
  proof -
    let ?c = "\<lparr>ac_now = now, ac_key = k, ac_capacity = c, ac_refill = 0\<rparr>"
    have "?c \<in> set ?calls" using assms(2) that(1) by (force simp: rate_calls_def)
    then show ?thesis using that(2) a(3) grants_all_granted [OF len, of ?c k] by simp
  qed
  have "passed_count (pc_ulid_str pc) sc k (i # is) (rs_run pc self lm (i # is)) \<le> grants k (cs @ cs2) (oks @ oks2)"
    using hit b(3) by (auto simp: i e passed_count_def grants_append [OF len])
  moreover have "\<forall>a \<in> set (cs @ cs2). ac_key a = k \<longrightarrow>
      RateLimit (ac_capacity a) (ac_refill a) sc \<in> set (rs_rules (rsp_rules self))"
    using a(2) b(2) rate_calls_key k by (auto 4 3)
  ultimately show ?case using acquire_run_append [OF a(1) b(1)] by blast
qed

subsection \<open>A concrete instance\<close>

text \<open>The crates' documented behaviour as executable functions: decimal text without sign,
  the proleptic UTC day (1970-01-01 is a Thursday, day 3 from Monday), Crockford text.\<close>

definition dec_str_ref :: "string \<Rightarrow> u256 option" where
  "dec_str_ref s = (if s \<noteq> [] \<and> list_all is_digit s \<and> dec_value s < 2 ^ 256
     then Some (word_of_nat (dec_value s)) else None)"

definition utc_ref :: "int \<Rightarrow> (nat \<times> u8) option" where
  "utc_ref secs = (if \<bar>secs\<bar> \<le> 10 ^ 11
     then Some (nat ((secs div 86400 + 3) mod 7), word_of_int (secs mod 86400 div 3600)) else None)"

definition ref_crates :: policy_crates where
  "ref_crates = \<lparr>pc_hex_decode = hex_decode_ref, pc_u256_from_dec_str = dec_str_ref,
     pc_utc_from_unix = utc_ref, pc_ulid_str = crockford\<rparr>"

definition demo_rules :: rule_set where
  "demo_rules = \<lparr>rs_version = 1, rs_policy_id = PolicyId 7,
     rs_rules = [DenyChain [666], AllowContract 1 [''0xAB12''], AllowMethod 1 (Some ''ab12'') [''0xa9059cbb''],
       ValueCap 1 ''1000'', TimeWindow 0x1F 9 17, RateLimit 2 0 PerWallet,
       QuorumRule 2 3 (ApproverSetId 9) (ValueGte 1 ''500'')],
     rs_default = DefaultAllow\<rparr>"

definition demo_decoder :: vm_decoder where
  "demo_decoder vm raw = Some \<lparr>dtx_chain_id = 1, dtx_to = Some [0xAB, 0x12],
     dtx_value = Some (word_of_nat (length raw)), dtx_gas_limit = None,
     dtx_method_selector = Some [0xa9, 0x05, 0x9c, 0xbb], dtx_raw_args = None\<rparr>"

definition demo_policy :: rule_set_policy where
  "demo_policy = \<lparr>rsp_rules = demo_rules, rsp_decoder = Some demo_decoder\<rparr>"

definition demo_request :: signing_request where
  "demo_request = \<lparr>sr_request_id = RequestId 1, sr_wallet_id = WalletId 2, sr_requester = ApiKey ''alice'',
     sr_payload = VmTransaction Evm 1 (Some [0xAB, 0x12]) [1, 2, 3], sr_hd_path = None,
     sr_received_at_unix_ms = 36000000\<rparr>"

definition demo_run :: "(i64 \<times> decision_id \<times> signing_request) list" where
  "demo_run = [(0, DecisionId 1, demo_request), (5, DecisionId 2, demo_request), (9, DecisionId 3, demo_request)]"

lemma ref_numbers: "parse_u256 ref_crates ''1000'' = Some 1000" "parse_u256 ref_crates ''500'' = Some 500"
  by (simp_all add: ref_crates_def parse_u256_def trim_graphic is_graphic_def dec_str_ref_def
      is_digit_def dec_value_def digit_val_def)

lemma ref_hex: "hex_to_bytes hex_decode_ref ''0xAB12'' = Some [0xAB, 0x12]"
    "hex_to_bytes hex_decode_ref ''ab12'' = Some [0xAB, 0x12]"
    "hex_to_bytes hex_decode_ref ''0xa9059cbb'' = Some [0xa9, 0x05, 0x9c, 0xbb]"
  by code_simp+

lemma ref_crates_simps [simp]: "pc_hex_decode ref_crates = hex_decode_ref"
    "pc_utc_from_unix ref_crates = utc_ref" "pc_ulid_str ref_crates = crockford"
  by (simp_all add: ref_crates_def)

lemma demo_valid: "valid_rules ref_crates (rs_rules demo_rules)"
  by (simp add: demo_rules_def valid_rules_def validate_addresses_def validate_selectors_def fail_if_def
      ref_numbers ref_hex validate_u256_def)

lemma demo_policy_built: "with_components ref_crates demo_rules (Some demo_decoder) = Ok demo_policy"
  using demo_valid by (simp add: with_components_Ok demo_policy_def) (simp add: demo_rules_def)

lemma address_eq_iff: "address_eq pc a t \<longleftrightarrow> hex_to_bytes (pc_hex_decode pc) a = Some t"
  by (cases "normalize_hex a") (auto simp: address_eq_def hex_to_bytes_def split: option.splits)

subsection \<open>Effects and verdicts\<close>

lemma rate_call_Nil: "(\<And>t f s. ru \<noteq> RateLimit t f s) \<Longrightarrow> rate_call u now r ru = []"
  by (cases ru) auto

lemma no_rate_calls: "\<forall>t f s. RateLimit t f s \<notin> set rules \<Longrightarrow> rate_calls u now r rules = []"
  unfolding rate_calls_def by (auto intro: rate_call_Nil)

primrec verdict_effect :: "verdict \<Rightarrow> rule_effect" where
  "verdict_effect VAllow = EffectAllow"
| "verdict_effect VDeny = EffectDeny"
| "verdict_effect (VQuorum t n s) = EffectRequireQuorum"

lemma quorum_fires_rule: "quorum_fires pc ctx r \<Longrightarrow> \<exists>t n s trig. r = QuorumRule t n s trig"
  by (cases r) (simp_all add: quorum_fires_def)

lemma verdict_effect_quorum:
  "verdict_effect (quorum_verdict pc ctx dflt rules) =
     (if \<exists>r \<in> set rules. quorum_fires pc ctx r then EffectRequireQuorum
      else verdict_effect (case dflt of DefaultAllow \<Rightarrow> VAllow | DefaultDeny \<Rightarrow> VDeny))"
proof (cases "find (quorum_fires pc ctx) rules")
  case None
  then have "\<not> (\<exists>r \<in> set rules. quorum_fires pc ctx r)" by (auto simp: find_None_iff)
  with None show ?thesis by (simp add: quorum_verdict_def)
next
  case (Some r)
  then have r: "r \<in> set rules" "quorum_fires pc ctx r" by (auto simp: find_Some_iff)
  then obtain t n s trig where "r = QuorumRule t n s trig" using quorum_fires_rule by blast
  with r Some show ?thesis by (auto simp: quorum_verdict_def)
qed

lemma effect_of_verdict: "effect_of dec = verdict_effect (verdict_of dec)"
  by (cases dec) simp_all

subsection \<open>Properties\<close>

text \<open>C2. Every policy that construction accepts evaluates every request to a decision (no error, no
  panic), with the verdict and the limiter of the abstract policy: denied when a filter of stages 1 to
  7 fails, before the limiter is touched; otherwise every rate limit is charged in order until one
  refuses; then the VM shape; then the first firing quorum rule; then the default.\<close>

theorem rs_evaluate_refines_spec:
  assumes "with_components pc rules decoder = Ok self"
  shows "\<exists>dec lm'. rs_evaluate pc self now d lm r = (Ok dec, lm') \<and>
    (verdict_of dec, lm') = spec_evaluate pc self now d lm r"
  using rs_evaluate_verdict [of pc self now d lm r] assms
  by (cases "rs_evaluate pc self now d lm r") (auto simp: with_components_Ok)

theorem rs_evaluate_refines_spec_witness:
  "\<exists>dec lm'. rs_evaluate ref_crates demo_policy 0 (DecisionId 5) limiter_new demo_request = (Ok dec, lm') \<and>
    (verdict_of dec, lm') = spec_evaluate ref_crates demo_policy 0 (DecisionId 5) limiter_new demo_request"
  by (rule rs_evaluate_refines_spec [OF demo_policy_built])

text \<open>C27. The order of the rules does not change what a policy without rate limits decides: listing
  the same rules in another order gives a decision of the same effect.\<close>

theorem rs_rule_order_irrelevant:
  assumes "with_components pc rs dec = Ok p"
    and "set rules' = set (rs_rules rs)" and "\<forall>t f s. RateLimit t f s \<notin> set rules'"
  shows "\<exists>p' d1 d2. with_components pc (rs\<lparr>rs_rules := rules'\<rparr>) dec = Ok p' \<and>
    fst (rs_evaluate pc p now d lm r) = Ok d1 \<and> fst (rs_evaluate pc p' now d lm r) = Ok d2 \<and>
    effect_of d1 = effect_of d2"
proof -
  let ?p' = "\<lparr>rsp_rules = rs\<lparr>rs_rules := rules'\<rparr>, rsp_decoder = dec\<rparr>"
  have p: "p = \<lparr>rsp_rules = rs, rsp_decoder = dec\<rparr>" "rs_version rs = 1"
    and v: "valid_rules pc (rs_rules rs)" "valid_rules pc rules'"
    using assms(1,2) by (simp_all add: with_components_Ok valid_rules_def list_all_iff)
  then have v': "valid_rules pc (rs_rules (rsp_rules p))" "valid_rules pc (rs_rules (rsp_rules ?p'))"
    by simp_all
  have pro: "eval_prologue ?p' d r = eval_prologue p d r" by (simp add: eval_prologue_def p)
  from rs_evaluate_verdict [OF v'(1), of now d lm r] obtain d1
    where d1: "fst (rs_evaluate pc p now d lm r) = Ok d1"
      "verdict_of d1 = fst (spec_evaluate pc p now d lm r)" by (metis fst_conv)
  from rs_evaluate_verdict [OF v'(2), of now d lm r] obtain d2
    where d2: "fst (rs_evaluate pc ?p' now d lm r) = Ok d2"
      "verdict_of d2 = fst (spec_evaluate pc ?p' now d lm r)" by (metis fst_conv)
  have "effect_of d1 = effect_of d2"
    using assms(2,3)
    by (simp add: effect_of_verdict d1 d2 spec_evaluate_def Let_def pro no_rate_calls p verdict_effect_quorum)
  with d1 d2 p v show ?thesis by (intro exI [of _ ?p']) (simp add: with_components_Ok)
qed

theorem rs_rule_order_irrelevant_witness:
  "\<exists>p' d1 d2. with_components ref_crates (demo_rules\<lparr>rs_rules := [AllowChain [1], DenyChain [666]]\<rparr>) None = Ok p' \<and>
    fst (rs_evaluate ref_crates
      \<lparr>rsp_rules = demo_rules\<lparr>rs_rules := [DenyChain [666], AllowChain [1]]\<rparr>, rsp_decoder = None\<rparr>
      0 (DecisionId 5) limiter_new demo_request) = Ok d1 \<and>
    fst (rs_evaluate ref_crates p' 0 (DecisionId 5) limiter_new demo_request) = Ok d2 \<and> effect_of d1 = effect_of d2"
  using rs_rule_order_irrelevant [of ref_crates "demo_rules\<lparr>rs_rules := [DenyChain [666], AllowChain [1]]\<rparr>" None
      "\<lparr>rsp_rules = demo_rules\<lparr>rs_rules := [DenyChain [666], AllowChain [1]]\<rparr>, rsp_decoder = None\<rparr>"
      "[AllowChain [1], DenyChain [666]]" 0 "DecisionId 5" limiter_new demo_request]
  by (auto simp: with_components_Ok valid_rules_def demo_rules_def)

text \<open>C15. A rate limit without refill is a hard budget: whatever requests a fresh policy sees, in
  whatever order and at whatever times, at most \<open>c\<close> of those that share the rule's bucket are
  not denied, provided the other rate limits of the same scope, if any, are the same.\<close>

theorem rate_limit_hard_budget:
  assumes "with_components pc rules dec = Ok self"
    and "RateLimit c 0 sc \<in> set (rs_rules rules)"
    and "\<forall>t f. RateLimit t f sc \<in> set (rs_rules rules) \<longrightarrow> t = c \<and> f = 0"
  shows "passed_count (pc_ulid_str pc) sc (rate_limit_key (pc_ulid_str pc) sc r) is
    (rs_run pc self limiter_new is) \<le> unat c"
proof -
  let ?k = "rate_limit_key (pc_ulid_str pc) sc r"
  have self: "valid_rules pc (rs_rules (rsp_rules self))" "rsp_rules self = rules"
    using assms(1) by (simp_all add: with_components_Ok)
  then have c: "RateLimit c 0 sc \<in> set (rs_rules (rsp_rules self))" using assms(2) by simp
  obtain cs oks lm' where run: "acquire_run limiter_new cs = (oks, lm')"
      "\<forall>a \<in> set cs. ac_key a = ?k \<longrightarrow> RateLimit (ac_capacity a) (ac_refill a) sc \<in> set (rs_rules rules)"
      "passed_count (pc_ulid_str pc) sc ?k is (rs_run pc self limiter_new is) \<le> grants ?k cs oks"
    using rs_run_grants [OF self(1) c refl, of limiter_new r "is"] unfolding self(2) by blast
  have "holds_tokens ?k c limiter_new (unat c)" by (simp add: holds_tokens_def limiter_new_def)
  moreover have "\<forall>a \<in> set cs. ac_key a = ?k \<longrightarrow> ac_capacity a = c \<and> ac_refill a = 0"
    using run(2) assms(3) by blast
  ultimately have "grants ?k cs oks \<le> unat c" using no_refill.run_grants [OF _ _ run(1)] by simp
  with run(3) show ?thesis by simp
qed

theorem rate_limit_hard_budget_witness:
  "passed_count crockford PerWallet (rate_limit_key crockford PerWallet demo_request) demo_run
     (rs_run ref_crates demo_policy limiter_new demo_run) \<le> unat (2 :: u32)"
proof -
  have r: "RateLimit 2 0 PerWallet \<in> set (rs_rules demo_rules)"
      "\<forall>t f. RateLimit t f PerWallet \<in> set (rs_rules demo_rules) \<longrightarrow> t = 2 \<and> f = 0"
    by (simp_all add: demo_rules_def)
  from rate_limit_hard_budget [OF demo_policy_built r, of demo_request demo_run] show ?thesis
    unfolding ref_crates_simps .
qed

text \<open>A quorum verdict always comes from a rule of the set, and its parameters make sense: at
  least one approval, and no more approvals than approvers.\<close>

theorem quorum_verdict_from_rule:
  assumes "with_components pc rules dec = Ok self"
    and "rs_evaluate pc self now d lm r = (Ok (RequireQuorum d' p t n s hits), lm')"
  shows "(\<exists>trig. QuorumRule t n s trig \<in> set (rs_rules rules)) \<and> 1 \<le> t \<and> t \<le> n"
proof -
  let ?ctx = "eval_prologue self d r"
  have self: "valid_rules pc (rs_rules rules)" "rsp_rules self = rules"
    using assms(1) by (simp_all add: with_components_Ok)
  from rs_evaluate_verdict [of pc self now d lm r] assms(2) self
  have "spec_evaluate pc self now d lm r = (VQuorum t n s, lm')" by auto
  then have "quorum_verdict pc ?ctx (rs_default rules) (rs_rules rules) = VQuorum t n s"
    by (auto simp: spec_evaluate_def Let_def self split: if_splits prod.splits)
  then obtain trig where "find (quorum_fires pc ?ctx) (rs_rules rules) = Some (QuorumRule t n s trig)"
    by (auto simp: quorum_verdict_def split: option.splits rule.splits allow_default.splits)
  then have q: "QuorumRule t n s trig \<in> set (rs_rules rules)" by (auto simp: find_Some_iff)
  with self(1) have "validate_rule pc (QuorumRule t n s trig) = Ok ()"
    by (auto simp: valid_rules_def list_all_iff)
  then have "t \<noteq> 0" "t \<le> n" by (auto simp: outcome_simps fail_if_def not_less split: if_splits)
  then have "1 \<le> t" by (simp add: word_le_nat_alt Suc_le_eq unat_gt_0)
  with q \<open>t \<le> n\<close> show ?thesis by blast
qed

definition contract_policy :: rule_set where
  "contract_policy = demo_rules\<lparr>rs_rules := [AllowContract 1 [''0xAB12'']]\<rparr>"

lemma ref_address: "address_eq ref_crates ''0xAB12'' [0xAB, 0x12]"
  using ref_hex(1) by (simp add: address_eq_iff)

definition quorum_policy :: rule_set where
  "quorum_policy = demo_rules\<lparr>rs_rules := [QuorumRule 2 3 (ApproverSetId 9) Always]\<rparr>"

lemmas eval_simps = rs_evaluate_def eval_filters_def eval_tail_def andthen_def stage_deny_chain_def
  stage_deny_contract_def stage_allow_chain_def stage_allow_contract_def stage_allow_method_def
  stage_value_cap_def stage_time_window_def stage_vm_shape_def stage_default_def Let_def
  req_to_of_def push_hit_def denies_chain_def denies_contract_def is_allow_chain_def allows_chain_def
  is_allow_contract_def allows_contract_def method_rule_applies_def outside_window_def

theorem quorum_verdict_from_rule_witness:
  "(\<exists>trig. QuorumRule 2 3 (ApproverSetId 9) trig \<in> set (rs_rules quorum_policy)) \<and> (1 :: u8) \<le> 2 \<and> (2 :: u8) \<le> 3"
proof (rule quorum_verdict_from_rule)
  show "with_components ref_crates quorum_policy None = Ok \<lparr>rsp_rules = quorum_policy, rsp_decoder = None\<rparr>"
    by (simp add: with_components_Ok valid_rules_def quorum_policy_def demo_rules_def fail_if_def)
  show "rs_evaluate ref_crates \<lparr>rsp_rules = quorum_policy, rsp_decoder = None\<rparr> 0 (DecisionId 5) limiter_new
      demo_request = (Ok (RequireQuorum (DecisionId 5) (PolicyId 7) 2 3 (ApproverSetId 9)
        [\<lparr>hit_rule_id = ''require-quorum'', hit_effect = EffectRequireQuorum,
          hit_reason = Some ''quorum trigger matched''\<rparr>]), limiter_new)"
    by (simp add: eval_simps quorum_policy_def demo_rules_def demo_request_def eval_prologue_def)
qed

text \<open>C28. The contract allow list holds: when a chain has an \<open>AllowContract\<close> rule, a request for that
  chain that is not denied names a destination, and the destination's bytes are written in
  hexadecimal, in either case and with or without prefix, in an allow list of that chain.\<close>

theorem contract_allow_list_enforced:
  assumes "with_components pc rules dec = Ok self" and "hex_decode_spec (pc_hex_decode pc)"
    and "not_denied (fst (rs_evaluate pc self now d lm r))"
    and "sr_payload r = VmTransaction vm c to raw" and "AllowContract c as \<in> set (rs_rules rules)"
  shows "\<exists>t as' a. to = Some t \<and> AllowContract c as' \<in> set (rs_rules rules) \<and> a \<in> set as' \<and>
    normalize_hex a = Some (hex_encode t)"
proof -
  let ?ctx = "eval_prologue self d r" and ?R = "set (rs_rules rules)"
  have self: "valid_rules pc (rs_rules (rsp_rules self))" "rsp_rules self = rules"
    using assms(1) by (simp_all add: with_components_Ok)
  from rs_evaluate_verdict [OF self(1), of now d lm r] assms(3)
  have "fst (spec_evaluate pc self now d lm r) \<noteq> VDeny"
    by (auto simp: not_denied_def is_deny_verdict) (metis fst_conv)
  then have "contract_allowed pc ?ctx ?R"
    by (auto simp: spec_evaluate_def Let_def self(2) filters_pass_def split: if_splits)
  moreover have "is_allow_contract c (AllowContract c as)" by (simp add: is_allow_contract_def)
  ultimately obtain t ru where t: "to = Some t" "ru \<in> ?R" "allows_contract pc c t ru"
    using assms(4,5) unfolding contract_allowed_def by (auto simp: req_to_of_def)
  then obtain as' a where "ru = AllowContract c as'" "a \<in> set as'" "address_eq pc a t"
    by (auto simp: allows_contract_def address_in_def list_ex_iff split: rule.splits)
  moreover from this(3) have "normalize_hex a = Some (hex_encode t)"
    using hex_to_bytes_iff [OF assms(2), of a t]
    by (simp add: address_eq_iff)
  ultimately show ?thesis using t by blast
qed

theorem contract_allow_list_enforced_witness:
  "\<exists>t as' a. Some [0xAB, 0x12] = Some t \<and> AllowContract 1 as' \<in> set (rs_rules contract_policy) \<and> a \<in> set as' \<and>
    normalize_hex a = Some (hex_encode t)"
proof (rule contract_allow_list_enforced)
  show "with_components ref_crates contract_policy None = Ok \<lparr>rsp_rules = contract_policy, rsp_decoder = None\<rparr>"
    by (simp add: with_components_Ok valid_rules_def contract_policy_def demo_rules_def fail_if_def
        validate_addresses_def ref_hex)
  show "hex_decode_spec (pc_hex_decode ref_crates)" by (simp add: hex_decode_spec_ref)
  show "not_denied (fst (rs_evaluate ref_crates \<lparr>rsp_rules = contract_policy, rsp_decoder = None\<rparr> 0
      (DecisionId 5) limiter_new demo_request))"
    by (simp add: eval_simps contract_policy_def demo_rules_def demo_request_def eval_prologue_def not_denied_def
        address_in_def ref_address)
  show "sr_payload demo_request = VmTransaction Evm 1 (Some [0xAB, 0x12]) [1, 2, 3]" by (simp add: demo_request_def)
  show "AllowContract 1 [''0xAB12''] \<in> set (rs_rules contract_policy)"
    by (simp add: contract_policy_def demo_rules_def)
qed

text \<open>Rate-limit buckets do not collide: two requests share a bucket exactly when the scopes agree
  and so do the wallet and the requester, as far as the scope looks at them.\<close>

theorem rate_limit_key_collision_free:
  assumes "ulid_text u"
  shows "rate_limit_key u s r = rate_limit_key u s' r' \<longleftrightarrow>
    s = s' \<and> (s \<noteq> PerRequester \<longrightarrow> sr_wallet_id r = sr_wallet_id r') \<and>
    (s \<noteq> PerWallet \<longrightarrow> sr_requester r = sr_requester r')"
proof -
  have w: "u (wallet_ulid a) = u (wallet_ulid b) \<longleftrightarrow> a = b" for a b
    using assms by (auto simp: ulid_text_inject intro: wallet_id.expand)
  have bar: "CHR ''|'' \<notin> set (u x)" for x using assms by (simp add: ulid_text_def)
  show ?thesis
    by (cases s; cases s')
      (auto simp: w requester_key_inject [OF assms] append_sep_inject [OF bar bar])
qed

lemma clock_mod: "- 24 \<le> x \<Longrightarrow> x < 24 \<Longrightarrow> x mod 24 = (if 0 \<le> x then x else x + 24)" for x :: int
  by presburger

lemma window_int:
  fixes s e h :: int
  assumes "0 \<le> s" "s \<le> 23" "0 \<le> e" "e \<le> 24" "0 \<le> h" "h \<le> 23"
  shows "(if s < e then s \<le> h \<and> h < e else s \<le> h \<or> h < e) \<longleftrightarrow> (h - s) mod 24 < (e - s - 1) mod 24 + 1"
  using assms clock_mod [of "h - s"] clock_mod [of "e - s - 1"] by auto

theorem rate_limit_key_collision_free_witness:
  "rate_limit_key crockford PerWalletRequester demo_request = rate_limit_key crockford PerWallet demo_request \<longleftrightarrow>
    PerWalletRequester = PerWallet \<and>
    (PerWalletRequester \<noteq> PerRequester \<longrightarrow> sr_wallet_id demo_request = sr_wallet_id demo_request) \<and>
    (PerWalletRequester \<noteq> PerWallet \<longrightarrow> sr_requester demo_request = sr_requester demo_request)"
  by (rule rate_limit_key_collision_free [OF ulid_text_crockford])

text \<open>C16. A daily window \<open>[start, end)\<close> with \<open>start \<le> 23\<close> and \<open>end \<le> 24\<close> contains an hour exactly when
  the hour is fewer than the window's length after \<open>start\<close> on the clock face, where the length is
  \<open>end - start\<close> hours modulo 24, and a whole day when both ends name the same hour.\<close>

theorem hour_window_on_clock_face:
  assumes "s \<le> 23" "e \<le> 24" "h \<le> 23"
  shows "hour_in_window s e h \<longleftrightarrow> (uint h - uint s) mod 24 < (uint e - uint s - 1) mod 24 + 1"
  using window_int [of "uint s" "uint e" "uint h"] assms
  by (auto simp: hour_in_window_def word_le_def word_less_def split: if_splits)

theorem hour_window_on_clock_face_witness:
  "hour_in_window 22 4 1 \<longleftrightarrow> (uint (1 :: u8) - uint (22 :: u8)) mod 24 < (uint (4 :: u8) - uint (22 :: u8) - 1) mod 24 + 1"
  by (rule hour_window_on_clock_face) simp_all

text \<open>C24. An \<open>AllowMethod\<close> rule needs a decoder: without one, every request for which such a rule
  applies is denied.\<close>

theorem allow_method_without_decoder_denies:
  assumes "with_components pc rules None = Ok self"
    and "chain_id_of (sr_payload r) = Some c" and "ru \<in> set (rs_rules rules)"
    and "method_rule_applies pc c (req_to_of (sr_payload r)) ru"
  shows "\<not> not_denied (fst (rs_evaluate pc self now d lm r))"
proof -
  let ?ctx = "eval_prologue self d r"
  have self: "valid_rules pc (rs_rules (rsp_rules self))" "rsp_rules self = rules" "rsp_decoder self = None"
    using assms(1) by (simp_all add: with_components_Ok)
  have "decoded_selector ?ctx = None"
    by (simp add: decoded_selector_def eval_prologue_def Let_def self(3) split: option.split)
  with assms(2-4) have "\<not> filters_pass pc ?ctx (set (rs_rules rules))"
    by (auto simp: filters_pass_def method_allowed_def)
  then have "fst (spec_evaluate pc self now d lm r) = VDeny" by (simp add: spec_evaluate_def Let_def self(2))
  with rs_evaluate_verdict [OF self(1), of now d lm r] show ?thesis
    by (auto simp: not_denied_def is_deny_verdict) (metis fst_conv)
qed

theorem allow_method_without_decoder_denies_witness:
  "\<not> not_denied (fst (rs_evaluate ref_crates \<lparr>rsp_rules = demo_rules, rsp_decoder = None\<rparr> 0 (DecisionId 5)
     limiter_new demo_request))"
proof (rule allow_method_without_decoder_denies)
  show "with_components ref_crates demo_rules None = Ok \<lparr>rsp_rules = demo_rules, rsp_decoder = None\<rparr>"
    using demo_valid by (simp add: with_components_Ok) (simp add: demo_rules_def)
  show "chain_id_of (sr_payload demo_request) = Some 1" by (simp add: demo_request_def)
  show "AllowMethod 1 (Some ''ab12'') [''0xa9059cbb''] \<in> set (rs_rules demo_rules)" by (simp add: demo_rules_def)
  show "method_rule_applies ref_crates 1 (req_to_of (sr_payload demo_request))
      (AllowMethod 1 (Some ''ab12'') [''0xa9059cbb''])"
    using ref_hex(2) by (simp add: method_rule_applies_def demo_request_def req_to_of_def address_eq_iff)
qed

text \<open>The rule trace explains the decision: of a policy built from any rule set, every decision
  carries the fresh decision id and the policy's id, its last rule hit has the decision's effect, and
  every earlier hit let the request through.\<close>

theorem rule_set_decision_explained:
  assumes "configured_evaluate pc rules decoder now d lm r = (Ok dec, lm')"
  shows "decision_id_of dec = d \<and> policy_id_of dec = rs_policy_id rules \<and>
    (\<exists>pre h. rationale_of dec = pre @ [h] \<and> passed_only pre \<and> hit_effect h = effect_of dec)"
  using rule_set_engine.decides [OF assms] rule_set_engine.verdict_is_explained [OF assms] by simp

theorem rule_set_decision_explained_witness:
  "\<exists>dec. fst (configured_evaluate ref_crates contract_policy None 0 (DecisionId 5) limiter_new demo_request) = Ok dec \<and>
    decision_id_of dec = DecisionId 5 \<and> policy_id_of dec = PolicyId 7 \<and> length (rationale_of dec) = 2 \<and>
    (\<exists>pre h. rationale_of dec = pre @ [h] \<and> passed_only pre \<and> hit_effect h = effect_of dec)"
proof -
  let ?hit = "\<lambda>i e m. \<lparr>hit_rule_id = i, hit_effect = e, hit_reason = Some m\<rparr>"
  let ?dec = "Allow (DecisionId 5) (PolicyId 7) [?hit ''allow-contract-filter'' EffectAllow ''contract on allow list'',
    ?hit ''default-allow'' EffectAllow ''no terminating rule matched; default is allow'']"
  have "with_components ref_crates contract_policy None = Ok \<lparr>rsp_rules = contract_policy, rsp_decoder = None\<rparr>"
    by (simp add: with_components_Ok valid_rules_def contract_policy_def demo_rules_def fail_if_def
        validate_addresses_def ref_hex)
  then have e: "configured_evaluate ref_crates contract_policy None 0 (DecisionId 5) limiter_new demo_request =
      (Ok ?dec, limiter_new)"
    by (simp add: configured_evaluate_def eval_simps contract_policy_def demo_rules_def demo_request_def
        eval_prologue_def address_in_def ref_address)
  from rule_set_decision_explained [OF e] e show ?thesis
    by (intro exI [of _ ?dec]) (simp add: contract_policy_def demo_rules_def)
qed

end
