(* ===== verification/Evm_Decoder.thy ===== *)
theory Evm_Decoder
  imports Policy_Types
begin

text \<open>
  The structural decoder for EVM transaction envelopes, \<open>qfc-policy/src/decoders/evm.rs\<close>. The RLP
  codec is the \<open>alloy-rlp\<close> crate, a parameter. Its law is the RLP format, defined here as an encoder
  (\<open>rlp_str\<close>, \<open>rlp_list\<close>) the crate's decoder inverts. Against that format the four envelope decoders
  are shown to invert the encoders of the four transaction types, and for an arbitrary codec they
  never panic and return only well-formed transactions.
\<close>

subsection \<open>Data\<close>

datatype evm_tx_type = Legacy | Eip2930 | Eip1559 | Eip4844

record access_list_item =
  ali_address :: bytes
  ali_storage_keys :: "bytes list"

record decoded_evm_tx =
  etx_tx_type :: evm_tx_type
  etx_chain_id :: "u64 option"
  etx_nonce :: u64
  etx_to :: "bytes option"
  etx_value :: u256
  etx_gas_limit :: u64
  etx_max_fee_per_gas :: "u256 option"
  etx_max_priority_fee_per_gas :: "u256 option"
  etx_gas_price :: "u256 option"
  etx_data :: bytes
  etx_method_selector :: "bytes option"
  etx_access_list :: "access_list_item list"
  etx_blob_versioned_hashes :: "bytes list"

datatype evm_decode_error =
    EvmEmpty
  | UnknownType u8
  | Rlp string
  | InvalidLength string nat nat

datatype payload_view = StringView bytes | ListView "bytes list"

text \<open>\<open>Header::decode_raw\<close> and \<open>Header::decode_bytes\<close>, which advance the cursor: the error is the
  crate's error printed with its debug format.\<close>

record rlp_crate =
  header_decode_raw :: "bytes \<Rightarrow> string + payload_view \<times> bytes"
  header_decode_bytes :: "bytes \<Rightarrow> string + bytes \<times> bytes"

primrec rlp_err :: "string + 'a \<Rightarrow> (evm_decode_error, 'a) outcome" where
  "rlp_err (Inl e) = Err (Rlp e)"
| "rlp_err (Inr x) = Ok x"

lemma rlp_err_simps [outcome_simps]:
  "rlp_err r = Ok x \<longleftrightarrow> r = Inr x" "rlp_err r = Err e \<longleftrightarrow> (\<exists>m. r = Inl m \<and> e = Rlp m)"
  by (cases r; auto)+

lemma rlp_err_not_Panic [simp]: "rlp_err r \<noteq> Panic p"
  by (cases r) auto

subsection \<open>Field decoders\<close>

definition decode_view :: "rlp_crate \<Rightarrow> string \<Rightarrow> string \<Rightarrow> bytes \<Rightarrow> (evm_decode_error, bytes list) outcome" where
  "decode_view cr trailing not_list raw =
     obind (rlp_err (header_decode_raw cr raw)) (\<lambda>(view, buf).
     obind (fail_if (buf \<noteq> []) (Rlp trailing)) (\<lambda>_.
     case view of ListView items \<Rightarrow> Ok items | StringView _ \<Rightarrow> Err (Rlp not_list)))"

definition decode_list :: "rlp_crate \<Rightarrow> bytes \<Rightarrow> nat \<Rightarrow> (evm_decode_error, bytes list) outcome" where
  "decode_list cr raw expected =
     obind (decode_view cr ''trailing bytes after envelope'' ''expected list at top level'' raw) (\<lambda>items.
     obind (fail_if (length items \<noteq> expected) (InvalidLength ''envelope'' expected (length items))) (\<lambda>_.
     Ok items))"

definition decode_bytes :: "rlp_crate \<Rightarrow> bytes \<Rightarrow> (evm_decode_error, bytes) outcome" where
  "decode_bytes cr item =
     obind (rlp_err (header_decode_bytes cr item)) (\<lambda>(bs, cur).
     obind (fail_if (cur \<noteq> []) (Rlp ''trailing bytes after string item'')) (\<lambda>_.
     Ok bs))"

definition leading_zero :: "bytes \<Rightarrow> bool" where
  "leading_zero bs \<longleftrightarrow> bs \<noteq> [] \<and> hd bs = 0"

definition decode_u64 :: "rlp_crate \<Rightarrow> string \<Rightarrow> bytes \<Rightarrow> (evm_decode_error, u64) outcome" where
  "decode_u64 cr field item =
     obind (decode_bytes cr item) (\<lambda>bs.
     obind (fail_if (length bs > 8) (InvalidLength field 8 (length bs))) (\<lambda>_.
     obind (fail_if (leading_zero bs) (Rlp (''non-canonical leading zero in '' @ field))) (\<lambda>_.
     Ok (word_of_nat (be_nat (replicate (8 - length bs) 0 @ bs))))))"

definition decode_u256 :: "rlp_crate \<Rightarrow> string \<Rightarrow> bytes \<Rightarrow> (evm_decode_error, u256) outcome" where
  "decode_u256 cr field item =
     obind (decode_bytes cr item) (\<lambda>bs.
     obind (fail_if (length bs > 32) (InvalidLength field 32 (length bs))) (\<lambda>_.
     obind (fail_if (leading_zero bs) (Rlp (''non-canonical leading zero in '' @ field))) (\<lambda>_.
     Ok (word_of_nat (be_nat bs)))))"

definition decode_optional_address :: "rlp_crate \<Rightarrow> bytes \<Rightarrow> (evm_decode_error, bytes option) outcome" where
  "decode_optional_address cr item =
     obind (decode_bytes cr item) (\<lambda>bs.
     if bs = [] then Ok None
     else obind (fail_if (length bs \<noteq> 20) (InvalidLength ''to'' 20 (length bs))) (\<lambda>_. Ok (Some bs)))"

definition decode_hash :: "rlp_crate \<Rightarrow> bytes \<Rightarrow> (evm_decode_error, bytes) outcome" where
  "decode_hash cr entry =
     obind (decode_bytes cr entry) (\<lambda>bs.
     obind (fail_if (length bs \<noteq> 32) (InvalidLength ''hash'' 32 (length bs))) (\<lambda>_. Ok bs))"

definition decode_hash_list :: "rlp_crate \<Rightarrow> bytes \<Rightarrow> (evm_decode_error, bytes list) outcome" where
  "decode_hash_list cr item =
     obind (decode_view cr ''trailing bytes after hash list'' ''expected hash list to be a list'' item) (omap (decode_hash cr))"

definition decode_access_entry :: "rlp_crate \<Rightarrow> bytes \<Rightarrow> (evm_decode_error, access_list_item) outcome" where
  "decode_access_entry cr entry =
     obind (decode_view cr ''trailing bytes inside access_list entry'' ''access_list entry must be a list'' entry) (\<lambda>entry_items.
     obind (fail_if (length entry_items \<noteq> 2) (InvalidLength ''access_list_entry'' 2 (length entry_items))) (\<lambda>_.
     obind (obind (index_at entry_items 0) (decode_bytes cr)) (\<lambda>addr_bytes.
     obind (fail_if (length addr_bytes \<noteq> 20) (InvalidLength ''access_list_address'' 20 (length addr_bytes))) (\<lambda>_.
     obind (obind (index_at entry_items 1) (decode_hash_list cr)) (\<lambda>storage_keys.
     Ok \<lparr>ali_address = addr_bytes, ali_storage_keys = storage_keys\<rparr>)))))"

definition decode_access_list :: "rlp_crate \<Rightarrow> bytes \<Rightarrow> (evm_decode_error, access_list_item list) outcome" where
  "decode_access_list cr item =
     obind (decode_view cr ''trailing bytes after access_list'' ''expected access_list to be a list'' item)
       (omap (decode_access_entry cr))"

definition first_four :: "bytes \<Rightarrow> bytes option" where
  "first_four data = (if length data < 4 then None else Some (take 4 data))"

subsection \<open>Envelope decoders\<close>

definition legacy_chain_id :: "u64 \<Rightarrow> u64 option" where
  "legacy_chain_id v = (if v \<ge> 35 then Some ((v - 35) div 2) else None)"

definition decode_legacy :: "rlp_crate \<Rightarrow> bytes \<Rightarrow> (evm_decode_error, decoded_evm_tx) outcome" where
  "decode_legacy cr raw =
     obind (decode_list cr raw 9) (\<lambda>items.
     obind (obind (index_at items 0) (decode_u64 cr ''nonce'')) (\<lambda>nonce.
     obind (obind (index_at items 1) (decode_u256 cr ''gas_price'')) (\<lambda>gas_price.
     obind (obind (index_at items 2) (decode_u64 cr ''gas_limit'')) (\<lambda>gas_limit.
     obind (obind (index_at items 3) (decode_optional_address cr)) (\<lambda>to.
     obind (obind (index_at items 4) (decode_u256 cr ''value'')) (\<lambda>value.
     obind (obind (index_at items 5) (decode_bytes cr)) (\<lambda>data.
     obind (obind (index_at items 6) (decode_u64 cr ''v'')) (\<lambda>v.
     obind (obind (index_at items 7) (decode_bytes cr)) (\<lambda>_.
     obind (obind (index_at items 8) (decode_bytes cr)) (\<lambda>_.
     Ok \<lparr>etx_tx_type = Legacy, etx_chain_id = legacy_chain_id v, etx_nonce = nonce, etx_to = to,
         etx_value = value, etx_gas_limit = gas_limit, etx_max_fee_per_gas = None,
         etx_max_priority_fee_per_gas = None, etx_gas_price = Some gas_price, etx_data = data,
         etx_method_selector = first_four data, etx_access_list = [], etx_blob_versioned_hashes = []\<rparr>))))))))))"

definition decode_eip2930 :: "rlp_crate \<Rightarrow> bytes \<Rightarrow> (evm_decode_error, decoded_evm_tx) outcome" where
  "decode_eip2930 cr raw =
     obind (decode_list cr raw 11) (\<lambda>items.
     obind (obind (index_at items 0) (decode_u64 cr ''chain_id'')) (\<lambda>chain_id.
     obind (obind (index_at items 1) (decode_u64 cr ''nonce'')) (\<lambda>nonce.
     obind (obind (index_at items 2) (decode_u256 cr ''gas_price'')) (\<lambda>gas_price.
     obind (obind (index_at items 3) (decode_u64 cr ''gas_limit'')) (\<lambda>gas_limit.
     obind (obind (index_at items 4) (decode_optional_address cr)) (\<lambda>to.
     obind (obind (index_at items 5) (decode_u256 cr ''value'')) (\<lambda>value.
     obind (obind (index_at items 6) (decode_bytes cr)) (\<lambda>data.
     obind (obind (index_at items 7) (decode_access_list cr)) (\<lambda>access_list.
     obind (obind (index_at items 8) (decode_u64 cr ''y_parity'')) (\<lambda>_.
     obind (obind (index_at items 9) (decode_bytes cr)) (\<lambda>_.
     obind (obind (index_at items 10) (decode_bytes cr)) (\<lambda>_.
     Ok \<lparr>etx_tx_type = Eip2930, etx_chain_id = Some chain_id, etx_nonce = nonce, etx_to = to,
         etx_value = value, etx_gas_limit = gas_limit, etx_max_fee_per_gas = None,
         etx_max_priority_fee_per_gas = None, etx_gas_price = Some gas_price, etx_data = data,
         etx_method_selector = first_four data, etx_access_list = access_list,
         etx_blob_versioned_hashes = []\<rparr>))))))))))))"

definition decode_eip1559 :: "rlp_crate \<Rightarrow> bytes \<Rightarrow> (evm_decode_error, decoded_evm_tx) outcome" where
  "decode_eip1559 cr raw =
     obind (decode_list cr raw 12) (\<lambda>items.
     obind (obind (index_at items 0) (decode_u64 cr ''chain_id'')) (\<lambda>chain_id.
     obind (obind (index_at items 1) (decode_u64 cr ''nonce'')) (\<lambda>nonce.
     obind (obind (index_at items 2) (decode_u256 cr ''max_priority_fee_per_gas'')) (\<lambda>max_priority_fee.
     obind (obind (index_at items 3) (decode_u256 cr ''max_fee_per_gas'')) (\<lambda>max_fee.
     obind (obind (index_at items 4) (decode_u64 cr ''gas_limit'')) (\<lambda>gas_limit.
     obind (obind (index_at items 5) (decode_optional_address cr)) (\<lambda>to.
     obind (obind (index_at items 6) (decode_u256 cr ''value'')) (\<lambda>value.
     obind (obind (index_at items 7) (decode_bytes cr)) (\<lambda>data.
     obind (obind (index_at items 8) (decode_access_list cr)) (\<lambda>access_list.
     obind (obind (index_at items 9) (decode_u64 cr ''y_parity'')) (\<lambda>_.
     obind (obind (index_at items 10) (decode_bytes cr)) (\<lambda>_.
     obind (obind (index_at items 11) (decode_bytes cr)) (\<lambda>_.
     Ok \<lparr>etx_tx_type = Eip1559, etx_chain_id = Some chain_id, etx_nonce = nonce, etx_to = to,
         etx_value = value, etx_gas_limit = gas_limit, etx_max_fee_per_gas = Some max_fee,
         etx_max_priority_fee_per_gas = Some max_priority_fee, etx_gas_price = None, etx_data = data,
         etx_method_selector = first_four data, etx_access_list = access_list,
         etx_blob_versioned_hashes = []\<rparr>)))))))))))))"

definition decode_eip4844 :: "rlp_crate \<Rightarrow> bytes \<Rightarrow> (evm_decode_error, decoded_evm_tx) outcome" where
  "decode_eip4844 cr raw =
     obind (decode_list cr raw 14) (\<lambda>items.
     obind (obind (index_at items 0) (decode_u64 cr ''chain_id'')) (\<lambda>chain_id.
     obind (obind (index_at items 1) (decode_u64 cr ''nonce'')) (\<lambda>nonce.
     obind (obind (index_at items 2) (decode_u256 cr ''max_priority_fee_per_gas'')) (\<lambda>max_priority_fee.
     obind (obind (index_at items 3) (decode_u256 cr ''max_fee_per_gas'')) (\<lambda>max_fee.
     obind (obind (index_at items 4) (decode_u64 cr ''gas_limit'')) (\<lambda>gas_limit.
     obind (obind (index_at items 5) (decode_optional_address cr)) (\<lambda>to.
     obind (obind (index_at items 6) (decode_u256 cr ''value'')) (\<lambda>value.
     obind (obind (index_at items 7) (decode_bytes cr)) (\<lambda>data.
     obind (obind (index_at items 8) (decode_access_list cr)) (\<lambda>access_list.
     obind (obind (index_at items 9) (decode_u256 cr ''max_fee_per_blob_gas'')) (\<lambda>_.
     obind (obind (index_at items 10) (decode_hash_list cr)) (\<lambda>blob_versioned_hashes.
     obind (obind (index_at items 11) (decode_u64 cr ''y_parity'')) (\<lambda>_.
     obind (obind (index_at items 12) (decode_bytes cr)) (\<lambda>_.
     obind (obind (index_at items 13) (decode_bytes cr)) (\<lambda>_.
     Ok \<lparr>etx_tx_type = Eip4844, etx_chain_id = Some chain_id, etx_nonce = nonce, etx_to = to,
         etx_value = value, etx_gas_limit = gas_limit, etx_max_fee_per_gas = Some max_fee,
         etx_max_priority_fee_per_gas = Some max_priority_fee, etx_gas_price = None, etx_data = data,
         etx_method_selector = first_four data, etx_access_list = access_list,
         etx_blob_versioned_hashes = blob_versioned_hashes\<rparr>)))))))))))))))"

definition decode_evm_tx :: "rlp_crate \<Rightarrow> bytes \<Rightarrow> (evm_decode_error, decoded_evm_tx) outcome" where
  "decode_evm_tx cr raw =
     (case raw of
        [] \<Rightarrow> Err EvmEmpty
      | first # rest \<Rightarrow>
          if first = 1 then decode_eip2930 cr rest
          else if first = 2 then decode_eip1559 cr rest
          else if first = 3 then decode_eip4844 cr rest
          else if first \<le> 0x7f then Err (UnknownType first)
          else decode_legacy cr raw)"

definition decoded_tx_from_evm :: "decoded_evm_tx \<Rightarrow> decoded_tx" where
  "decoded_tx_from_evm tx =
     \<lparr>dtx_chain_id = (case etx_chain_id tx of Some c \<Rightarrow> c | None \<Rightarrow> 0), dtx_to = etx_to tx,
      dtx_value = Some (etx_value tx), dtx_gas_limit = Some (etx_gas_limit tx),
      dtx_method_selector = etx_method_selector tx,
      dtx_raw_args = (if length (etx_data tx) > 4 then Some (drop 4 (etx_data tx)) else None)\<rparr>"

definition evm_decoder :: "rlp_crate \<Rightarrow> vm_decoder" where
  "evm_decoder cr vm raw =
     (if vm \<noteq> Evm then None else map_option decoded_tx_from_evm (ok_opt (decode_evm_tx cr raw)))"

subsection \<open>No panic, well-formed results\<close>

text \<open>What the field decoders guarantee whatever the codec does.\<close>

lemma field_no_panic [simp]:
  "decode_bytes cr item \<noteq> Panic p" "decode_u64 cr f item \<noteq> Panic p" "decode_u256 cr f item \<noteq> Panic p"
  "decode_optional_address cr item \<noteq> Panic p" "decode_hash cr item \<noteq> Panic p"
  "decode_view cr t n item \<noteq> Panic p" "decode_list cr item k \<noteq> Panic p"
  by (auto simp: decode_bytes_def decode_u64_def decode_u256_def decode_optional_address_def decode_hash_def
      decode_view_def decode_list_def outcome_simps split: payload_view.splits)

lemma decode_hash_list_no_panic [simp]: "decode_hash_list cr item \<noteq> Panic p"
  by (auto simp: decode_hash_list_def outcome_simps dest: omap_not_Panic [THEN notE, rotated])

lemma decode_access_entry_no_panic [simp]: "decode_access_entry cr entry \<noteq> Panic p"
  by (auto simp: decode_access_entry_def outcome_simps)

lemma decode_access_list_no_panic [simp]: "decode_access_list cr item \<noteq> Panic p"
  by (auto simp: decode_access_list_def outcome_simps dest: omap_not_Panic [THEN notE, rotated])

lemma decode_list_length: "decode_list cr raw k = Ok items \<Longrightarrow> length items = k"
  by (auto simp: decode_list_def outcome_simps)

lemma field_shapes:
  "decode_optional_address cr item = Ok (Some a) \<Longrightarrow> length a = 20"
  "decode_hash cr item = Ok h \<Longrightarrow> length h = 32"
  "decode_hash_list cr item = Ok hs \<Longrightarrow> h \<in> set hs \<Longrightarrow> length h = 32"
  by (auto simp: decode_optional_address_def decode_hash_def decode_hash_list_def outcome_simps split: if_splits
      dest!: omap_Ok_set)

definition access_list_wf :: "access_list_item list \<Rightarrow> bool" where
  "access_list_wf al \<longleftrightarrow> (\<forall>a \<in> set al. length (ali_address a) = 20 \<and> (\<forall>k \<in> set (ali_storage_keys a). length k = 32))"

lemma decode_access_entry_wf:
  assumes "decode_access_entry cr e = Ok a"
  shows "length (ali_address a) = 20" "k \<in> set (ali_storage_keys a) \<Longrightarrow> length k = 32"
proof -
  from assms obtain item where "decode_hash_list cr item = Ok (ali_storage_keys a)" "length (ali_address a) = 20"
    by (auto simp: decode_access_entry_def outcome_simps)
  with field_shapes(3) show "length (ali_address a) = 20" "k \<in> set (ali_storage_keys a) \<Longrightarrow> length k = 32"
    by blast+
qed

lemma decode_access_list_wf: "decode_access_list cr item = Ok al \<Longrightarrow> access_list_wf al"
  unfolding access_list_wf_def decode_access_list_def
  by (auto simp: outcome_simps dest!: omap_Ok_set intro: decode_access_entry_wf)

text \<open>The documented shape of a decoded transaction: which fields each envelope type fills.\<close>

definition evm_wf :: "decoded_evm_tx \<Rightarrow> bool" where
  "evm_wf tx \<longleftrightarrow>
     (\<forall>a. etx_to tx = Some a \<longrightarrow> length a = 20) \<and>
     etx_method_selector tx = first_four (etx_data tx) \<and>
     access_list_wf (etx_access_list tx) \<and> (\<forall>h \<in> set (etx_blob_versioned_hashes tx). length h = 32) \<and>
     (etx_gas_price tx \<noteq> None \<longleftrightarrow> etx_tx_type tx \<in> {Legacy, Eip2930}) \<and>
     (etx_max_fee_per_gas tx \<noteq> None \<longleftrightarrow> etx_tx_type tx \<in> {Eip1559, Eip4844}) \<and>
     (etx_max_priority_fee_per_gas tx \<noteq> None \<longleftrightarrow> etx_tx_type tx \<in> {Eip1559, Eip4844}) \<and>
     (etx_tx_type tx = Legacy \<longrightarrow> etx_access_list tx = []) \<and>
     (etx_tx_type tx \<noteq> Eip4844 \<longrightarrow> etx_blob_versioned_hashes tx = []) \<and>
     (if etx_tx_type tx = Legacy then \<exists>v. etx_chain_id tx = legacy_chain_id v else etx_chain_id tx \<noteq> None)"

lemma decoder_wf:
  "decode_legacy cr raw = Ok tx \<Longrightarrow> evm_wf tx"
  "decode_eip2930 cr raw = Ok tx \<Longrightarrow> evm_wf tx"
  "decode_eip1559 cr raw = Ok tx \<Longrightarrow> evm_wf tx"
  "decode_eip4844 cr raw = Ok tx \<Longrightarrow> evm_wf tx"
  by (auto simp: decode_legacy_def decode_eip2930_def decode_eip1559_def decode_eip4844_def outcome_simps evm_wf_def
      access_list_wf_def [of "[]"] dest: field_shapes decode_access_list_wf)

lemma decoder_no_panic [simp]:
  "decode_legacy cr raw \<noteq> Panic p" "decode_eip2930 cr raw \<noteq> Panic p"
  "decode_eip1559 cr raw \<noteq> Panic p" "decode_eip4844 cr raw \<noteq> Panic p"
  by (auto simp: decode_legacy_def decode_eip2930_def decode_eip1559_def decode_eip4844_def outcome_simps
      dest!: decode_list_length)

lemma decode_evm_tx_wf: "decode_evm_tx cr raw = Ok tx \<Longrightarrow> evm_wf tx"
  unfolding decode_evm_tx_def by (cases raw) (simp_all split: if_splits add: decoder_wf)

lemma decode_evm_tx_no_panic: "decode_evm_tx cr raw \<noteq> Panic p"
  unfolding decode_evm_tx_def by (cases raw) simp_all

subsection \<open>The RLP format\<close>

definition minimal_be :: "nat \<Rightarrow> nat \<Rightarrow> bytes" where
  "minimal_be k n = dropWhile (\<lambda>b. b = 0) (be_bytes k n)"

definition rlp_head :: "nat \<Rightarrow> bytes \<Rightarrow> bytes" where
  "rlp_head off p =
     (if length p < 56 then word_of_nat (off + length p) # p
      else let l = minimal_be 8 (length p) in word_of_nat (off + 55 + length l) # l @ p)"

definition rlp_str :: "bytes \<Rightarrow> bytes" where
  "rlp_str b = (if length b = 1 \<and> unat (hd b) < 128 then b else rlp_head 128 b)"

definition rlp_list :: "bytes list \<Rightarrow> bytes" where
  "rlp_list items = rlp_head 192 (concat items)"

inductive is_rlp :: "bytes \<Rightarrow> bool" where
  is_rlp_str: "is_rlp (rlp_str b)" if "length b < 2 ^ 63"
| is_rlp_list: "is_rlp (rlp_list items)" if "\<forall>i \<in> set items. is_rlp i" "length (concat items) < 2 ^ 63"

text \<open>The law of the codec: it decodes what the format encodes.\<close>

definition rlp_laws :: "rlp_crate \<Rightarrow> bool" where
  "rlp_laws cr \<longleftrightarrow>
     (\<forall>b. length b < 2 ^ 63 \<longrightarrow> header_decode_bytes cr (rlp_str b) = Inr (b, [])) \<and>
     (\<forall>items. (\<forall>i \<in> set items. is_rlp i) \<longrightarrow> length (concat items) < 2 ^ 63 \<longrightarrow>
        header_decode_raw cr (rlp_list items) = Inr (ListView items, []))"

lemma be_nat_Cons_0 [simp]: "be_nat (0 # bs) = be_nat bs"
  by (simp add: be_nat_def)

lemma be_nat_dropWhile_0 [simp]: "be_nat (dropWhile (\<lambda>b. b = 0) bs) = be_nat bs"
  by (induction bs) auto

lemma be_nat_replicate_0 [simp]: "be_nat (replicate n 0 @ bs) = be_nat bs"
  by (induction n) auto

lemma not_leading_zero_minimal [simp]: "\<not> leading_zero (minimal_be k n)"
  using hd_dropWhile [of "\<lambda>b. b = 0" "be_bytes k n"] by (auto simp: leading_zero_def minimal_be_def)

lemma length_minimal_be: "length (minimal_be k n) \<le> k"
  unfolding minimal_be_def by (metis length_be_bytes length_dropWhile_le)

lemma be_nat_minimal_be: "n < 256 ^ k \<Longrightarrow> be_nat (minimal_be k n) = n"
  by (simp add: minimal_be_def be_nat_be_bytes)

lemma length_rlp_head: "length p < length (rlp_head off p)"
  by (simp add: rlp_head_def Let_def)

lemma length_le_rlp_str: "length b \<le> length (rlp_str b)"
  using length_rlp_head [of b 128] by (simp add: rlp_str_def)

lemma length_lt_rlp_list: "length (concat items) < length (rlp_list items)"
  by (simp add: rlp_list_def length_rlp_head)

lemma length_item_lt_rlp_list: "i \<in> set items \<Longrightarrow> length i < length (rlp_list items)"
proof -
  assume "i \<in> set items"
  then have "length i \<le> length (concat items)"
    by (simp add: length_concat member_le_sum_list)
  then show ?thesis using length_lt_rlp_list [of items] by simp
qed

subsection \<open>Encoders of the four transaction types\<close>

definition rlp_u64 :: "u64 \<Rightarrow> bytes" where "rlp_u64 x = rlp_str (minimal_be 8 (unat x))"
definition rlp_u256 :: "u256 \<Rightarrow> bytes" where "rlp_u256 x = rlp_str (minimal_be 32 (unat x))"

definition rlp_to :: "bytes option \<Rightarrow> bytes" where
  "rlp_to t = rlp_str (case t of None \<Rightarrow> [] | Some a \<Rightarrow> a)"

definition rlp_access_entry :: "access_list_item \<Rightarrow> bytes" where
  "rlp_access_entry a = rlp_list [rlp_str (ali_address a), rlp_list (map rlp_str (ali_storage_keys a))]"

definition rlp_access_list :: "access_list_item list \<Rightarrow> bytes" where
  "rlp_access_list al = rlp_list (map rlp_access_entry al)"

lemma encoded_lengths:
  "length (rlp_list items) \<le> length (concat items) + 9" "length (rlp_str b) \<le> length b + 9"
  "length (rlp_u64 x) \<le> 17" "length (rlp_u256 y) \<le> 41"
proof -
  have h: "length (rlp_head off p) \<le> length p + 9" for off p
    using length_minimal_be [of 8 "length p"] by (simp add: rlp_head_def Let_def)
  then show "length (rlp_list items) \<le> length (concat items) + 9" unfolding rlp_list_def .
  show s: "length (rlp_str b) \<le> length b + 9" for b using h [of 128 b] by (simp add: rlp_str_def)
  show "length (rlp_u64 x) \<le> 17" "length (rlp_u256 y) \<le> 41"
    using s [of "minimal_be 8 (unat x)"] s [of "minimal_be 32 (unat y)"] length_minimal_be [of 8 "unat x"]
      length_minimal_be [of 32 "unat y"] unfolding rlp_u64_def rlp_u256_def by linarith+
qed

text \<open>The fields of the signature, and the blob fee, which the decoder reads and drops.\<close>

record evm_tail =
  tl_v :: u64
  tl_r :: bytes
  tl_s :: bytes
  tl_blob_fee :: u256

definition evm_encode :: "decoded_evm_tx \<Rightarrow> evm_tail \<Rightarrow> bytes" where
  "evm_encode tx t =
     (let chain = rlp_u64 (the (etx_chain_id tx));
          price = rlp_u256 (the (etx_gas_price tx));
          fees = [rlp_u256 (the (etx_max_priority_fee_per_gas tx)), rlp_u256 (the (etx_max_fee_per_gas tx))];
          call = [rlp_u64 (etx_gas_limit tx), rlp_to (etx_to tx), rlp_u256 (etx_value tx), rlp_str (etx_data tx)];
          nonce = rlp_u64 (etx_nonce tx);
          al = rlp_access_list (etx_access_list tx);
          sig = [rlp_u64 (tl_v t), rlp_str (tl_r t), rlp_str (tl_s t)] in
      case etx_tx_type tx of
        Legacy \<Rightarrow> rlp_list ([nonce, price] @ call @ sig)
      | Eip2930 \<Rightarrow> 1 # rlp_list ([chain, nonce, price] @ call @ [al] @ sig)
      | Eip1559 \<Rightarrow> 2 # rlp_list ([chain, nonce] @ fees @ call @ [al] @ sig)
      | Eip4844 \<Rightarrow> 3 # rlp_list ([chain, nonce] @ fees @ call @
          [al, rlp_u256 (tl_blob_fee t), rlp_list (map rlp_str (etx_blob_versioned_hashes tx))] @ sig))"

subsection \<open>Decoding inverts encoding\<close>

lemma decode_bytes_rlp_str: "rlp_laws cr \<Longrightarrow> length b < 2 ^ 63 \<Longrightarrow> decode_bytes cr (rlp_str b) = Ok b"
  by (simp add: rlp_laws_def decode_bytes_def)

lemma decode_view_rlp_list:
  "rlp_laws cr \<Longrightarrow> \<forall>i \<in> set items. is_rlp i \<Longrightarrow> length (concat items) < 2 ^ 63 \<Longrightarrow>
   decode_view cr t n (rlp_list items) = Ok items"
  by (simp add: rlp_laws_def decode_view_def)

lemma decode_u64_rlp: "rlp_laws cr \<Longrightarrow> decode_u64 cr f (rlp_u64 x) = Ok x"
proof -
  assume l: "rlp_laws cr"
  have "length (minimal_be 8 (unat x)) \<le> 8" by (rule length_minimal_be)
  moreover have "be_nat (minimal_be 8 (unat x)) = unat x"
    using unat_lt [of x] by (intro be_nat_minimal_be) simp
  ultimately show ?thesis
    using decode_bytes_rlp_str [OF l, of "minimal_be 8 (unat x)"]
    by (simp add: decode_u64_def rlp_u64_def)
qed

lemma decode_u256_rlp: "rlp_laws cr \<Longrightarrow> decode_u256 cr f (rlp_u256 x) = Ok x"
proof -
  assume l: "rlp_laws cr"
  have "length (minimal_be 32 (unat x)) \<le> 32" by (rule length_minimal_be)
  moreover have "be_nat (minimal_be 32 (unat x)) = unat x"
    using unat_lt [of x] by (intro be_nat_minimal_be) simp
  ultimately show ?thesis
    using decode_bytes_rlp_str [OF l, of "minimal_be 32 (unat x)"]
    by (simp add: decode_u256_def rlp_u256_def)
qed

lemma decode_to_rlp:
  "rlp_laws cr \<Longrightarrow> \<forall>a. t = Some a \<longrightarrow> length a = 20 \<Longrightarrow> decode_optional_address cr (rlp_to t) = Ok t"
  by (auto simp: decode_optional_address_def rlp_to_def decode_bytes_rlp_str split: option.splits)

lemma is_rlp_fields [simp]: "is_rlp (rlp_u64 x)" "is_rlp (rlp_u256 y)"
  using length_minimal_be [of 8 "unat x"] length_minimal_be [of 32 "unat y"]
  unfolding rlp_u64_def rlp_u256_def by (simp_all add: is_rlp_str)

lemma is_rlp_to: "\<forall>a. t = Some a \<longrightarrow> length a = 20 \<Longrightarrow> is_rlp (rlp_to t)"
  unfolding rlp_to_def by (intro is_rlp_str) (auto split: option.splits)

lemma is_rlp_bounded:
  "length (rlp_str b) < 2 ^ 63 \<Longrightarrow> is_rlp (rlp_str b)"
  "length (rlp_list items) < 2 ^ 63 \<Longrightarrow> \<forall>i \<in> set items. is_rlp i \<Longrightarrow> is_rlp (rlp_list items)"
  using length_le_rlp_str [of b] length_lt_rlp_list [of items] by (auto intro: is_rlp_str is_rlp_list)

lemma hashes_rlp: "\<forall>h \<in> set hs. length h = 32 \<Longrightarrow> \<forall>i \<in> set (map rlp_str hs). is_rlp i"
  by (auto intro: is_rlp_str)

lemma decode_hash_list_rlp:
  assumes "rlp_laws cr" "\<forall>h \<in> set hs. length h = 32" "length (rlp_list (map rlp_str hs)) < 2 ^ 63"
  shows "decode_hash_list cr (rlp_list (map rlp_str hs)) = Ok hs"
proof -
  have "omap (decode_hash cr) (map rlp_str hs) = Ok hs"
    using assms(2) by (induction hs) (simp_all add: decode_hash_def decode_bytes_rlp_str [OF assms(1)])
  moreover have "decode_view cr t n (rlp_list (map rlp_str hs)) = Ok (map rlp_str hs)" for t n
    using assms(3) length_lt_rlp_list by (intro decode_view_rlp_list assms(1) hashes_rlp assms(2)) (rule less_trans)
  ultimately show ?thesis by (simp add: decode_hash_list_def)
qed

lemma access_entry_rlp:
  assumes "length (ali_address a) = 20" "\<forall>k \<in> set (ali_storage_keys a). length k = 32" "length (rlp_access_entry a) < 2 ^ 63"
  shows "is_rlp (rlp_access_entry a)" "rlp_laws cr \<Longrightarrow> decode_access_entry cr (rlp_access_entry a) = Ok a"
proof -
  let ?keys = "rlp_list (map rlp_str (ali_storage_keys a))"
  let ?items = "[rlp_str (ali_address a), ?keys]"
  have k: "length ?keys < 2 ^ 63"
    using assms(3) length_item_lt_rlp_list [of ?keys ?items] by (simp add: rlp_access_entry_def)
  have items: "\<forall>i \<in> set ?items. is_rlp i"
    using is_rlp_bounded(2) [OF k hashes_rlp [OF assms(2)]] assms(1) by (simp add: is_rlp_str)
  with assms(3) show "is_rlp (rlp_access_entry a)" unfolding rlp_access_entry_def by (rule is_rlp_bounded(2))
  assume l: "rlp_laws cr"
  have "decode_view cr t n (rlp_access_entry a) = Ok ?items" for t n
    unfolding rlp_access_entry_def
    using assms(3) length_lt_rlp_list [of ?items]
    by (intro decode_view_rlp_list l items) (simp add: rlp_access_entry_def)
  then show "decode_access_entry cr (rlp_access_entry a) = Ok a"
    using assms(1) by (simp add: decode_access_entry_def decode_bytes_rlp_str [OF l] decode_hash_list_rlp [OF l assms(2) k])
qed

lemma access_list_rlp:
  assumes "access_list_wf al" "length (rlp_access_list al) < 2 ^ 63"
  shows "is_rlp (rlp_access_list al)" "rlp_laws cr \<Longrightarrow> decode_access_list cr (rlp_access_list al) = Ok al"
proof -
  let ?items = "map rlp_access_entry al"
  have eq: "rlp_access_list al = rlp_list ?items"
    by (simp add: rlp_access_list_def)
  have e: "length (ali_address a) = 20" "\<forall>k \<in> set (ali_storage_keys a). length k = 32"
    "length (rlp_access_entry a) < 2 ^ 63" if "a \<in> set al" for a
    using that assms length_item_lt_rlp_list [of "rlp_access_entry a" ?items]
    by (auto simp: access_list_wf_def eq)
  have items: "\<forall>i \<in> set ?items. is_rlp i" using access_entry_rlp(1) [OF e] by auto
  with assms(2) show "is_rlp (rlp_access_list al)" unfolding eq by (rule is_rlp_bounded(2))
  assume l: "rlp_laws cr"
  have "decode_view cr t n (rlp_access_list al) = Ok ?items" for t n
    unfolding eq using assms(2) length_lt_rlp_list [of ?items]
    by (intro decode_view_rlp_list l items) (simp add: eq)
  moreover have "omap (decode_access_entry cr) ?items = Ok al"
    using access_entry_rlp(2) [OF e l] by (induction al) simp_all
  ultimately show "decode_access_list cr (rlp_access_list al) = Ok al" by (simp add: decode_access_list_def)
qed

lemma decode_list_rlp:
  assumes "rlp_laws cr" "length (rlp_list items) < 2 ^ 63" "\<forall>i \<in> set items. length i < 2 ^ 63 \<longrightarrow> is_rlp i"
    "length items = k"
  shows "decode_list cr (rlp_list items) k = Ok items" "\<forall>i \<in> set items. length i < 2 ^ 63"
proof -
  show b: "\<forall>i \<in> set items. length i < 2 ^ 63" using assms(2) length_item_lt_rlp_list less_trans by blast
  have "length (concat items) < 2 ^ 63" using assms(2) length_lt_rlp_list [of items] by linarith
  with b assms(1,3,4) show "decode_list cr (rlp_list items) k = Ok items"
    by (simp add: decode_list_def decode_view_rlp_list)
qed

text \<open>An encoded list starts above the range of type bytes.\<close>

lemma unat_small_u8: "n < 256 \<Longrightarrow> unat (word_of_nat n :: u8) = n"
  by (simp add: unat_of_nat)

lemma rlp_list_hd: "\<exists>b bs. rlp_list items = b # bs \<and> \<not> b \<le> 0x7f"
proof -
  define n where "n = (if length (concat items) < 56 then length (concat items) else 55 + length (minimal_be 8 (length (concat items))))"
  have n: "192 + n < 256" using length_minimal_be [of 8 "length (concat items)"] by (auto simp: n_def)
  have "\<not> (word_of_nat (192 + n) :: u8) \<le> 0x7f" unfolding word_le_nat_alt unat_small_u8 [OF n] by simp
  moreover have "\<exists>bs. rlp_list items = word_of_nat (192 + n) # bs"
    by (simp add: rlp_list_def rlp_head_def Let_def n_def)
  ultimately show ?thesis by blast
qed

lemma decode_bytes_bounded: "rlp_laws cr \<Longrightarrow> length (rlp_str b) < 2 ^ 63 \<Longrightarrow> decode_bytes cr (rlp_str b) = Ok b"
  using length_le_rlp_str [of b] by (intro decode_bytes_rlp_str) auto

lemmas field_rlp = decode_u64_rlp decode_u256_rlp decode_to_rlp decode_bytes_bounded access_list_rlp(2) decode_hash_list_rlp
lemmas item_rlp = is_rlp_fields is_rlp_to is_rlp_bounded(1) access_list_rlp(1)

lemma legacy_round_trip:
  assumes "rlp_laws cr" "evm_wf tx" "etx_tx_type tx = Legacy" "etx_chain_id tx = legacy_chain_id (tl_v t)"
    "length (evm_encode tx t) < 2 ^ 63"
  shows "decode_evm_tx cr (evm_encode tx t) = Ok tx"
proof -
  obtain p where p: "etx_gas_price tx = Some p" using assms(2,3) by (auto simp: evm_wf_def)
  let ?items = "[rlp_u64 (etx_nonce tx), rlp_u256 p, rlp_u64 (etx_gas_limit tx), rlp_to (etx_to tx), rlp_u256 (etx_value tx),
    rlp_str (etx_data tx), rlp_u64 (tl_v t), rlp_str (tl_r t), rlp_str (tl_s t)]"
  have enc: "evm_encode tx t = rlp_list ?items" using assms(3) p by (simp add: evm_encode_def Let_def)
  have to: "\<forall>a. etx_to tx = Some a \<longrightarrow> length a = 20" using assms(2) by (simp add: evm_wf_def)
  have "\<forall>i \<in> set ?items. length i < 2 ^ 63 \<longrightarrow> is_rlp i" using to by (simp add: item_rlp)
  then have d: "decode_list cr (rlp_list ?items) 9 = Ok ?items" "\<forall>i \<in> set ?items. length i < 2 ^ 63"
    using decode_list_rlp [OF assms(1), of ?items 9] assms(5) unfolding enc by simp_all
  have "decode_legacy cr (rlp_list ?items) = Ok tx"
    using d assms(1-4) to p by (simp add: decode_legacy_def field_rlp evm_wf_def)
  then show ?thesis using rlp_list_hd [of ?items] unfolding enc by (auto simp: decode_evm_tx_def)
qed

lemma eip2930_round_trip:
  assumes "rlp_laws cr" "evm_wf tx" "etx_tx_type tx = Eip2930" "length (evm_encode tx t) < 2 ^ 63"
  shows "decode_evm_tx cr (evm_encode tx t) = Ok tx"
proof -
  obtain p c where p: "etx_gas_price tx = Some p" "etx_chain_id tx = Some c" using assms(2,3) by (auto simp: evm_wf_def)
  let ?items = "[rlp_u64 c, rlp_u64 (etx_nonce tx), rlp_u256 p, rlp_u64 (etx_gas_limit tx), rlp_to (etx_to tx), rlp_u256 (etx_value tx),
    rlp_str (etx_data tx), rlp_access_list (etx_access_list tx), rlp_u64 (tl_v t), rlp_str (tl_r t), rlp_str (tl_s t)]"
  have enc: "evm_encode tx t = 1 # rlp_list ?items" using assms(3) p by (simp add: evm_encode_def Let_def)
  have wf: "\<forall>a. etx_to tx = Some a \<longrightarrow> length a = 20" "access_list_wf (etx_access_list tx)" using assms(2) by (simp_all add: evm_wf_def)
  have "\<forall>i \<in> set ?items. length i < 2 ^ 63 \<longrightarrow> is_rlp i" using wf by (simp add: item_rlp)
  moreover have "length (rlp_list ?items) < 2 ^ 63" using assms(4) unfolding enc by simp
  ultimately have d: "decode_list cr (rlp_list ?items) 11 = Ok ?items" "\<forall>i \<in> set ?items. length i < 2 ^ 63"
    using decode_list_rlp [OF assms(1), of ?items 11] by simp_all
  have "decode_eip2930 cr (rlp_list ?items) = Ok tx"
    using d assms(1-3) wf p by (simp add: decode_eip2930_def field_rlp evm_wf_def)
  then show ?thesis unfolding enc by (simp add: decode_evm_tx_def)
qed

lemma eip1559_round_trip:
  assumes "rlp_laws cr" "evm_wf tx" "etx_tx_type tx = Eip1559" "length (evm_encode tx t) < 2 ^ 63"
  shows "decode_evm_tx cr (evm_encode tx t) = Ok tx"
proof -
  obtain m f c where p: "etx_max_priority_fee_per_gas tx = Some m" "etx_max_fee_per_gas tx = Some f" "etx_chain_id tx = Some c"
    using assms(2,3) by (auto simp: evm_wf_def)
  let ?items = "[rlp_u64 c, rlp_u64 (etx_nonce tx), rlp_u256 m, rlp_u256 f, rlp_u64 (etx_gas_limit tx), rlp_to (etx_to tx), rlp_u256 (etx_value tx),
    rlp_str (etx_data tx), rlp_access_list (etx_access_list tx), rlp_u64 (tl_v t), rlp_str (tl_r t), rlp_str (tl_s t)]"
  have enc: "evm_encode tx t = 2 # rlp_list ?items" using assms(3) p by (simp add: evm_encode_def Let_def)
  have wf: "\<forall>a. etx_to tx = Some a \<longrightarrow> length a = 20" "access_list_wf (etx_access_list tx)" using assms(2) by (simp_all add: evm_wf_def)
  have "\<forall>i \<in> set ?items. length i < 2 ^ 63 \<longrightarrow> is_rlp i" using wf by (simp add: item_rlp)
  moreover have "length (rlp_list ?items) < 2 ^ 63" using assms(4) unfolding enc by simp
  ultimately have d: "decode_list cr (rlp_list ?items) 12 = Ok ?items" "\<forall>i \<in> set ?items. length i < 2 ^ 63"
    using decode_list_rlp [OF assms(1), of ?items 12] by simp_all
  have "decode_eip1559 cr (rlp_list ?items) = Ok tx"
    using d assms(1-3) wf p by (simp add: decode_eip1559_def field_rlp evm_wf_def)
  then show ?thesis unfolding enc by (simp add: decode_evm_tx_def)
qed

lemma eip4844_round_trip:
  assumes "rlp_laws cr" "evm_wf tx" "etx_tx_type tx = Eip4844" "length (evm_encode tx t) < 2 ^ 63"
  shows "decode_evm_tx cr (evm_encode tx t) = Ok tx"
proof -
  obtain m f c where p: "etx_max_priority_fee_per_gas tx = Some m" "etx_max_fee_per_gas tx = Some f" "etx_chain_id tx = Some c"
    using assms(2,3) by (auto simp: evm_wf_def)
  let ?blobs = "rlp_list (map rlp_str (etx_blob_versioned_hashes tx))"
  let ?items = "[rlp_u64 c, rlp_u64 (etx_nonce tx), rlp_u256 m, rlp_u256 f, rlp_u64 (etx_gas_limit tx), rlp_to (etx_to tx), rlp_u256 (etx_value tx),
    rlp_str (etx_data tx), rlp_access_list (etx_access_list tx), rlp_u256 (tl_blob_fee t), ?blobs, rlp_u64 (tl_v t), rlp_str (tl_r t), rlp_str (tl_s t)]"
  have enc: "evm_encode tx t = 3 # rlp_list ?items" using assms(3) p by (simp add: evm_encode_def Let_def)
  have wf: "\<forall>a. etx_to tx = Some a \<longrightarrow> length a = 20" "access_list_wf (etx_access_list tx)"
    and h: "\<forall>h \<in> set (etx_blob_versioned_hashes tx). length h = 32" using assms(2) by (simp_all add: evm_wf_def)
  have "\<forall>i \<in> set ?items. length i < 2 ^ 63 \<longrightarrow> is_rlp i"
    using wf is_rlp_bounded(2) [OF _ hashes_rlp [OF h]] by (simp add: item_rlp)
  moreover have "length (rlp_list ?items) < 2 ^ 63" using assms(4) unfolding enc by simp
  ultimately have d: "decode_list cr (rlp_list ?items) 14 = Ok ?items" "\<forall>i \<in> set ?items. length i < 2 ^ 63"
    using decode_list_rlp [OF assms(1), of ?items 14] by simp_all
  have "decode_eip4844 cr (rlp_list ?items) = Ok tx"
    using d assms(1-3) wf h p by (simp add: decode_eip4844_def field_rlp evm_wf_def)
  then show ?thesis unfolding enc by (simp add: decode_evm_tx_def)
qed

subsection \<open>A codec that obeys the law\<close>

text \<open>\<open>ref_header\<close> splits off a header: whether it is a list, the payload length, what follows.\<close>

definition ref_header :: "bytes \<Rightarrow> (bool \<times> nat \<times> bytes) option" where
  "ref_header bs =
     (case bs of
        [] \<Rightarrow> None
      | b # r \<Rightarrow>
          let n = unat b in
          if n < 128 then Some (False, 1, bs)
          else if n < 184 then Some (False, n - 128, r)
          else if n < 192 then Some (False, be_nat (take (n - 183) r), drop (n - 183) r)
          else if n < 248 then Some (True, n - 192, r)
          else Some (True, be_nat (take (n - 247) r), drop (n - 247) r))"

primrec ref_items :: "nat \<Rightarrow> bytes \<Rightarrow> bytes list" where
  "ref_items 0 bs = []"
| "ref_items (Suc fuel) bs =
     (case ref_header bs of
        None \<Rightarrow> []
      | Some (_, n, r) \<Rightarrow> take (length bs - length (drop n r)) bs # ref_items fuel (drop n r))"

definition ref_rlp :: rlp_crate where
  "ref_rlp = \<lparr>
     header_decode_raw = (\<lambda>bs. case ref_header bs of
         None \<Rightarrow> Inl ''InputTooShort''
       | Some (l, n, r) \<Rightarrow> Inr (if l then ListView (ref_items n (take n r)) else StringView (take n r), drop n r)),
     header_decode_bytes = (\<lambda>bs. case ref_header bs of
         None \<Rightarrow> Inl ''InputTooShort''
       | Some (l, n, r) \<Rightarrow> if l then Inl ''UnexpectedList'' else Inr (take n r, drop n r))\<rparr>"

lemma minimal_be_pos: "0 < n \<Longrightarrow> n < 256 ^ k \<Longrightarrow> 0 < length (minimal_be k n)"
  using be_nat_minimal_be [of n k] by (cases "minimal_be k n") auto

lemma ref_header_head:
  assumes "length p < 2 ^ 63" "off = 128 \<or> off = 192"
  shows "ref_header (rlp_head off p @ r) = Some (off = 192, length p, p @ r)"
proof (cases "length p < 56")
  case True
  then have "unat (word_of_nat (off + length p) :: u8) = off + length p" using assms(2) by (intro unat_small_u8) auto
  with True assms(2) show ?thesis by (auto simp: rlp_head_def ref_header_def Let_def)
next
  case False
  define l where "l = minimal_be 8 (length p)"
  have n: "0 < length p" using False by linarith
  have m: "length p < 256 ^ 8" using assms(1) by simp
  have l: "length l \<le> 8" "be_nat l = length p" "0 < length l"
    unfolding l_def using length_minimal_be be_nat_minimal_be [OF m] minimal_be_pos [OF n m] by blast+
  then have "unat (word_of_nat (off + 55 + length l) :: u8) = off + 55 + length l" using assms(2) by (intro unat_small_u8) auto
  moreover have "rlp_head off p = word_of_nat (off + 55 + length l) # l @ p" using False by (simp add: rlp_head_def l_def Let_def)
  ultimately show ?thesis using l assms(2) by (auto simp: ref_header_def Let_def simp del: of_nat_add)
qed

lemma ref_header_str: "length b < 2 ^ 63 \<Longrightarrow> ref_header (rlp_str b @ r) = Some (False, length b, b @ r)"
  using ref_header_head [of b 128 r]
  by (cases b) (auto simp: rlp_str_def ref_header_def Let_def split: if_splits)

lemma ref_header_is_rlp: "is_rlp i \<Longrightarrow> \<exists>l p. ref_header (i @ r) = Some (l, length p, p @ r)"
  by (cases rule: is_rlp.cases) (auto simp: ref_header_str ref_header_head rlp_list_def)

lemma rlp_head_not_Nil [simp]: "rlp_head off p \<noteq> []"
  by (simp add: rlp_head_def Let_def)

lemma is_rlp_not_Nil: "is_rlp i \<Longrightarrow> i \<noteq> []"
  by (erule is_rlp.cases) (auto simp: rlp_str_def rlp_list_def)

lemma ref_items_concat: "\<forall>i \<in> set items. is_rlp i \<Longrightarrow> length items \<le> fuel \<Longrightarrow> ref_items fuel (concat items) = items"
proof (induction items arbitrary: fuel)
  case Nil
  then show ?case by (cases fuel) (simp_all add: ref_header_def)
next
  case (Cons i items)
  from Cons.prems(2) obtain f where f: "fuel = Suc f" by (cases fuel) auto
  from Cons.prems(1) obtain l p where "ref_header (i @ concat items) = Some (l, length p, p @ concat items)"
    using ref_header_is_rlp [of i] by fastforce
  with Cons f show ?case by simp
qed

lemma length_concat_items: "\<forall>i \<in> set items. is_rlp i \<Longrightarrow> length items \<le> length (concat items)"
proof (induction items)
  case (Cons i items)
  then have "0 < length i" "length items \<le> length (concat items)" using is_rlp_not_Nil [of i] by simp_all
  then show ?case by (simp add: Suc_le_eq add_strict_increasing)
qed simp

lemma ref_rlp_laws: "rlp_laws ref_rlp"
  unfolding rlp_laws_def
proof (intro conjI allI impI)
  fix b :: bytes assume "length b < 2 ^ 63"
  then show "header_decode_bytes ref_rlp (rlp_str b) = Inr (b, [])"
    using ref_header_str [of b "[]"] by (simp add: ref_rlp_def)
next
  fix items assume "\<forall>i \<in> set items. is_rlp i" "length (concat items) < 2 ^ 63"
  then show "header_decode_raw ref_rlp (rlp_list items) = Inr (ListView items, [])"
    using ref_header_head [of "concat items" 192 "[]"] ref_items_concat [of items "length (concat items)"] length_concat_items [of items]
    by (simp add: ref_rlp_def rlp_list_def)
qed

subsection \<open>Properties\<close>

text \<open>C16. The EVM decoder inverts the wire format of all four transaction types: a well-formed legacy,
  EIP-2930, EIP-1559 or EIP-4844 transaction, encoded with any signature, is decoded to exactly
  itself (for a legacy transaction the chain identifier is the one the signature's \<open>v\<close> carries).\<close>

theorem evm_decode_encode:
  assumes "rlp_laws cr" "evm_wf tx" "etx_tx_type tx = Legacy \<longrightarrow> etx_chain_id tx = legacy_chain_id (tl_v t)"
    "length (evm_encode tx t) < 2 ^ 63"
  shows "decode_evm_tx cr (evm_encode tx t) = Ok tx"
proof (cases "etx_tx_type tx")
  case Legacy
  with assms show ?thesis by (intro legacy_round_trip) simp_all
qed (use assms eip2930_round_trip eip1559_round_trip eip4844_round_trip in blast)+

definition demo_evm_tx :: decoded_evm_tx where
  "demo_evm_tx = \<lparr>etx_tx_type = Legacy, etx_chain_id = Some 1, etx_nonce = 0, etx_to = None, etx_value = 5,
     etx_gas_limit = 21000, etx_max_fee_per_gas = None, etx_max_priority_fee_per_gas = None, etx_gas_price = Some 7,
     etx_data = [1, 2, 3, 4, 5], etx_method_selector = Some [1, 2, 3, 4], etx_access_list = [], etx_blob_versioned_hashes = []\<rparr>"

definition demo_evm_tail :: evm_tail where
  "demo_evm_tail = \<lparr>tl_v = 37, tl_r = [], tl_s = [], tl_blob_fee = 0\<rparr>"

lemma demo_evm:
  "evm_wf demo_evm_tx" "etx_tx_type demo_evm_tx = Legacy \<longrightarrow> etx_chain_id demo_evm_tx = legacy_chain_id (tl_v demo_evm_tail)"
  "length (evm_encode demo_evm_tx demo_evm_tail) < 2 ^ 63"
proof -
  have c: "Some 1 = legacy_chain_id 37" by (simp add: legacy_chain_id_def)
  then show "evm_wf demo_evm_tx"
    unfolding evm_wf_def by (auto simp: demo_evm_tx_def access_list_wf_def first_four_def intro: exI [of _ 37])
  show "etx_tx_type demo_evm_tx = Legacy \<longrightarrow> etx_chain_id demo_evm_tx = legacy_chain_id (tl_v demo_evm_tail)"
    using c by (simp add: demo_evm_tx_def demo_evm_tail_def)
  have "length (evm_encode demo_evm_tx demo_evm_tail) \<le> 300"
    using encoded_lengths(2) [of "[]"] encoded_lengths(2) [of "[1, 2, 3, 4, 5]"] encoded_lengths(3) [of 0]
      encoded_lengths(3) [of 21000] encoded_lengths(3) [of 37] encoded_lengths(4) [of 5] encoded_lengths(4) [of 7]
    by (simp add: evm_encode_def demo_evm_tx_def demo_evm_tail_def Let_def rlp_to_def order_trans [OF encoded_lengths(1)])
  then show "length (evm_encode demo_evm_tx demo_evm_tail) < 2 ^ 63" by simp
qed

theorem evm_decode_encode_witness:
  "decode_evm_tx ref_rlp (evm_encode demo_evm_tx demo_evm_tail) = Ok demo_evm_tx"
  by (rule evm_decode_encode [OF ref_rlp_laws demo_evm])

text \<open>C26. Whatever the RLP codec answers, the EVM decoder never panics, and every transaction it
  returns is well formed: addresses have 20 bytes and hashes 32, the selector is the first four
  bytes of the call data, and exactly the fee, access-list, blob and chain fields of its envelope type
  are present.\<close>

theorem evm_decode_total_wf:
  "(\<exists>tx. decode_evm_tx cr raw = Ok tx \<and> evm_wf tx) \<or> (\<exists>e. decode_evm_tx cr raw = Err e)"
proof (cases "decode_evm_tx cr raw")
  case (Ok tx)
  then show ?thesis using decode_evm_tx_wf by blast
next
  case (Panic m)
  then show ?thesis using decode_evm_tx_no_panic by blast
qed simp

end
