(* ===== verification/Qvm_Decoder.thy ===== *)
theory Qvm_Decoder
  imports Policy_Types
begin

text \<open>
  The envelope decoder for QVM transactions, \<open>qfc-policy/src/decoders/qvm.rs\<close>. The \<open>borsh\<close> readers
  are parameters; their law is the borsh format of integers and byte vectors.
\<close>

datatype qvm_tx_type = Transfer | ContractCreate | ContractCall | OtherType u8

definition from_discriminant :: "u8 \<Rightarrow> qvm_tx_type" where
  "from_discriminant d =
     (if d = 0 then Transfer else if d = 1 then ContractCreate else if d = 2 then ContractCall else OtherType d)"

record decoded_qvm_tx =
  qtx_tx_type :: qvm_tx_type
  qtx_chain_id :: u64
  qtx_to :: bytes
  qtx_value :: u256
  qtx_gas_limit :: u64

record qvm_tx_envelope =
  qenv_tx_type_disc :: u8
  qenv_chain_id :: u64
  qenv_to :: bytes
  qenv_value :: bytes
  qenv_gas_limit :: u64

datatype qvm_decode_error = QvmEmpty | Borsh string

text \<open>\<open>deserialize_reader\<close> at the three types used: the value and the rest of the buffer, or the
  text of the I/O error.\<close>

record borsh_crate =
  borsh_u8 :: "bytes \<Rightarrow> string + u8 \<times> bytes"
  borsh_u64 :: "bytes \<Rightarrow> string + u64 \<times> bytes"
  borsh_vec :: "bytes \<Rightarrow> string + bytes \<times> bytes"

primrec borsh_err :: "string + 'a \<Rightarrow> (qvm_decode_error, 'a) outcome" where
  "borsh_err (Inl e) = Err (Borsh e)"
| "borsh_err (Inr x) = Ok x"

text \<open>The trailing \<open>data\<close> vector is read and dropped, its error ignored: it has no effect.\<close>

definition envelope_from_slice :: "borsh_crate \<Rightarrow> bytes \<Rightarrow> (qvm_decode_error, qvm_tx_envelope) outcome" where
  "envelope_from_slice cr buf =
     obind (borsh_err (borsh_u8 cr buf)) (\<lambda>(tx_type_disc, buf).
     obind (borsh_err (borsh_u64 cr buf)) (\<lambda>(chain_id, buf).
     obind (borsh_err (borsh_vec cr buf)) (\<lambda>(to, buf).
     obind (borsh_err (borsh_vec cr buf)) (\<lambda>(value, buf).
     obind (borsh_err (borsh_u64 cr buf)) (\<lambda>(gas_limit, buf).
     Ok \<lparr>qenv_tx_type_disc = tx_type_disc, qenv_chain_id = chain_id, qenv_to = to, qenv_value = value,
         qenv_gas_limit = gas_limit\<rparr>)))))"

definition value_bytes_to_u256 :: "bytes \<Rightarrow> u256" where
  "value_bytes_to_u256 bs =
     (if bs = [] then 0 else if length bs > 32 then - 1
      else word_of_nat (le_nat (bs @ replicate (32 - length bs) 0)))"

definition decode_qvm_tx :: "borsh_crate \<Rightarrow> bytes \<Rightarrow> (qvm_decode_error, decoded_qvm_tx) outcome" where
  "decode_qvm_tx cr raw =
     obind (fail_if (raw = []) QvmEmpty) (\<lambda>_.
     obind (envelope_from_slice cr raw) (\<lambda>env.
     Ok \<lparr>qtx_tx_type = from_discriminant (qenv_tx_type_disc env), qtx_chain_id = qenv_chain_id env,
         qtx_to = qenv_to env, qtx_value = value_bytes_to_u256 (qenv_value env),
         qtx_gas_limit = qenv_gas_limit env\<rparr>))"

definition decoded_tx_from_qvm :: "decoded_qvm_tx \<Rightarrow> decoded_tx" where
  "decoded_tx_from_qvm tx =
     \<lparr>dtx_chain_id = qtx_chain_id tx, dtx_to = (if qtx_to tx = [] then None else Some (qtx_to tx)),
      dtx_value = Some (qtx_value tx), dtx_gas_limit = Some (qtx_gas_limit tx),
      dtx_method_selector = None, dtx_raw_args = None\<rparr>"

definition qvm_decoder :: "borsh_crate \<Rightarrow> vm_decoder" where
  "qvm_decoder cr vm raw =
     (if vm \<noteq> Qvm then None else map_option decoded_tx_from_qvm (ok_opt (decode_qvm_tx cr raw)))"

subsection \<open>The borsh format\<close>

definition borsh_bytes :: "bytes \<Rightarrow> bytes" where
  "borsh_bytes b = le_bytes 4 (length b) @ b"

definition borsh_envelope :: "qvm_tx_envelope \<Rightarrow> bytes \<Rightarrow> bytes" where
  "borsh_envelope e data =
     [qenv_tx_type_disc e] @ le_bytes 8 (unat (qenv_chain_id e)) @ borsh_bytes (qenv_to e) @
     borsh_bytes (qenv_value e) @ le_bytes 8 (unat (qenv_gas_limit e)) @ borsh_bytes data"

definition borsh_laws :: "borsh_crate \<Rightarrow> bool" where
  "borsh_laws cr \<longleftrightarrow>
     (\<forall>x r. borsh_u8 cr (x # r) = Inr (x, r)) \<and>
     (\<forall>x r. borsh_u64 cr (le_bytes 8 (unat x) @ r) = Inr (x, r)) \<and>
     (\<forall>b r. length b < 2 ^ 32 \<longrightarrow> borsh_vec cr (borsh_bytes b @ r) = Inr (b, r))"

definition ref_borsh :: borsh_crate where
  "ref_borsh = \<lparr>
     borsh_u8 = (\<lambda>bs. case bs of [] \<Rightarrow> Inl ''Unexpected length of input'' | x # r \<Rightarrow> Inr (x, r)),
     borsh_u64 = (\<lambda>bs. if length bs < 8 then Inl ''Unexpected length of input''
        else Inr (word_of_nat (le_nat (take 8 bs)), drop 8 bs)),
     borsh_vec = (\<lambda>bs. if length bs < 4 then Inl ''Unexpected length of input''
        else let n = le_nat (take 4 bs) in
          if length bs < 4 + n then Inl ''Unexpected length of input''
          else Inr (take n (drop 4 bs), drop (4 + n) bs))\<rparr>"

lemma ref_borsh_laws: "borsh_laws ref_borsh"
proof -
  have "le_nat (le_bytes 8 (unat x)) = unat x" for x :: u64
    using unat_lt [of x] by (simp add: le_nat_le_bytes)
  moreover have "le_nat (le_bytes 4 n) = n" if "n < 2 ^ 32" for n
    using that by (simp add: le_nat_le_bytes)
  ultimately show ?thesis by (simp add: borsh_laws_def ref_borsh_def borsh_bytes_def Let_def)
qed

lemma borsh_err_not_Panic [simp]: "borsh_err r \<noteq> Panic p"
  by (cases r) auto

lemma decode_envelope:
  assumes "borsh_laws cr" "length (qenv_to e) < 2 ^ 32" "length (qenv_value e) < 2 ^ 32"
  shows "decode_qvm_tx cr (borsh_envelope e data @ trailing) =
    Ok \<lparr>qtx_tx_type = from_discriminant (qenv_tx_type_disc e), qtx_chain_id = qenv_chain_id e,
        qtx_to = qenv_to e, qtx_value = value_bytes_to_u256 (qenv_value e), qtx_gas_limit = qenv_gas_limit e\<rparr>"
  using assms by (simp add: decode_qvm_tx_def envelope_from_slice_def borsh_laws_def borsh_envelope_def)

lemma le_nat_padded: "le_nat (bs @ replicate n 0) = le_nat bs"
proof -
  have "be_nat (replicate n 0 @ xs) = be_nat xs" for xs :: bytes
    by (induction n) (simp_all add: be_nat_def)
  then show ?thesis by (simp add: le_nat_def)
qed

text \<open>Malformed input is an error and never a panic.\<close>

lemma decode_qvm_total:
  "(\<exists>tx. decode_qvm_tx cr raw = Ok tx) \<or> decode_qvm_tx cr raw = Err QvmEmpty \<and> raw = [] \<or>
     (\<exists>m. decode_qvm_tx cr raw = Err (Borsh m))"
proof -
  have "(\<exists>env. envelope_from_slice cr raw = Ok env) \<or> (\<exists>m. envelope_from_slice cr raw = Err (Borsh m))"
    unfolding envelope_from_slice_def
    by (auto simp: split_beta borsh_err_def split: sum.splits)
  then show ?thesis by (cases "raw = []") (auto simp: decode_qvm_tx_def)
qed

subsection \<open>Properties\<close>

text \<open>C31. A QVM envelope written in the borsh format decodes to its own fields, whatever bytes follow it
  and whatever its opaque data is, and the value reported is the little-endian value of its value
  field when that has at most 32 bytes. A wider field is reported as the maximum, so the reported
  value is never below the transferred one as far as 256 bits can tell.\<close>

theorem qvm_decode_envelope:
  assumes "borsh_laws cr" "length (qenv_to e) < 2 ^ 32" "length (qenv_value e) < 2 ^ 32"
  shows "\<exists>tx. decode_qvm_tx cr (borsh_envelope e data @ trailing) = Ok tx \<and>
    qtx_tx_type tx = from_discriminant (qenv_tx_type_disc e) \<and> qtx_chain_id tx = qenv_chain_id e \<and>
    qtx_to tx = qenv_to e \<and> qtx_gas_limit tx = qenv_gas_limit e \<and>
    min (le_nat (qenv_value e)) (2 ^ 256 - 1) \<le> unat (qtx_value tx) \<and>
    (length (qenv_value e) \<le> 32 \<longrightarrow> unat (qtx_value tx) = le_nat (qenv_value e))"
proof -
  let ?b = "qenv_value e"
  have lt: "le_nat ?b < 2 ^ 256" if "length ?b \<le> 32"
  proof -
    have "le_nat ?b < 256 ^ length ?b" using be_nat_lt [of "rev ?b"] by (simp add: le_nat_def)
    also have "\<dots> \<le> 256 ^ 32" using that by (intro power_increasing) simp_all
    finally show ?thesis by simp
  qed
  have small: "unat (value_bytes_to_u256 ?b) = le_nat ?b" if "length ?b \<le> 32"
    using lt [OF that] that by (auto simp: value_bytes_to_u256_def le_nat_padded unat_of_nat le_nat_def [of "[]"])
  have "unat (- 1 :: u256) = 2 ^ 256 - 1"
    by (simp add: unsigned_minus_1_eq_mask mask_eq_exp_minus_1)
  then have large: "unat (value_bytes_to_u256 ?b) = 2 ^ 256 - 1" if "\<not> length ?b \<le> 32"
    using that by (auto simp: value_bytes_to_u256_def)
  have "min (le_nat ?b) (2 ^ 256 - 1) \<le> unat (value_bytes_to_u256 ?b)"
    using small large by (cases "length ?b \<le> 32") simp_all
  with small decode_envelope [OF assms] show ?thesis by simp
qed

theorem qvm_decode_envelope_witness:
  "\<exists>tx. decode_qvm_tx ref_borsh (borsh_envelope \<lparr>qenv_tx_type_disc = 7, qenv_chain_id = 1337, qenv_to = [1, 2],
       qenv_value = [0, 1], qenv_gas_limit = 21000\<rparr> [9] @ [8, 8]) = Ok tx \<and>
     qtx_tx_type tx = OtherType 7 \<and> unat (qtx_value tx) = 256"
  using qvm_decode_envelope [OF ref_borsh_laws, of "\<lparr>qenv_tx_type_disc = 7, qenv_chain_id = 1337, qenv_to = [1, 2],
       qenv_value = [0, 1], qenv_gas_limit = 21000\<rparr>" "[9]" "[8, 8]"]
  by (auto simp: from_discriminant_def le_nat_def be_nat_def)

end
