(* ===== verification/Decoded_Policy.thy ===== *)
theory Decoded_Policy
  imports Rule_Set_Policy Evm_Decoder Qvm_Decoder
begin

text \<open>
  The rule-set policy composed with the EVM and QVM decoders: which facts of the transaction on the
  wire the decision depends on.
\<close>

text \<open>The verdict reads the decoded transaction through its value, selector and gas limit only.\<close>

definition same_projection :: "eval_ctx \<Rightarrow> eval_ctx \<Rightarrow> bool" where
  "same_projection a b \<longleftrightarrow> ctx_request a = ctx_request b \<and> ctx_req_chain a = ctx_req_chain b \<and>
     ctx_req_to a = ctx_req_to b \<and> ctx_req_vm a = ctx_req_vm b \<and> decoded_value a = decoded_value b \<and>
     decoded_selector a = decoded_selector b \<and> decoded_gas a = decoded_gas b"

lemma trigger_fires_projection:
  "same_projection a b \<Longrightarrow> trigger_fires pc a trig = trigger_fires pc b trig"
  by (cases trig) (simp_all add: same_projection_def)

lemma quorum_fires_projection: "same_projection a b \<Longrightarrow> quorum_fires pc a = quorum_fires pc b"
  by (rule ext) (simp add: quorum_fires_def trigger_fires_projection split: rule.split)

lemma filters_projection:
  "same_projection a b \<Longrightarrow> filters_pass pc a R = filters_pass pc b R"
  "same_projection a b \<Longrightarrow> shape_ok pc a R = shape_ok pc b R"
  by (simp_all add: same_projection_def filters_pass_def chain_not_denied_def contract_not_denied_def chain_allowed_def
      contract_allowed_def method_allowed_def within_caps_def cap_respected_def within_windows_def shape_ok_def
      shape_respected_def constraints_ok_def cong: rule.case_cong)

lemma spec_evaluate_projection:
  assumes "same_projection (eval_prologue p d r) (eval_prologue q d r)" "rsp_rules p = rsp_rules q"
  shows "spec_evaluate pc p now d lm r = spec_evaluate pc q now d lm r"
proof -
  have v: "quorum_verdict pc (eval_prologue p d r) dflt rules = quorum_verdict pc (eval_prologue q d r) dflt rules" for dflt rules
    unfolding quorum_verdict_def quorum_fires_projection [OF assms(1)] ..
  show ?thesis
    unfolding spec_evaluate_def Let_def assms(2) filters_projection [OF assms(1)] v ..
qed

lemma not_denied_within_caps:
  assumes "with_components pc rules dec = Ok self" "not_denied (fst (rs_evaluate pc self now d lm r))"
  shows "within_caps pc (eval_prologue self d r) (set (rs_rules rules))"
proof -
  have self: "valid_rules pc (rs_rules (rsp_rules self))" "rsp_rules self = rules"
    using assms(1) by (simp_all add: with_components_Ok)
  from rs_evaluate_verdict [OF self(1), of now d lm r] assms(2)
  have "fst (spec_evaluate pc self now d lm r) \<noteq> VDeny"
    by (auto simp: not_denied_def is_deny_verdict) (metis fst_conv)
  then show ?thesis by (auto simp: spec_evaluate_def Let_def self(2) filters_pass_def split: if_splits)
qed

text \<open>The value the policy sees for a request whose bytes encode a transaction.\<close>

lemma evm_decoder_value:
  assumes "decode_evm_tx cr raw = Ok tx"
  shows "Option.bind (evm_decoder cr Evm raw) dtx_value = Some (etx_value tx)"
  using assms by (simp add: evm_decoder_def decoded_tx_from_evm_def)

lemma prologue_value:
  "rsp_decoder self = Some dec \<Longrightarrow> sr_payload r = VmTransaction vm c to raw \<Longrightarrow>
   decoded_value (eval_prologue self d r) = Option.bind (dec vm raw) dtx_value"
  by (simp add: eval_prologue_def Let_def decoded_value_def raw_bytes_of_def)

subsection \<open>Properties\<close>

text \<open>C23. A value cap binds the amount on the wire: with the EVM decoder installed, a request whose bytes
  are an encoded EVM transaction of any of the four types and whose chain has a \<open>ValueCap\<close> rule is
  denied unless the transaction's own value is within the cap.\<close>

theorem evm_value_cap_on_wire:
  assumes "with_components pc rules (Some (evm_decoder cr)) = Ok self" "rlp_laws cr"
    and "not_denied (fst (rs_evaluate pc self now d lm r))"
    and "sr_payload r = VmTransaction Evm c to (evm_encode tx t)"
    and "evm_wf tx" "etx_tx_type tx = Legacy \<longrightarrow> etx_chain_id tx = legacy_chain_id (tl_v t)"
    and "length (evm_encode tx t) < 2 ^ 63"
    and "ValueCap c m \<in> set (rs_rules rules)" "parse_u256 pc m = Some mx"
  shows "etx_value tx \<le> mx"
proof -
  have dec: "rsp_decoder self = Some (evm_decoder cr)" using assms(1) by (auto simp: with_components_Ok)
  have "decode_evm_tx cr (evm_encode tx t) = Ok tx"
  proof (cases "etx_tx_type tx")
    case Legacy
    with assms show ?thesis by (intro legacy_round_trip) simp_all
  qed (use assms eip2930_round_trip eip1559_round_trip eip4844_round_trip in blast)+
  then have "decoded_value (eval_prologue self d r) = Some (etx_value tx)"
    using prologue_value [OF dec assms(4)] evm_decoder_value by metis
  moreover have "cap_respected pc (eval_prologue self d r) (ValueCap c m)"
    using not_denied_within_caps [OF assms(1,3)] assms(8) by (auto simp: within_caps_def)
  moreover have "ctx_req_chain (eval_prologue self d r) = Some c"
    using assms(4) by (simp add: eval_prologue_def Let_def)
  ultimately show ?thesis using assms(9) by (simp add: cap_respected_def)
qed

definition cap_policy :: rule_set where
  "cap_policy = demo_rules\<lparr>rs_rules := [ValueCap 1 ''1000'']\<rparr>"

definition wire_request :: signing_request where
  "wire_request = demo_request\<lparr>sr_payload := VmTransaction Evm 1 None (evm_encode demo_evm_tx demo_evm_tail)\<rparr>"

lemma cap_policy_built:
  "with_components ref_crates cap_policy dec = Ok \<lparr>rsp_rules = cap_policy, rsp_decoder = dec\<rparr>"
  by (simp add: with_components_Ok valid_rules_def cap_policy_def demo_rules_def ref_numbers)

theorem evm_value_cap_on_wire_witness: "etx_value demo_evm_tx \<le> 1000"
proof (rule evm_value_cap_on_wire [OF cap_policy_built ref_rlp_laws _ _ demo_evm])
  have "decode_evm_tx ref_rlp (evm_encode demo_evm_tx demo_evm_tail) = Ok demo_evm_tx"
    using legacy_round_trip [OF ref_rlp_laws demo_evm(1)] demo_evm by (simp add: demo_evm_tx_def)
  then have "evm_decoder ref_rlp Evm (evm_encode demo_evm_tx demo_evm_tail) = Some (decoded_tx_from_evm demo_evm_tx)"
    by (simp add: evm_decoder_def)
  then show "not_denied (fst (rs_evaluate ref_crates \<lparr>rsp_rules = cap_policy, rsp_decoder = Some (evm_decoder ref_rlp)\<rparr> 0
      (DecisionId 5) limiter_new wire_request))"
    by (simp add: eval_simps cap_policy_def demo_rules_def demo_request_def wire_request_def eval_prologue_def not_denied_def
        raw_bytes_of_def decoded_value_def decoded_tx_from_evm_def demo_evm_tx_def ref_numbers)
  show "sr_payload wire_request = VmTransaction Evm 1 None (evm_encode demo_evm_tx demo_evm_tail)" by (simp add: wire_request_def)
  show "ValueCap 1 ''1000'' \<in> set (rs_rules cap_policy)" by (simp add: cap_policy_def)
  show "parse_u256 ref_crates ''1000'' = Some 1000" by (rule ref_numbers)
qed

text \<open>The verdict and the limiter depend on the transaction on the wire only through its decoded
  value, selector and gas limit: two decoders that agree on these three are indistinguishable. In
  particular the chain identifier and the destination that the signed bytes carry play no part in the
  decision. The claimed ones of the request are used instead.\<close>

theorem verdict_ignores_wire_destination:
  assumes "with_components pc rules (Some dec) = Ok p" "with_components pc rules (Some dec') = Ok q"
    and "sr_payload r = VmTransaction vm c to raw"
    and "Option.bind (dec vm raw) dtx_value = Option.bind (dec' vm raw) dtx_value"
    and "Option.bind (dec vm raw) dtx_method_selector = Option.bind (dec' vm raw) dtx_method_selector"
    and "Option.bind (dec vm raw) dtx_gas_limit = Option.bind (dec' vm raw) dtx_gas_limit"
  shows "\<exists>a b. fst (rs_evaluate pc p now d lm r) = Ok a \<and> fst (rs_evaluate pc q now d lm r) = Ok b \<and>
    verdict_of a = verdict_of b \<and> snd (rs_evaluate pc p now d lm r) = snd (rs_evaluate pc q now d lm r)"
proof -
  have c: "valid_rules pc (rs_rules (rsp_rules p))" "valid_rules pc (rs_rules (rsp_rules q))" "rsp_rules p = rsp_rules q"
      "rsp_decoder p = Some dec" "rsp_decoder q = Some dec'"
    using assms(1,2) by (auto simp: with_components_Ok)
  have "same_projection (eval_prologue p d r) (eval_prologue q d r)"
    using assms(3-6) c(4,5)
    by (simp add: same_projection_def eval_prologue_def Let_def decoded_value_def decoded_selector_def decoded_gas_def
        raw_bytes_of_def)
  with rs_evaluate_verdict [OF c(1), of now d lm r] rs_evaluate_verdict [OF c(2), of now d lm r]
    spec_evaluate_projection [OF _ c(3)]
  show ?thesis by (metis prod.inject)
qed

text \<open>Two decoders that read the same value from the bytes and opposite destinations.\<close>

theorem verdict_ignores_wire_destination_witness:
  "\<exists>a b. fst (rs_evaluate ref_crates \<lparr>rsp_rules = cap_policy, rsp_decoder = Some demo_decoder\<rparr> 0 (DecisionId 5)
        limiter_new demo_request) = Ok a \<and>
     fst (rs_evaluate ref_crates \<lparr>rsp_rules = cap_policy,
        rsp_decoder = Some (\<lambda>vm raw. map_option (\<lambda>x. x\<lparr>dtx_to := None, dtx_chain_id := 99\<rparr>) (demo_decoder vm raw))\<rparr> 0
        (DecisionId 5) limiter_new demo_request) = Ok b \<and> verdict_of a = verdict_of b"
  using verdict_ignores_wire_destination [OF cap_policy_built cap_policy_built, of demo_request Evm 1 "Some [0xAB, 0x12]" "[1, 2, 3]"
      demo_decoder "\<lambda>vm raw. map_option (\<lambda>x. x\<lparr>dtx_to := None, dtx_chain_id := 99\<rparr>) (demo_decoder vm raw)" 0 "DecisionId 5" limiter_new]
  by (simp add: demo_request_def demo_decoder_def) blast

end
