(* ===== verification/Shamir.thy ===== *)
theory Shamir
  imports Wallet_Types
begin

text \<open>
  Secret sharing over byte strings, \<open>qfc-sss/src/shamir.rs\<close> and \<open>error.rs\<close>: length prefix,
  padding to 31-byte chunks, one field-element sharing per chunk, and the reverse.

  The field and the sharing of one element are other crates (\<open>k256\<close>, \<open>vsss-rs\<close>): the record
  \<open>sss_crates\<close> holds the four functions the code calls, and \<open>sss_spec\<close> is what it relies on:
  canonical 32-byte representations, one 33-byte share per participant, and recovery of the
  element from any \<open>threshold\<close> shares of distinct participants. The random coefficients of each
  chunk are an argument.
\<close>

subsection \<open>Parameters and shares\<close>

record shamir_params =
  sp_threshold :: u8
  sp_total :: u8

record shamir_share =
  ss_index :: u8
  ss_params :: shamir_params
  ss_blob :: bytes

datatype share_error =
    InvalidParameters u8 u8 string
  | InvalidSecret string
  | Vsss string
  | NotEnoughShares u8 nat
  | InconsistentShares string

definition shamir_validate :: "shamir_params \<Rightarrow> (share_error, unit) outcome" where
  "shamir_validate p =
     obind (fail_if (sp_threshold p < 2) (InvalidParameters (sp_threshold p) (sp_total p)
       ''threshold must be >= 2 (a 1-of-N scheme is not secret sharing)'')) (\<lambda>_.
     fail_if (sp_threshold p > sp_total p) (InvalidParameters (sp_threshold p) (sp_total p)
       ''threshold must be <= total''))"

definition CHUNK_DATA_BYTES :: nat where "CHUNK_DATA_BYTES = 31"
definition PER_CHUNK_SHARE_BYTES :: nat where "PER_CHUNK_SHARE_BYTES = 33"
definition HEADER_BYTES :: nat where "HEADER_BYTES = 4"

lemmas shamir_consts = CHUNK_DATA_BYTES_def PER_CHUNK_SHARE_BYTES_def HEADER_BYTES_def

subsection \<open>The field and the sharing of one element\<close>

record ('sc, 'r) sss_crates =
  from_repr :: "bytes \<Rightarrow> 'sc option"
  to_repr :: "'sc \<Rightarrow> bytes"
  vsss_split :: "'r \<Rightarrow> nat \<Rightarrow> nat \<Rightarrow> 'sc \<Rightarrow> (string, bytes list) outcome"
  vsss_combine :: "bytes list \<Rightarrow> (string, 'sc) outcome"

definition scalar_from_bytes :: "('sc, 'r) sss_crates \<Rightarrow> bytes \<Rightarrow> (share_error, 'sc) outcome" where
  "scalar_from_bytes cr b = ok_or (from_repr cr b) (Vsss ''chunk exceeds secp256k1 scalar order'')"

definition scalar_to_bytes :: "('sc, 'r) sss_crates \<Rightarrow> 'sc \<Rightarrow> bytes" where
  "scalar_to_bytes cr s = to_repr cr s"

text \<open>Documented behaviour of the two crates.\<close>

definition repr_law :: "('sc, 'r) sss_crates \<Rightarrow> bool" where
  "repr_law cr \<longleftrightarrow>
     (\<forall>s. length (to_repr cr s) = 32) \<and>
     (\<forall>c. length c = 31 \<longrightarrow> (\<exists>s. from_repr cr (0 # c) = Some s \<and> to_repr cr s = 0 # c))"

definition split_law :: "('sc, 'r) sss_crates \<Rightarrow> bool" where
  "split_law cr \<longleftrightarrow>
     (\<forall>r t n s. 2 \<le> t \<longrightarrow> t \<le> n \<longrightarrow> n \<le> 255 \<longrightarrow>
        (\<exists>shs. vsss_split cr r t n s = Ok shs \<and> length shs = n \<and> (\<forall>b \<in> set shs. length b = 33)))"

definition combine_law :: "('sc, 'r) sss_crates \<Rightarrow> bool" where
  "combine_law cr \<longleftrightarrow>
     (\<forall>r t n s shs idx. vsss_split cr r t n s = Ok shs \<longrightarrow> distinct idx \<longrightarrow>
        (\<forall>i \<in> set idx. i < length shs) \<longrightarrow> t \<le> length idx \<longrightarrow>
        vsss_combine cr (map (\<lambda>i. shs ! i) idx) = Ok s)"

definition sss_spec :: "('sc, 'r) sss_crates \<Rightarrow> bool" where
  "sss_spec cr \<longleftrightarrow> repr_law cr \<and> split_law cr \<and> combine_law cr"

subsection \<open>split\_secret\<close>

text \<open>The padding loop.\<close>

function pad_to_chunks :: "bytes \<Rightarrow> bytes" where
  "pad_to_chunks p = (if length p mod CHUNK_DATA_BYTES \<noteq> 0 then pad_to_chunks (p @ [0]) else p)"
  by pat_completeness auto

lemma pad_measure: "0 < n mod 31 \<Longrightarrow> (31 - Suc n mod 31) mod 31 < 31 - n mod (31 :: nat)"
proof -
  assume n: "0 < n mod 31"
  define k where "k = n mod 31"
  have k: "k < 31" "0 < k" using n by (simp_all add: k_def)
  have "Suc n mod 31 = (if Suc k = 31 then 0 else Suc k)" by (simp add: k_def mod_Suc)
  with k show ?thesis unfolding k_def [symmetric] by (cases "Suc k = 31") simp_all
qed

termination pad_to_chunks
  by (relation "measure (\<lambda>p. (31 - length p mod 31) mod 31)")
    (simp_all add: CHUNK_DATA_BYTES_def pad_measure)

declare pad_to_chunks.simps [simp del]

definition split_chunk :: "('sc, 'r) sss_crates \<Rightarrow> (nat \<Rightarrow> 'r) \<Rightarrow> shamir_params \<Rightarrow> bytes \<Rightarrow> nat \<Rightarrow>
   (share_error, bytes list) outcome" where
  "split_chunk cr rng params prefixed chunk_idx =
     (let start = chunk_idx * CHUNK_DATA_BYTES in
      obind (slice prefixed start (start + CHUNK_DATA_BYTES)) (\<lambda>chunk.
      let field_bytes = 0 # chunk in
      obind (scalar_from_bytes cr field_bytes) (\<lambda>scalar.
      map_err Vsss (vsss_split cr (rng chunk_idx) (unat (sp_threshold params)) (unat (sp_total params)) scalar))))"

definition assemble_share :: "shamir_params \<Rightarrow> u32 \<Rightarrow> bytes list list \<Rightarrow> nat \<Rightarrow> (share_error, shamir_share) outcome" where
  "assemble_share params secret_length per_chunk_shares share_idx =
     obind (omap (\<lambda>chunk_shares. index_at chunk_shares share_idx) per_chunk_shares) (\<lambda>parts.
     if share_idx + 1 < 256
     then Ok \<lparr>ss_index = word_of_nat (share_idx + 1), ss_params = params, ss_blob = u32_be secret_length @ concat parts\<rparr>
     else Panic ''called `Result::unwrap()` on an `Err` value'')"

definition split_secret :: "('sc, 'r) sss_crates \<Rightarrow> (nat \<Rightarrow> 'r) \<Rightarrow> bytes \<Rightarrow> shamir_params \<Rightarrow>
   (share_error, shamir_share list) outcome" where
  "split_secret cr rng secret params =
     obind (shamir_validate params) (\<lambda>_.
     obind (fail_if (secret = []) (InvalidSecret ''secret must not be empty'')) (\<lambda>_.
     obind (fail_if (length secret \<ge> 2 ^ 32) (InvalidSecret ''secret length exceeds 2^32'')) (\<lambda>_.
     let secret_length = word_of_nat (length secret) :: u32;
         prefixed = pad_to_chunks (u32_be secret_length @ secret);
         chunk_count = length prefixed div CHUNK_DATA_BYTES in
     obind (omap (split_chunk cr rng params prefixed) [0..<chunk_count]) (\<lambda>per_chunk_shares.
     omap (assemble_share params secret_length per_chunk_shares) [0..<unat (sp_total params)]))))"

subsection \<open>combine\_shares\<close>

definition combine_chunk :: "('sc, 'r) sss_crates \<Rightarrow> shamir_share list \<Rightarrow> nat \<Rightarrow> (share_error, bytes) outcome" where
  "combine_chunk cr shares chunk_idx =
     (let offset = HEADER_BYTES + chunk_idx * PER_CHUNK_SHARE_BYTES in
      obind (omap (\<lambda>s. slice (ss_blob s) offset (offset + PER_CHUNK_SHARE_BYTES)) shares) (\<lambda>chunk_shares.
      obind (map_err Vsss (vsss_combine cr chunk_shares)) (\<lambda>scalar.
      slice (scalar_to_bytes cr scalar) 1 (length (scalar_to_bytes cr scalar)))))"

text \<open>The checks on the shares, before anything is recombined.\<close>

definition check_shares :: "shamir_share list \<Rightarrow> (share_error, shamir_share) outcome" where
  "check_shares shares =
     (case shares of
        [] \<Rightarrow> Err (NotEnoughShares 1 0)
      | first # _ \<Rightarrow>
          let params = ss_params first in
          obind (fail_if (length shares < unat (sp_threshold params))
                   (NotEnoughShares (sp_threshold params) (length shares))) (\<lambda>_.
          obind (fail_if (list_ex (\<lambda>s. ss_params s \<noteq> params) shares)
                   (InconsistentShares ''parameters mismatch'')) (\<lambda>_.
          let indices = remdups_adj (sort (map ss_index shares)) in
          obind (fail_if (length indices \<noteq> length shares)
                   (InconsistentShares ''duplicate share indices'')) (\<lambda>_.
          obind (fail_if (length (ss_blob first) < HEADER_BYTES)
                   (InconsistentShares ''share blob too short'')) (\<lambda>_.
          obind (fail_if ((length (ss_blob first) - HEADER_BYTES) mod PER_CHUNK_SHARE_BYTES \<noteq> 0)
                   (InconsistentShares ''share blob size invariant'')) (\<lambda>_.
          obind (oforeach (\<lambda>s. fail_if (length (ss_blob s) \<noteq> length (ss_blob first))
                   (InconsistentShares ''share blob length mismatch'')) shares) (\<lambda>_.
          Ok first)))))))"

text \<open>The recovered buffer without its header and padding.\<close>

definition unframe :: "bytes \<Rightarrow> bytes list \<Rightarrow> (share_error, bytes) outcome" where
  "unframe first_blob chunks =
     (let secret_length = be_nat (take HEADER_BYTES first_blob); recovered_prefixed = concat chunks in
      obind (fail_if (length recovered_prefixed < secret_length)
               (InconsistentShares ''recovered shorter than declared'')) (\<lambda>_.
      obind (slice recovered_prefixed 0 HEADER_BYTES) (\<lambda>header.
      obind (fail_if (be_nat header \<noteq> secret_length)
               (InconsistentShares ''header mismatch on reconstruction'')) (\<lambda>_.
      let end = HEADER_BYTES + secret_length in
      obind (fail_if (end > length recovered_prefixed)
               (InconsistentShares ''recovered buffer too small for declared length'')) (\<lambda>_.
      slice recovered_prefixed HEADER_BYTES end)))))"

definition combine_shares :: "('sc, 'r) sss_crates \<Rightarrow> shamir_share list \<Rightarrow> (share_error, bytes) outcome" where
  "combine_shares cr shares =
     obind (check_shares shares) (\<lambda>first.
     let chunk_count = (length (ss_blob first) - HEADER_BYTES) div PER_CHUNK_SHARE_BYTES in
     obind (omap (combine_chunk cr shares) [0..<chunk_count]) (unframe (ss_blob first)))"

subsection \<open>Chunking\<close>

lemma pad_to_chunks_shape:
  "\<exists>k. pad_to_chunks p = p @ replicate k 0 \<and> length (pad_to_chunks p) mod 31 = 0"
proof (induction p rule: pad_to_chunks.induct)
  case (1 p)
  show ?case
  proof (cases "length p mod 31 = 0")
    case True
    then show ?thesis by (intro exI [of _ 0]) (simp add: pad_to_chunks.simps [of p] CHUNK_DATA_BYTES_def)
  next
    case False
    with 1 obtain k where "pad_to_chunks (p @ [0]) = (p @ [0]) @ replicate k 0"
        "length (pad_to_chunks (p @ [0])) mod 31 = 0"
      by (auto simp: CHUNK_DATA_BYTES_def)
    with False show ?thesis
      by (intro exI [of _ "Suc k"]) (simp add: pad_to_chunks.simps [of p] CHUNK_DATA_BYTES_def)
  qed
qed

lemma concat_chunks:
  "length p = n * k \<Longrightarrow> concat (map (\<lambda>i. take n (drop (i * n) p)) [0..<k]) = p"
proof (induction k arbitrary: p)
  case 0
  then show ?case by simp
next
  case (Suc k)
  have "concat (map (\<lambda>i. take n (drop (i * n) (drop n p))) [0..<k]) = drop n p"
    using Suc.prems by (intro Suc.IH) simp
  moreover have "map (\<lambda>i. take n (drop (i * n) p)) [0..<Suc k] =
      take n p # map (\<lambda>i. take n (drop (i * n) (drop n p))) [0..<k]"
    by (simp add: upt_conv_Cons map_Suc_upt [symmetric] add.commute del: upt_Suc)
  ultimately show ?case by (simp del: upt_Suc)
qed

lemma drop_take_concat_blocks:
  assumes "\<forall>b \<in> set bs. length b = n" "i < length bs"
  shows "take n (drop (i * n) (concat bs)) = bs ! i"
  using assms
proof (induction bs arbitrary: i)
  case Nil
  then show ?case by simp
next
  case (Cons b bs)
  then show ?case by (cases i) simp_all
qed

lemma length_concat_blocks: "\<forall>b \<in> set bs. length b = n \<Longrightarrow> length (concat bs) = length bs * n"
  by (induction bs) simp_all

lemma distinct_remdups_adj_sorted: "sorted xs \<Longrightarrow> distinct (remdups_adj xs)" for xs :: "'a :: linorder list"
  by (induction xs rule: remdups_adj.induct) auto

lemma length_remdups_adj_sort: "length (remdups_adj (sort xs)) = length xs \<longleftrightarrow> distinct xs" for xs :: "'a :: linorder list"
proof -
  have "distinct (remdups_adj (sort xs))" by (rule distinct_remdups_adj_sorted) simp
  then have "length (remdups_adj (sort xs)) = card (set xs)" by (metis distinct_card remdups_adj_set set_sort)
  then show ?thesis by (metis card_distinct distinct_card)
qed


subsection \<open>What split\_secret produces\<close>

lemma shamir_validate_Ok: "shamir_validate p = Ok () \<longleftrightarrow> 2 \<le> unat (sp_threshold p) \<and> sp_threshold p \<le> sp_total p"
  by (auto simp: shamir_validate_def outcome_simps fail_if_def not_less word_le_nat_alt word_less_nat_alt)

lemma split_chunk_Ok:
  assumes "sss_spec cr" and "2 \<le> unat (sp_threshold ps)" "sp_threshold ps \<le> sp_total ps"
    and len: "(i + 1) * 31 \<le> length p"
  shows "\<exists>s shs. split_chunk cr rng ps p i = Ok shs \<and>
    vsss_split cr (rng i) (unat (sp_threshold ps)) (unat (sp_total ps)) s = Ok shs \<and>
    to_repr cr s = 0 # take 31 (drop (i * 31) p) \<and>
    length shs = unat (sp_total ps) \<and> (\<forall>b \<in> set shs. length b = 33)"
proof -
  let ?c = "take 31 (drop (i * 31) p)"
  have "length ?c = 31" using len by simp
  with assms(1) obtain s where s: "from_repr cr (0 # ?c) = Some s" "to_repr cr s = 0 # ?c"
    unfolding sss_spec_def repr_law_def by blast
  have t: "unat (sp_threshold ps) \<le> unat (sp_total ps)" "unat (sp_total ps) \<le> 255"
    using assms(3) unat_u8_lt [of "sp_total ps"] by (simp_all add: word_le_nat_alt)
  with assms(1,2) obtain shs where
    "vsss_split cr (rng i) (unat (sp_threshold ps)) (unat (sp_total ps)) s = Ok shs"
    "length shs = unat (sp_total ps)" "\<forall>b \<in> set shs. length b = 33"
    unfolding sss_spec_def split_law_def by blast
  with s len show ?thesis
    by (auto simp: split_chunk_def Let_def CHUNK_DATA_BYTES_def scalar_from_bytes_def)
qed

text \<open>The shares of a secret: one element per chunk, one share per participant.\<close>

definition share_at :: "shamir_params \<Rightarrow> nat \<Rightarrow> bytes list list \<Rightarrow> nat \<Rightarrow> shamir_share" where
  "share_at ps len pcs j = \<lparr>ss_index = word_of_nat (j + 1), ss_params = ps,
     ss_blob = u32_be (word_of_nat len) @ concat (map (\<lambda>cs. cs ! j) pcs)\<rparr>"

definition chunk_sharing :: "('sc, 'r) sss_crates \<Rightarrow> shamir_params \<Rightarrow> bytes \<Rightarrow> bytes list list \<Rightarrow> bool" where
  "chunk_sharing cr ps p pcs \<longleftrightarrow> length p = 31 * length pcs \<and>
     (\<forall>i < length pcs. \<exists>r s. vsss_split cr r (unat (sp_threshold ps)) (unat (sp_total ps)) s = Ok (pcs ! i) \<and>
        to_repr cr s = 0 # take 31 (drop (i * 31) p) \<and>
        length (pcs ! i) = unat (sp_total ps) \<and> (\<forall>b \<in> set (pcs ! i). length b = 33))"

lemma split_chunks_Ok:
  assumes "sss_spec cr" "2 \<le> unat (sp_threshold ps)" "sp_threshold ps \<le> sp_total ps" "length p = 31 * m"
  shows "\<exists>pcs. omap (split_chunk cr rng ps p) [0..<m] = Ok pcs \<and> length pcs = m \<and> chunk_sharing cr ps p pcs"
proof -
  define Q where "Q i shs \<longleftrightarrow> (\<exists>r s. vsss_split cr r (unat (sp_threshold ps)) (unat (sp_total ps)) s = Ok shs \<and>
    to_repr cr s = 0 # take 31 (drop (i * 31) p) \<and>
    length shs = unat (sp_total ps) \<and> (\<forall>b \<in> set shs. length b = 33))" for i shs
  have "\<exists>shs. split_chunk cr rng ps p i = Ok shs \<and> Q i shs" if "i < m" for i
  proof -
    have "(i + 1) * 31 \<le> length p" using that assms(4) by simp
    from split_chunk_Ok [OF assms(1-3) this, of rng] show ?thesis unfolding Q_def by blast
  qed
  then obtain f where f: "i < m \<Longrightarrow> split_chunk cr rng ps p i = Ok (f i) \<and> Q i (f i)" for i by metis
  then have "omap (split_chunk cr rng ps p) [0..<m] = Ok (map f [0..<m])"
    by (intro omap_Ok_map) auto
  moreover have "chunk_sharing cr ps p (map f [0..<m])"
    unfolding chunk_sharing_def Q_def [symmetric] using f assms(4) by simp
  ultimately show ?thesis by (intro exI [of _ "map f [0..<m]"]) simp
qed

lemma assemble_shares_Ok:
  assumes "chunk_sharing cr ps p pcs"
  shows "omap (assemble_share ps (word_of_nat len) pcs) [0..<unat (sp_total ps)] =
    Ok (map (share_at ps len pcs) [0..<unat (sp_total ps)])"
proof (rule omap_Ok_map)
  fix j assume j: "j \<in> set [0..<unat (sp_total ps)]"
  have "omap (\<lambda>cs. index_at cs j :: (share_error, bytes) outcome) pcs = Ok (map (\<lambda>cs. cs ! j) pcs)"
  proof (rule omap_Ok_map)
    fix cs assume "cs \<in> set pcs"
    then have "length cs = unat (sp_total ps)" using assms by (auto simp: chunk_sharing_def in_set_conv_nth)
    with j show "index_at cs j = Ok (cs ! j)" by (simp add: index_at_def)
  qed
  moreover have "j + 1 < 256" using j unat_u8_lt [of "sp_total ps"] by simp
  ultimately show "assemble_share ps (word_of_nat len) pcs j = Ok (share_at ps len pcs j)"
    by (simp add: assemble_share_def share_at_def)
qed

lemma split_secret_Ok:
  assumes "sss_spec cr" "shamir_validate ps = Ok ()" "secret \<noteq> []" "length secret < 2 ^ 32"
  shows "\<exists>pcs k. split_secret cr rng secret ps = Ok (map (share_at ps (length secret) pcs) [0..<unat (sp_total ps)]) \<and>
    chunk_sharing cr ps (u32_be (word_of_nat (length secret)) @ secret @ replicate k 0) pcs"
proof -
  define p where "p = u32_be (word_of_nat (length secret)) @ secret"
  define q where "q = pad_to_chunks p"
  obtain k where k: "q = p @ replicate k 0" "length q mod 31 = 0"
    using pad_to_chunks_shape [of p, folded q_def] by (elim exE conjE) 
  from k(2) have "31 dvd length q" by (rule dvd_eq_mod_eq_0 [THEN iffD2])
  then have len: "length q = 31 * (length q div 31)" by (rule dvd_mult_div_cancel [symmetric])
  from assms(2) have ps: "2 \<le> unat (sp_threshold ps)" "sp_threshold ps \<le> sp_total ps"
    by (simp_all add: shamir_validate_Ok)
  from split_chunks_Ok [OF assms(1) ps len, of rng] obtain pcs where
    pcs: "omap (split_chunk cr rng ps q) [0..<length q div 31] = Ok pcs" "chunk_sharing cr ps q pcs"
    by blast
  have "split_secret cr rng secret ps =
      obind (omap (split_chunk cr rng ps q) [0..<length q div 31]) (\<lambda>pcs.
        omap (assemble_share ps (word_of_nat (length secret)) pcs) [0..<unat (sp_total ps)])"
    using assms(2-4) by (simp add: split_secret_def Let_def fail_if_def CHUNK_DATA_BYTES_def p_def q_def)
  also have "\<dots> = Ok (map (share_at ps (length secret) pcs) [0..<unat (sp_total ps)])"
    unfolding pcs(1) obind.simps by (rule assemble_shares_Ok [OF pcs(2)])
  finally show ?thesis using pcs(2) k(1) p_def by auto
qed


subsection \<open>What combine\_shares accepts\<close>

text \<open>The checks before recombination, as one predicate.\<close>

definition shares_consistent :: "shamir_share list \<Rightarrow> bool" where
  "shares_consistent shares \<longleftrightarrow> shares \<noteq> [] \<and>
     unat (sp_threshold (ss_params (hd shares))) \<le> length shares \<and>
     (\<forall>s \<in> set shares. ss_params s = ss_params (hd shares)) \<and>
     distinct (map ss_index shares) \<and>
     4 \<le> length (ss_blob (hd shares)) \<and> (length (ss_blob (hd shares)) - 4) mod 33 = 0 \<and>
     (\<forall>s \<in> set shares. length (ss_blob s) = length (ss_blob (hd shares)))"

lemma check_shares_Ok: "check_shares shares = Ok first \<longleftrightarrow> shares_consistent shares \<and> first = hd shares"
proof (cases shares)
  case Nil
  then show ?thesis by (simp add: check_shares_def shares_consistent_def)
next
  case (Cons f rest)
  have "length (remdups_adj (sort (map ss_index shares))) = length shares \<longleftrightarrow> distinct (map ss_index shares)"
    using length_remdups_adj_sort [of "map ss_index shares"] by simp
  then show ?thesis
    unfolding check_shares_def shares_consistent_def Cons
    by (auto simp: Let_def fail_if_def outcome_simps oforeach_eq_Ok shamir_consts not_less list_ex_iff
        split: if_splits)
qed

lemma check_shares_not_Panic: "check_shares shares \<noteq> Panic m"
proof -
  have f: "fail_if b e \<noteq> Panic p" for b and e :: share_error and p by (simp add: fail_if_def)
  then have "oforeach (\<lambda>s. fail_if (length (ss_blob s) \<noteq> n) e) xs \<noteq> Panic p" for n and e :: share_error and xs p
    by (intro oforeach_not_Panic) simp
  with f show ?thesis by (auto simp: check_shares_def Let_def outcome_simps split: list.split)
qed

lemma omap_map: "omap f (map g xs) = omap (f \<circ> g) xs"
  by (induction xs) simp_all

text \<open>Shares of one splitting, chosen by position.\<close>

lemma share_at_chunk:
  assumes "chunk_sharing cr ps p pcs" "j < unat (sp_total ps)" "i < length pcs"
  shows "slice (ss_blob (share_at ps len pcs j)) (4 + i * 33) (4 + i * 33 + 33) = Ok (pcs ! i ! j)"
proof -
  let ?bs = "map (\<lambda>cs. cs ! j) pcs"
  have bs: "\<forall>b \<in> set ?bs. length b = 33"
    using assms(1,2) by (auto simp: chunk_sharing_def in_set_conv_nth) (metis nth_mem)
  then have l: "length (concat ?bs) = length pcs * 33" using length_concat_blocks [OF bs] by simp
  have "take 33 (drop (i * 33) (concat ?bs)) = pcs ! i ! j"
    using drop_take_concat_blocks [OF bs, of i] assms(3) by simp
  moreover have "(i + 1) * 33 \<le> length pcs * 33" using assms(3) by (intro mult_le_mono1) simp
  ultimately show ?thesis using l by (simp add: share_at_def slice_def)
qed

lemma share_at_blob_length:
  assumes "chunk_sharing cr ps p pcs" "j < unat (sp_total ps)"
  shows "length (ss_blob (share_at ps len pcs j)) = 4 + length pcs * 33"
proof -
  have bs: "\<forall>b \<in> set (map (\<lambda>cs. cs ! j) pcs). length b = 33"
    using assms by (auto simp: chunk_sharing_def in_set_conv_nth) (metis nth_mem)
  from length_concat_blocks [OF bs] show ?thesis by (simp add: share_at_def)
qed

lemma combine_chunk_Ok:
  assumes "sss_spec cr" "chunk_sharing cr ps p pcs" "i < length pcs"
    and "distinct idx" "\<forall>j \<in> set idx. j < unat (sp_total ps)" "unat (sp_threshold ps) \<le> length idx"
  shows "combine_chunk cr (map (share_at ps len pcs) idx) i = Ok (take 31 (drop (i * 31) p))"
proof -
  have "omap (\<lambda>s. slice (ss_blob s) (4 + i * 33) (4 + i * 33 + 33) :: (share_error, bytes) outcome)
      (map (share_at ps len pcs) idx) = Ok (map (\<lambda>j. pcs ! i ! j) idx)"
    unfolding omap_map
  proof (rule omap_Ok_map)
    fix j assume "j \<in> set idx"
    with assms(5) have "j < unat (sp_total ps)" by blast
    from share_at_chunk [OF assms(2) this assms(3)]
    show "((\<lambda>s. slice (ss_blob s) (4 + i * 33) (4 + i * 33 + 33)) \<circ> share_at ps len pcs) j =
        (Ok (pcs ! i ! j) :: (share_error, bytes) outcome)" by simp
  qed
  moreover obtain r s where s: "vsss_split cr r (unat (sp_threshold ps)) (unat (sp_total ps)) s = Ok (pcs ! i)"
      "to_repr cr s = 0 # take 31 (drop (i * 31) p)" "length (pcs ! i) = unat (sp_total ps)"
    using assms(2,3) unfolding chunk_sharing_def by blast
  moreover have "vsss_combine cr (map (\<lambda>j. pcs ! i ! j) idx) = Ok s"
    using assms(1,4,5,6) s unfolding sss_spec_def combine_law_def by simp
  moreover have "(i + 1) * 31 \<le> length p"
    using assms(2,3) by (simp add: chunk_sharing_def)
  ultimately show ?thesis
    by (simp add: combine_chunk_def Let_def shamir_consts scalar_to_bytes_def)
qed


lemma unat_of_nat_u8: "n < 256 \<Longrightarrow> unat (word_of_nat n :: u8) = n"
  by (subst unat_of_nat) simp

lemma be_nat_u32_be: "n < 2 ^ 32 \<Longrightarrow> be_nat (u32_be (word_of_nat n)) = n"
  by (simp add: u32_be_def be_nat_be_bytes unat_of_nat)

lemma combine_positions:
  assumes "sss_spec cr" and ps: "2 \<le> unat (sp_threshold ps)" "sp_threshold ps \<le> sp_total ps"
    and sh: "chunk_sharing cr ps (u32_be (word_of_nat (length secret)) @ secret @ replicate k 0) pcs"
    and len: "length secret < 2 ^ 32"
    and idx: "distinct idx" "\<forall>j \<in> set idx. j < unat (sp_total ps)" "unat (sp_threshold ps) \<le> length idx"
  shows "combine_shares cr (map (share_at ps (length secret) pcs) idx) = Ok secret"
proof -
  let ?p = "u32_be (word_of_nat (length secret)) @ secret @ replicate k 0"
  let ?shs = "map (share_at ps (length secret) pcs) idx"
  have ne: "idx \<noteq> []" using idx(3) ps(1) by auto
  have blob: "length (ss_blob s) = 4 + length pcs * 33" "ss_params s = ps" if "s \<in> set ?shs" for s
    using that idx(2) share_at_blob_length [OF sh] by (auto simp: share_at_def)
  have "inj_on (\<lambda>j. word_of_nat (j + 1) :: u8) (set idx)"
  proof (rule inj_onI)
    fix a b assume ab: "a \<in> set idx" "b \<in> set idx" "(word_of_nat (a + 1) :: u8) = word_of_nat (b + 1)"
    then have "a + 1 < 256" "b + 1 < 256" using idx(2) unat_u8_lt [of "sp_total ps"] by fastforce+
    with ab(3) show "a = b" by (metis add_right_cancel unat_of_nat_u8)
  qed
  then have "distinct (map ss_index ?shs)" using idx(1) by (simp add: distinct_map comp_def share_at_def)
  moreover have hd: "hd ?shs \<in> set ?shs" using ne by (intro hd_in_set) simp
  ultimately have c: "shares_consistent ?shs"
    using blob idx(3) ne by (simp add: shares_consistent_def)
  have chunks: "omap (combine_chunk cr ?shs) [0..<length pcs] = Ok (map (\<lambda>i. take 31 (drop (i * 31) ?p)) [0..<length pcs])"
    using combine_chunk_Ok [OF assms(1) sh _ idx] by (intro omap_Ok_map) simp
  have "concat (map (\<lambda>i. take 31 (drop (i * 31) ?p)) [0..<length pcs]) = ?p"
    using sh by (intro concat_chunks) (simp add: chunk_sharing_def)
  moreover have "take 4 (ss_blob (hd ?shs)) = u32_be (word_of_nat (length secret))"
    using ne by (cases idx) (simp_all add: share_at_def)
  moreover have "check_shares ?shs = Ok (hd ?shs)" using c by (simp add: check_shares_Ok)
  ultimately show ?thesis
    using chunks blob(1) [OF hd] len
    by (simp add: combine_shares_def unframe_def shamir_consts fail_if_def be_nat_u32_be slice_def)
qed


lemma shares_by_position:
  assumes "set sub \<subseteq> set (map (share_at ps len pcs) [0..<n])" "distinct (map ss_index sub)"
  shows "\<exists>idx. sub = map (share_at ps len pcs) idx \<and> distinct idx \<and> (\<forall>j \<in> set idx. j < n)"
  using assms
proof (induction sub)
  case Nil
  then show ?case by simp
next
  case (Cons s sub)
  then obtain idx where idx: "sub = map (share_at ps len pcs) idx" "distinct idx" "\<forall>j \<in> set idx. j < n" by auto
  from Cons.prems(1) obtain j where j: "j < n" "s = share_at ps len pcs j" by auto
  have "j \<notin> set idx" using Cons.prems(2) idx(1) j(2) by auto
  with idx j show ?case by (intro exI [of _ "j # idx"]) simp
qed

text \<open>When \<open>combine_shares\<close> panics: no chunks, and a declared length of zero.\<close>

lemma combine_chunk_length:
  assumes "repr_law cr" "combine_chunk cr shares i = Ok b"
  shows "length b = 31"
  using assms by (auto simp: combine_chunk_def Let_def outcome_simps repr_law_def scalar_to_bytes_def slice_def
      split: if_splits)

lemma combine_chunk_not_Panic:
  assumes "repr_law cr" "\<forall>s \<in> set shares. 4 + (i + 1) * 33 \<le> length (ss_blob s)"
    "\<forall>b m. vsss_combine cr b \<noteq> Panic m"
  shows "combine_chunk cr shares i \<noteq> Panic m"
proof -
  have "omap (\<lambda>s. slice (ss_blob s) (4 + i * 33) (4 + i * 33 + 33) :: (share_error, bytes) outcome) shares \<noteq> Panic m" for m
    using assms(2) by (intro omap_not_Panic) (auto simp: slice_def)
  with assms(1,3) show ?thesis
    by (auto simp: combine_chunk_def Let_def outcome_simps shamir_consts repr_law_def scalar_to_bytes_def)
qed


lemma combine_shares_recovered:
  assumes "repr_law cr" "\<forall>b m. vsss_combine cr b \<noteq> Panic m" "shares_consistent shares"
  shows "\<exists>k. length (ss_blob (hd shares)) = 4 + k * 33 \<and>
    (omap (combine_chunk cr shares) [0..<k] = Ok chunks \<longrightarrow> length (concat chunks) = k * 31) \<and>
    omap (combine_chunk cr shares) [0..<k] \<noteq> Panic m \<and>
    (length (ss_blob (hd shares)) - HEADER_BYTES) div PER_CHUNK_SHARE_BYTES = k"
proof -
  let ?b = "ss_blob (hd shares)"
  define k where "k = (length ?b - 4) div 33"
  have b: "(length ?b - 4) mod 33 = 0" "4 \<le> length ?b"
    using assms(3) unfolding shares_consistent_def by blast+
  have "k * 33 + (length ?b - 4) mod 33 = length ?b - 4" unfolding k_def by (rule div_mult_mod_eq)
  with b have len: "length ?b = 4 + k * 33" by linarith
  have "length (concat chunks) = k * 31" if "omap (combine_chunk cr shares) [0..<k] = Ok chunks"
  proof -
    have "\<forall>b \<in> set chunks. length b = 31"
      using omap_Ok_set [OF that] combine_chunk_length [OF assms(1)] by blast
    from length_concat_blocks [OF this] omap_Ok_length [OF that] show ?thesis by simp
  qed
  moreover have "omap (combine_chunk cr shares) [0..<k] \<noteq> Panic m"
  proof (rule omap_not_Panic)
    fix i assume "i \<in> set [0..<k]"
    then have "(i + 1) * 33 \<le> k * 33" by (intro mult_le_mono1) simp
    with assms(3) len have "\<forall>s \<in> set shares. 4 + (i + 1) * 33 \<le> length (ss_blob s)"
      by (simp add: shares_consistent_def)
    from combine_chunk_not_Panic [OF assms(1) this assms(2)] show "combine_chunk cr shares i \<noteq> Panic m" .
  qed
  ultimately show ?thesis using len by (intro exI [of _ k]) (simp add: shamir_consts)
qed

lemma be_nat_eq_0: "be_nat b = 0 \<longleftrightarrow> (\<forall>x \<in> set b. x = 0)"
  by (induction b rule: rev_induct) (auto simp: unat_eq_zero)

subsection \<open>An instance of the crates\<close>

text \<open>Field elements as 256-bit words, and the sharing whose random coefficients are all zero: each
  share carries its participant's number and the element.\<close>

definition ref_sss :: "(u256, unit) sss_crates" where
  "ref_sss = \<lparr>from_repr = (\<lambda>b. if length b = 32 then Some (word_of_nat (be_nat b)) else None),
     to_repr = (\<lambda>w. be_bytes 32 (unat w)),
     vsss_split = (\<lambda>r t n s. if t < 2 \<or> n < t then Err ''SharingMinThreshold''
       else Ok (map (\<lambda>i. word_of_nat (i + 1) # be_bytes 32 (unat s)) [0..<n])),
     vsss_combine = (\<lambda>shs. if shs = [] then Err ''SharingMinThreshold''
       else Ok (word_of_nat (be_nat (tl (hd shs)))))\<rparr>"

lemma ref_sss_spec: "sss_spec ref_sss"
proof -
  have "unat w mod 256 ^ 32 = unat w" for w :: u256 using unat_lt [of w] by simp
  then have be: "word_of_nat (be_nat (be_bytes 32 (unat w))) = w" for w :: u256
    unfolding be_nat_be_bytes by simp
  have "repr_law ref_sss"
  proof -
    have "be_bytes 32 (unat (word_of_nat (be_nat (0 # c)) :: u256)) = 0 # c" if "length c = 31" for c :: bytes
    proof -
      have "be_nat (0 # c) < 2 ^ 256" using be_nat_lt [of "0 # c"] that by simp
      then have "unat (word_of_nat (be_nat (0 # c)) :: u256) = be_nat (0 # c)" by (subst unat_of_nat) simp
      then show ?thesis using be_bytes_be_nat [of "0 # c"] that by simp
    qed
    then show ?thesis by (simp add: repr_law_def ref_sss_def)
  qed
  moreover have "split_law ref_sss" by (auto simp: split_law_def ref_sss_def)
  moreover have "combine_law ref_sss"
    unfolding combine_law_def
  proof (intro allI impI)
    fix r t n s shs and idx :: "nat list"
    assume sp: "vsss_split ref_sss r t n s = Ok shs" and idx: "\<forall>i \<in> set idx. i < length shs" "t \<le> length idx"
    then have "2 \<le> t" "shs = map (\<lambda>i. word_of_nat (i + 1) # be_bytes 32 (unat s)) [0..<n]"
      by (auto simp: ref_sss_def split: if_splits)
    moreover from this idx obtain i js where "idx = i # js" by (cases idx) auto
    ultimately show "vsss_combine ref_sss (map (\<lambda>i. shs ! i) idx) = Ok s"
      using idx be by (simp add: ref_sss_def)
  qed
  ultimately show ?thesis by (simp add: sss_spec_def)
qed


lemma unframe_Panic:
  assumes "length (concat chunks) = k * 31" "length b = 4 + k * 33"
  shows "(\<exists>m. unframe b chunks = Panic m) \<longleftrightarrow> b = [0, 0, 0, 0]"
proof (cases k)
  case 0
  then have R: "concat chunks = []" using assms(1) by simp
  obtain w x y z where b: "b = [w, x, y, z]" using assms(2) 0 by (auto simp: length_Suc_conv numeral_eq_Suc)
  have "be_nat b = 0 \<longleftrightarrow> b = [0, 0, 0, 0]" by (auto simp: be_nat_eq_0 b)
  then show ?thesis
    by (cases "be_nat b") (auto simp: unframe_def R Let_def shamir_consts slice_def b)
next
  case (Suc n)
  then have "31 \<le> length (concat chunks)" "b \<noteq> [0, 0, 0, 0]" using assms by auto
  then show ?thesis
    by (auto simp: unframe_def Let_def shamir_consts outcome_simps slice_def fail_if_def split: if_splits)
qed

lemma ref_combines: "\<exists>shares. combine_shares ref_sss shares = Ok [7, 8, 9]"
proof -
  let ?ps = "\<lparr>sp_threshold = 2, sp_total = 3\<rparr>"
  obtain pcs k where "chunk_sharing ref_sss ?ps (u32_be (word_of_nat (length [7 :: u8, 8, 9])) @ [7, 8, 9] @ replicate k 0) pcs"
    using split_secret_Ok [OF ref_sss_spec, of ?ps "[7, 8, 9]" "\<lambda>_. ()"] by (auto simp: shamir_validate_Ok)
  from combine_positions [OF ref_sss_spec _ _ this, of "[0, 1]"] show ?thesis by auto
qed

lemma split_secret_combines:
  assumes "sss_spec cr" "shamir_validate ps = Ok ()" "secret \<noteq> []" "length secret < 2 ^ 32"
  shows "\<exists>shares. split_secret cr rng secret ps = Ok shares \<and>
    map (unat \<circ> ss_index) shares = [1..<unat (sp_total ps) + 1] \<and>
    (\<forall>s \<in> set shares. ss_params s = ps) \<and>
    (\<forall>sub. set sub \<subseteq> set shares \<and> distinct (map ss_index sub) \<and> unat (sp_threshold ps) \<le> length sub \<longrightarrow>
       combine_shares cr sub = Ok secret)"
proof -
  obtain pcs k where sp: "split_secret cr rng secret ps = Ok (map (share_at ps (length secret) pcs) [0..<unat (sp_total ps)])"
    and sh: "chunk_sharing cr ps (u32_be (word_of_nat (length secret)) @ secret @ replicate k 0) pcs"
    using split_secret_Ok [OF assms] by blast
  from assms(2) have ps: "2 \<le> unat (sp_threshold ps)" "sp_threshold ps \<le> sp_total ps"
    by (simp_all add: shamir_validate_Ok)
  have "map (unat \<circ> ss_index) (map (share_at ps (length secret) pcs) [0..<unat (sp_total ps)]) =
      map Suc [0..<unat (sp_total ps)]"
    using unat_u8_lt [of "sp_total ps"] unat_of_nat_u8
    by (auto simp: share_at_def simp del: of_nat_Suc of_nat_add)
  then have idx: "map (unat \<circ> ss_index) (map (share_at ps (length secret) pcs) [0..<unat (sp_total ps)]) =
      [1..<unat (sp_total ps) + 1]" by (simp add: map_Suc_upt)
  have "combine_shares cr sub = Ok secret"
    if sub: "set sub \<subseteq> set (map (share_at ps (length secret) pcs) [0..<unat (sp_total ps)])"
      "distinct (map ss_index sub)" "unat (sp_threshold ps) \<le> length sub" for sub
  proof -
    from shares_by_position [OF sub(1,2)] obtain idx where idx: "sub = map (share_at ps (length secret) pcs) idx"
        "distinct idx" "\<forall>j \<in> set idx. j < unat (sp_total ps)" by blast
    with sub(3) have t: "unat (sp_threshold ps) \<le> length idx" by simp
    from combine_positions [OF assms(1) ps sh assms(4) idx(2,3) t] show ?thesis unfolding idx(1) .
  qed
  moreover have "\<forall>s \<in> set (map (share_at ps (length secret) pcs) [0..<unat (sp_total ps)]). ss_params s = ps"
    by (simp add: share_at_def)
  ultimately show ?thesis using sp idx by blast
qed

subsection \<open>Properties\<close>

text \<open>C4. Secret sharing round trip: for valid parameters and a non-empty secret shorter than
  \<open>2^32\<close> bytes, splitting succeeds with \<open>total\<close> shares indexed from 1, and any \<open>threshold\<close> or more of
  them, in any order, combine to the secret.\<close>

theorem split_combine_round_trip:
  assumes "sss_spec cr" "shamir_validate ps = Ok ()" "secret \<noteq> []" "length secret < 2 ^ 32"
  shows "\<exists>shares. split_secret cr rng secret ps = Ok shares \<and>
    map (unat \<circ> ss_index) shares = [1..<unat (sp_total ps) + 1] \<and>
    (\<forall>sub. set sub \<subseteq> set shares \<and> distinct (map ss_index sub) \<and> unat (sp_threshold ps) \<le> length sub \<longrightarrow>
       combine_shares cr sub = Ok secret)"
  using split_secret_combines [OF assms, of rng] by blast

theorem split_combine_round_trip_witness:
  "\<exists>shares. split_secret ref_sss (\<lambda>_. ()) [7, 8, 9] \<lparr>sp_threshold = 2, sp_total = 3\<rparr> = Ok shares \<and>
    map (unat \<circ> ss_index) shares = [1..<unat (3 :: u8) + 1] \<and>
    (\<forall>sub. set sub \<subseteq> set shares \<and> distinct (map ss_index sub) \<and> unat (2 :: u8) \<le> length sub \<longrightarrow>
       combine_shares ref_sss sub = Ok [7, 8, 9])"
  using split_combine_round_trip [OF ref_sss_spec, of "\<lparr>sp_threshold = 2, sp_total = 3\<rparr>" "[7, 8, 9]" "\<lambda>_. ()"]
  by (simp add: shamir_validate_Ok)

text \<open>Combining never yields a secret from an inconsistent set: a successful combination had at
  least \<open>threshold\<close> shares, all with the same parameters and blob length and with distinct
  indices.\<close>

theorem combine_shares_checked:
  assumes "combine_shares cr shares = Ok secret"
  shows "shares_consistent shares \<and> length secret = be_nat (take 4 (ss_blob (hd shares)))"
  using assms
  by (auto simp: combine_shares_def unframe_def outcome_simps check_shares_Ok Let_def shamir_consts)

theorem combine_shares_checked_witness:
  "\<exists>shares. combine_shares ref_sss shares = Ok [7, 8, 9] \<and> shares_consistent shares \<and>
     length [7 :: u8, 8, 9] = be_nat (take 4 (ss_blob (hd shares)))"
  using ref_combines combine_shares_checked [of ref_sss _ "[7, 8, 9]"] by blast

text \<open>When recombination panics: exactly on shares that pass every check and whose blob is nothing
  but a zero length header. Every other input gives a secret or an error.\<close>

theorem combine_shares_panics_iff:
  assumes "repr_law cr" "\<forall>b m. vsss_combine cr b \<noteq> Panic m"
  shows "(\<exists>m. combine_shares cr shares = Panic m) \<longleftrightarrow>
    shares_consistent shares \<and> ss_blob (hd shares) = [0, 0, 0, 0]"
proof (cases "shares_consistent shares")
  case False
  then have "\<nexists>f. check_shares shares = Ok f" by (simp add: check_shares_Ok)
  with check_shares_not_Panic [of shares] False show ?thesis
    by (cases "check_shares shares") (auto simp: combine_shares_def)
next
  case True
  let ?b = "ss_blob (hd shares)"
  obtain k where k: "length ?b = 4 + k * 33" "(length ?b - HEADER_BYTES) div PER_CHUNK_SHARE_BYTES = k"
    using combine_shares_recovered [OF assms True] by blast
  let ?o = "omap (combine_chunk cr shares) [0..<k]"
  have o: "?o \<noteq> Panic m" "?o = Ok chunks \<Longrightarrow> length (concat chunks) = k * 31" for m chunks
    using combine_shares_recovered [OF assms True, of chunks m] k(1) by auto
  have c: "combine_shares cr shares = obind ?o (unframe (ss_blob (hd shares)))"
    using True k(2) by (simp add: combine_shares_def check_shares_Ok [THEN iffD2] Let_def)
  show ?thesis
  proof (cases ?o)
    case (Ok chunks)
    with o(2) have "length (concat chunks) = k * 31" by blast
    from unframe_Panic [OF this k(1)] True show ?thesis by (simp add: c Ok)
  next
    case (Err e)
    then have "k \<noteq> 0" by (intro notI) simp
    with k(1) Err c True show ?thesis by auto
  next
    case (Panic m)
    with o(1) show ?thesis by blast
  qed
qed

theorem combine_shares_panics_iff_witness:
  "(\<exists>m. combine_shares ref_sss [\<lparr>ss_index = 1, ss_params = \<lparr>sp_threshold = 1, sp_total = 1\<rparr>, ss_blob = [0, 0, 0, 0]\<rparr>] =
     Panic m) \<longleftrightarrow>
   shares_consistent [\<lparr>ss_index = 1, ss_params = \<lparr>sp_threshold = 1, sp_total = 1\<rparr>, ss_blob = [0, 0, 0, 0]\<rparr>] \<and>
   ss_blob (hd [\<lparr>ss_index = 1, ss_params = \<lparr>sp_threshold = 1, sp_total = 1\<rparr>, ss_blob = [0, 0, 0, 0]\<rparr>]) = [0, 0, 0, 0]"
  by (rule combine_shares_panics_iff) (use ref_sss_spec in \<open>auto simp: sss_spec_def ref_sss_def\<close>)

end
