(* ===== verification/Share_Stores.thy ===== *)
theory Share_Stores
  imports Shamir "HOL-Library.AList"
begin

text \<open>
  The share stores of \<open>qfc-sss\<close>: the trait of \<open>store.rs\<close> as the locale \<open>share_store\<close>, the
  in-memory store (\<open>stores/mock.rs\<close>), the encrypted file store (\<open>stores/local_fs.rs\<close>) with an
  explicit file system and an I/O fault at any step of a write, and the S3 and KMS store
  (\<open>stores/s3_kms.rs\<close>) with its mock backends.

  Hash maps are association lists with one entry per key, in the map's iteration order. JSON, the
  AEAD cipher and the text form of a ULID are fields of \<open>store_crates\<close>; nonces and keys drawn
  from the random generator are arguments.
\<close>

subsection \<open>The envelope and the trait (store.rs)\<close>

datatype store_error =
    NotFound share_id
  | Serde string
  | Io string
  | Crypto string
  | Config string

record stored_share =
  sto_share_id :: share_id
  sto_created_at_unix_ms :: i64
  sto_share :: shamir_share

definition store_unix_ms :: "int \<Rightarrow> i64" where
  "store_unix_ms nanos = (let ms = whole_units 1000000 nanos in if i64_ok ms then ms else 2 ^ 63 - 1)"

definition stored_share_now :: "int \<Rightarrow> share_id \<Rightarrow> shamir_share \<Rightarrow> stored_share" where
  "stored_share_now nanos sid share =
     \<lparr>sto_share_id = sid, sto_created_at_unix_ms = store_unix_ms nanos, sto_share = share\<rparr>"

text \<open>\<open>lookup\<close> is the abstract contents. The argument of type \<open>'e\<close> is what \<open>put\<close> draws at random.\<close>

locale share_store =
  fixes inv :: "'s \<Rightarrow> bool"
    and lookup :: "'s \<Rightarrow> share_id \<Rightarrow> stored_share option"
    and put :: "'e \<Rightarrow> stored_share \<Rightarrow> 's \<Rightarrow> (store_error, unit) outcome \<times> 's"
    and get :: "share_id \<Rightarrow> 's \<Rightarrow> (store_error, stored_share) outcome"
    and delete :: "share_id \<Rightarrow> 's \<Rightarrow> (store_error, unit) outcome \<times> 's"
    and listing :: "wallet_id \<Rightarrow> 's \<Rightarrow> (store_error, share_id list) outcome"
  assumes put: "inv s \<Longrightarrow> \<exists>s'. put e sh s = (Ok (), s') \<and> inv s' \<and> lookup s' = (lookup s)(sto_share_id sh \<mapsto> sh)"
    and get: "inv s \<Longrightarrow> get sid s = ok_or (lookup s sid) (NotFound sid)"
    and delete: "inv s \<Longrightarrow> \<exists>s'. delete sid s = (Ok (), s') \<and> inv s' \<and> lookup s' = (lookup s)(sid := None)"
    and listing: "inv s \<Longrightarrow> \<exists>ids. listing w s = Ok ids \<and> sorted_wrt (\<lambda>a b. sid_index a < sid_index b) ids \<and>
      set ids = {sid. sid_wallet_id sid = w \<and> lookup s sid \<noteq> None}"

text \<open>The loop that stores a wallet's shares: it stops at the first error.\<close>

primrec put_all :: "('e \<Rightarrow> stored_share \<Rightarrow> 's \<Rightarrow> (store_error, unit) outcome \<times> 's) \<Rightarrow>
   ('e \<times> stored_share) list \<Rightarrow> 's \<Rightarrow> (store_error, unit) outcome \<times> 's" where
  "put_all put [] s = (Ok (), s)"
| "put_all put (x # xs) s =
     (case put (fst x) (snd x) s of
        (Ok _, s') \<Rightarrow> put_all put xs s'
      | (Err e, s') \<Rightarrow> (Err e, s')
      | (Panic m, s') \<Rightarrow> (Panic m, s'))"

context share_store
begin

lemma put_all_lookup:
  "inv s \<Longrightarrow> distinct (map (sto_share_id \<circ> snd) xs) \<Longrightarrow>
   \<exists>s'. put_all put xs s = (Ok (), s') \<and> inv s' \<and>
     lookup s' = lookup s ++ map_of (map (\<lambda>x. (sto_share_id (snd x), snd x)) xs)"
proof (induction xs arbitrary: s)
  case Nil
  then show ?case by simp
next
  case (Cons x xs)
  from put [OF Cons.prems(1), of "fst x" "snd x"] obtain s1 where
    s1: "put (fst x) (snd x) s = (Ok (), s1)" "inv s1" "lookup s1 = (lookup s)(sto_share_id (snd x) \<mapsto> snd x)"
    by blast
  from Cons.IH [OF s1(2)] Cons.prems(2) obtain s2 where
    s2: "put_all put xs s1 = (Ok (), s2)" "inv s2"
      "lookup s2 = lookup s1 ++ map_of (map (\<lambda>x. (sto_share_id (snd x), snd x)) xs)" by auto
  have "sto_share_id (snd x) \<notin> dom (map_of (map (\<lambda>x. (sto_share_id (snd x), snd x)) xs))"
    using Cons.prems(2) by (auto simp: dom_map_of_conv_image_fst image_image)
  then have "lookup s2 = lookup s ++ map_of (map (\<lambda>x. (sto_share_id (snd x), snd x)) (x # xs))"
    by (simp add: s2(3) s1(3) map_add_upd_left)
  moreover have "put_all put (x # xs) s = (Ok (), s2)" by (simp add: s1(1) s2(1))
  ultimately show ?case using s2(2) by blast
qed

lemma get_after_put_all:
  assumes "inv s" "distinct (map (sto_share_id \<circ> snd) xs)" "x \<in> set xs"
  shows "\<exists>s'. put_all put xs s = (Ok (), s') \<and> inv s' \<and> get (sto_share_id (snd x)) s' = Ok (snd x)"
proof -
  from put_all_lookup [OF assms(1,2)] obtain s' where s': "put_all put xs s = (Ok (), s')" "inv s'"
    "lookup s' = lookup s ++ map_of (map (\<lambda>x. (sto_share_id (snd x), snd x)) xs)" by blast
  have "map_of (map (\<lambda>x. (sto_share_id (snd x), snd x)) xs) (sto_share_id (snd x)) = Some (snd x)"
    using assms(2,3) by (intro map_of_is_SomeI) (auto simp: comp_def)
  then have "lookup s' (sto_share_id (snd x)) = Some (snd x)" by (simp add: s'(3) map_add_def)
  with s' get [OF s'(2)] show ?thesis by simp
qed

lemma delete_frees:
  assumes "inv s"
  shows "\<exists>s'. delete sid s = (Ok (), s') \<and> inv s' \<and> get sid s' = Err (NotFound sid) \<and>
    (\<forall>other. other \<noteq> sid \<longrightarrow> get other s' = get other s)"
  using delete [OF assms, of sid] get [OF assms] by (auto simp: get)

end

subsection \<open>The in-memory store (stores/mock.rs)\<close>

type_synonym mock_store = "(share_id \<times> stored_share) list"

definition mock_new :: mock_store where "mock_new = []"

definition mock_put :: "unit \<Rightarrow> stored_share \<Rightarrow> mock_store \<Rightarrow> (store_error, unit) outcome \<times> mock_store" where
  "mock_put e sh s = (Ok (), AList.update (sto_share_id sh) sh s)"

definition mock_get :: "share_id \<Rightarrow> mock_store \<Rightarrow> (store_error, stored_share) outcome" where
  "mock_get sid s = ok_or (map_of s sid) (NotFound sid)"

definition mock_delete :: "share_id \<Rightarrow> mock_store \<Rightarrow> (store_error, unit) outcome \<times> mock_store" where
  "mock_delete sid s = (Ok (), AList.delete sid s)"

definition mock_list :: "wallet_id \<Rightarrow> mock_store \<Rightarrow> (store_error, share_id list) outcome" where
  "mock_list w s = Ok (sort_key sid_index (filter (\<lambda>sid. sid_wallet_id sid = w) (map fst s)))"

definition mock_len :: "mock_store \<Rightarrow> nat" where "mock_len s = length s"

text \<open>Identifiers of one wallet are told apart by their index, so sorting by index is strict.\<close>

lemma sorted_ids_strict:
  assumes "distinct (ids :: share_id list)" "\<forall>sid \<in> set ids. sid_wallet_id sid = w"
  shows "sorted_wrt (\<lambda>a b. sid_index a < sid_index b) (sort_key sid_index ids)"
proof -
  have "inj_on sid_index (set ids)"
  proof (rule inj_onI)
    fix a b assume "a \<in> set ids" "b \<in> set ids" "sid_index a = sid_index b"
    moreover from this assms(2) have "sid_wallet_id a = sid_wallet_id b" by simp
    ultimately show "a = b" by (intro share_id.equality) simp_all
  qed
  with assms(1) have "distinct (map sid_index (sort_key sid_index ids))" by (simp add: distinct_map)
  moreover have "sorted (map sid_index (sort_key sid_index ids))" by simp
  ultimately have "sorted_wrt (<) (map sid_index (sort_key sid_index ids))"
    by (simp add: strict_sorted_iff)
  then show ?thesis by (simp add: sorted_wrt_map)
qed

interpretation mock: share_store "\<lambda>s. distinct (map fst s)" map_of mock_put mock_get mock_delete mock_list
proof
  fix s :: mock_store and e sh
  assume "distinct (map fst s)"
  then show "\<exists>s'. mock_put e sh s = (Ok (), s') \<and> distinct (map fst s') \<and>
      map_of s' = (map_of s)(sto_share_id sh \<mapsto> sh)"
    by (simp add: mock_put_def distinct_update update_conv')
next
  fix s :: mock_store and sid
  show "mock_get sid s = ok_or (map_of s sid) (NotFound sid)" by (simp add: mock_get_def)
next
  fix s :: mock_store and sid
  assume "distinct (map fst s)"
  then show "\<exists>s'. mock_delete sid s = (Ok (), s') \<and> distinct (map fst s') \<and> map_of s' = (map_of s)(sid := None)"
    by (simp add: mock_delete_def distinct_delete delete_conv')
next
  fix s :: mock_store and w
  assume d: "distinct (map fst s)"
  let ?ids = "filter (\<lambda>sid. sid_wallet_id sid = w) (map fst s)"
  have "sorted_wrt (\<lambda>a b. sid_index a < sid_index b) (sort_key sid_index ?ids)"
    by (rule sorted_ids_strict [where w = w]) (use d in \<open>simp_all add: distinct_filter del: filter_map\<close>)
  moreover have "set (sort_key sid_index ?ids) = {sid. sid_wallet_id sid = w \<and> map_of s sid \<noteq> None}"
    unfolding set_sort by (auto simp: map_of_eq_None_iff)
  ultimately show "\<exists>ids. mock_list w s = Ok ids \<and> sorted_wrt (\<lambda>a b. sid_index a < sid_index b) ids \<and>
      set ids = {sid. sid_wallet_id sid = w \<and> map_of s sid \<noteq> None}"
    unfolding mock_list_def by blast
qed

subsection \<open>What the persistent stores call of other crates\<close>

text \<open>\<open>serde_json\<close> on a stored share, the AEAD cipher (key, nonce, text) and the text form of a ULID.\<close>

record store_crates =
  st_share_json :: "stored_share \<Rightarrow> bytes option"
  st_share_from_json :: "bytes \<Rightarrow> stored_share option"
  st_encrypt :: "bytes \<Rightarrow> bytes \<Rightarrow> bytes \<Rightarrow> bytes option"
  st_decrypt :: "bytes \<Rightarrow> bytes \<Rightarrow> bytes \<Rightarrow> bytes option"
  st_ulid_str :: "ulid \<Rightarrow> string"

definition store_crates_spec :: "store_crates \<Rightarrow> bool" where
  "store_crates_spec cr \<longleftrightarrow>
     (\<forall>sh. \<exists>b. st_share_json cr sh = Some b \<and> st_share_from_json cr b = Some sh) \<and>
     (\<forall>k n p. \<exists>c. st_encrypt cr k n p = Some c \<and> st_decrypt cr k n c = Some p) \<and>
     ulid_text (st_ulid_str cr)"

text \<open>\<open>OsRng.fill_bytes\<close> on a buffer of \<open>n\<close> bytes.\<close>

definition fill_bytes :: "(nat \<Rightarrow> u8) \<Rightarrow> nat \<Rightarrow> bytes" where
  "fill_bytes rng n = map rng [0..<n]"

lemma length_fill_bytes [simp]: "length (fill_bytes rng n) = n"
  by (simp add: fill_bytes_def)

text \<open>An executable instance: fields in a row, the timestamp in unary, and no encryption.\<close>

definition ref_share_json :: "stored_share \<Rightarrow> bytes option" where
  "ref_share_json sh =
     (let sid = sto_share_id sh; t = sto_created_at_unix_ms sh; s = sto_share sh in
      Some (be_bytes 16 (unat (wallet_ulid (sid_wallet_id sid))) @
        [sid_index sid, ss_index s, sp_threshold (ss_params s), sp_total (ss_params s), of_bool (t < 0)] @
        replicate (nat \<bar>t\<bar>) 1 @ [0] @ ss_blob s))"

definition ref_share_from_json :: "bytes \<Rightarrow> stored_share option" where
  "ref_share_from_json b =
     (if length b < 22 then None
      else
        let rest = drop 21 b; n = int (length (takeWhile (\<lambda>x. x = 1) rest)) in
        Some \<lparr>sto_share_id = \<lparr>sid_wallet_id = WalletId (word_of_nat (be_nat (take 16 b))), sid_index = b ! 16\<rparr>,
          sto_created_at_unix_ms = (if b ! 20 = 0 then n else - n),
          sto_share = \<lparr>ss_index = b ! 17, ss_params = \<lparr>sp_threshold = b ! 18, sp_total = b ! 19\<rparr>,
            ss_blob = drop 1 (dropWhile (\<lambda>x. x = 1) rest)\<rparr>\<rparr>)"

definition ref_store_crates :: store_crates where
  "ref_store_crates = \<lparr>st_share_json = ref_share_json, st_share_from_json = ref_share_from_json,
     st_encrypt = (\<lambda>k n p. Some p), st_decrypt = (\<lambda>k n c. Some c), st_ulid_str = crockford\<rparr>"

lemma ref_share_json_round_trip: "\<exists>b. ref_share_json sh = Some b \<and> ref_share_from_json b = Some sh"
proof -
  let ?t = "sto_created_at_unix_ms sh" and ?u = "wallet_ulid (sid_wallet_id (sto_share_id sh))"
  have "unat ?u mod 256 ^ 16 = unat ?u" using unat_lt [of ?u] by simp
  then have u: "word_of_nat (be_nat (be_bytes 16 (unat ?u))) = ?u" unfolding be_nat_be_bytes by simp
  have ones: "takeWhile (\<lambda>x. x = 1) (replicate n (1 :: u8) @ 0 # xs) = replicate n 1"
    "dropWhile (\<lambda>x. x = 1) (replicate n (1 :: u8) @ 0 # xs) = 0 # xs" for n xs
    by (induction n) simp_all
  show ?thesis
    unfolding ref_share_json_def Let_def
    by (simp add: ref_share_from_json_def Let_def nth_append u ones)
qed

lemma ref_store_crates_spec: "store_crates_spec ref_store_crates"
  using ref_share_json_round_trip by (simp add: store_crates_spec_def ref_store_crates_def ulid_text_crockford)

end
