(* ===== verification/Local_Fs_Store.thy ===== *)
theory Local_Fs_Store
  imports Share_Stores
begin

text \<open>
  The encrypted file store, \<open>qfc-sss/src/stores/local_fs.rs\<close>. A path is the list of its
  components; the file system is a set of directories and the contents of the files. Every file
  operation takes the fault the operating system reports for it, if any: a write can stop at each
  of its steps, after any number of bytes.

  Under the laws of the crates the store satisfies the contract of a share store, and a write that
  fails leaves every stored share as it was.
\<close>

subsection \<open>The file system\<close>

type_synonym path = "string list"

record fs =
  fs_dirs :: "path list"
  fs_files :: "(path \<times> bytes) list"

definition fs_empty :: fs where
  "fs_empty = \<lparr>fs_dirs = [], fs_files = []\<rparr>"

definition fs_create_dir_all :: "path \<Rightarrow> fs \<Rightarrow> fs" where
  "fs_create_dir_all dir fs = fs\<lparr>fs_dirs := List.insert dir (fs_dirs fs)\<rparr>"

definition fs_write :: "path \<Rightarrow> bytes \<Rightarrow> fs \<Rightarrow> fs" where
  "fs_write p b fs = fs\<lparr>fs_files := AList.update p b (fs_files fs)\<rparr>"

definition fs_remove :: "path \<Rightarrow> fs \<Rightarrow> fs" where
  "fs_remove p fs = fs\<lparr>fs_files := AList.delete p (fs_files fs)\<rparr>"

definition fs_rename :: "path \<Rightarrow> path \<Rightarrow> fs \<Rightarrow> fs" where
  "fs_rename from_p to_p fs =
     (case map_of (fs_files fs) from_p of
        Some b \<Rightarrow> fs_write to_p b (fs_remove from_p fs)
      | None \<Rightarrow> fs)"

text \<open>The steps of a write that can fail; a failed \<open>write_all\<close> may have written some bytes.\<close>

datatype io_step = CreateDir | CreateFile | WriteAll nat | Flush | SyncAll | Rename

subsection \<open>The store\<close>

definition FILE_MAGIC :: bytes where
  "FILE_MAGIC = [0x51, 0x46, 0x43, 0x53, 0x53, 0x00, 0x01, 0x00]"

definition NONCE_BYTES :: nat where "NONCE_BYTES = 24"

record local_fs_store =
  lfs_root :: string
  lfs_key :: bytes

definition local_fs_new :: "string \<Rightarrow> bytes \<Rightarrow> (store_error, local_fs_store) outcome" where
  "local_fs_new root key =
     (if root = [] then Err (Config ''root path must not be empty'')
      else Ok \<lparr>lfs_root = root, lfs_key = key\<rparr>)"

definition wallet_dir :: "store_crates \<Rightarrow> local_fs_store \<Rightarrow> wallet_id \<Rightarrow> path" where
  "wallet_dir cr self w = [lfs_root self, st_ulid_str cr (wallet_ulid w)]"

definition share_path :: "store_crates \<Rightarrow> local_fs_store \<Rightarrow> share_id \<Rightarrow> path" where
  "share_path cr self sid =
     wallet_dir cr self (sid_wallet_id sid) @ [show_nat (unat (sid_index sid)) @ ''.bin'']"

text \<open>\<open>Path::with_extension\<close> replaces what follows the last dot of the file name.\<close>

definition file_stem :: "string \<Rightarrow> string" where
  "file_stem f =
     (let stem = rev (tl (dropWhile (\<lambda>c. c \<noteq> CHR ''.'') (rev f))) in if stem = [] then f else stem)"

definition with_extension :: "string \<Rightarrow> path \<Rightarrow> path" where
  "with_extension ext p = butlast p @ [file_stem (last p) @ ''.'' @ ext]"

definition seal :: "store_crates \<Rightarrow> local_fs_store \<Rightarrow> (nat \<Rightarrow> u8) \<Rightarrow> bytes \<Rightarrow> (store_error, bytes) outcome" where
  "seal cr self rng plaintext =
     (let nonce_bytes = fill_bytes rng NONCE_BYTES in
      obind (ok_or (st_encrypt cr (lfs_key self) nonce_bytes plaintext) (Crypto ''aead encrypt'')) (\<lambda>ct.
      Ok (FILE_MAGIC @ nonce_bytes @ ct)))"

definition open_envelope :: "bytes \<Rightarrow> (store_error, bytes \<times> bytes) outcome" where
  "open_envelope raw =
     obind (fail_if (length raw < length FILE_MAGIC + NONCE_BYTES) (Crypto ''share file truncated'')) (\<lambda>_.
     obind (slice raw 0 (length FILE_MAGIC)) (\<lambda>magic.
     obind (fail_if (magic \<noteq> FILE_MAGIC) (Crypto ''share file magic mismatch'')) (\<lambda>_.
     let nonce_start = length FILE_MAGIC; body_start = nonce_start + NONCE_BYTES in
     obind (slice raw nonce_start body_start) (\<lambda>nonce.
     obind (slice raw body_start (length raw)) (\<lambda>body. Ok (nonce, body))))))"

definition open_sealed :: "store_crates \<Rightarrow> local_fs_store \<Rightarrow> bytes \<Rightarrow> (store_error, bytes) outcome" where
  "open_sealed cr self raw =
     obind (open_envelope raw) (\<lambda>(nonce, body).
     ok_or (st_decrypt cr (lfs_key self) nonce body) (Crypto ''aead decrypt''))"

text \<open>The atomic write: a temporary file in the same directory, then a rename.\<close>

definition write_share_file :: "(io_step \<times> string) option \<Rightarrow> path \<Rightarrow> bytes \<Rightarrow> fs \<Rightarrow> (store_error, unit) outcome \<times> fs" where
  "write_share_file fault path sealed fs =
     (let tmp = with_extension ''bin.tmp'' path;
          created = fs_write tmp [] fs;
          written = fs_write tmp sealed fs in
      case fault of
        Some (CreateFile, e) \<Rightarrow> (Err (Io e), fs)
      | Some (WriteAll n, e) \<Rightarrow> (Err (Io e), fs_write tmp (take n sealed) created)
      | Some (Flush, e) \<Rightarrow> (Err (Io e), written)
      | Some (SyncAll, e) \<Rightarrow> (Err (Io e), written)
      | Some (Rename, e) \<Rightarrow> (Err (Io e), written)
      | _ \<Rightarrow> (Ok (), fs_rename tmp path written))"

definition local_put :: "store_crates \<Rightarrow> local_fs_store \<Rightarrow> (io_step \<times> string) option \<Rightarrow> (nat \<Rightarrow> u8) \<Rightarrow>
   stored_share \<Rightarrow> fs \<Rightarrow> (store_error, unit) outcome \<times> fs" where
  "local_put cr self fault rng share fs =
     (let path = share_path cr self (sto_share_id share) in
      case fault of
        Some (CreateDir, e) \<Rightarrow> (Err (Io e), fs)
      | _ \<Rightarrow>
        let fs = fs_create_dir_all (butlast path) fs in
        (case obind (ok_or (st_share_json cr share) (Serde ''serialize'')) (seal cr self rng) of
           Ok sealed \<Rightarrow> write_share_file fault path sealed fs
         | Err e \<Rightarrow> (Err e, fs)
         | Panic m \<Rightarrow> (Panic m, fs)))"

definition local_get :: "store_crates \<Rightarrow> local_fs_store \<Rightarrow> string option \<Rightarrow> share_id \<Rightarrow> fs \<Rightarrow>
   (store_error, stored_share) outcome" where
  "local_get cr self fault sid fs =
     (case fault of
        Some e \<Rightarrow> Err (Io e)
      | None \<Rightarrow>
        (case map_of (fs_files fs) (share_path cr self sid) of
           None \<Rightarrow> Err (NotFound sid)
         | Some raw \<Rightarrow>
             obind (open_sealed cr self raw) (\<lambda>plaintext.
             obind (ok_or (st_share_from_json cr plaintext) (Serde ''parse'')) (\<lambda>share.
             obind (fail_if (sto_share_id share \<noteq> sid) (Crypto ''share_id mismatch in decrypted blob'')) (\<lambda>_.
             Ok share)))))"

definition local_delete :: "store_crates \<Rightarrow> local_fs_store \<Rightarrow> string option \<Rightarrow> share_id \<Rightarrow> fs \<Rightarrow>
   (store_error, unit) outcome \<times> fs" where
  "local_delete cr self fault sid fs =
     (case fault of
        Some e \<Rightarrow> (Err (Io e), fs)
      | None \<Rightarrow> (Ok (), fs_remove (share_path cr self sid) fs))"

definition parse_share_filename :: "path \<Rightarrow> u8 option" where
  "parse_share_filename p =
     (let file = last p in
      if length file < 4 \<or> drop (length file - 4) file \<noteq> ''.bin'' then None
      else map_option word_of_nat (parse_uint 8 (take (length file - 4) file)))"

definition local_list :: "store_crates \<Rightarrow> local_fs_store \<Rightarrow> string option \<Rightarrow> wallet_id \<Rightarrow> fs \<Rightarrow>
   (store_error, share_id list) outcome" where
  "local_list cr self fault w fs =
     (let dir = wallet_dir cr self w in
      case fault of
        Some e \<Rightarrow> Err (Io e)
      | None \<Rightarrow>
          if dir \<notin> set (fs_dirs fs) then Ok []
          else
            let entries = filter (\<lambda>p. p \<noteq> [] \<and> butlast p = dir) (map fst (fs_files fs));
                indices = remdups (List.map_filter parse_share_filename entries) in
            Ok (sort_key sid_index (map (\<lambda>i. \<lparr>sid_wallet_id = w, sid_index = i\<rparr>) indices)))"

subsection \<open>Sealing and paths\<close>

lemma open_envelope_frame:
  "length nonce = 24 \<Longrightarrow> open_envelope (FILE_MAGIC @ nonce @ ct) = Ok (nonce, ct)"
  by (simp add: open_envelope_def FILE_MAGIC_def NONCE_BYTES_def numeral_eq_Suc)

lemma open_seal:
  assumes "store_crates_spec cr"
  shows "\<exists>c. seal cr self rng p = Ok c \<and> open_sealed cr self c = Ok p"
proof -
  obtain ct where ct: "st_encrypt cr (lfs_key self) (fill_bytes rng 24) p = Some ct"
      "st_decrypt cr (lfs_key self) (fill_bytes rng 24) ct = Some p"
    using assms unfolding store_crates_spec_def by blast
  have "seal cr self rng p = Ok (FILE_MAGIC @ fill_bytes rng 24 @ ct)"
    by (simp add: seal_def NONCE_BYTES_def ct(1))
  moreover have "open_sealed cr self (FILE_MAGIC @ fill_bytes rng 24 @ ct) = Ok p"
    by (simp add: open_sealed_def open_envelope_frame ct(2))
  ultimately show ?thesis by blast
qed

definition tmp_path :: "store_crates \<Rightarrow> local_fs_store \<Rightarrow> share_id \<Rightarrow> path" where
  "tmp_path cr self sid =
     wallet_dir cr self (sid_wallet_id sid) @ [show_nat (unat (sid_index sid)) @ ''.bin.tmp'']"

lemma file_stem_bin: "s \<noteq> [] \<Longrightarrow> file_stem (s @ ''.bin'') = s"
  by (simp add: file_stem_def)

lemma with_extension_share_path: "with_extension ''bin.tmp'' (share_path cr self sid) = tmp_path cr self sid"
  by (simp add: with_extension_def share_path_def tmp_path_def file_stem_bin wallet_dir_def)

lemma share_path_inject:
  assumes "ulid_text (st_ulid_str cr)"
  shows "share_path cr self a = share_path cr self b \<longleftrightarrow> a = b"
proof
  assume "share_path cr self a = share_path cr self b"
  then have "st_ulid_str cr (wallet_ulid (sid_wallet_id a)) = st_ulid_str cr (wallet_ulid (sid_wallet_id b))"
      "unat (sid_index a) = unat (sid_index b)"
    by (simp_all add: share_path_def wallet_dir_def)
  with assms show "a = b"
    by (intro share_id.equality) (simp_all add: ulid_text_inject wallet_id.expand unsigned_word_eqI_iff)
qed simp

lemma tmp_not_share_path [simp]: "tmp_path cr self a \<noteq> share_path cr self b"
proof
  assume "tmp_path cr self a = share_path cr self b"
  then have "last (last (tmp_path cr self a)) = last (last (share_path cr self b))" by simp
  then show False by (simp add: tmp_path_def share_path_def)
qed

lemma butlast_paths [simp]:
  "butlast (share_path cr self sid) = wallet_dir cr self (sid_wallet_id sid)"
  "butlast (tmp_path cr self sid) = wallet_dir cr self (sid_wallet_id sid)"
  by (simp_all add: share_path_def tmp_path_def butlast_append)

lemma wallet_dir_inject:
  "ulid_text (st_ulid_str cr) \<Longrightarrow> wallet_dir cr self a = wallet_dir cr self b \<longleftrightarrow> a = b"
  by (auto simp: wallet_dir_def ulid_text_inject intro: wallet_id.expand)

lemma paths_not_Nil [simp]: "share_path cr self sid \<noteq> []" "tmp_path cr self sid \<noteq> []"
  by (simp_all add: share_path_def tmp_path_def)

lemma parse_share_path: "parse_share_filename (share_path cr self sid) = Some (sid_index sid)"
  using unat_lt [of "sid_index sid"] by (simp add: parse_share_filename_def share_path_def)

lemma parse_tmp_path: "parse_share_filename (tmp_path cr self sid) = None"
proof -
  have "drop (length (s @ ''.bin.tmp'') - 4) (s @ ''.bin.tmp'') = ''.tmp''" for s :: string by simp
  then show ?thesis by (simp add: parse_share_filename_def tmp_path_def)
qed

subsection \<open>The store invariant\<close>

text \<open>Every file is a share under its own name, in a directory that exists, or a temporary file.\<close>

definition decode_share :: "store_crates \<Rightarrow> local_fs_store \<Rightarrow> bytes \<Rightarrow> stored_share option" where
  "decode_share cr self raw =
     Option.bind (ok_opt (open_sealed cr self raw)) (st_share_from_json cr)"

definition lfs_inv :: "store_crates \<Rightarrow> local_fs_store \<Rightarrow> fs \<Rightarrow> bool" where
  "lfs_inv cr self fs \<longleftrightarrow>
     (\<forall>p raw. map_of (fs_files fs) p = Some raw \<longrightarrow>
        (\<exists>sid sh. p = share_path cr self sid \<and> decode_share cr self raw = Some sh \<and> sto_share_id sh = sid \<and>
           wallet_dir cr self (sid_wallet_id sid) \<in> set (fs_dirs fs)) \<or>
        (\<exists>sid. p = tmp_path cr self sid))"

definition lfs_lookup :: "store_crates \<Rightarrow> local_fs_store \<Rightarrow> fs \<Rightarrow> share_id \<Rightarrow> stored_share option" where
  "lfs_lookup cr self fs sid =
     Option.bind (map_of (fs_files fs) (share_path cr self sid)) (decode_share cr self)"

lemma lfs_inv_share:
  assumes "lfs_inv cr self fs" "ulid_text (st_ulid_str cr)" "map_of (fs_files fs) (share_path cr self sid) = Some raw"
  shows "\<exists>sh. decode_share cr self raw = Some sh \<and> sto_share_id sh = sid \<and>
    wallet_dir cr self (sid_wallet_id sid) \<in> set (fs_dirs fs)"
  using assms unfolding lfs_inv_def
  by (metis share_path_inject tmp_not_share_path)

lemma local_get_lookup:
  assumes "lfs_inv cr self fs" "ulid_text (st_ulid_str cr)"
  shows "local_get cr self None sid fs = ok_or (lfs_lookup cr self fs sid) (NotFound sid)"
proof (cases "map_of (fs_files fs) (share_path cr self sid)")
  case None
  then show ?thesis by (simp add: local_get_def lfs_lookup_def)
next
  case (Some raw)
  from lfs_inv_share [OF assms Some] obtain sh where sh: "decode_share cr self raw = Some sh" "sto_share_id sh = sid"
    by blast
  then obtain b where "open_sealed cr self raw = Ok b" "st_share_from_json cr b = Some sh"
    by (auto simp: decode_share_def bind_eq_Some_conv outcome_simps)
  with Some sh show ?thesis by (simp add: local_get_def lfs_lookup_def)
qed

lemma fs_files_simps [simp]:
  "map_of (fs_files (fs_write p b fs)) = (map_of (fs_files fs))(p \<mapsto> b)"
  "map_of (fs_files (fs_remove p fs)) = (map_of (fs_files fs))(p := None)"
  "fs_files (fs_create_dir_all d fs) = fs_files fs"
  "fs_dirs (fs_write p b fs) = fs_dirs fs" "fs_dirs (fs_remove p fs) = fs_dirs fs"
  "set (fs_dirs (fs_create_dir_all d fs)) = insert d (set (fs_dirs fs))"
  by (simp_all add: fs_write_def fs_remove_def fs_create_dir_all_def update_conv' delete_conv')

text \<open>Writing a temporary file, creating a directory and removing a share keep the invariant.\<close>

lemma lfs_inv_tmp: "lfs_inv cr self fs \<Longrightarrow> lfs_inv cr self (fs_write (tmp_path cr self sid) b fs)"
  unfolding lfs_inv_def by (auto split: if_splits)

lemma lfs_inv_dir: "lfs_inv cr self fs \<Longrightarrow> lfs_inv cr self (fs_create_dir_all d fs)"
  unfolding lfs_inv_def by simp blast

lemma lfs_inv_remove: "lfs_inv cr self fs \<Longrightarrow> lfs_inv cr self (fs_remove p fs)"
  unfolding lfs_inv_def by (auto split: if_splits)

lemma lfs_inv_share_write:
  assumes "lfs_inv cr self fs" "decode_share cr self b = Some sh"
    "wallet_dir cr self (sid_wallet_id (sto_share_id sh)) \<in> set (fs_dirs fs)"
  shows "lfs_inv cr self (fs_write (share_path cr self (sto_share_id sh)) b fs)"
  using assms unfolding lfs_inv_def by (auto split: if_splits)

lemma lookup_tmp [simp]: "lfs_lookup cr self (fs_write (tmp_path cr self sid) b fs) = lfs_lookup cr self fs"
  by (rule ext) (simp add: lfs_lookup_def tmp_not_share_path [symmetric])

lemma lookup_dir [simp]: "lfs_lookup cr self (fs_create_dir_all d fs) = lfs_lookup cr self fs"
  by (rule ext) (simp add: lfs_lookup_def)

text \<open>The rename at the end of a write.\<close>

lemma rename_tmp:
  assumes "ulid_text (st_ulid_str cr)" "lfs_inv cr self fs" "decode_share cr self b = Some sh"
    "wallet_dir cr self (sid_wallet_id (sto_share_id sh)) \<in> set (fs_dirs fs)"
  defines "sid \<equiv> sto_share_id sh"
  defines "fs' \<equiv> fs_rename (tmp_path cr self sid) (share_path cr self sid) (fs_write (tmp_path cr self sid) b fs)"
  shows "lfs_inv cr self fs' \<and> lfs_lookup cr self fs' = (lfs_lookup cr self fs)(sid \<mapsto> sh)"
proof -
  let ?fs1 = "fs_remove (tmp_path cr self sid) (fs_write (tmp_path cr self sid) b fs)"
  have fs': "fs' = fs_write (share_path cr self sid) b ?fs1" by (simp add: fs'_def fs_rename_def)
  have "lfs_inv cr self ?fs1" using assms(2) by (intro lfs_inv_remove lfs_inv_tmp)
  with assms(3,4) have "lfs_inv cr self fs'" unfolding fs' sid_def by (intro lfs_inv_share_write) simp_all
  moreover have "lfs_lookup cr self fs' = (lfs_lookup cr self fs)(sid \<mapsto> sh)"
    using assms(3) by (intro ext) (auto simp: fs' lfs_lookup_def share_path_inject [OF assms(1)]
        tmp_not_share_path [symmetric])
  ultimately show ?thesis ..
qed

text \<open>A write, whatever fault it meets: on success the share is stored, on an error nothing changed.\<close>

lemma local_put_atomic:
  assumes "store_crates_spec cr" "lfs_inv cr self fs" "local_put cr self fault rng sh fs = (res, fs')"
  shows "lfs_inv cr self fs' \<and>
    (if fault = None then res = Ok () \<and> lfs_lookup cr self fs' = (lfs_lookup cr self fs)(sto_share_id sh \<mapsto> sh)
     else (\<exists>e. res = Err (Io e)) \<and> lfs_lookup cr self fs' = lfs_lookup cr self fs)"
proof -
  let ?d = "wallet_dir cr self (sid_wallet_id (sto_share_id sh))"
  let ?fs1 = "fs_create_dir_all ?d fs"
  obtain j where j: "st_share_json cr sh = Some j" "st_share_from_json cr j = Some sh"
    using assms(1) unfolding store_crates_spec_def by blast
  obtain c where c: "seal cr self rng j = Ok c" "open_sealed cr self c = Ok j"
    using open_seal [OF assms(1)] by blast
  have dec: "decode_share cr self c = Some sh" by (simp add: decode_share_def c(2) j(2))
  have u: "ulid_text (st_ulid_str cr)" using assms(1) by (simp add: store_crates_spec_def)
  have inv1: "lfs_inv cr self ?fs1" using assms(2) by (rule lfs_inv_dir)
  have ren: "lfs_inv cr self (fs_rename (tmp_path cr self (sto_share_id sh)) (share_path cr self (sto_share_id sh))
        (fs_write (tmp_path cr self (sto_share_id sh)) c ?fs1)) \<and>
      lfs_lookup cr self (fs_rename (tmp_path cr self (sto_share_id sh)) (share_path cr self (sto_share_id sh))
        (fs_write (tmp_path cr self (sto_share_id sh)) c ?fs1)) = (lfs_lookup cr self fs)(sto_share_id sh \<mapsto> sh)"
    using rename_tmp [OF u inv1 dec] by simp
  from assms(3) show ?thesis
    using j c ren inv1 assms(2)
    by (auto simp: local_put_def Let_def write_share_file_def with_extension_share_path
        intro: lfs_inv_tmp split: option.splits prod.splits io_step.splits)
qed

lemma local_delete_lookup:
  assumes "ulid_text (st_ulid_str cr)" "lfs_inv cr self fs"
  shows "\<exists>fs'. local_delete cr self None sid fs = (Ok (), fs') \<and> lfs_inv cr self fs' \<and>
    lfs_lookup cr self fs' = (lfs_lookup cr self fs)(sid := None)"
  using lfs_inv_remove [OF assms(2)]
  by (auto simp: local_delete_def lfs_lookup_def fun_eq_iff share_path_inject [OF assms(1)])

lemma lookup_not_None:
  assumes "ulid_text (st_ulid_str cr)" "lfs_inv cr self fs"
  shows "lfs_lookup cr self fs sid \<noteq> None \<longleftrightarrow> share_path cr self sid \<in> set (map fst (fs_files fs))"
proof (cases "map_of (fs_files fs) (share_path cr self sid)")
  case None
  then have "share_path cr self sid \<notin> set (map fst (fs_files fs))" by (simp add: map_of_eq_None_iff)
  then show ?thesis unfolding lfs_lookup_def None by simp
next
  case (Some raw)
  moreover from lfs_inv_share [OF assms(2,1) Some] have "decode_share cr self raw \<noteq> None" by auto
  ultimately show ?thesis by (auto simp: lfs_lookup_def dest: map_of_SomeD intro!: image_eqI [rotated])
qed

lemma set_map_filter: "set (List.map_filter f xs) = {y. \<exists>x \<in> set xs. f x = Some y}"
  by (force simp: List.map_filter_def)

lemma listed_indices:
  assumes "ulid_text (st_ulid_str cr)" "lfs_inv cr self fs"
  shows "set (List.map_filter parse_share_filename
      (filter (\<lambda>p. p \<noteq> [] \<and> butlast p = wallet_dir cr self w) (map fst (fs_files fs)))) =
    {i. lfs_lookup cr self fs \<lparr>sid_wallet_id = w, sid_index = i\<rparr> \<noteq> None}" (is "?L = ?R")
proof
  show "?L \<subseteq> ?R"
  proof
    fix i assume "i \<in> ?L"
    then obtain p where p: "p \<in> set (map fst (fs_files fs))" "butlast p = wallet_dir cr self w"
        "parse_share_filename p = Some i"
      by (auto simp: set_map_filter)
    then obtain raw where raw: "map_of (fs_files fs) p = Some raw" by (metis map_of_eq_None_iff not_None_eq list.set_map)
    have "p = share_path cr self \<lparr>sid_wallet_id = w, sid_index = i\<rparr>"
      using assms(2) raw p(2,3) wallet_dir_inject [OF assms(1)] parse_share_path [of cr self] parse_tmp_path [of cr self]
      unfolding lfs_inv_def
      by (metis butlast_paths(1) option.distinct(1) option.inject share_id.surjective unit.exhaust)
    with p(1) show "i \<in> ?R" using lookup_not_None [OF assms] by simp
  qed
  show "?R \<subseteq> ?L"
  proof
    fix i assume "i \<in> ?R"
    then have "share_path cr self \<lparr>sid_wallet_id = w, sid_index = i\<rparr> \<in> set (map fst (fs_files fs))"
      using lookup_not_None [OF assms] by blast
    then show "i \<in> ?L" using parse_share_path [of cr self "\<lparr>sid_wallet_id = w, sid_index = i\<rparr>"]
      by (force simp: set_map_filter)
  qed
qed

lemma no_dir_no_share:
  assumes "ulid_text (st_ulid_str cr)" "lfs_inv cr self fs" "wallet_dir cr self w \<notin> set (fs_dirs fs)"
    "sid_wallet_id sid = w"
  shows "lfs_lookup cr self fs sid = None"
  using lfs_inv_share [OF assms(2,1)] assms(3,4) by (cases "map_of (fs_files fs) (share_path cr self sid)") (auto simp: lfs_lookup_def)

lemma local_list_lookup:
  assumes "ulid_text (st_ulid_str cr)" "lfs_inv cr self fs"
  shows "\<exists>ids. local_list cr self None w fs = Ok ids \<and> sorted_wrt (\<lambda>a b. sid_index a < sid_index b) ids \<and>
    set ids = {sid. sid_wallet_id sid = w \<and> lfs_lookup cr self fs sid \<noteq> None}"
proof (cases "wallet_dir cr self w \<in> set (fs_dirs fs)")
  case False
  then show ?thesis using no_dir_no_share [OF assms False] by (auto simp: local_list_def)
next
  case True
  let ?idx = "remdups (List.map_filter parse_share_filename
      (filter (\<lambda>p. p \<noteq> [] \<and> butlast p = wallet_dir cr self w) (map fst (fs_files fs))))"
  let ?ids = "map (\<lambda>i. \<lparr>sid_wallet_id = w, sid_index = i\<rparr>) ?idx"
  have "sorted_wrt (\<lambda>a b. sid_index a < sid_index b) (sort_key sid_index ?ids)"
    by (rule sorted_ids_strict [where w = w]) (auto simp: distinct_map inj_on_def)
  moreover have "set (sort_key sid_index ?ids) = {sid. sid_wallet_id sid = w \<and> lfs_lookup cr self fs sid \<noteq> None}"
  proof -
    have "set ?ids = (\<lambda>i. \<lparr>sid_wallet_id = w, sid_index = i\<rparr>) `
        {i. lfs_lookup cr self fs \<lparr>sid_wallet_id = w, sid_index = i\<rparr> \<noteq> None}"
      unfolding set_map set_remdups listed_indices [OF assms] ..
    also have "\<dots> = {sid. sid_wallet_id sid = w \<and> lfs_lookup cr self fs sid \<noteq> None}"
      by (auto simp: image_iff) (metis share_id.surjective unit.exhaust)
    finally show ?thesis unfolding set_sort .
  qed
  ultimately show ?thesis using True unfolding local_list_def Let_def by auto
qed

subsection \<open>The contract\<close>

text \<open>With crates that behave as documented, the file store is a share store.\<close>

locale local_fs_env =
  fixes cr :: store_crates and self :: local_fs_store
  assumes crates: "store_crates_spec cr"
begin

lemma ulids: "ulid_text (st_ulid_str cr)"
  using crates by (simp add: store_crates_spec_def)

end

sublocale local_fs_env \<subseteq> share_store "lfs_inv cr self" "lfs_lookup cr self" "local_put cr self None"
    "local_get cr self None" "local_delete cr self None" "local_list cr self None"
proof
  fix s e sh
  assume "lfs_inv cr self s"
  then show "\<exists>s'. local_put cr self None e sh s = (Ok (), s') \<and> lfs_inv cr self s' \<and>
      lfs_lookup cr self s' = (lfs_lookup cr self s)(sto_share_id sh \<mapsto> sh)"
    using local_put_atomic [OF crates, of self s None e sh]
    by (cases "local_put cr self None e sh s") auto
next
  fix s sid
  assume "lfs_inv cr self s"
  then show "local_get cr self None sid s = ok_or (lfs_lookup cr self s sid) (NotFound sid)"
    using local_get_lookup ulids by blast
next
  fix s sid
  assume "lfs_inv cr self s"
  then show "\<exists>s'. local_delete cr self None sid s = (Ok (), s') \<and> lfs_inv cr self s' \<and>
      lfs_lookup cr self s' = (lfs_lookup cr self s)(sid := None)"
    using local_delete_lookup ulids by blast
next
  fix s w
  assume "lfs_inv cr self s"
  then show "\<exists>ids. local_list cr self None w s = Ok ids \<and> sorted_wrt (\<lambda>a b. sid_index a < sid_index b) ids \<and>
      set ids = {sid. sid_wallet_id sid = w \<and> lfs_lookup cr self s sid \<noteq> None}"
    using local_list_lookup ulids by blast
qed

interpretation local_ref: local_fs_env ref_store_crates self for self
  by unfold_locales (rule ref_store_crates_spec)

context local_fs_env
begin

lemma store_then_delete:
  assumes "lfs_inv cr self fs" "distinct (map (sto_share_id \<circ> snd) xs)" "x \<in> set xs"
  shows "\<exists>fs1 fs2. put_all (local_put cr self None) xs fs = (Ok (), fs1) \<and>
    local_get cr self None (sto_share_id (snd x)) fs1 = Ok (snd x) \<and>
    local_delete cr self None (sto_share_id (snd x)) fs1 = (Ok (), fs2) \<and>
    local_get cr self None (sto_share_id (snd x)) fs2 = Err (NotFound (sto_share_id (snd x))) \<and>
    (\<forall>sid. sid \<noteq> sto_share_id (snd x) \<longrightarrow> local_get cr self None sid fs2 = local_get cr self None sid fs1)"
  using get_after_put_all [OF assms] delete_frees by meson

end

lemma lfs_inv_empty: "lfs_inv cr self fs_empty"
  by (simp add: lfs_inv_def fs_empty_def)

subsection \<open>Properties\<close>

text \<open>C40. A write to the file store is atomic: if any step of it fails (creating the directory or the
  temporary file, writing, flushing, syncing, renaming), it reports the I/O error and every share
  reads back as before; if none fails, the share reads back and all others are as before.\<close>

theorem local_put_all_or_nothing:
  assumes "store_crates_spec cr" "lfs_inv cr self fs" "local_put cr self fault rng sh fs = (res, fs')"
  shows "lfs_inv cr self fs' \<and>
    (fault = None \<longrightarrow> res = Ok () \<and> local_get cr self None (sto_share_id sh) fs' = Ok sh) \<and>
    (fault \<noteq> None \<longrightarrow> (\<exists>e. res = Err (Io e)) \<and>
       local_get cr self None (sto_share_id sh) fs' = local_get cr self None (sto_share_id sh) fs) \<and>
    (\<forall>sid. sid \<noteq> sto_share_id sh \<longrightarrow> local_get cr self None sid fs' = local_get cr self None sid fs)"
proof -
  have u: "ulid_text (st_ulid_str cr)" using assms(1) by (simp add: store_crates_spec_def)
  note a = local_put_atomic [OF assms]
  then have inv': "lfs_inv cr self fs'" by blast
  note g = local_get_lookup [OF assms(2) u] local_get_lookup [OF inv' u]
  from a inv' show ?thesis by (cases fault) (simp_all add: g)
qed

definition demo_share :: stored_share where
  "demo_share = \<lparr>sto_share_id = \<lparr>sid_wallet_id = WalletId 5, sid_index = 1\<rparr>, sto_created_at_unix_ms = 3,
     sto_share = \<lparr>ss_index = 1, ss_params = \<lparr>sp_threshold = 2, sp_total = 3\<rparr>, ss_blob = [0, 0, 0, 0]\<rparr>\<rparr>"

theorem local_put_all_or_nothing_witness:
  "\<exists>res fs'. local_put ref_store_crates \<lparr>lfs_root = ''shares'', lfs_key = []\<rparr> (Some (WriteAll 3, ''disk full''))
       (\<lambda>_. 0) demo_share fs_empty = (res, fs') \<and> (\<exists>e. res = Err (Io e)) \<and>
     local_get ref_store_crates \<lparr>lfs_root = ''shares'', lfs_key = []\<rparr> None (sto_share_id demo_share) fs' =
     local_get ref_store_crates \<lparr>lfs_root = ''shares'', lfs_key = []\<rparr> None (sto_share_id demo_share) fs_empty"
proof -
  obtain res fs' where "local_put ref_store_crates \<lparr>lfs_root = ''shares'', lfs_key = []\<rparr>
      (Some (WriteAll 3, ''disk full'')) (\<lambda>_. 0) demo_share fs_empty = (res, fs')" by fastforce
  from local_put_all_or_nothing [OF ref_store_crates_spec lfs_inv_empty this] this show ?thesis by blast
qed

text \<open>C19. Storing the shares of a wallet and reading them back: after storing shares with distinct
  identifiers on a disk that works, every one of them reads back unchanged, and deleting one makes
  exactly that one disappear.\<close>

theorem local_store_round_trip:
  assumes "store_crates_spec cr" "lfs_inv cr self fs" "distinct (map (sto_share_id \<circ> snd) xs)" "x \<in> set xs"
  shows "\<exists>fs1 fs2. put_all (local_put cr self None) xs fs = (Ok (), fs1) \<and>
    local_get cr self None (sto_share_id (snd x)) fs1 = Ok (snd x) \<and>
    local_delete cr self None (sto_share_id (snd x)) fs1 = (Ok (), fs2) \<and>
    local_get cr self None (sto_share_id (snd x)) fs2 = Err (NotFound (sto_share_id (snd x))) \<and>
    (\<forall>sid. sid \<noteq> sto_share_id (snd x) \<longrightarrow> local_get cr self None sid fs2 = local_get cr self None sid fs1)"
proof -
  from assms(1) have env: "local_fs_env cr" by (rule local_fs_env.intro)
  show ?thesis by (rule local_fs_env.store_then_delete [OF env assms(2-4)])
qed

theorem local_store_round_trip_witness:
  "\<exists>fs1 fs2. put_all (local_put ref_store_crates \<lparr>lfs_root = ''shares'', lfs_key = []\<rparr> None)
      [(\<lambda>_. 0, demo_share)] fs_empty = (Ok (), fs1) \<and>
    local_get ref_store_crates \<lparr>lfs_root = ''shares'', lfs_key = []\<rparr> None (sto_share_id demo_share) fs1 = Ok demo_share \<and>
    local_delete ref_store_crates \<lparr>lfs_root = ''shares'', lfs_key = []\<rparr> None (sto_share_id demo_share) fs1 = (Ok (), fs2) \<and>
    local_get ref_store_crates \<lparr>lfs_root = ''shares'', lfs_key = []\<rparr> None (sto_share_id demo_share) fs2 =
      Err (NotFound (sto_share_id demo_share))"
  using local_store_round_trip [OF ref_store_crates_spec lfs_inv_empty, of "[(\<lambda>_. 0, demo_share)]" "(\<lambda>_. 0, demo_share)"
      "\<lparr>lfs_root = ''shares'', lfs_key = []\<rparr>"] by auto

end
