(* ===== verification/S3_Kms_Store.thy ===== *)
theory S3_Kms_Store
  imports Share_Stores
begin

text \<open>
  The envelope-encrypting store, \<open>qfc-sss/src/stores/s3_kms.rs\<close>, over its in-memory object store
  and key service: each share is encrypted under a fresh data key, and the wrapped data key is
  stored beside the ciphertext. The key service unwraps a key only for an attestation document its
  predicate accepts.
\<close>

subsection \<open>Backends\<close>

record data_key_material =
  dk_plaintext :: bytes
  dk_wrapped :: bytes

record s3_envelope =
  env_wrapped_dek :: bytes
  env_nonce :: bytes
  env_ciphertext :: bytes
  env_pcr_label :: string

record s3_crates = store_crates +
  s3_env_json :: "s3_envelope \<Rightarrow> bytes option"
  s3_env_from_json :: "bytes \<Rightarrow> s3_envelope option"

record s3_world =
  w_objects :: "(string \<times> bytes) list"
  w_keys :: "(bytes \<times> bytes) list"

definition put_object :: "string \<Rightarrow> bytes \<Rightarrow> s3_world \<Rightarrow> (store_error, unit) outcome \<times> s3_world" where
  "put_object key body w = (Ok (), w\<lparr>w_objects := AList.update key body (w_objects w)\<rparr>)"

definition get_object :: "string \<Rightarrow> s3_world \<Rightarrow> (store_error, bytes) outcome" where
  "get_object key w = ok_or (map_of (w_objects w) key)
     (NotFound \<lparr>sid_wallet_id = WalletId 0, sid_index = 0\<rparr>)"

definition delete_object :: "string \<Rightarrow> s3_world \<Rightarrow> (store_error, unit) outcome \<times> s3_world" where
  "delete_object key w = (Ok (), w\<lparr>w_objects := AList.delete key (w_objects w)\<rparr>)"

definition list_objects :: "string \<Rightarrow> s3_world \<Rightarrow> (store_error, string list) outcome" where
  "list_objects prefix w = Ok (filter (\<lambda>k. take (length prefix) k = prefix) (map fst (w_objects w)))"

definition generate_data_key :: "(nat \<Rightarrow> u8) \<Rightarrow> (nat \<Rightarrow> u8) \<Rightarrow> s3_world \<Rightarrow> (store_error, data_key_material) outcome \<times> s3_world" where
  "generate_data_key rng rng' w =
     (let plaintext = fill_bytes rng 32; wrapped = fill_bytes rng' 32 in
      (Ok \<lparr>dk_plaintext = plaintext, dk_wrapped = wrapped\<rparr>,
       w\<lparr>w_keys := AList.update wrapped plaintext (w_keys w)\<rparr>))"

definition default_predicate :: "bytes \<Rightarrow> bool" where
  "default_predicate att \<longleftrightarrow> att \<noteq> []"

definition decrypt_data_key :: "(bytes \<Rightarrow> bool) \<Rightarrow> bytes \<Rightarrow> bytes \<Rightarrow> s3_world \<Rightarrow> (store_error, bytes) outcome" where
  "decrypt_data_key predicate wrapped attestation w =
     (if \<not> predicate attestation
      then Err (Crypto ''KMS decrypt refused: attestation predicate failed'')
      else ok_or (map_of (w_keys w) wrapped) (Crypto ''KMS: unknown wrapped DEK''))"

subsection \<open>The store\<close>

record s3_store =
  s3_bucket_prefix :: string
  s3_attestation :: bytes
  s3_pcr_label :: string

definition trim_end_slashes :: "string \<Rightarrow> string" where
  "trim_end_slashes s = rev (dropWhile (\<lambda>c. c = CHR ''/'') (rev s))"

definition wallet_prefix :: "('a store_crates_scheme) \<Rightarrow> s3_store \<Rightarrow> wallet_id \<Rightarrow> string" where
  "wallet_prefix cr self w =
     (if s3_bucket_prefix self = [] then st_ulid_str cr (wallet_ulid w) @ ''/''
      else trim_end_slashes (s3_bucket_prefix self) @ ''/'' @ st_ulid_str cr (wallet_ulid w) @ ''/'')"

definition object_key :: "('a store_crates_scheme) \<Rightarrow> s3_store \<Rightarrow> share_id \<Rightarrow> string" where
  "object_key cr self sid =
     (if s3_bucket_prefix self = []
      then st_ulid_str cr (wallet_ulid (sid_wallet_id sid)) @ ''/'' @ show_nat (unat (sid_index sid))
      else trim_end_slashes (s3_bucket_prefix self) @ ''/'' @ st_ulid_str cr (wallet_ulid (sid_wallet_id sid)) @
        ''/'' @ show_nat (unat (sid_index sid)))"

text \<open>\<open>put\<close> draws the data key, its wrapped form and the nonce.\<close>

definition s3_put :: "s3_crates \<Rightarrow> s3_store \<Rightarrow> (nat \<Rightarrow> u8) \<times> (nat \<Rightarrow> u8) \<times> (nat \<Rightarrow> u8) \<Rightarrow> stored_share \<Rightarrow>
   s3_world \<Rightarrow> (store_error, unit) outcome \<times> s3_world" where
  "s3_put cr self rngs share w =
     (case rngs of (rk, rw, rn) \<Rightarrow>
      case generate_data_key rk rw w of
        (Ok dek, w) \<Rightarrow>
          let nonce_bytes = fill_bytes rn 24 in
          (case obind (ok_or (st_share_json cr share) (Serde ''serialize share'')) (\<lambda>plaintext.
                obind (ok_or (st_encrypt cr (dk_plaintext dek) nonce_bytes plaintext)
                        (Crypto ''AEAD encrypt failed'')) (\<lambda>ciphertext.
                ok_or (s3_env_json cr \<lparr>env_wrapped_dek = dk_wrapped dek, env_nonce = nonce_bytes,
                         env_ciphertext = ciphertext, env_pcr_label = s3_pcr_label self\<rparr>)
                  (Serde ''serialize envelope''))) of
             Ok body \<Rightarrow> put_object (object_key cr self (sto_share_id share)) body w
           | Err e \<Rightarrow> (Err e, w)
           | Panic m \<Rightarrow> (Panic m, w))
      | (Err e, w) \<Rightarrow> (Err e, w)
      | (Panic m, w) \<Rightarrow> (Panic m, w))"

definition s3_get :: "s3_crates \<Rightarrow> (bytes \<Rightarrow> bool) \<Rightarrow> s3_store \<Rightarrow> share_id \<Rightarrow> s3_world \<Rightarrow> (store_error, stored_share) outcome" where
  "s3_get cr predicate self sid w =
     obind (get_object (object_key cr self sid) w) (\<lambda>body.
     obind (ok_or (s3_env_from_json cr body) (Serde ''parse envelope'')) (\<lambda>envelope.
     obind (decrypt_data_key predicate (env_wrapped_dek envelope) (s3_attestation self) w) (\<lambda>dek_plaintext.
     obind (fail_if (length dek_plaintext \<noteq> 32) (Crypto ''DEK length != 32'')) (\<lambda>_.
     obind (ok_or (st_decrypt cr dek_plaintext (env_nonce envelope) (env_ciphertext envelope))
              (Crypto ''AEAD decrypt failed'')) (\<lambda>plaintext.
     ok_or (st_share_from_json cr plaintext) (Serde ''parse share''))))))"

definition s3_delete :: "s3_crates \<Rightarrow> s3_store \<Rightarrow> share_id \<Rightarrow> s3_world \<Rightarrow> (store_error, unit) outcome \<times> s3_world" where
  "s3_delete cr self sid w = delete_object (object_key cr self sid) w"

definition key_index :: "string \<Rightarrow> u8 option" where
  "key_index k = map_option word_of_nat (parse_uint 8 (last (split_on (CHR ''/'') k)))"

definition s3_list :: "s3_crates \<Rightarrow> s3_store \<Rightarrow> wallet_id \<Rightarrow> s3_world \<Rightarrow> (store_error, share_id list) outcome" where
  "s3_list cr self wid w =
     obind (list_objects (wallet_prefix cr self wid) w) (\<lambda>keys.
     Ok (sort_key sid_index (List.map_filter (\<lambda>k. map_option (\<lambda>i. \<lparr>sid_wallet_id = wid, sid_index = i\<rparr>) (key_index k)) keys)))"

subsection \<open>Keys, laws and an instance\<close>

definition s3_crates_spec :: "s3_crates \<Rightarrow> bool" where
  "s3_crates_spec cr \<longleftrightarrow> store_crates_spec (store_crates.truncate cr) \<and>
     (\<forall>e. length (env_nonce e) = 24 \<longrightarrow>
       (\<exists>b. s3_env_json cr e = Some b \<and> s3_env_from_json cr b = Some e))"

lemma object_key_inject:
  assumes "ulid_text (st_ulid_str cr)"
  shows "object_key cr self a = object_key cr self b \<longleftrightarrow> a = b"
proof
  assume "object_key cr self a = object_key cr self b"
  then have "st_ulid_str cr (wallet_ulid (sid_wallet_id a)) @ ''/'' @ show_nat (unat (sid_index a)) =
      st_ulid_str cr (wallet_ulid (sid_wallet_id b)) @ ''/'' @ show_nat (unat (sid_index b))"
    by (simp add: object_key_def split: if_splits)
  then have "st_ulid_str cr (wallet_ulid (sid_wallet_id a)) = st_ulid_str cr (wallet_ulid (sid_wallet_id b))"
      "unat (sid_index a) = unat (sid_index b)"
    using assms by (simp_all add: append_eq_append_conv ulid_text_length)
  with assms show "a = b"
    by (intro share_id.equality) (simp_all add: ulid_text_inject wallet_id.expand unsigned_word_eqI_iff)
qed simp

lemma s3_spec_dests:
  assumes "s3_crates_spec cr"
  shows "\<exists>b. st_share_json cr sh = Some b \<and> st_share_from_json cr b = Some sh"
    and "\<exists>c. st_encrypt cr k n p = Some c \<and> st_decrypt cr k n c = Some p"
    and "length (env_nonce e) = 24 \<Longrightarrow> \<exists>b. s3_env_json cr e = Some b \<and> s3_env_from_json cr b = Some e"
    and "ulid_text (st_ulid_str cr)"
  using assms by (simp_all add: s3_crates_spec_def store_crates_spec_def store_crates.truncate_def)

text \<open>What a write leaves in the world.\<close>

lemma s3_put_Ok:
  assumes "s3_crates_spec cr"
  shows "\<exists>e c b j. s3_put cr self (rk, rw, rn) sh w =
      (Ok (), \<lparr>w_objects = AList.update (object_key cr self (sto_share_id sh)) b (w_objects w),
               w_keys = AList.update (fill_bytes rw 32) (fill_bytes rk 32) (w_keys w)\<rparr>) \<and>
    s3_env_from_json cr b = Some e \<and> env_wrapped_dek e = fill_bytes rw 32 \<and>
    env_ciphertext e = c \<and> st_decrypt cr (fill_bytes rk 32) (env_nonce e) c = Some j \<and>
    st_share_from_json cr j = Some sh"
proof -
  obtain j where j: "st_share_json cr sh = Some j" "st_share_from_json cr j = Some sh"
    using s3_spec_dests(1) [OF assms] by blast
  obtain c where c: "st_encrypt cr (fill_bytes rk 32) (fill_bytes rn 24) j = Some c"
      "st_decrypt cr (fill_bytes rk 32) (fill_bytes rn 24) c = Some j"
    using s3_spec_dests(2) [OF assms] by blast
  define e where "e = \<lparr>env_wrapped_dek = fill_bytes rw 32, env_nonce = fill_bytes rn 24,
    env_ciphertext = c, env_pcr_label = s3_pcr_label self\<rparr>"
  obtain b where b: "s3_env_json cr e = Some b" "s3_env_from_json cr b = Some e"
    using s3_spec_dests(3) [OF assms, of e] by (auto simp: e_def)
  have "s3_put cr self (rk, rw, rn) sh w =
      (Ok (), \<lparr>w_objects = AList.update (object_key cr self (sto_share_id sh)) b (w_objects w),
               w_keys = AList.update (fill_bytes rw 32) (fill_bytes rk 32) (w_keys w)\<rparr>)"
    using j(1) c(1) b(1) by (simp add: s3_put_def generate_data_key_def put_object_def Let_def e_def)
  with b(2) c(2) j(2) show ?thesis by (intro exI [of _ e] exI [of _ c] exI [of _ b] exI [of _ j]) (simp add: e_def)
qed

text \<open>An instance: a list of fields with their lengths in unary.\<close>

definition unary :: "nat \<Rightarrow> bytes" where "unary n = replicate n 1 @ [0]"

definition frame :: "bytes \<Rightarrow> bytes" where "frame b = unary (length b) @ b"

definition unframe1 :: "bytes \<Rightarrow> bytes \<times> bytes" where
  "unframe1 b = (let n = length (takeWhile (\<lambda>x. x = 1) b); r = drop (n + 1) b in (take n r, drop n r))"

lemma unframe1_frame [simp]: "unframe1 (frame b @ r) = (b, r)"
proof -
  have "takeWhile (\<lambda>x. x = 1) (replicate n (1 :: u8) @ 0 # xs) = replicate n 1" for n xs
    by (induction n) simp_all
  then show ?thesis by (simp add: unframe1_def frame_def unary_def Let_def)
qed

definition ref_env_json :: "s3_envelope \<Rightarrow> bytes option" where
  "ref_env_json e = Some (frame (env_wrapped_dek e) @ frame (env_nonce e) @ frame (env_ciphertext e) @
     frame (as_bytes (env_pcr_label e)))"

definition ref_env_from_json :: "bytes \<Rightarrow> s3_envelope option" where
  "ref_env_from_json b =
     (case unframe1 b of (d, b) \<Rightarrow> case unframe1 b of (n, b) \<Rightarrow> case unframe1 b of (c, b) \<Rightarrow>
      case unframe1 b of (l, b) \<Rightarrow>
        Some \<lparr>env_wrapped_dek = d, env_nonce = n, env_ciphertext = c,
          env_pcr_label = map (\<lambda>w. char_of (unat w)) l\<rparr>)"

definition ref_s3_crates :: s3_crates where
  "ref_s3_crates = store_crates.extend ref_store_crates
     \<lparr>s3_env_json = ref_env_json, s3_env_from_json = ref_env_from_json\<rparr>"

lemma ref_env_round_trip: "\<exists>b. ref_env_json e = Some b \<and> ref_env_from_json b = Some e"
proof -
  have "char_of (unat (word_of_nat (of_char c) :: u8)) = c" for c :: char
    by (simp add: unat_of_nat)
  then have "map (\<lambda>w. char_of (unat w)) (as_bytes s) = s" for s by (simp add: as_bytes_def comp_def)
  moreover have "unframe1 (frame b) = (b, [])" for b using unframe1_frame [of b "[]"] by simp
  ultimately show ?thesis by (simp add: ref_env_json_def ref_env_from_json_def)
qed

lemma ref_s3_spec: "s3_crates_spec ref_s3_crates"
proof -
  have "store_crates.truncate ref_s3_crates = ref_store_crates"
    by (simp add: ref_s3_crates_def store_crates.truncate_def store_crates.extend_def)
  then show ?thesis
    using ref_env_round_trip ref_store_crates_spec
    by (simp add: s3_crates_spec_def ref_s3_crates_def store_crates.extend_def)
qed

subsection \<open>Listing\<close>

text \<open>A bucket the store alone writes to: every key is the key of some share.\<close>

definition bucket_inv :: "s3_crates \<Rightarrow> s3_store \<Rightarrow> s3_world \<Rightarrow> bool" where
  "bucket_inv cr self w \<longleftrightarrow> distinct (map fst (w_objects w)) \<and>
     (\<forall>k \<in> set (map fst (w_objects w)). \<exists>sid. k = object_key cr self sid)"

lemma object_key_prefix: "object_key cr self sid = wallet_prefix cr self (sid_wallet_id sid) @ show_nat (unat (sid_index sid))"
  by (simp add: object_key_def wallet_prefix_def)

lemma wallet_prefix_inject:
  assumes "ulid_text (st_ulid_str cr)"
  shows "wallet_prefix cr self v = wallet_prefix cr self w \<longleftrightarrow> v = w"
  using assms by (auto simp: wallet_prefix_def ulid_text_inject wallet_id.expand)

lemma object_key_in_wallet:
  assumes "ulid_text (st_ulid_str cr)"
  shows "take (length (wallet_prefix cr self w)) (object_key cr self sid) = wallet_prefix cr self w \<longleftrightarrow> sid_wallet_id sid = w"
proof -
  have "length (wallet_prefix cr self w) = length (wallet_prefix cr self (sid_wallet_id sid))"
    using assms by (simp add: wallet_prefix_def ulid_text_length)
  then show ?thesis
    using wallet_prefix_inject [OF assms] by (simp add: object_key_prefix)
qed

lemma split_on_sep_two: "split_on c (xs @ c # ys) \<noteq> [z]"
proof (induction xs arbitrary: z)
  case (Cons x xs)
  then show ?case by (cases "split_on c (xs @ c # ys)") (auto split: list.splits)
qed simp

lemma last_split_on: "c \<notin> set ys \<Longrightarrow> last (split_on c (xs @ c # ys)) = ys"
proof (induction xs)
  case (Cons x xs)
  obtain z zs where z: "split_on c (xs @ c # ys) = z # zs" by (cases "split_on c (xs @ c # ys)") simp_all
  then have "zs \<noteq> []" using split_on_sep_two by metis
  with z show ?case using Cons by simp
qed simp

lemma key_index_object_key: "key_index (object_key cr self sid) = Some (sid_index sid)"
proof -
  have "CHR ''/'' \<notin> set (show_nat n)" for n
    using show_nat_digits [of n] by (auto simp: is_digit_def)
  moreover have "\<exists>p. object_key cr self sid = p @ CHR ''/'' # show_nat (unat (sid_index sid))"
    by (simp add: object_key_def)
  ultimately have "last (split_on (CHR ''/'') (object_key cr self sid)) = show_nat (unat (sid_index sid))"
    using last_split_on by fastforce
  moreover have "unat (sid_index sid) < 2 ^ 8" using unsigned_less [of "sid_index sid"] by simp
  ultimately show ?thesis by (simp add: key_index_def)
qed

lemma bucket_sids:
  assumes "bucket_inv cr self w"
  obtains sids where "map fst (w_objects w) = map (object_key cr self) sids" "distinct sids"
proof -
  from assms have "\<exists>sids. map fst (w_objects w) = map (object_key cr self) sids"
    by (auto simp: bucket_inv_def ex_map_conv)
  with assms that show thesis by (metis bucket_inv_def distinct_map)
qed

lemma listed_sids:
  "List.map_filter (\<lambda>k. map_option (\<lambda>i. \<lparr>sid_wallet_id = wid, sid_index = i\<rparr>) (key_index k))
     (map (object_key cr self) (filter (\<lambda>sid. sid_wallet_id sid = wid) sids)) = filter (\<lambda>sid. sid_wallet_id sid = wid) sids"
  by (induction sids) (auto simp: map_filter_simps key_index_object_key)

lemma bucket_inv_step:
  assumes "bucket_inv cr self w"
  shows "bucket_inv cr self (snd (s3_put cr self rngs sh w))" "bucket_inv cr self (snd (s3_delete cr self sid w))"
proof -
  have "bucket_inv cr self (snd (put_object (object_key cr self sid) b (w\<lparr>w_keys := ks\<rparr>)))" for sid b ks
    using assms by (auto simp: bucket_inv_def put_object_def distinct_update dom_update)
  moreover have "bucket_inv cr self (w\<lparr>w_keys := ks\<rparr>)" for ks using assms by (simp add: bucket_inv_def)
  ultimately show "bucket_inv cr self (snd (s3_put cr self rngs sh w))"
    by (auto simp: s3_put_def generate_data_key_def Let_def split: outcome.splits prod.splits)
  show "bucket_inv cr self (snd (s3_delete cr self sid w))"
    using assms by (auto simp: bucket_inv_def s3_delete_def delete_object_def distinct_delete delete_keys distinct_removeAll)
qed

subsection \<open>Properties\<close>

text \<open>A share written to the object store reads back, for a caller whose attestation the key
  service accepts, and shares stored earlier under other identifiers still read back when the
  wrapped key is fresh.\<close>

theorem s3_put_get:
  assumes "s3_crates_spec cr" "predicate (s3_attestation self)" "fill_bytes rw 32 \<notin> set (map fst (w_keys w))"
  shows "\<exists>w'. s3_put cr self (rk, rw, rn) sh w = (Ok (), w') \<and>
    s3_get cr predicate self (sto_share_id sh) w' = Ok sh \<and>
    (\<forall>sid s. sid \<noteq> sto_share_id sh \<and> s3_get cr predicate self sid w = Ok s \<longrightarrow>
       s3_get cr predicate self sid w' = Ok s)"
proof -
  from s3_put_Ok [OF assms(1), of self rk rw rn sh w] obtain e c b j where
    p: "s3_put cr self (rk, rw, rn) sh w =
      (Ok (), \<lparr>w_objects = AList.update (object_key cr self (sto_share_id sh)) b (w_objects w),
               w_keys = AList.update (fill_bytes rw 32) (fill_bytes rk 32) (w_keys w)\<rparr>)" (is "_ = (_, ?w')")
    and e: "s3_env_from_json cr b = Some e" "env_wrapped_dek e = fill_bytes rw 32"
      "st_decrypt cr (fill_bytes rk 32) (env_nonce e) (env_ciphertext e) = Some j" "st_share_from_json cr j = Some sh"
    by auto
  have "s3_get cr predicate self (sto_share_id sh) ?w' = Ok sh"
    using e assms(2) by (simp add: s3_get_def get_object_def decrypt_data_key_def update_conv')
  moreover have "s3_get cr predicate self sid ?w' = Ok s"
    if "sid \<noteq> sto_share_id sh" "s3_get cr predicate self sid w = Ok s" for sid s
  proof -
    have "map_of (w_keys w) d = Some k \<Longrightarrow> d \<noteq> fill_bytes rw 32" for d k
      using assms(3) by (auto dest: map_of_SomeD intro: image_eqI [rotated])
    with that show ?thesis
      by (auto simp: s3_get_def get_object_def decrypt_data_key_def update_conv' outcome_simps
          object_key_inject [OF s3_spec_dests(4) [OF assms(1)]] split: if_splits)
  qed
  ultimately show ?thesis using p by blast
qed

definition demo_s3 :: "string \<Rightarrow> bytes \<Rightarrow> s3_store" where
  "demo_s3 prefix att = \<lparr>s3_bucket_prefix = prefix, s3_attestation = att, s3_pcr_label = ''pcr0''\<rparr>"

definition demo_s3_share :: stored_share where
  "demo_s3_share = \<lparr>sto_share_id = \<lparr>sid_wallet_id = WalletId 5, sid_index = 1\<rparr>, sto_created_at_unix_ms = 3,
     sto_share = \<lparr>ss_index = 1, ss_params = \<lparr>sp_threshold = 2, sp_total = 3\<rparr>, ss_blob = [0, 0, 0, 0]\<rparr>\<rparr>"

theorem s3_put_get_witness:
  "\<exists>w'. s3_put ref_s3_crates (demo_s3 ''b/'' [1]) (\<lambda>_. 1, \<lambda>_. 2, \<lambda>_. 3) demo_s3_share \<lparr>w_objects = [], w_keys = []\<rparr> = (Ok (), w') \<and>
     s3_get ref_s3_crates default_predicate (demo_s3 ''b/'' [1]) (sto_share_id demo_s3_share) w' = Ok demo_s3_share"
  using s3_put_get [OF ref_s3_spec, of default_predicate "demo_s3 ''b/'' [1]" "\<lambda>_. 2" "\<lparr>w_objects = [], w_keys = []\<rparr>"
      "\<lambda>_. 1" "\<lambda>_. 3" demo_s3_share]
  by (auto simp: default_predicate_def demo_s3_def)

text \<open>On a bucket that only the store writes to, which writes and deletes preserve, \<open>list\<close> returns
  exactly the stored shares of the wallet, in strictly increasing order of index.\<close>

theorem s3_list_exact:
  assumes "s3_crates_spec cr" "bucket_inv cr self w"
  shows "(\<exists>ids. s3_list cr self wid w = Ok ids \<and> sorted_wrt (\<lambda>a b. sid_index a < sid_index b) ids \<and>
      set ids = {sid. sid_wallet_id sid = wid \<and> map_of (w_objects w) (object_key cr self sid) \<noteq> None}) \<and>
    bucket_inv cr self (snd (s3_put cr self rngs sh w)) \<and> bucket_inv cr self (snd (s3_delete cr self sid w))"
proof -
  note u = s3_spec_dests(4) [OF assms(1)]
  from assms(2) obtain sids where sids: "map fst (w_objects w) = map (object_key cr self) sids" "distinct sids"
    by (rule bucket_sids)
  let ?ids = "filter (\<lambda>sid. sid_wallet_id sid = wid) sids"
  have "s3_list cr self wid w = Ok (sort_key sid_index ?ids)"
    unfolding s3_list_def list_objects_def sids(1) by (simp add: filter_map comp_def object_key_in_wallet [OF u] listed_sids)
  moreover have "sorted_wrt (\<lambda>a b. sid_index a < sid_index b) (sort_key sid_index ?ids)"
    by (rule sorted_ids_strict [where w = wid]) (use sids(2) in simp_all)
  moreover have "set (sort_key sid_index ?ids) =
      {sid. sid_wallet_id sid = wid \<and> map_of (w_objects w) (object_key cr self sid) \<noteq> None}"
  proof -
    have "set (map fst (w_objects w)) = object_key cr self ` set sids" unfolding sids(1) by simp
    then have "map_of (w_objects w) (object_key cr self sid) \<noteq> None \<longleftrightarrow> sid \<in> set sids" for sid
      using object_key_inject [OF u, of self] by (auto simp: map_of_eq_None_iff)
    then show ?thesis unfolding set_sort by auto
  qed
  ultimately show ?thesis using bucket_inv_step [OF assms(2)] by blast
qed

theorem s3_list_exact_witness:
  "\<exists>ids. s3_list ref_s3_crates (demo_s3 '''' [1]) (WalletId 5) \<lparr>w_objects = [], w_keys = []\<rparr> = Ok ids \<and> ids = []"
  using s3_list_exact [OF ref_s3_spec, of "demo_s3 '''' [1]" "\<lparr>w_objects = [], w_keys = []\<rparr>"]
  by (fastforce simp: bucket_inv_def)

text \<open>The object store fails closed: if the key service's predicate rejects the caller's
  attestation, no share is ever read, whatever the object store and the key service hold.\<close>

theorem s3_get_fails_closed:
  assumes "\<not> predicate (s3_attestation self)"
  shows "\<nexists>s. s3_get cr predicate self sid w = Ok s"
  using assms by (auto simp: s3_get_def decrypt_data_key_def outcome_simps)

theorem s3_get_fails_closed_witness:
  "\<nexists>s. s3_get ref_s3_crates default_predicate \<lparr>s3_bucket_prefix = ''b'', s3_attestation = [], s3_pcr_label = ''''\<rparr>
     \<lparr>sid_wallet_id = WalletId 5, sid_index = 1\<rparr> \<lparr>w_objects = [], w_keys = []\<rparr> = Ok s"
  by (rule s3_get_fails_closed) (simp add: default_predicate_def)

end
