(* ===== verification/Signers.thy ===== *)
theory Signers
  imports Wallet_Types
begin

text \<open>
  The curve-agnostic signing interface of the enclave (\<open>qfc-enclave/src/signer.rs\<close>), its three
  families of implementations (\<open>signers/ed25519.rs\<close>, \<open>secp256k1.rs\<close>, \<open>ml_dsa.rs\<close>) and key
  derivation (\<open>derivation.rs\<close>). The curve arithmetic and the hash functions are crates: parameters
  of the model with their documented correctness as laws.
\<close>

subsection \<open>Errors and crates\<close>

datatype signer_error =
    InvalidSecret string string
  | UnsupportedHash string string
  | NotImplemented string
  | CryptoError string
  | VerificationFailed
  | InvalidPublicKey string string

text \<open>
  Keys, signatures and digests are bytes. \<open>ed_key_error\<close>, \<open>k_key_error\<close> and \<open>k_sig_error\<close> are the
  error texts of the parsing constructors, \<open>None\<close> when the bytes parse. \<open>k_point\<close> parses a SEC1 public
  key and gives its compressed form. ML-DSA operations take the parameter set.
\<close>

record sign_crates =
  sha256 :: "bytes \<Rightarrow> bytes"
  keccak256 :: "bytes \<Rightarrow> bytes"
  blake3 :: "bytes \<Rightarrow> bytes"
  ed_public :: "bytes \<Rightarrow> bytes"
  ed_sign :: "bytes \<Rightarrow> bytes \<Rightarrow> bytes"
  ed_key_error :: "bytes \<Rightarrow> string option"
  ed_verify :: "bytes \<Rightarrow> bytes \<Rightarrow> bytes \<Rightarrow> bool"
  k_key_error :: "bytes \<Rightarrow> string option"
  k_public :: "bytes \<Rightarrow> bytes"
  k_sign_prehash :: "bytes \<Rightarrow> bytes \<Rightarrow> string + bytes"
  k_normalize_s :: "bytes \<Rightarrow> bytes option"
  k_sign_recoverable :: "bytes \<Rightarrow> bytes \<Rightarrow> string + bytes \<times> u8"
  k_point :: "bytes \<Rightarrow> bytes option"
  k_sig_error :: "bytes \<Rightarrow> string option"
  k_verify_prehash :: "bytes \<Rightarrow> bytes \<Rightarrow> bytes \<Rightarrow> bool"
  k_recovery_id :: "u8 \<Rightarrow> bool"
  k_recover :: "bytes \<Rightarrow> bytes \<Rightarrow> u8 \<Rightarrow> bytes option"
  ml_pk_len :: "signing_scheme \<Rightarrow> nat"
  ml_sig_len :: "signing_scheme \<Rightarrow> nat"
  ml_public :: "signing_scheme \<Rightarrow> bytes \<Rightarrow> bytes"
  ml_sign :: "signing_scheme \<Rightarrow> bytes \<Rightarrow> bytes \<Rightarrow> bytes"
  ml_sig_decodes :: "signing_scheme \<Rightarrow> bytes \<Rightarrow> bool"
  ml_verify :: "signing_scheme \<Rightarrow> bytes \<Rightarrow> bytes \<Rightarrow> bytes \<Rightarrow> bool"

definition fail_with :: "string option \<Rightarrow> (string \<Rightarrow> 'e) \<Rightarrow> ('e, unit) outcome" where
  "fail_with err f = (case err of None \<Rightarrow> Ok () | Some m \<Rightarrow> Err (f m))"

primrec lift_crypto :: "string + 'a \<Rightarrow> (signer_error, 'a) outcome" where
  "lift_crypto (Inl m) = Err (CryptoError m)"
| "lift_crypto (Inr x) = Ok x"

lemma fail_with_simps [outcome_simps]:
  "fail_with err f = Ok u \<longleftrightarrow> err = None" "fail_with err f = Err e \<longleftrightarrow> (\<exists>m. err = Some m \<and> e = f m)"
  by (auto simp: fail_with_def split: option.splits)

lemma lift_crypto_simps [outcome_simps]:
  "lift_crypto r = Ok x \<longleftrightarrow> r = Inr x" "lift_crypto r = Err e \<longleftrightarrow> (\<exists>m. r = Inl m \<and> e = CryptoError m)"
  by (cases r; auto)+

lemma lift_not_Panic [simp]: "fail_with err f \<noteq> Panic p" "lift_crypto r \<noteq> Panic p"
  by (cases r; auto simp: fail_with_def split: option.splits)+

definition hash_name :: "hash_alg \<Rightarrow> string" where
  "hash_name h = (case h of Sha256 \<Rightarrow> ''sha256'' | Keccak256 \<Rightarrow> ''keccak256'' | Blake3 \<Rightarrow> ''blake3'' | HashNone \<Rightarrow> ''none'')"

text \<open>An implementation of the \<open>Signer\<close> trait.\<close>

record signer =
  sg_scheme :: signing_scheme
  sg_public_key :: "secret_bytes \<Rightarrow> (signer_error, bytes) outcome"
  sg_sign :: "secret_bytes \<Rightarrow> bytes \<Rightarrow> hash_alg \<Rightarrow> (signer_error, bytes) outcome"
  sg_verify :: "bytes \<Rightarrow> bytes \<Rightarrow> bytes \<Rightarrow> hash_alg \<Rightarrow> (signer_error, unit) outcome"

subsection \<open>Ed25519 (ed25519.rs)\<close>

definition ed_signing_key :: "secret_bytes \<Rightarrow> (signer_error, bytes) outcome" where
  "ed_signing_key secret =
     (if length (expose secret) = 32 then Ok (expose secret)
      else Err (InvalidSecret ''ed25519'' ''secret must be exactly 32 bytes''))"

definition require_no_hash :: "string \<Rightarrow> hash_alg \<Rightarrow> (signer_error, unit) outcome" where
  "require_no_hash scheme h = fail_if (h \<noteq> HashNone) (UnsupportedHash scheme (hash_name h))"

definition ed25519_public_key :: "sign_crates \<Rightarrow> secret_bytes \<Rightarrow> (signer_error, bytes) outcome" where
  "ed25519_public_key cr secret = obind (ed_signing_key secret) (\<lambda>sk. Ok (ed_public cr sk))"

definition ed25519_sign :: "sign_crates \<Rightarrow> secret_bytes \<Rightarrow> bytes \<Rightarrow> hash_alg \<Rightarrow> (signer_error, bytes) outcome" where
  "ed25519_sign cr secret message h =
     obind (require_no_hash ''ed25519'' h) (\<lambda>_.
     obind (ed_signing_key secret) (\<lambda>sk. Ok (ed_sign cr sk message)))"

definition ed25519_verify :: "sign_crates \<Rightarrow> bytes \<Rightarrow> bytes \<Rightarrow> bytes \<Rightarrow> hash_alg \<Rightarrow> (signer_error, unit) outcome" where
  "ed25519_verify cr public_key message signature h =
     obind (require_no_hash ''ed25519'' h) (\<lambda>_.
     obind (fail_if (length public_key \<noteq> 32) (InvalidPublicKey ''ed25519'' ''expected 32-byte compressed public key'')) (\<lambda>_.
     obind (fail_with (ed_key_error cr public_key) (InvalidPublicKey ''ed25519'')) (\<lambda>_.
     obind (fail_if (length signature \<noteq> 64) (InvalidPublicKey ''ed25519'' ''signature must be 64 bytes'')) (\<lambda>_.
     fail_if (\<not> ed_verify cr public_key message signature) VerificationFailed))))"

definition Ed25519Signer :: "sign_crates \<Rightarrow> signer" where
  "Ed25519Signer cr = \<lparr>sg_scheme = Ed25519, sg_public_key = ed25519_public_key cr,
     sg_sign = ed25519_sign cr, sg_verify = ed25519_verify cr\<rparr>"

subsection \<open>secp256k1 (secp256k1.rs)\<close>

definition k_signing_key_from :: "sign_crates \<Rightarrow> secret_bytes \<Rightarrow> (signer_error, bytes) outcome" where
  "k_signing_key_from cr secret =
     obind (fail_if (length (expose secret) \<noteq> 32) (InvalidSecret ''secp256k1'' ''secret must be exactly 32 bytes'')) (\<lambda>_.
     obind (fail_with (k_key_error cr (expose secret)) CryptoError) (\<lambda>_. Ok (expose secret)))"

definition prehash :: "sign_crates \<Rightarrow> bytes \<Rightarrow> hash_alg \<Rightarrow> (signer_error, bytes) outcome" where
  "prehash cr message h =
     (case h of
        Sha256 \<Rightarrow> Ok (sha256 cr message)
      | Keccak256 \<Rightarrow> Ok (keccak256 cr message)
      | Blake3 \<Rightarrow> Ok (blake3 cr message)
      | HashNone \<Rightarrow> Err (UnsupportedHash ''secp256k1'' ''none''))"

definition verifying_key_from :: "sign_crates \<Rightarrow> bytes \<Rightarrow> (signer_error, bytes) outcome" where
  "verifying_key_from cr public_key =
     ok_or (k_point cr public_key) (InvalidPublicKey ''secp256k1'' ''expected 33-byte SEC1 compressed public key'')"

definition secp_public_key :: "sign_crates \<Rightarrow> secret_bytes \<Rightarrow> (signer_error, bytes) outcome" where
  "secp_public_key cr secret = obind (k_signing_key_from cr secret) (\<lambda>sk. Ok (k_public cr sk))"

definition secp_sign :: "sign_crates \<Rightarrow> secret_bytes \<Rightarrow> bytes \<Rightarrow> hash_alg \<Rightarrow> (signer_error, bytes) outcome" where
  "secp_sign cr secret message h =
     obind (k_signing_key_from cr secret) (\<lambda>sk.
     obind (prehash cr message h) (\<lambda>digest.
     obind (lift_crypto (k_sign_prehash cr sk digest)) (\<lambda>sig.
     Ok (case k_normalize_s cr sig of Some s \<Rightarrow> s | None \<Rightarrow> sig))))"

definition secp_verify :: "sign_crates \<Rightarrow> bytes \<Rightarrow> bytes \<Rightarrow> bytes \<Rightarrow> hash_alg \<Rightarrow> (signer_error, unit) outcome" where
  "secp_verify cr public_key message signature h =
     obind (verifying_key_from cr public_key) (\<lambda>vk.
     obind (prehash cr message h) (\<lambda>digest.
     obind (fail_if (length signature \<noteq> 64) (InvalidPublicKey ''secp256k1'' ''signature must be 64 bytes'')) (\<lambda>_.
     obind (fail_with (k_sig_error cr signature) CryptoError) (\<lambda>_.
     fail_if (\<not> k_verify_prehash cr vk digest signature) VerificationFailed))))"

definition Secp256k1Signer :: "sign_crates \<Rightarrow> signer" where
  "Secp256k1Signer cr = \<lparr>sg_scheme = Secp256k1, sg_public_key = secp_public_key cr,
     sg_sign = secp_sign cr, sg_verify = secp_verify cr\<rparr>"

definition recoverable_sign :: "sign_crates \<Rightarrow> secret_bytes \<Rightarrow> bytes \<Rightarrow> hash_alg \<Rightarrow> (signer_error, bytes) outcome" where
  "recoverable_sign cr secret message h =
     obind (k_signing_key_from cr secret) (\<lambda>sk.
     obind (prehash cr message h) (\<lambda>digest.
     obind (lift_crypto (k_sign_recoverable cr sk digest)) (\<lambda>(sig, rec_id).
     Ok (sig @ [rec_id]))))"

definition recoverable_verify :: "sign_crates \<Rightarrow> bytes \<Rightarrow> bytes \<Rightarrow> bytes \<Rightarrow> hash_alg \<Rightarrow> (signer_error, unit) outcome" where
  "recoverable_verify cr public_key message signature h =
     obind (fail_if (length signature \<noteq> 65) (InvalidPublicKey ''secp256k1_recoverable'' ''signature must be 65 bytes (r || s || v)'')) (\<lambda>_.
     obind (prehash cr message h) (\<lambda>digest.
     obind (verifying_key_from cr public_key) (\<lambda>vk.
     obind (slice signature 0 64) (\<lambda>rs.
     obind (fail_with (k_sig_error cr rs) CryptoError) (\<lambda>_.
     if k_verify_prehash cr vk digest rs then
       obind (index_at signature 64) (\<lambda>v.
       obind (fail_if (\<not> k_recovery_id cr v) (InvalidPublicKey ''secp256k1_recoverable'' ''invalid recovery byte'')) (\<lambda>_.
       obind (ok_or (k_recover cr digest rs v) VerificationFailed) (\<lambda>recovered.
       fail_if (recovered \<noteq> public_key) VerificationFailed)))
     else Err VerificationFailed)))))"

definition Secp256k1RecoverableSigner :: "sign_crates \<Rightarrow> signer" where
  "Secp256k1RecoverableSigner cr = \<lparr>sg_scheme = Secp256k1Recoverable, sg_public_key = secp_public_key cr,
     sg_sign = recoverable_sign cr, sg_verify = recoverable_verify cr\<rparr>"

subsection \<open>ML-DSA (ml_dsa.rs)\<close>

definition SEED_BYTES :: nat where "SEED_BYTES = 32"

definition seed_from :: "secret_bytes \<Rightarrow> string \<Rightarrow> (signer_error, bytes) outcome" where
  "seed_from secret scheme =
     (if length (expose secret) \<noteq> SEED_BYTES then Err (InvalidSecret scheme ''ML-DSA seed must be exactly 32 bytes'')
      else Ok (expose secret))"

definition public_key_inner :: "sign_crates \<Rightarrow> signing_scheme \<Rightarrow> string \<Rightarrow> secret_bytes \<Rightarrow> (signer_error, bytes) outcome" where
  "public_key_inner cr P scheme secret = obind (seed_from secret scheme) (\<lambda>seed. Ok (ml_public cr P seed))"

definition sign_inner :: "sign_crates \<Rightarrow> signing_scheme \<Rightarrow> string \<Rightarrow> secret_bytes \<Rightarrow> bytes \<Rightarrow> hash_alg \<Rightarrow>
   (signer_error, bytes) outcome" where
  "sign_inner cr P scheme secret message h =
     obind (require_no_hash scheme h) (\<lambda>_.
     obind (seed_from secret scheme) (\<lambda>seed. Ok (ml_sign cr P seed message)))"

definition verify_inner :: "sign_crates \<Rightarrow> signing_scheme \<Rightarrow> string \<Rightarrow> bytes \<Rightarrow> bytes \<Rightarrow> bytes \<Rightarrow> hash_alg \<Rightarrow>
   (signer_error, unit) outcome" where
  "verify_inner cr P scheme public_key message signature h =
     obind (require_no_hash scheme h) (\<lambda>_.
     obind (fail_if (length public_key \<noteq> ml_pk_len cr P)
       (InvalidPublicKey scheme ''public key has wrong length for ML-DSA parameter set'')) (\<lambda>_.
     obind (fail_if (length signature \<noteq> ml_sig_len cr P)
       (InvalidPublicKey scheme ''signature has wrong length for ML-DSA parameter set'')) (\<lambda>_.
     obind (fail_if (\<not> ml_sig_decodes cr P signature) VerificationFailed) (\<lambda>_.
     fail_if (\<not> ml_verify cr P public_key message signature) VerificationFailed))))"

definition MlDsa44Signer :: "sign_crates \<Rightarrow> signer" where
  "MlDsa44Signer cr = \<lparr>sg_scheme = MlDsa44, sg_public_key = public_key_inner cr MlDsa44 ''ml_dsa_44'',
     sg_sign = sign_inner cr MlDsa44 ''ml_dsa_44'', sg_verify = verify_inner cr MlDsa44 ''ml_dsa_44''\<rparr>"

definition MlDsa65Signer :: "sign_crates \<Rightarrow> signer" where
  "MlDsa65Signer cr = \<lparr>sg_scheme = MlDsa65, sg_public_key = public_key_inner cr MlDsa65 ''ml_dsa_65'',
     sg_sign = sign_inner cr MlDsa65 ''ml_dsa_65'', sg_verify = verify_inner cr MlDsa65 ''ml_dsa_65''\<rparr>"

definition MlDsa87Signer :: "sign_crates \<Rightarrow> signer" where
  "MlDsa87Signer cr = \<lparr>sg_scheme = MlDsa87, sg_public_key = public_key_inner cr MlDsa87 ''ml_dsa_87'',
     sg_sign = sign_inner cr MlDsa87 ''ml_dsa_87'', sg_verify = verify_inner cr MlDsa87 ''ml_dsa_87''\<rparr>"

subsection \<open>Dispatch (signer.rs)\<close>

primrec signer_of :: "sign_crates \<Rightarrow> signing_scheme \<Rightarrow> signer" where
  "signer_of cr Ed25519 = Ed25519Signer cr"
| "signer_of cr Secp256k1 = Secp256k1Signer cr"
| "signer_of cr Secp256k1Recoverable = Secp256k1RecoverableSigner cr"
| "signer_of cr MlDsa44 = MlDsa44Signer cr"
| "signer_of cr MlDsa65 = MlDsa65Signer cr"
| "signer_of cr MlDsa87 = MlDsa87Signer cr"

definition signer_for_scheme :: "sign_crates \<Rightarrow> signing_scheme \<Rightarrow> (signer_error, signer) outcome" where
  "signer_for_scheme cr scheme = Ok (signer_of cr scheme)"

definition dispatch_signer :: "sign_crates \<Rightarrow> signing_scheme \<Rightarrow> (signer \<Rightarrow> (signer_error, 'a) outcome) \<Rightarrow> (signer_error, 'a) outcome" where
  "dispatch_signer cr scheme f = f (signer_of cr scheme)"

subsection \<open>Key derivation (derivation.rs)\<close>

datatype derivation_error =
    NonHardenedRequired string
  | SchemeNotHd string
  | Underlying string
  | Mnemonic string

record classical_derivation =
  cd_secret :: secret_bytes
  cd_chain_code :: bytes

text \<open>HMAC-SHA512 with key and message, and the \<open>bip32\<close> and \<open>bip39\<close> crates: an extended private key is
  a value of the type \<open>'x\<close>.\<close>

record 'x hd_crates =
  hmac_sha512 :: "bytes \<Rightarrow> bytes \<Rightarrow> bytes"
  xprv_new :: "bytes \<Rightarrow> string + 'x"
  child_number :: "u32 \<Rightarrow> bool \<Rightarrow> string + u32"
  derive_child :: "'x \<Rightarrow> u32 \<Rightarrow> string + 'x"
  xprv_bytes :: "'x \<Rightarrow> bytes"
  xprv_chain_code :: "'x \<Rightarrow> bytes"
  mnemonic_parse :: "string \<Rightarrow> string + string"
  mnemonic_seed :: "string \<Rightarrow> string \<Rightarrow> bytes"

primrec lift_hd :: "string + 'a \<Rightarrow> (derivation_error, 'a) outcome" where
  "lift_hd (Inl m) = Err (Underlying m)"
| "lift_hd (Inr x) = Ok x"

definition mnemonic_to_seed :: "'x hd_crates \<Rightarrow> string \<Rightarrow> string \<Rightarrow> (derivation_error, secret_bytes) outcome" where
  "mnemonic_to_seed hc phrase passphrase =
     (case mnemonic_parse hc phrase of
        Inl e \<Rightarrow> Err (Mnemonic e)
      | Inr m \<Rightarrow> Ok (SecretBytes (mnemonic_seed hc m passphrase)))"

primrec raw_index :: "hd_path_segment \<Rightarrow> u32" where
  "raw_index (Normal i) = i"
| "raw_index (Hardened i) = i"

definition derive_secp256k1 :: "'x hd_crates \<Rightarrow> secret_bytes \<Rightarrow> hd_path \<Rightarrow> (derivation_error, classical_derivation) outcome" where
  "derive_secp256k1 hc seed path =
     obind (lift_hd (xprv_new hc (expose seed))) (\<lambda>xprv.
     obind (ofold (\<lambda>acc seg.
         obind (lift_hd (child_number hc (raw_index seg) (is_hardened seg))) (\<lambda>child.
         lift_hd (derive_child hc acc child))) xprv path) (\<lambda>derived.
     Ok \<lparr>cd_secret = SecretBytes (xprv_bytes hc derived), cd_chain_code = xprv_chain_code hc derived\<rparr>))"

definition slip10_step :: "'x hd_crates \<Rightarrow> bytes \<times> bytes \<Rightarrow> hd_path_segment \<Rightarrow> (derivation_error, bytes \<times> bytes) outcome" where
  "slip10_step hc = (\<lambda>(key, chain) seg.
     obind (fail_if (\<not> is_hardened seg) (NonHardenedRequired ''ed25519'')) (\<lambda>_.
     let out = hmac_sha512 hc chain ([0] @ key @ u32_be (child_index seg)) in
     Ok (take 32 out, drop 32 out)))"

definition derive_ed25519_slip10 :: "'x hd_crates \<Rightarrow> secret_bytes \<Rightarrow> hd_path \<Rightarrow> (derivation_error, classical_derivation) outcome" where
  "derive_ed25519_slip10 hc seed path =
     (let i = hmac_sha512 hc (as_bytes ''ed25519 seed'') (expose seed) in
      obind (ofold (slip10_step hc) (take 32 i, drop 32 i) path) (\<lambda>(key, chain).
      Ok \<lparr>cd_secret = SecretBytes key, cd_chain_code = chain\<rparr>))"

definition derive_classical :: "'x hd_crates \<Rightarrow> signing_scheme \<Rightarrow> secret_bytes \<Rightarrow> hd_path \<Rightarrow>
   (derivation_error, classical_derivation) outcome" where
  "derive_classical hc scheme seed path =
     (case scheme of
        Secp256k1 \<Rightarrow> derive_secp256k1 hc seed path
      | Secp256k1Recoverable \<Rightarrow> derive_secp256k1 hc seed path
      | Ed25519 \<Rightarrow> derive_ed25519_slip10 hc seed path
      | _ \<Rightarrow> Err (SchemeNotHd ''ml_dsa''))"

subsection \<open>Laws of the crates\<close>

text \<open>
  The documented correctness of the crates: a signature made with a key verifies under the public key
  derived from it, a recoverable signature recovers that key, normalising \<open>s\<close> keeps a signature
  valid, and encodings have their fixed widths.
\<close>

definition ed_laws :: "sign_crates \<Rightarrow> bool" where
  "ed_laws cr \<longleftrightarrow> (\<forall>s m. length s = 32 \<longrightarrow>
     length (ed_public cr s) = 32 \<and> ed_key_error cr (ed_public cr s) = None \<and>
     length (ed_sign cr s m) = 64 \<and> ed_verify cr (ed_public cr s) m (ed_sign cr s m))"

definition k_signature :: "sign_crates \<Rightarrow> bytes \<Rightarrow> bytes \<Rightarrow> bytes \<Rightarrow> bool" where
  "k_signature cr vk d sig \<longleftrightarrow> length sig = 64 \<and> k_sig_error cr sig = None \<and> k_verify_prehash cr vk d sig"

definition k_laws :: "sign_crates \<Rightarrow> bool" where
  "k_laws cr \<longleftrightarrow>
     (\<forall>m. length (sha256 cr m) = 32 \<and> length (keccak256 cr m) = 32 \<and> length (blake3 cr m) = 32) \<and>
     (\<forall>s. length s = 32 \<longrightarrow> k_key_error cr s = None \<longrightarrow>
        length (k_public cr s) = 33 \<and> k_point cr (k_public cr s) = Some (k_public cr s) \<and>
        (\<forall>d. length d = 32 \<longrightarrow>
           (\<exists>sig. k_sign_prehash cr s d = Inr sig \<and> k_signature cr (k_public cr s) d sig \<and>
              (\<forall>n. k_normalize_s cr sig = Some n \<longrightarrow> k_signature cr (k_public cr s) d n)) \<and>
           (\<exists>sig v. k_sign_recoverable cr s d = Inr (sig, v) \<and> k_signature cr (k_public cr s) d sig \<and>
              k_recovery_id cr v \<and> k_recover cr d sig v = Some (k_public cr s))))"

definition ml_laws :: "sign_crates \<Rightarrow> bool" where
  "ml_laws cr \<longleftrightarrow> (\<forall>P s m. is_post_quantum P \<longrightarrow> length s = 32 \<longrightarrow>
     length (ml_public cr P s) = ml_pk_len cr P \<and> length (ml_sign cr P s m) = ml_sig_len cr P \<and>
     ml_sig_decodes cr P (ml_sign cr P s m) \<and> ml_verify cr P (ml_public cr P s) m (ml_sign cr P s m))"

definition sign_laws :: "sign_crates \<Rightarrow> bool" where
  "sign_laws cr \<longleftrightarrow> ed_laws cr \<and> k_laws cr \<and> ml_laws cr"

text \<open>What a scheme accepts: which hash algorithms, which secrets.\<close>

definition is_secp :: "signing_scheme \<Rightarrow> bool" where
  "is_secp s \<longleftrightarrow> s = Secp256k1 \<or> s = Secp256k1Recoverable"

definition supports_hash :: "signing_scheme \<Rightarrow> hash_alg \<Rightarrow> bool" where
  "supports_hash s h \<longleftrightarrow> (is_secp s \<longleftrightarrow> h \<noteq> HashNone)"

definition valid_secret :: "sign_crates \<Rightarrow> signing_scheme \<Rightarrow> secret_bytes \<Rightarrow> bool" where
  "valid_secret cr s secret \<longleftrightarrow> length (expose secret) = 32 \<and> (is_secp s \<longrightarrow> k_key_error cr (expose secret) = None)"

subsection \<open>The contract of a signer\<close>

locale signing_contract =
  fixes sg :: signer and valid :: "secret_bytes \<Rightarrow> bool" and hashes :: "hash_alg \<Rightarrow> bool"
  assumes signs: "valid s \<Longrightarrow> hashes h \<Longrightarrow> \<exists>pk sig. sg_public_key sg s = Ok pk \<and> sg_sign sg s m h = Ok sig \<and> sg_verify sg pk m sig h = Ok ()"
    and only_valid: "sg_sign sg s m h = Ok sig \<Longrightarrow> valid s \<and> hashes h"
    and key_only_valid: "sg_public_key sg s = Ok pk \<Longrightarrow> valid s"
begin

lemma sign_total: "(\<exists>sig. sg_sign sg s m h = Ok sig) \<longleftrightarrow> valid s \<and> hashes h"
  using signs [of s h m] only_valid [of s m h] by blast

lemma signature_checks: "sg_sign sg s m h = Ok sig \<Longrightarrow> sg_public_key sg s = Ok pk \<Longrightarrow> sg_verify sg pk m sig h = Ok ()"
  using signs [of s h m] only_valid [of s m h sig] by auto

end

locale sign_env =
  fixes cr :: sign_crates
  assumes laws: "sign_laws cr"

lemma fail_with_None [simp]: "fail_with None f = Ok ()"
  by (simp add: fail_with_def)

lemma prehash_Ok: "k_laws cr \<Longrightarrow> h \<noteq> HashNone \<Longrightarrow> \<exists>d. prehash cr m h = Ok d \<and> length d = 32"
  by (cases h) (simp_all add: prehash_def k_laws_def)

lemma prehash_supported: "prehash cr m h = Ok d \<Longrightarrow> h \<noteq> HashNone"
  by (cases h) (simp_all add: prehash_def)

lemma secp_contract:
  assumes "k_laws cr" "valid_secret cr Secp256k1 s" "h \<noteq> HashNone"
  shows "\<exists>pk sig. secp_public_key cr s = Ok pk \<and> secp_sign cr s m h = Ok sig \<and> secp_verify cr pk m sig h = Ok ()"
proof -
  from prehash_Ok [OF assms(1,3)] obtain d where d: "prehash cr m h = Ok d" "length d = 32" by blast
  have s: "length (expose s) = 32" "k_key_error cr (expose s) = None"
    using assms(2) by (simp_all add: valid_secret_def is_secp_def)
  with assms(1) d(2) obtain sig where sig: "k_sign_prehash cr (expose s) d = Inr sig"
      "k_signature cr (k_public cr (expose s)) d (case k_normalize_s cr sig of Some n \<Rightarrow> n | None \<Rightarrow> sig)"
      "k_point cr (k_public cr (expose s)) = Some (k_public cr (expose s))"
    unfolding k_laws_def by (metis option.case_eq_if option.collapse)
  then show ?thesis
    using s d by (simp add: secp_public_key_def secp_sign_def secp_verify_def k_signing_key_from_def fail_with_def
        verifying_key_from_def k_signature_def)
qed

lemma recoverable_contract:
  assumes "k_laws cr" "valid_secret cr Secp256k1Recoverable s" "h \<noteq> HashNone"
  shows "\<exists>pk sig. secp_public_key cr s = Ok pk \<and> recoverable_sign cr s m h = Ok sig \<and> recoverable_verify cr pk m sig h = Ok ()"
proof -
  from prehash_Ok [OF assms(1,3)] obtain d where d: "prehash cr m h = Ok d" "length d = 32" by blast
  have s: "length (expose s) = 32" "k_key_error cr (expose s) = None"
    using assms(2) by (simp_all add: valid_secret_def is_secp_def)
  with assms(1) d(2) obtain sig v where sig: "k_sign_recoverable cr (expose s) d = Inr (sig, v)"
      "k_signature cr (k_public cr (expose s)) d sig" "k_recovery_id cr v" "k_recover cr d sig v = Some (k_public cr (expose s))"
      "k_point cr (k_public cr (expose s)) = Some (k_public cr (expose s))"
    unfolding k_laws_def by metis
  then show ?thesis
    using s d by (simp add: secp_public_key_def recoverable_sign_def recoverable_verify_def k_signing_key_from_def fail_with_def
        verifying_key_from_def k_signature_def nth_append)
qed

lemmas signer_defs = Ed25519Signer_def Secp256k1Signer_def Secp256k1RecoverableSigner_def MlDsa44Signer_def MlDsa65Signer_def
  MlDsa87Signer_def ed25519_public_key_def ed25519_sign_def ed25519_verify_def ed_signing_key_def require_no_hash_def
  public_key_inner_def sign_inner_def verify_inner_def seed_from_def SEED_BYTES_def
  secp_public_key_def secp_sign_def recoverable_sign_def k_signing_key_from_def

lemma signer_contract:
  assumes "sign_laws cr"
  shows "signing_contract (signer_of cr scheme) (valid_secret cr scheme) (supports_hash scheme)"
proof
  fix s h m
  assume v: "valid_secret cr scheme s" "supports_hash scheme h"
  have l: "ed_laws cr" "k_laws cr" "ml_laws cr" using assms by (simp_all add: sign_laws_def)
  show "\<exists>pk sig. sg_public_key (signer_of cr scheme) s = Ok pk \<and> sg_sign (signer_of cr scheme) s m h = Ok sig \<and>
      sg_verify (signer_of cr scheme) pk m sig h = Ok ()"
    using v l secp_contract [OF l(2), of s h m] recoverable_contract [OF l(2), of s h m]
    by (cases scheme) (simp_all add: signer_defs supports_hash_def is_secp_def valid_secret_def ed_laws_def ml_laws_def
        is_post_quantum_def is_classical_def)
next
  fix s m h sig
  show "sg_sign (signer_of cr scheme) s m h = Ok sig \<Longrightarrow> valid_secret cr scheme s \<and> supports_hash scheme h"
    by (cases scheme) (auto simp: signer_defs supports_hash_def is_secp_def valid_secret_def outcome_simps
        dest: prehash_supported split: if_splits)
next
  fix s pk
  show "sg_public_key (signer_of cr scheme) s = Ok pk \<Longrightarrow> valid_secret cr scheme s"
    by (cases scheme) (auto simp: signer_defs is_secp_def valid_secret_def outcome_simps split: if_splits)
qed

sublocale sign_env \<subseteq> any_scheme: signing_contract "signer_of cr scheme" "valid_secret cr scheme" "supports_hash scheme" for scheme
  using laws by (rule signer_contract)

subsection \<open>What verification establishes\<close>

text \<open>The check that backs an accepted signature.\<close>

definition genuine :: "sign_crates \<Rightarrow> signing_scheme \<Rightarrow> bytes \<Rightarrow> bytes \<Rightarrow> bytes \<Rightarrow> hash_alg \<Rightarrow> bool" where
  "genuine cr scheme pk m sig h =
     (case scheme of
        Ed25519 \<Rightarrow> ed_verify cr pk m sig
      | Secp256k1 \<Rightarrow> (\<exists>vk d. k_point cr pk = Some vk \<and> prehash cr m h = Ok d \<and> k_verify_prehash cr vk d sig)
      | Secp256k1Recoverable \<Rightarrow> (\<exists>vk d rs v. sig = rs @ [v] \<and> k_point cr pk = Some vk \<and> prehash cr m h = Ok d \<and>
          k_verify_prehash cr vk d rs \<and> k_recover cr d rs v = Some pk)
      | _ \<Rightarrow> ml_verify cr scheme pk m sig)"

lemma recoverable_genuine:
  assumes "recoverable_verify cr pk m sig h = Ok ()"
  shows "genuine cr Secp256k1Recoverable pk m sig h"
proof -
  from assms have l: "length sig = 65"
    and e: "\<exists>vk d. k_point cr pk = Some vk \<and> prehash cr m h = Ok d \<and> k_verify_prehash cr vk d (take 64 sig) \<and>
      k_recover cr d (take 64 sig) (sig ! 64) = Some pk"
    by (auto simp: recoverable_verify_def verifying_key_from_def outcome_simps split: if_splits)
  have "sig = take 64 sig @ [sig ! 64]"
    using l take_Suc_conv_app_nth [of 64 sig] by simp
  with e show ?thesis unfolding genuine_def by auto
qed

lemma signer_verify_sound:
  assumes "sg_verify (signer_of cr scheme) pk m sig h = Ok ()"
  shows "genuine cr scheme pk m sig h \<and> supports_hash scheme h"
proof (cases scheme)
  case Secp256k1Recoverable
  with assms have v: "recoverable_verify cr pk m sig h = Ok ()" by (simp add: signer_defs)
  then have "h \<noteq> HashNone" by (auto simp: recoverable_verify_def outcome_simps dest: prehash_supported)
  with recoverable_genuine [OF v] Secp256k1Recoverable show ?thesis by (simp add: supports_hash_def is_secp_def)
qed (use assms in \<open>auto simp: signer_defs secp_verify_def verifying_key_from_def genuine_def supports_hash_def is_secp_def outcome_simps
    dest: prehash_supported\<close>)

lemma signer_verify_genuine: "sg_verify (signer_of cr scheme) pk m sig h = Ok () \<Longrightarrow> genuine cr scheme pk m sig h"
  using signer_verify_sound by blast

lemma verify_no_panic: "sg_verify (signer_of cr scheme) pk m sig h \<noteq> Panic p"
proof -
  have "prehash cr m h \<noteq> Panic p" by (cases h) (simp_all add: prehash_def)
  then show ?thesis
    by (cases scheme) (auto simp: signer_defs secp_verify_def recoverable_verify_def verifying_key_from_def outcome_simps slice_def)
qed

subsection \<open>A lawful instance\<close>

definition toy_hash :: "bytes \<Rightarrow> bytes" where
  "toy_hash m = take 32 (m @ replicate 32 0)"

lemma length_toy_hash [simp]: "length (toy_hash m) = 32"
  by (simp add: toy_hash_def)

definition ref_sign_crates :: sign_crates where
  "ref_sign_crates = \<lparr>sha256 = toy_hash, keccak256 = toy_hash, blake3 = toy_hash,
     ed_public = (\<lambda>s. s), ed_sign = (\<lambda>s m. s @ toy_hash m), ed_key_error = (\<lambda>_. None),
     ed_verify = (\<lambda>pk m sig. sig = pk @ toy_hash m),
     k_key_error = (\<lambda>s. if s = replicate 32 0 then Some ''signature error'' else None), k_public = (\<lambda>s. 2 # s),
     k_sign_prehash = (\<lambda>s d. Inr (s @ d)), k_normalize_s = (\<lambda>_. None),
     k_sign_recoverable = (\<lambda>s d. Inr (s @ d, 0)), k_point = (\<lambda>pk. if length pk = 33 then Some pk else None),
     k_sig_error = (\<lambda>_. None), k_verify_prehash = (\<lambda>vk d sig. sig = tl vk @ d), k_recovery_id = (\<lambda>v. v < 4),
     k_recover = (\<lambda>d sig v. Some (2 # take 32 sig)),
     ml_pk_len = (\<lambda>_. 32), ml_sig_len = (\<lambda>_. 64), ml_public = (\<lambda>_ s. s), ml_sign = (\<lambda>_ s m. s @ toy_hash m),
     ml_sig_decodes = (\<lambda>_ _. True), ml_verify = (\<lambda>_ pk m sig. sig = pk @ toy_hash m)\<rparr>"

lemma ref_sign_laws: "sign_laws ref_sign_crates"
  by (simp add: sign_laws_def ed_laws_def k_laws_def ml_laws_def k_signature_def ref_sign_crates_def)

interpretation ref_signers: sign_env ref_sign_crates
  by unfold_locales (rule ref_sign_laws)

subsection \<open>Derivation\<close>

lemma ofold_append: "ofold f s (xs @ ys) = obind (ofold f s xs) (\<lambda>s'. ofold f s' ys)"
  by (induction xs arbitrary: s) (simp_all add: obind_assoc)

lemma slip10_step_hardened:
  "is_hardened seg \<Longrightarrow> slip10_step hc (key, chain) seg =
     Ok (take 32 (hmac_sha512 hc chain (0 # key @ u32_be (child_index seg))),
         drop 32 (hmac_sha512 hc chain (0 # key @ u32_be (child_index seg))))"
  by (simp add: slip10_step_def Let_def)

lemma slip10_run:
  assumes "\<And>k m. length (hmac_sha512 hc k m) = 64" "length key = 32" "length chain = 32"
  shows "if \<forall>seg \<in> set path. is_hardened seg
    then \<exists>k c. ofold (slip10_step hc) (key, chain) path = Ok (k, c) \<and> length k = 32 \<and> length c = 32
    else ofold (slip10_step hc) (key, chain) path = Err (NonHardenedRequired ''ed25519'')"
  using assms(2,3)
proof (induction path arbitrary: key chain)
  case (Cons seg path)
  let ?out = "hmac_sha512 hc chain (0 # key @ u32_be (child_index seg))"
  have "length (take 32 ?out) = 32" "length (drop 32 ?out) = 32" by (simp_all add: assms(1))
  note IH = Cons.IH [OF this]
  show ?case
  proof (cases "is_hardened seg")
    case True
    with IH show ?thesis by (simp add: slip10_step_hardened)
  next
    case False
    then show ?thesis by (simp add: slip10_step_def)
  qed
qed simp

subsection \<open>Properties\<close>

text \<open>C25. Every scheme's signer is correct: signing succeeds exactly for a valid secret and a hash
  algorithm the scheme supports, and every signature it returns verifies under the public key
  derived from the secret. The signer the dispatcher picks is the one of the requested scheme.\<close>

theorem dispatched_sign_verify:
  assumes "sign_laws cr"
  shows "sg_scheme (signer_of cr scheme) = scheme \<and>
    ((\<exists>sig. dispatch_signer cr scheme (\<lambda>sg. sg_sign sg s m h) = Ok sig) \<longleftrightarrow> valid_secret cr scheme s \<and> supports_hash scheme h) \<and>
    (\<forall>sig. dispatch_signer cr scheme (\<lambda>sg. sg_sign sg s m h) = Ok sig \<longrightarrow>
      (\<exists>pk. dispatch_signer cr scheme (\<lambda>sg. sg_public_key sg s) = Ok pk \<and>
        dispatch_signer cr scheme (\<lambda>sg. sg_verify sg pk m sig h) = Ok ()))"
proof -
  note c = signer_contract [OF assms, of scheme]
  have "sg_scheme (signer_of cr scheme) = scheme" by (cases scheme) (simp_all add: signer_defs)
  then show ?thesis
    unfolding dispatch_signer_def
    using signing_contract.sign_total [OF c, of s m h] signing_contract.signs [OF c, of s h m] by fastforce
qed

theorem dispatched_sign_verify_witness:
  "\<exists>sig. dispatch_signer ref_sign_crates Secp256k1 (\<lambda>sg. sg_sign sg (SecretBytes (replicate 32 7)) [1, 2] Keccak256) = Ok sig"
proof -
  have "replicate 32 (7 :: u8) \<noteq> replicate 32 0" by simp
  then have "valid_secret ref_sign_crates Secp256k1 (SecretBytes (replicate 32 7)) \<and> supports_hash Secp256k1 Keccak256"
    by (simp add: valid_secret_def supports_hash_def is_secp_def ref_sign_crates_def)
  with dispatched_sign_verify [OF ref_sign_laws] show ?thesis by blast
qed

text \<open>Verification is sound whatever the crates do: it accepts only under a hash
  algorithm of the scheme, and an accepted signature has passed the scheme's own check against the
  given key. A recoverable signature moreover recovers to exactly the given public key.\<close>

theorem verify_accepts_only_genuine:
  assumes "sg_verify (signer_of cr scheme) pk m sig h = Ok ()"
  shows "genuine cr scheme pk m sig h \<and> supports_hash scheme h"
  using assms by (rule signer_verify_sound)

theorem verify_accepts_only_genuine_witness:
  "genuine ref_sign_crates Ed25519 (replicate 32 7) [1] (replicate 32 7 @ toy_hash [1]) HashNone \<and> supports_hash Ed25519 HashNone"
  by (rule verify_accepts_only_genuine) (simp add: signer_defs ref_sign_crates_def)

text \<open>C37. SLIP-0010 derivation for Ed25519: it succeeds exactly on fully hardened paths (any other path is
  refused with \<open>NonHardenedRequired\<close>), key and chain code have 32 bytes, and the child of a derived
  key is the keyed hash of the parent's key and the hardened index under the parent's chain code.\<close>

theorem slip10_derivation:
  fixes hc :: "'x hd_crates"
  assumes "\<And>k m. length (hmac_sha512 hc k m) = 64"
  shows "if \<forall>seg \<in> set path. is_hardened seg
     then \<exists>k c. derive_classical hc Ed25519 seed path = Ok \<lparr>cd_secret = SecretBytes k, cd_chain_code = c\<rparr> \<and>
       length k = 32 \<and> length c = 32 \<and>
       (\<forall>i. let out = hmac_sha512 hc c ([0] @ k @ u32_be (or i 0x80000000)) in
          derive_classical hc Ed25519 seed (path @ [Hardened i]) =
            Ok \<lparr>cd_secret = SecretBytes (take 32 out), cd_chain_code = drop 32 out\<rparr>)
     else derive_classical hc Ed25519 seed path = Err (NonHardenedRequired ''ed25519'')"
proof -
  let ?i = "hmac_sha512 hc (as_bytes ''ed25519 seed'') (expose seed)"
  have l: "length (take 32 ?i) = 32" "length (drop 32 ?i) = 32" by (simp_all add: assms)
  note run = slip10_run [OF assms l, of path]
  show ?thesis
  proof (cases "\<forall>seg \<in> set path. is_hardened seg")
    case True
    with run obtain k c where
      "ofold (slip10_step hc) (take 32 ?i, drop 32 ?i) path = Ok (k, c)" "length k = 32" "length c = 32" by auto
    with True show ?thesis
      by (simp add: derive_classical_def derive_ed25519_slip10_def Let_def ofold_append slip10_step_def)
  next
    case False
    with run show ?thesis by (simp add: derive_classical_def derive_ed25519_slip10_def Let_def)
  qed
qed

definition ref_hd :: "unit hd_crates" where
  "ref_hd = \<lparr>hmac_sha512 = (\<lambda>k m. toy_hash k @ toy_hash m), xprv_new = (\<lambda>_. Inl ''seed''), child_number = (\<lambda>i _. Inr i),
     derive_child = (\<lambda>x _. Inr x), xprv_bytes = (\<lambda>_. []), xprv_chain_code = (\<lambda>_. []),
     mnemonic_parse = Inr, mnemonic_seed = (\<lambda>m _. as_bytes m)\<rparr>"

theorem slip10_derivation_witness:
  "derive_classical ref_hd Ed25519 (SecretBytes [1]) [Hardened 44, Normal 0] = Err (NonHardenedRequired ''ed25519'')"
  using slip10_derivation [of ref_hd "[Hardened 44, Normal 0]" "SecretBytes [1]"] by (simp add: ref_hd_def)

end
