(* ===== verification/Approvals.thy ===== *)
theory Approvals
  imports Static_Policy Signers
begin

text \<open>
  Approver identities and signed approvals: \<open>identity.rs\<close>, \<open>approval.rs\<close> and \<open>approver.rs\<close> of
  \<open>qfc-quorum\<close>. An approval is a signature of an approver over a preimage that names the request,
  the message hash, the decision and the time.
\<close>

subsection \<open>Identities (identity.rs)\<close>

record hardware_approver_handle =
  hah_handle :: string
  hah_public_key :: bytes
  hah_scheme :: signing_scheme

datatype approver_identity =
    ChainAccount u64 bytes bytes signing_scheme
  | ExternalKey string bytes signing_scheme
  | Hardware hardware_approver_handle
  | NestedWallet wallet_id bytes signing_scheme

primrec identity_public_key :: "approver_identity \<Rightarrow> bytes" where
  "identity_public_key (ChainAccount c a pk s) = pk"
| "identity_public_key (ExternalKey i pk s) = pk"
| "identity_public_key (Hardware h) = hah_public_key h"
| "identity_public_key (NestedWallet w pk s) = pk"

primrec identity_scheme :: "approver_identity \<Rightarrow> signing_scheme" where
  "identity_scheme (ChainAccount c a pk s) = s"
| "identity_scheme (ExternalKey i pk s) = s"
| "identity_scheme (Hardware h) = hah_scheme h"
| "identity_scheme (NestedWallet w pk s) = s"

primrec identity_key :: "(ulid \<Rightarrow> string) \<Rightarrow> approver_identity \<Rightarrow> string" where
  "identity_key ulid_str (ChainAccount c a pk s) = ''chain:'' @ show_nat (unat c) @ '':'' @ hex_encode a"
| "identity_key ulid_str (ExternalKey i pk s) = ''external:'' @ i"
| "identity_key ulid_str (Hardware h) = ''hardware:'' @ hah_handle h"
| "identity_key ulid_str (NestedWallet w pk s) = ''nested:'' @ ulid_str (wallet_ulid w)"

subsection \<open>Approvals (approval.rs)\<close>

definition MAX_APPROVAL_AGE_SECS :: i64 where "MAX_APPROVAL_AGE_SECS = 3600"

datatype approval_decision = Approve | Reject

record signed_approval =
  ap_approval_id :: approval_id
  ap_approver :: approver_identity
  ap_request_id :: request_id
  ap_message_hash :: bytes
  ap_decision :: approval_decision
  ap_timestamp_unix_ms :: i64
  ap_signature :: bytes

primrec decision_byte :: "approval_decision \<Rightarrow> u8" where
  "decision_byte Approve = 1"
| "decision_byte Reject = 0"

definition signing_preimage ::
  "(ulid \<Rightarrow> string) \<Rightarrow> approval_id \<Rightarrow> request_id \<Rightarrow> bytes \<Rightarrow> approval_decision \<Rightarrow> i64 \<Rightarrow> bytes" where
  "signing_preimage ulid_str a r message_hash decision t =
     as_bytes (ulid_str (approval_ulid a)) @ as_bytes ''|'' @
     as_bytes (ulid_str (request_ulid r)) @ as_bytes ''|'' @
     message_hash @ as_bytes ''|'' @
     [decision_byte decision] @ as_bytes ''|'' @
     i64_be t"

definition approval_preimage :: "(ulid \<Rightarrow> string) \<Rightarrow> signed_approval \<Rightarrow> bytes" where
  "approval_preimage ulid_str a =
     signing_preimage ulid_str (ap_approval_id a) (ap_request_id a) (ap_message_hash a) (ap_decision a) (ap_timestamp_unix_ms a)"

definition hash_alg_for :: "signing_scheme \<Rightarrow> hash_alg" where
  "hash_alg_for scheme =
     (case scheme of Secp256k1 \<Rightarrow> Sha256 | Secp256k1Recoverable \<Rightarrow> Sha256 | _ \<Rightarrow> HashNone)"

datatype approval_verify_error =
    WrongRequest | WrongMessage | Stale | FromTheFuture | SignerFailed signer_error

definition approval_verify :: "sign_crates \<Rightarrow> (ulid \<Rightarrow> string) \<Rightarrow> signed_approval \<Rightarrow> request_id \<Rightarrow> bytes \<Rightarrow> i64 \<Rightarrow>
   (approval_verify_error, unit) outcome" where
  "approval_verify cr ulid_str self expected_request_id expected_message_hash now =
     obind (fail_if (ap_request_id self \<noteq> expected_request_id) WrongRequest) (\<lambda>_.
     obind (fail_if (ap_message_hash self \<noteq> expected_message_hash) WrongMessage) (\<lambda>_.
     let age_ms = i64_saturating_sub now (ap_timestamp_unix_ms self) in
     obind (fail_if (age_ms < 0) FromTheFuture) (\<lambda>_.
     obind (fail_if (whole_units 1000 age_ms > MAX_APPROVAL_AGE_SECS) Stale) (\<lambda>_.
     map_err SignerFailed
       (dispatch_signer cr (identity_scheme (ap_approver self)) (\<lambda>signer.
          sg_verify signer (identity_public_key (ap_approver self)) (approval_preimage ulid_str self) (ap_signature self)
            (hash_alg_for (identity_scheme (ap_approver self)))))))))"

record approval_request =
  ar_request_id :: request_id
  ar_message_hash :: bytes
  ar_approver_set :: "approver_identity list"
  ar_threshold :: u8

definition message_hash_for :: "sign_crates \<Rightarrow> bytes \<Rightarrow> bytes" where
  "message_hash_for cr message = sha256 cr message"

subsection \<open>The coordination trait (approver.rs)\<close>

datatype quorum_error =
    Transport string
  | Timeout nat
  | InvalidApproval approval_verify_error
  | UnknownApprover string

definition verify_approval :: "sign_crates \<Rightarrow> (ulid \<Rightarrow> string) \<Rightarrow> signed_approval \<Rightarrow> approver_identity \<Rightarrow> bytes \<Rightarrow> i64 \<Rightarrow>
   (quorum_error, unit) outcome" where
  "verify_approval cr ulid_str approval expected expected_message_hash now =
     (if expected \<noteq> ap_approver approval then Err (UnknownApprover (identity_key ulid_str (ap_approver approval)))
      else map_err InvalidApproval
        (approval_verify cr ulid_str approval (ap_request_id approval) expected_message_hash now))"

subsection \<open>Facts\<close>

lemma decision_byte_inject: "decision_byte d = decision_byte d' \<longleftrightarrow> d = d'"
  by (cases d; cases d') simp_all

lemma supports_hash_alg_for: "supports_hash scheme (hash_alg_for scheme)"
  by (cases scheme) (simp_all add: supports_hash_def is_secp_def hash_alg_for_def)

lemma whole_seconds_bound: "0 \<le> ms \<Longrightarrow> whole_units 1000 ms \<le> 3600 \<longleftrightarrow> ms < 3601000"
  by (simp add: whole_units_nonneg) linarith

lemma approval_verify_Ok:
  assumes "i64_ok now" "i64_ok (ap_timestamp_unix_ms a)"
  shows "approval_verify cr u a r h now = Ok () \<longleftrightarrow>
    ap_request_id a = r \<and> ap_message_hash a = h \<and> ap_timestamp_unix_ms a \<le> now \<and> now < ap_timestamp_unix_ms a + 3601000 \<and>
    sg_verify (signer_of cr (identity_scheme (ap_approver a))) (identity_public_key (ap_approver a)) (approval_preimage u a)
      (ap_signature a) (hash_alg_for (identity_scheme (ap_approver a))) = Ok ()"
proof -
  let ?t = "ap_timestamp_unix_ms a"
  have age: "i64_saturating_sub now ?t < 0 \<longleftrightarrow> now < ?t" by (rule i64_saturating_sub_neg)
  have fresh: "?t \<le> now \<Longrightarrow> whole_units 1000 (i64_saturating_sub now ?t) \<le> 3600 \<longleftrightarrow> now < ?t + 3601000"
    using whole_seconds_bound [of "i64_saturating_sub now ?t"] by (auto simp: i64_saturating_sub_nonneg)
  show ?thesis
    by (auto simp: approval_verify_def Let_def outcome_simps age fresh dispatch_signer_def MAX_APPROVAL_AGE_SECS_def not_less)
qed

subsection \<open>Properties\<close>

text \<open>The preimage an approver signs determines everything it is about: equal preimages come from
  equal approval identifiers, requests, message hashes, decisions and times, so an approval can
  not be replayed for another request, message or decision.\<close>

theorem approval_preimage_binds:
  assumes "ulid_text u" "length h = 32" "length h' = 32" "i64_ok t" "i64_ok t'"
  shows "signing_preimage u a r h d t = signing_preimage u a' r' h' d' t' \<longleftrightarrow>
    a = a' \<and> r = r' \<and> h = h' \<and> d = d' \<and> t = t'"
proof
  assume eq: "signing_preimage u a r h d t = signing_preimage u a' r' h' d' t'"
  have l: "length (u x) = length (u y)" for x y using assms(1) by (simp add: ulid_text_length)
  from eq have "u (approval_ulid a) = u (approval_ulid a')" "u (request_ulid r) = u (request_ulid r')" "h = h'"
      "decision_byte d = decision_byte d'" "i64_be t = i64_be t'"
    using l assms(2,3) by (simp_all add: signing_preimage_def append_eq_append_conv)
  then show "a = a' \<and> r = r' \<and> h = h' \<and> d = d' \<and> t = t'"
    using assms by (auto simp: ulid_text_inject i64_be_inject approval_id.expand request_id.expand
        decision_byte_inject)
qed simp

theorem approval_preimage_binds_witness:
  "signing_preimage crockford (ApprovalId 1) (RequestId 2) (replicate 32 0) Approve 5 \<noteq>
   signing_preimage crockford (ApprovalId 1) (RequestId 2) (replicate 32 0) Reject 5"
  using approval_preimage_binds [of crockford "replicate 32 0" "replicate 32 0" 5 5 "ApprovalId 1" "RequestId 2" Approve
      "ApprovalId 1" "RequestId 2" Reject]
  by (simp add: ulid_text_crockford i64_ok_def)

text \<open>C32. An approval is accepted exactly when it names the expected request and message hash, is not
  from the future and less than 3601 whole seconds old, and carries a signature that the signer of its
  scheme accepts; such a signature is genuine for the approver's own key and preimage. (The age is
  truncated to seconds before it is compared with 3600.)\<close>

theorem approval_accepted_iff:
  assumes "i64_ok now" "i64_ok (ap_timestamp_unix_ms a)"
  shows "(approval_verify cr u a r h now = Ok () \<longleftrightarrow>
      ap_request_id a = r \<and> ap_message_hash a = h \<and> ap_timestamp_unix_ms a \<le> now \<and> now < ap_timestamp_unix_ms a + 3601000 \<and>
      sg_verify (signer_of cr (identity_scheme (ap_approver a))) (identity_public_key (ap_approver a)) (approval_preimage u a)
        (ap_signature a) (hash_alg_for (identity_scheme (ap_approver a))) = Ok ()) \<and>
    (approval_verify cr u a r h now = Ok () \<longrightarrow>
      genuine cr (identity_scheme (ap_approver a)) (identity_public_key (ap_approver a)) (approval_preimage u a)
        (ap_signature a) (hash_alg_for (identity_scheme (ap_approver a))))"
  using approval_verify_Ok [OF assms, of cr u r h] signer_verify_genuine by blast

definition demo_approval :: "bytes \<Rightarrow> signed_approval" where
  "demo_approval sig = \<lparr>ap_approval_id = ApprovalId 1, ap_approver = ExternalKey ''alice'' (replicate 32 7) Ed25519,
     ap_request_id = RequestId 2, ap_message_hash = replicate 32 9, ap_decision = Approve,
     ap_timestamp_unix_ms = 1000, ap_signature = sig\<rparr>"

theorem approval_accepted_iff_witness:
  "approval_verify ref_sign_crates crockford
     (demo_approval (replicate 32 7 @ toy_hash (approval_preimage crockford (demo_approval [])))) (RequestId 2) (replicate 32 9) 3601999 = Ok ()"
proof -
  let ?a = "demo_approval (replicate 32 7 @ toy_hash (approval_preimage crockford (demo_approval [])))"
  have "approval_preimage crockford ?a = approval_preimage crockford (demo_approval [])"
    by (simp add: approval_preimage_def demo_approval_def)
  then have "sg_verify (signer_of ref_sign_crates Ed25519) (replicate 32 7) (approval_preimage crockford ?a) (ap_signature ?a) HashNone = Ok ()"
    by (simp add: signer_defs ref_sign_crates_def demo_approval_def)
  with approval_accepted_iff [of 3601999 ?a ref_sign_crates crockford "RequestId 2" "replicate 32 9"] show ?thesis
    by (simp add: i64_ok_def demo_approval_def hash_alg_for_def)
qed

end
