(* ===== verification/Approver_Registry.thy ===== *)
theory Approver_Registry
  imports Approvals "HOL-Library.AList"
begin

text \<open>
  The in-memory approver registry: \<open>registry/types.rs\<close> and \<open>registry/memory.rs\<close> of \<open>qfc-quorum\<close>.
  The two hash maps are association lists, whose order stands for the unspecified iteration order.
  Fresh identifiers and clock readings are arguments. The walk over nested wallets is a loop that the
  code does not bound, so it is a partial function, proved to return.
\<close>

subsection \<open>Data (types.rs)\<close>

definition MAX_NESTING_DEPTH :: u8 where "MAX_NESTING_DEPTH = 3"

datatype approver_status = Active | Revoked

record approver_record =
  rec_approver_id :: approver_id
  rec_identity :: approver_identity
  rec_scheme :: signing_scheme
  rec_label :: string
  rec_owner_id :: owner_id
  rec_webhook_url :: "string option"
  rec_status :: approver_status
  rec_added_at_unix_ms :: i64

record approver_set =
  set_id :: approver_set_id
  set_name :: string
  set_owner_id :: owner_id
  set_members :: "approver_id list"
  set_threshold :: u8
  set_total :: u8
  set_quorum_timeout_secs :: "u32 option"
  set_created_at_unix_ms :: i64

record approver_create =
  ac_identity :: approver_identity
  ac_label :: string
  ac_owner_id :: owner_id
  ac_webhook_url :: "string option"

record approver_set_create =
  sc_name :: string
  sc_owner_id :: owner_id
  sc_members :: "approver_id list"
  sc_threshold :: u8
  sc_total :: u8
  sc_quorum_timeout_secs :: "u32 option"

datatype registry_error =
    RegistryIo string
  | ApproverNotFound approver_id
  | ApproverSetNotFound approver_set_id
  | UnknownMember approver_id
  | RevokedMember approver_id
  | MemberCountMismatch nat u8
  | InvalidThreshold u8 u8
  | DuplicateMember approver_id
  | NestingCycle wallet_id
  | NestingTooDeep u8

fun check_unique :: "approver_id list \<Rightarrow> approver_id list \<Rightarrow> (registry_error, unit) outcome" where
  "check_unique seen [] = Ok ()"
| "check_unique seen (m # ms) = (if m \<in> set seen then Err (DuplicateMember m) else check_unique (m # seen) ms)"

definition validate_set_shape :: "approver_set_create \<Rightarrow> (registry_error, unit) outcome" where
  "validate_set_shape create =
     obind (fail_if (sc_threshold create = 0 \<or> sc_threshold create > sc_total create)
       (InvalidThreshold (sc_threshold create) (sc_total create))) (\<lambda>_.
     obind (fail_if (length (sc_members create) \<noteq> unat (sc_total create))
       (MemberCountMismatch (length (sc_members create)) (sc_total create))) (\<lambda>_.
     check_unique [] (sc_members create)))"

subsection \<open>The registry (memory.rs)\<close>

record registry =
  reg_approvers :: "(approver_id \<times> approver_record) list"
  reg_sets :: "(approver_set_id \<times> approver_set) list"

definition registry_new :: registry where
  "registry_new = \<lparr>reg_approvers = [], reg_sets = []\<rparr>"

definition registry_now_unix_ms :: "int \<Rightarrow> i64" where
  "registry_now_unix_ms nanos = (let ms = whole_units 1000000 nanos in if i64_ok ms then ms else 2 ^ 63 - 1)"

definition add_approver :: "approver_id \<Rightarrow> int \<Rightarrow> approver_create \<Rightarrow> registry \<Rightarrow> (registry_error, approver_record) outcome \<times> registry" where
  "add_approver fresh nanos create reg =
     (let record = \<lparr>rec_approver_id = fresh, rec_identity = ac_identity create,
            rec_scheme = identity_scheme (ac_identity create), rec_label = ac_label create,
            rec_owner_id = ac_owner_id create, rec_webhook_url = ac_webhook_url create, rec_status = Active,
            rec_added_at_unix_ms = registry_now_unix_ms nanos\<rparr> in
      (Ok record, reg\<lparr>reg_approvers := AList.update fresh record (reg_approvers reg)\<rparr>))"

definition revoke_approver :: "approver_id \<Rightarrow> registry \<Rightarrow> (registry_error, unit) outcome \<times> registry" where
  "revoke_approver i reg =
     (case map_of (reg_approvers reg) i of
        None \<Rightarrow> (Err (ApproverNotFound i), reg)
      | Some r \<Rightarrow> (Ok (), reg\<lparr>reg_approvers := AList.update i (r\<lparr>rec_status := Revoked\<rparr>) (reg_approvers reg)\<rparr>))"

definition get_approver :: "approver_id \<Rightarrow> registry \<Rightarrow> (registry_error, approver_record) outcome" where
  "get_approver i reg = ok_or (map_of (reg_approvers reg) i) (ApproverNotFound i)"

definition list_approvers_by_owner :: "owner_id \<Rightarrow> bool \<Rightarrow> registry \<Rightarrow> (registry_error, approver_record list) outcome" where
  "list_approvers_by_owner owner include_revoked reg =
     Ok (sort_key rec_added_at_unix_ms
       (filter (\<lambda>r. include_revoked \<or> rec_status r = Active)
         (filter (\<lambda>r. rec_owner_id r = owner) (map snd (reg_approvers reg)))))"

definition get_approver_set :: "approver_set_id \<Rightarrow> registry \<Rightarrow> (registry_error, approver_set) outcome" where
  "get_approver_set i reg = ok_or (map_of (reg_sets reg) i) (ApproverSetNotFound i)"

definition list_approver_sets :: "owner_id \<Rightarrow> registry \<Rightarrow> (registry_error, approver_set list) outcome" where
  "list_approver_sets owner reg =
     Ok (sort_key set_created_at_unix_ms (filter (\<lambda>s. set_owner_id s = owner) (map snd (reg_sets reg))))"

text \<open>The walk over nested wallets. The stack is a list with its top first.\<close>

definition nested_wallet_of :: "(approver_id \<times> approver_record) list \<Rightarrow> approver_id \<Rightarrow> wallet_id option" where
  "nested_wallet_of approvers m =
     (case map_of approvers m of
        None \<Rightarrow> None
      | Some r \<Rightarrow> (case rec_identity r of NestedWallet w pk s \<Rightarrow> Some w | _ \<Rightarrow> None))"

definition pushes_for_member :: "(approver_id \<times> approver_record) list \<Rightarrow> wallet_id \<Rightarrow> u8 \<Rightarrow> approver_id list \<Rightarrow> approver_id \<Rightarrow>
   (wallet_id \<times> u8) list" where
  "pushes_for_member approvers w d members member =
     (if nested_wallet_of approvers member = Some w
      then List.map_filter (\<lambda>other. case nested_wallet_of approvers other of
             Some ow \<Rightarrow> if ow \<noteq> w then Some (ow, d + 1) else None | None \<Rightarrow> None) members
      else [])"

definition pushes :: "(approver_id \<times> approver_record) list \<Rightarrow> (approver_set_id \<times> approver_set) list \<Rightarrow> wallet_id \<Rightarrow> u8 \<Rightarrow>
   (wallet_id \<times> u8) list" where
  "pushes approvers sets w d =
     concat (map (\<lambda>s. concat (map (pushes_for_member approvers w d (set_members s)) (set_members s))) (map snd sets))"

partial_function (option) walk_loop ::
  "(approver_id \<times> approver_record) list \<Rightarrow> (approver_set_id \<times> approver_set) list \<Rightarrow> wallet_id list \<Rightarrow> (wallet_id \<times> u8) list \<Rightarrow>
   (registry_error, unit) outcome option" where
  "walk_loop approvers sets visited stack =
     (if stack = [] then Some (Ok ())
      else if snd (hd stack) > MAX_NESTING_DEPTH then Some (Err (NestingTooDeep MAX_NESTING_DEPTH))
      else if fst (hd stack) \<in> set visited then Some (Err (NestingCycle (fst (hd stack))))
      else walk_loop approvers sets (fst (hd stack) # visited)
        (rev (pushes approvers sets (fst (hd stack)) (snd (hd stack))) @ tl stack))"

definition walk_nested :: "wallet_id \<Rightarrow> (approver_set_id \<times> approver_set) list \<Rightarrow> (approver_id \<times> approver_record) list \<Rightarrow> u8 \<Rightarrow>
   (registry_error, unit) outcome option" where
  "walk_nested start sets approvers depth = walk_loop approvers sets [] [(start, depth)]"

definition resolve_member :: "registry \<Rightarrow> approver_id \<Rightarrow> (registry_error, wallet_id option) outcome" where
  "resolve_member reg m =
     obind (ok_or (map_of (reg_approvers reg) m) (UnknownMember m)) (\<lambda>r.
     obind (fail_if (rec_status r \<noteq> Active) (RevokedMember m)) (\<lambda>_.
     Ok (case rec_identity r of NestedWallet w pk s \<Rightarrow> Some w | _ \<Rightarrow> None)))"

fun walk_all :: "registry \<Rightarrow> wallet_id list \<Rightarrow> (registry_error, unit) outcome option" where
  "walk_all reg [] = Some (Ok ())"
| "walk_all reg (w # ws) =
     Option.bind (walk_nested w (reg_sets reg) (reg_approvers reg) 0) (\<lambda>res.
       case res of Ok _ \<Rightarrow> walk_all reg ws | Err e \<Rightarrow> Some (Err e) | Panic m \<Rightarrow> Some (Panic m))"

text \<open>\<open>None\<close> stands for a call that does not return.\<close>

definition create_approver_set :: "approver_set_id \<Rightarrow> int \<Rightarrow> approver_set_create \<Rightarrow> registry \<Rightarrow>
   ((registry_error, approver_set) outcome \<times> registry) option" where
  "create_approver_set fresh nanos create reg =
     (case obind (validate_set_shape create) (\<lambda>_. omap (resolve_member reg) (sc_members create)) of
        Err e \<Rightarrow> Some (Err e, reg)
      | Panic m \<Rightarrow> Some (Panic m, reg)
      | Ok resolved \<Rightarrow>
          Option.bind (walk_all reg (List.map_filter (\<lambda>x. x) resolved)) (\<lambda>res.
            case res of
              Err e \<Rightarrow> Some (Err e, reg)
            | Panic m \<Rightarrow> Some (Panic m, reg)
            | Ok _ \<Rightarrow>
                let st = \<lparr>set_id = fresh, set_name = sc_name create, set_owner_id = sc_owner_id create,
                      set_members = sc_members create, set_threshold = sc_threshold create, set_total = sc_total create,
                      set_quorum_timeout_secs = sc_quorum_timeout_secs create,
                      set_created_at_unix_ms = registry_now_unix_ms nanos\<rparr> in
                Some (Ok st, reg\<lparr>reg_sets := AList.update fresh st (reg_sets reg)\<rparr>)))"

subsection \<open>The walk returns\<close>

lemma walk_loop_Nil [simp]: "walk_loop approvers sets visited [] = Some (Ok ())"
  by (simp add: walk_loop.simps)

lemma walk_loop_Cons:
  "walk_loop approvers sets visited ((w, d) # rest) =
     (if d > MAX_NESTING_DEPTH then Some (Err (NestingTooDeep MAX_NESTING_DEPTH))
      else if w \<in> set visited then Some (Err (NestingCycle w))
      else walk_loop approvers sets (w # visited) (rev (pushes approvers sets w d) @ rest))"
  by (subst walk_loop.simps) simp

text \<open>Two nested wallets are neighbours when some set has both as members.\<close>

definition neighbours :: "(approver_id \<times> approver_record) list \<Rightarrow> (approver_set_id \<times> approver_set) list \<Rightarrow> wallet_id \<Rightarrow> wallet_id \<Rightarrow> bool" where
  "neighbours approvers sets v w \<longleftrightarrow> v \<noteq> w \<and>
     (\<exists>s \<in> snd ` set sets. \<exists>m \<in> set (set_members s). \<exists>n \<in> set (set_members s).
        nested_wallet_of approvers m = Some v \<and> nested_wallet_of approvers n = Some w)"

lemma neighbours_sym: "neighbours approvers sets v w \<Longrightarrow> neighbours approvers sets w v"
  unfolding neighbours_def by blast

lemma in_set_map_filter: "y \<in> set (List.map_filter f xs) \<longleftrightarrow> (\<exists>x \<in> set xs. f x = Some y)"
  by (induction xs) (auto simp: map_filter_simps split: option.splits)

lemma set_pushes_for_member:
  "set (pushes_for_member approvers w d members m) =
     {(v, d + 1) | v. nested_wallet_of approvers m = Some w \<and> v \<noteq> w \<and> (\<exists>n \<in> set members. nested_wallet_of approvers n = Some v)}"
  by (auto simp: pushes_for_member_def in_set_map_filter split: option.splits if_splits)

lemma set_pushes: "set (pushes approvers sets w d) = {(v, d + 1) | v. neighbours approvers sets w v}"
  unfolding pushes_def neighbours_def by (auto simp: set_pushes_for_member)

definition nested_wallets :: "(approver_id \<times> approver_record) list \<Rightarrow> wallet_id set" where
  "nested_wallets approvers = {w. \<exists>m. nested_wallet_of approvers m = Some w}"

lemma finite_nested_wallets: "finite (nested_wallets approvers)"
proof (rule finite_subset)
  show "nested_wallets approvers \<subseteq> (\<lambda>m. the (nested_wallet_of approvers m)) ` fst ` set approvers"
  proof
    fix w assume "w \<in> nested_wallets approvers"
    then obtain m where m: "nested_wallet_of approvers m = Some w" by (auto simp: nested_wallets_def)
    then have "m \<in> fst ` set approvers"
      by (auto simp: nested_wallet_of_def map_of_eq_None_iff split: option.splits dest!: map_of_SomeD intro!: image_eqI [rotated])
    with m show "w \<in> (\<lambda>m. the (nested_wallet_of approvers m)) ` fst ` set approvers" by force
  qed
qed simp

definition unvisited :: "(approver_id \<times> approver_record) list \<Rightarrow> wallet_id list \<Rightarrow> (wallet_id \<times> u8) list \<Rightarrow> wallet_id set" where
  "unvisited approvers visited stack = (nested_wallets approvers \<union> fst ` set stack) - set visited"

lemma unvisited_step:
  assumes "w \<notin> set visited"
  shows "card (unvisited approvers (w # visited) (rev (pushes approvers sets w d) @ rest)) <
    card (unvisited approvers visited ((w, d) # rest))"
proof (rule psubset_card_mono)
  show "finite (unvisited approvers visited ((w, d) # rest))"
    by (simp add: unvisited_def finite_nested_wallets)
  have "fst ` set (pushes approvers sets w d) \<subseteq> nested_wallets approvers"
    by (auto simp: set_pushes neighbours_def nested_wallets_def)
  then show "unvisited approvers (w # visited) (rev (pushes approvers sets w d) @ rest) \<subset> unvisited approvers visited ((w, d) # rest)"
    using assms by (auto simp: unvisited_def)
qed

text \<open>Induction over the iterations of the loop.\<close>

lemma walk_induct [case_names step]:
  assumes "\<And>visited stack. (\<And>w d rest. stack = (w, d) # rest \<Longrightarrow> w \<notin> set visited \<Longrightarrow>
    P (w # visited) (rev (pushes approvers sets w d) @ rest)) \<Longrightarrow> P visited stack"
  shows "P visited stack"
proof (induction "card (unvisited approvers visited stack)" arbitrary: visited stack rule: less_induct)
  case less
  show ?case
  proof (rule assms)
    fix w d rest
    assume "stack = (w, d) # rest" "w \<notin> set visited"
    then show "P (w # visited) (rev (pushes approvers sets w d) @ rest)" using less unvisited_step by metis
  qed
qed

lemma walk_loop_returns: "\<exists>res. walk_loop approvers sets visited stack = Some res \<and> (\<forall>m. res \<noteq> Panic m)"
proof (induction visited stack rule: walk_induct [where approvers = approvers and sets = sets])
  case (step visited stack)
  then show ?case by (cases stack) (auto simp: walk_loop_Cons)
qed

lemma walk_all_returns: "\<exists>res. walk_all reg ws = Some res \<and> (\<forall>m. res \<noteq> Panic m)"
proof (induction ws)
  case (Cons w ws)
  obtain r where "walk_nested w (reg_sets reg) (reg_approvers reg) 0 = Some r" "\<forall>m. r \<noteq> Panic m"
    unfolding walk_nested_def using walk_loop_returns by blast
  with Cons show ?case by (cases r) simp_all
qed simp

subsection \<open>What the walk accepts\<close>

lemma revisit_rejected:
  "\<exists>(v, d) \<in> set stack. v \<in> set visited \<Longrightarrow> walk_loop approvers sets visited stack \<noteq> Some (Ok ())"
proof (induction visited stack rule: walk_induct [where approvers = approvers and sets = sets])
  case (step visited stack)
  then obtain w d rest where st: "stack = (w, d) # rest" by (cases stack) auto
  have "w \<in> set visited \<or> (\<exists>(v, d) \<in> set (rev (pushes approvers sets w d) @ rest). v \<in> set (w # visited))"
    using step.prems unfolding st by auto
  then show ?case using step.IH [OF st] unfolding st walk_loop_Cons by auto
qed

lemma neighbour_rejected:
  "\<exists>(v, d) \<in> set stack. \<exists>u \<in> set visited. neighbours approvers sets v u \<Longrightarrow>
   walk_loop approvers sets visited stack \<noteq> Some (Ok ())"
proof (induction visited stack rule: walk_induct [where approvers = approvers and sets = sets])
  case (step visited stack)
  from step.prems obtain v d u where v: "(v, d) \<in> set stack" "u \<in> set visited" "neighbours approvers sets v u" by blast
  then obtain w e rest where st: "stack = (w, e) # rest" by (cases stack) auto
  show ?case
  proof (cases "e > MAX_NESTING_DEPTH \<or> w \<in> set visited")
    case True
    then show ?thesis by (auto simp: st walk_loop_Cons)
  next
    case False
    have "walk_loop approvers sets (w # visited) (rev (pushes approvers sets w e) @ rest) \<noteq> Some (Ok ())"
    proof (cases "w = v")
      case True
      with v(3) have "(u, e + 1) \<in> set (pushes approvers sets w e)" by (auto simp: set_pushes)
      with v(2) show ?thesis by (intro revisit_rejected) auto
    next
      case False
      with v st have "(v, d) \<in> set rest" by auto
      with v(2,3) step.IH [OF st] \<open>\<not> (e > MAX_NESTING_DEPTH \<or> w \<in> set visited)\<close> show ?thesis by auto
    qed
    with False show ?thesis by (simp add: st walk_loop_Cons)
  qed
qed

lemma walk_nested_Ok:
  "walk_nested w sets approvers 0 = Some (Ok ()) \<longleftrightarrow> (\<nexists>v. neighbours approvers sets w v)"
proof
  assume ok: "walk_nested w sets approvers 0 = Some (Ok ())"
  have "walk_loop approvers sets [w] (rev (pushes approvers sets w 0)) = Some (Ok ())"
    using ok by (simp add: walk_nested_def walk_loop_Cons split: if_splits)
  moreover have "walk_loop approvers sets [w] (rev (pushes approvers sets w 0)) \<noteq> Some (Ok ())" if "neighbours approvers sets w v" for v
    using that neighbours_sym [OF that] by (intro neighbour_rejected) (auto simp: set_pushes)
  ultimately show "\<nexists>v. neighbours approvers sets w v" by blast
next
  assume "\<nexists>v. neighbours approvers sets w v"
  then have "set (pushes approvers sets w 0) = {}" by (simp add: set_pushes)
  then show "walk_nested w sets approvers 0 = Some (Ok ())"
    by (simp add: walk_nested_def walk_loop_Cons MAX_NESTING_DEPTH_def)
qed

subsection \<open>Shape of the sets\<close>

lemma check_unique_Ok: "check_unique seen ms = Ok () \<longleftrightarrow> distinct ms \<and> set ms \<inter> set seen = {}"
  by (induction seen ms rule: check_unique.induct) auto

lemma validate_set_shape_Ok:
  "validate_set_shape c = Ok () \<longleftrightarrow> 1 \<le> unat (sc_threshold c) \<and> sc_threshold c \<le> sc_total c \<and>
     length (sc_members c) = unat (sc_total c) \<and> distinct (sc_members c)"
proof -
  have "1 \<le> unat (sc_threshold c) \<longleftrightarrow> sc_threshold c \<noteq> 0" by (simp add: Suc_le_eq unat_gt_0)
  then show ?thesis by (auto simp: validate_set_shape_def outcome_simps check_unique_Ok not_less)
qed

definition set_wf :: "registry \<Rightarrow> approver_set_id \<Rightarrow> approver_set \<Rightarrow> bool" where
  "set_wf reg i s \<longleftrightarrow> set_id s = i \<and> 1 \<le> unat (set_threshold s) \<and> set_threshold s \<le> set_total s \<and>
     length (set_members s) = unat (set_total s) \<and> distinct (set_members s) \<and>
     (\<forall>m \<in> set (set_members s). map_of (reg_approvers reg) m \<noteq> None)"

definition registry_inv :: "registry \<Rightarrow> bool" where
  "registry_inv reg \<longleftrightarrow> (\<forall>i s. map_of (reg_sets reg) i = Some s \<longrightarrow> set_wf reg i s) \<and>
     (\<forall>i r. map_of (reg_approvers reg) i = Some r \<longrightarrow> rec_approver_id r = i \<and> rec_scheme r = identity_scheme (rec_identity r))"

datatype registry_op =
    AddApprover approver_id int approver_create
  | RevokeApprover approver_id
  | CreateSet approver_set_id int approver_set_create

fun registry_step :: "registry_op \<Rightarrow> registry \<Rightarrow> registry" where
  "registry_step (AddApprover i t c) reg = snd (add_approver i t c reg)"
| "registry_step (RevokeApprover i) reg = snd (revoke_approver i reg)"
| "registry_step (CreateSet i t c) reg = (case create_approver_set i t c reg of Some (_, reg') \<Rightarrow> reg' | None \<Rightarrow> reg)"

lemma resolved_known: "omap (resolve_member reg) ms = Ok rs \<Longrightarrow> m \<in> set ms \<Longrightarrow>
  \<exists>r. map_of (reg_approvers reg) m = Some r \<and> rec_status r = Active"
  by (induction ms arbitrary: rs) (auto simp: outcome_simps resolve_member_def)

lemma create_set_cases:
  "\<exists>res reg'. create_approver_set i t c reg = Some (res, reg') \<and>
     ((\<exists>e. res = Err e) \<and> reg' = reg \<or>
      (\<exists>s. res = Ok s \<and> reg' = reg\<lparr>reg_sets := AList.update i s (reg_sets reg)\<rparr> \<and> set_wf reg i s \<and>
         (\<forall>m \<in> set (set_members s). \<exists>r. map_of (reg_approvers reg) m = Some r \<and> rec_status r = Active)))"
proof (cases "obind (validate_set_shape c) (\<lambda>_. omap (resolve_member reg) (sc_members c))")
  case (Ok rs)
  then have v: "validate_set_shape c = Ok ()" and r: "omap (resolve_member reg) (sc_members c) = Ok rs"
    by (auto simp: obind_eq_Ok)
  obtain w where w: "walk_all reg (List.map_filter (\<lambda>x. x) rs) = Some w" "\<forall>m. w \<noteq> Panic m"
    using walk_all_returns by blast
  show ?thesis
  proof (cases w)
    case (Ok u)
    define s where "s = \<lparr>set_id = i, set_name = sc_name c, set_owner_id = sc_owner_id c, set_members = sc_members c,
      set_threshold = sc_threshold c, set_total = sc_total c, set_quorum_timeout_secs = sc_quorum_timeout_secs c,
      set_created_at_unix_ms = registry_now_unix_ms t\<rparr>"
    have "create_approver_set i t c reg = Some (Ok s, reg\<lparr>reg_sets := AList.update i s (reg_sets reg)\<rparr>)"
      using w Ok \<open>obind _ _ = Ok rs\<close> by (simp add: create_approver_set_def Let_def s_def)
    moreover have "\<forall>m \<in> set (set_members s). \<exists>r. map_of (reg_approvers reg) m = Some r \<and> rec_status r = Active"
      using resolved_known [OF r] by (simp add: s_def)
    moreover from this have "set_wf reg i s"
      using v by (auto simp: set_wf_def s_def validate_set_shape_Ok)
    ultimately show ?thesis by blast
  qed (use w \<open>obind _ _ = Ok rs\<close> in \<open>auto simp: create_approver_set_def\<close>)
next
  case (Panic m)
  have "check_unique seen ms \<noteq> Panic m" for seen ms by (induction seen ms rule: check_unique.induct) auto
  then have "validate_set_shape c \<noteq> Panic m" by (auto simp: validate_set_shape_def outcome_simps)
  moreover have "omap (resolve_member reg) (sc_members c) \<noteq> Panic m"
    by (rule omap_not_Panic) (auto simp: resolve_member_def outcome_simps)
  ultimately show ?thesis using Panic by (auto simp: outcome_simps)
qed (auto simp: create_approver_set_def)

lemma registry_step_inv:
  assumes "registry_inv reg"
  shows "registry_inv (registry_step op reg)"
proof (cases op)
  case (AddApprover i t c)
  then show ?thesis
    using assms by (auto simp: registry_inv_def set_wf_def add_approver_def Let_def update_conv')
next
  case (RevokeApprover i)
  then show ?thesis
    using assms by (auto simp: registry_inv_def set_wf_def revoke_approver_def update_conv' split: option.splits)
next
  case (CreateSet i t c)
  with create_set_cases [of i t c reg] assms show ?thesis
    by (auto simp: registry_inv_def set_wf_def update_conv' split: if_splits)
qed

subsection \<open>Properties\<close>

text \<open>C28. The walk over nested wallets always returns, although the code bounds neither the stack nor the
  number of iterations by a counter: whatever approvers and sets are registered, creating a set
  returns a result, and an error leaves the registry unchanged.\<close>

theorem create_approver_set_returns:
  "(\<exists>res. walk_nested w sets approvers d = Some res) \<and>
   (\<exists>res reg'. create_approver_set i t c reg = Some (res, reg') \<and> ((\<exists>s. res = Ok s) \<or> (\<exists>e. res = Err e) \<and> reg' = reg))"
  using create_set_cases [of i t c reg] walk_loop_returns [of approvers sets "[]" "[(w, d)]"]
  unfolding walk_nested_def by blast

text \<open>Every approver set in a registry reached from the empty one by any operations is well formed: its
  threshold is at least one and at most its total, it has exactly that many distinct members, and
  all of them are registered.\<close>

theorem registry_sets_well_formed:
  assumes "get_approver_set i (fold registry_step ops registry_new) = Ok s"
  shows "set_id s = i \<and> 1 \<le> unat (set_threshold s) \<and> set_threshold s \<le> set_total s \<and>
    length (set_members s) = unat (set_total s) \<and> distinct (set_members s) \<and>
    (\<forall>m \<in> set (set_members s). \<exists>r. get_approver m (fold registry_step ops registry_new) = Ok r \<and> rec_approver_id r = m)"
proof -
  have "registry_inv reg \<Longrightarrow> registry_inv (fold registry_step ops reg)" for reg
    by (induction ops arbitrary: reg) (simp_all add: registry_step_inv)
  moreover have "registry_inv registry_new" by (simp add: registry_inv_def registry_new_def)
  ultimately have inv: "registry_inv (fold registry_step ops registry_new)" by blast
  with assms have "set_wf (fold registry_step ops registry_new) i s"
    by (auto simp: registry_inv_def get_approver_set_def outcome_simps)
  with inv show ?thesis by (fastforce simp: set_wf_def registry_inv_def get_approver_def)
qed

definition demo_ops :: "registry_op list" where
  "demo_ops =
     [AddApprover (ApproverId 1) 0 \<lparr>ac_identity = NestedWallet (WalletId 10) [1] Ed25519, ac_label = ''a'', ac_owner_id = OwnerId ''o'', ac_webhook_url = None\<rparr>,
      AddApprover (ApproverId 2) 0 \<lparr>ac_identity = NestedWallet (WalletId 20) [2] Ed25519, ac_label = ''b'', ac_owner_id = OwnerId ''o'', ac_webhook_url = None\<rparr>,
      CreateSet (ApproverSetId 7) 0 \<lparr>sc_name = ''treasury'', sc_owner_id = OwnerId ''o'', sc_members = [ApproverId 1, ApproverId 2],
        sc_threshold = 2, sc_total = 2, sc_quorum_timeout_secs = None\<rparr>]"

definition demo_set :: approver_set where
  "demo_set = \<lparr>set_id = ApproverSetId 7, set_name = ''treasury'', set_owner_id = OwnerId ''o'', set_members = [ApproverId 1, ApproverId 2],
     set_threshold = 2, set_total = 2, set_quorum_timeout_secs = None, set_created_at_unix_ms = 0\<rparr>"

lemma demo_registry:
  "get_approver_set (ApproverSetId 7) (fold registry_step demo_ops registry_new) = Ok demo_set"
proof -
  have "walk_nested w [] approvers 0 = Some (Ok ())" for w approvers
    by (simp add: walk_nested_Ok neighbours_def)
  then show ?thesis
    by (simp add: demo_ops_def demo_set_def registry_new_def add_approver_def create_approver_set_def validate_set_shape_def
        resolve_member_def map_filter_simps get_approver_set_def registry_now_unix_ms_def whole_units_def i64_ok_def Let_def)
qed

theorem registry_sets_well_formed_witness:
  "set_id demo_set = ApproverSetId 7 \<and> 1 \<le> unat (set_threshold demo_set) \<and> distinct (set_members demo_set)"
  using registry_sets_well_formed [OF demo_registry] by blast

text \<open>C20. What the nesting check decides: the walk accepts a nested wallet exactly when no existing set has it
  together with another nested wallet. The walk crosses a set from one nested member to the other and
  back, so it reports a cycle or excessive depth for every pair of nested wallets that share a set, also
  where no wallet is reachable from itself.\<close>

theorem nested_walk_accepts_iff:
  "walk_nested w sets approvers 0 = Some (Ok ()) \<longleftrightarrow>
     (\<forall>(i, s) \<in> set sets. \<forall>m \<in> set (set_members s). \<forall>n \<in> set (set_members s). \<forall>v.
        nested_wallet_of approvers m = Some w \<longrightarrow> nested_wallet_of approvers n = Some v \<longrightarrow> v = w)"
  unfolding walk_nested_Ok neighbours_def by force

theorem nested_walk_accepts_iff_witness:
  "walk_nested (WalletId 10) (reg_sets (fold registry_step demo_ops registry_new))
     (reg_approvers (fold registry_step demo_ops registry_new)) 0 \<noteq> Some (Ok ())"
proof -
  have "walk_nested w [] approvers 0 = Some (Ok ())" for w approvers
    by (simp add: walk_nested_Ok neighbours_def)
  then have "reg_sets (fold registry_step demo_ops registry_new) = [(ApproverSetId 7, demo_set)]"
    and "nested_wallet_of (reg_approvers (fold registry_step demo_ops registry_new)) (ApproverId 1) = Some (WalletId 10)"
    and "nested_wallet_of (reg_approvers (fold registry_step demo_ops registry_new)) (ApproverId 2) = Some (WalletId 20)"
    by (simp_all add: demo_ops_def demo_set_def registry_new_def add_approver_def create_approver_set_def validate_set_shape_def
        resolve_member_def map_filter_simps registry_now_unix_ms_def whole_units_def i64_ok_def nested_wallet_of_def Let_def)
  then show ?thesis unfolding nested_walk_accepts_iff by (auto simp: demo_set_def)
qed

end
