(* ===== verification/Approval_Collection.thy ===== *)
theory Approval_Collection
  imports Approvals
begin

text \<open>
  Recording approvals and collecting a quorum of them: the store trait and its in-memory
  implementation (\<open>store/mod.rs\<close>, \<open>store/memory.rs\<close>), the collector the service uses
  (\<open>approvers/orchestrating.rs\<close>) and the mock collector (\<open>mock.rs\<close>) of \<open>qfc-quorum\<close>.

  A collector polls. What it observes is a sequence of store states and of times elapsed since the
  call, both arbitrary: other tasks record approvals between polls. The loop is a partial function,
  \<open>None\<close> when it never returns.
\<close>

subsection \<open>The store\<close>

datatype approval_store_error =
    ApprovalIo string
  | DuplicateApproval approver_id request_id

datatype record_outcome = Inserted | AlreadyRecorded

record approval_store =
  as_inner :: "(request_id \<times> approver_id) \<rightharpoonup> (approval_id \<times> signed_approval)"
  as_by_request :: "request_id \<rightharpoonup> (approver_id \<times> approval_id) list"

definition approval_store_new :: approval_store where
  "approval_store_new = \<lparr>as_inner = Map.empty, as_by_request = Map.empty\<rparr>"

definition record_approval :: "signed_approval \<Rightarrow> approver_id \<Rightarrow> approval_store \<Rightarrow>
   (approval_store_error, record_outcome) outcome \<times> approval_store" where
  "record_approval approval approver st =
     (let key = (ap_request_id approval, approver) in
      case as_inner st key of
        Some (prev_id, _) \<Rightarrow>
          (if prev_id = ap_approval_id approval then Ok AlreadyRecorded
           else Err (DuplicateApproval approver (ap_request_id approval)), st)
      | None \<Rightarrow>
          (Ok Inserted,
           st\<lparr>as_inner := (as_inner st)(key \<mapsto> (ap_approval_id approval, approval)),
              as_by_request := (as_by_request st)(ap_request_id approval \<mapsto>
                (case as_by_request st (ap_request_id approval) of Some l \<Rightarrow> l | None \<Rightarrow> []) @ [(approver, ap_approval_id approval)])\<rparr>))"

definition list_for_request :: "request_id \<Rightarrow> approval_store \<Rightarrow> (approval_store_error, signed_approval list) outcome" where
  "list_for_request r st =
     (case as_by_request st r of
        None \<Rightarrow> Ok []
      | Some l \<Rightarrow> Ok (List.map_filter (\<lambda>(approver, _). map_option snd (as_inner st (r, approver))) l))"

text \<open>A sequence of submissions.\<close>

definition run_votes :: "(signed_approval \<Rightarrow> approver_id \<Rightarrow> 's \<Rightarrow> (approval_store_error, record_outcome) outcome \<times> 's) \<Rightarrow>
   (signed_approval \<times> approver_id) list \<Rightarrow> 's \<Rightarrow> 's" where
  "run_votes record_vote xs s = fold (\<lambda>(a, who) s. snd (record_vote a who s)) xs s"

text \<open>
  The contract: \<open>ballots s r\<close> lists who has voted on a request, and how, oldest first. Each
  approver votes at most once.
\<close>

locale ballot_store =
  fixes inv :: "'s \<Rightarrow> bool"
    and ballots :: "'s \<Rightarrow> request_id \<Rightarrow> (approver_id \<times> signed_approval) list"
    and record_vote :: "signed_approval \<Rightarrow> approver_id \<Rightarrow> 's \<Rightarrow> (approval_store_error, record_outcome) outcome \<times> 's"
    and votes :: "request_id \<Rightarrow> 's \<Rightarrow> (approval_store_error, signed_approval list) outcome"
  assumes once: "inv s \<Longrightarrow> distinct (map fst (ballots s r))"
    and first_vote: "inv s \<Longrightarrow> who \<notin> fst ` set (ballots s (ap_request_id a)) \<Longrightarrow>
      \<exists>s'. record_vote a who s = (Ok Inserted, s') \<and> inv s' \<and>
        ballots s' = (ballots s)(ap_request_id a := ballots s (ap_request_id a) @ [(who, a)])"
    and later_vote: "inv s \<Longrightarrow> (who, b) \<in> set (ballots s (ap_request_id a)) \<Longrightarrow>
      record_vote a who s = (if ap_approval_id b = ap_approval_id a then Ok AlreadyRecorded
        else Err (DuplicateApproval who (ap_request_id a)), s)"
    and votes: "inv s \<Longrightarrow> votes r s = Ok (map snd (ballots s r))"
begin

lemma record_inv: "inv s \<Longrightarrow> inv (snd (record_vote a who s))"
  using first_vote [of s who a] later_vote [of s who _ a]
  by (cases "who \<in> fst ` set (ballots s (ap_request_id a))") force+

lemma record_keeps: "inv s \<Longrightarrow> x \<in> set (ballots s r) \<Longrightarrow> x \<in> set (ballots (snd (record_vote a who s)) r)"
  using first_vote [of s who a] later_vote [of s who _ a]
  by (cases "who \<in> fst ` set (ballots s (ap_request_id a))") force+

lemma run_votes_inv: "inv s \<Longrightarrow> inv (run_votes record_vote xs s)"
  unfolding run_votes_def by (induction xs arbitrary: s) (auto simp: record_inv split: prod.splits)

text \<open>A vote once cast stays, and a second one by the same approver never counts.\<close>

lemma vote_is_final:
  assumes "inv s" "(who, b) \<in> set (ballots s r)"
  shows "(who, b') \<in> set (ballots (run_votes record_vote xs s) r) \<longleftrightarrow> b' = b"
proof -
  have keep: "(who, b) \<in> set (ballots (run_votes record_vote xs s) r)"
    using assms unfolding run_votes_def
    by (induction xs arbitrary: s) (auto simp: record_inv record_keeps split: prod.splits)
  with once [OF run_votes_inv [OF assms(1)], of xs r] show ?thesis
    unfolding distinct_map by (metis fst_conv inj_onD prod.inject)
qed

end

definition memory_ballots :: "approval_store \<Rightarrow> request_id \<Rightarrow> (approver_id \<times> signed_approval) list" where
  "memory_ballots st r =
     (case as_by_request st r of None \<Rightarrow> [] | Some l \<Rightarrow> map (\<lambda>(who, _). (who, snd (the (as_inner st (r, who))))) l)"

definition memory_inv :: "approval_store \<Rightarrow> bool" where
  "memory_inv st \<longleftrightarrow> (\<forall>r l. as_by_request st r = Some l \<longrightarrow> distinct (map fst l)) \<and>
     (\<forall>r who. as_inner st (r, who) \<noteq> None \<longleftrightarrow> (\<exists>l. as_by_request st r = Some l \<and> who \<in> fst ` set l)) \<and>
     (\<forall>r who i a. as_inner st (r, who) = Some (i, a) \<longrightarrow> i = ap_approval_id a \<and> ap_request_id a = r)"

lemma memory_inv_new: "memory_inv approval_store_new"
  by (simp add: memory_inv_def approval_store_new_def)

subsection \<open>The collectors\<close>

text \<open>The decision on one snapshot: the first rejection, or enough approvals, or keep waiting.\<close>

definition collect_decision :: "u8 \<Rightarrow> signed_approval list \<Rightarrow> signed_approval list option" where
  "collect_decision threshold approvals =
     (case find (\<lambda>a. ap_decision a = Reject) approvals of
        Some reject \<Rightarrow> Some [reject]
      | None \<Rightarrow>
          let approves = filter (\<lambda>a. ap_decision a = Approve) approvals in
          if length approves \<ge> unat threshold then Some approves else None)"

text \<open>\<open>snapshot n\<close> is what the store lists at the \<open>n\<close>-th poll, \<open>elapsed n\<close> the time read after it.\<close>

partial_function (option) collect_from ::
  "(nat \<Rightarrow> (approval_store_error, signed_approval list) outcome) \<Rightarrow> (nat \<Rightarrow> nat) \<Rightarrow> u8 \<Rightarrow> nat \<Rightarrow> nat \<Rightarrow>
   (quorum_error, signed_approval list) outcome option" where
  "collect_from snapshot elapsed threshold timeout n =
     (case snapshot n of
        Err e \<Rightarrow> Some (Err (Transport ''approval store''))
      | Panic m \<Rightarrow> Some (Panic m)
      | Ok approvals \<Rightarrow>
          (case collect_decision threshold approvals of
             Some result \<Rightarrow> Some (Ok result)
           | None \<Rightarrow>
               if timeout - elapsed n = 0 then Some (Err (Timeout timeout))
               else collect_from snapshot elapsed threshold timeout (Suc n)))"

definition collect_approvals where
  "collect_approvals snapshot elapsed threshold timeout = collect_from snapshot elapsed threshold timeout 0"

text \<open>Fan-out to the notifiers: all are awaited, the first error in their order is returned.\<close>

fun request_approval :: "(quorum_error, unit) outcome list \<Rightarrow> (quorum_error, unit) outcome" where
  "request_approval [] = Ok ()"
| "request_approval (Ok _ # rest) = request_approval rest"
| "request_approval (Err e # rest) = Err e"
| "request_approval (Panic m # rest) = Err (Transport (''notifier task join: '' @ m))"

record mock_quorum =
  mq_submitted :: "request_id \<rightharpoonup> signed_approval list"
  mq_notified :: "request_id \<rightharpoonup> u32"

definition mock_submit :: "signed_approval \<Rightarrow> mock_quorum \<Rightarrow> mock_quorum" where
  "mock_submit a q = q\<lparr>mq_submitted := (mq_submitted q)(ap_request_id a \<mapsto>
     (case mq_submitted q (ap_request_id a) of Some l \<Rightarrow> l | None \<Rightarrow> []) @ [a])\<rparr>"

definition mock_request_approval :: "approval_request \<Rightarrow> mock_quorum \<Rightarrow> (quorum_error, unit) outcome \<times> mock_quorum" where
  "mock_request_approval req q = (Ok (), q\<lparr>mq_notified := (mq_notified q)(ar_request_id req \<mapsto>
     (case mq_notified q (ar_request_id req) of Some n \<Rightarrow> n | None \<Rightarrow> 0) + 1)\<rparr>)"

definition notification_count :: "request_id \<Rightarrow> mock_quorum \<Rightarrow> u32" where
  "notification_count r q = (case mq_notified q r of Some n \<Rightarrow> n | None \<Rightarrow> 0)"

partial_function (option) mock_collect_from ::
  "(nat \<Rightarrow> mock_quorum) \<Rightarrow> (nat \<Rightarrow> nat) \<Rightarrow> request_id \<Rightarrow> u8 \<Rightarrow> nat \<Rightarrow> nat \<Rightarrow>
   (quorum_error, signed_approval list) outcome option" where
  "mock_collect_from state elapsed r threshold timeout n =
     (case Option.bind (mq_submitted (state n) r) (collect_decision threshold) of
        Some result \<Rightarrow> Some (Ok result)
      | None \<Rightarrow>
          if elapsed n \<ge> timeout then Some (Err (Timeout timeout))
          else mock_collect_from state elapsed r threshold timeout (Suc n))"

subsection \<open>The in-memory store meets the contract\<close>

lemma memory_inv_dests:
  assumes "memory_inv st"
  shows "as_by_request st r = Some l \<Longrightarrow> distinct (map fst l)"
    and "as_inner st (r, who) \<noteq> None \<longleftrightarrow> (\<exists>l. as_by_request st r = Some l \<and> who \<in> fst ` set l)"
    and "as_inner st (r, who) = Some (i, a) \<Longrightarrow> i = ap_approval_id a \<and> ap_request_id a = r"
  using assms unfolding memory_inv_def by blast+

lemma memory_ballots_who: "memory_inv st \<Longrightarrow> who \<in> fst ` set (memory_ballots st r) \<longleftrightarrow> as_inner st (r, who) \<noteq> None"
proof -
  assume inv: "memory_inv st"
  have "fst ` set (memory_ballots st r) = (case as_by_request st r of None \<Rightarrow> {} | Some l \<Rightarrow> fst ` set l)"
    by (simp add: memory_ballots_def image_image case_prod_unfold split: option.split)
  moreover have "as_inner st (r, who) \<noteq> None \<longleftrightarrow> (\<exists>l. as_by_request st r = Some l \<and> who \<in> fst ` set l)"
    by (rule memory_inv_dests(2) [OF inv])
  ultimately show ?thesis by (cases "as_by_request st r") simp_all
qed

lemma memory_ballots_entry: "memory_inv st \<Longrightarrow> (who, b) \<in> set (memory_ballots st r) \<Longrightarrow> as_inner st (r, who) = Some (ap_approval_id b, b)"
proof -
  assume inv: "memory_inv st" and b: "(who, b) \<in> set (memory_ballots st r)"
  then have "as_inner st (r, who) \<noteq> None" using memory_ballots_who [OF inv, of who r] by force
  then obtain i a where ia: "as_inner st (r, who) = Some (i, a)" by auto
  then have "i = ap_approval_id a" using memory_inv_dests(3) [OF inv] by blast
  moreover have "b = a" using b ia by (auto simp: memory_ballots_def split: option.splits)
  ultimately show ?thesis using ia by simp
qed

lemma record_first:
  fixes a :: signed_approval
  assumes inv: "memory_inv st" and new: "as_inner st (ap_request_id a, who) = None"
  shows "\<exists>st'. record_approval a who st = (Ok Inserted, st') \<and> memory_inv st' \<and>
    memory_ballots st' = (memory_ballots st)(ap_request_id a := memory_ballots st (ap_request_id a) @ [(who, a)])"
proof -
  let ?r = "ap_request_id a"
  let ?l = "case as_by_request st ?r of Some l \<Rightarrow> l | None \<Rightarrow> []"
  let ?st = "st\<lparr>as_inner := (as_inner st)((?r, who) \<mapsto> (ap_approval_id a, a)),
      as_by_request := (as_by_request st)(?r \<mapsto> ?l @ [(who, ap_approval_id a)])\<rparr>"
  have "\<nexists>l. as_by_request st ?r = Some l \<and> who \<in> fst ` set l"
    using new memory_inv_dests(2) [OF inv, of ?r who] by blast
  then have l: "who \<notin> fst ` set ?l" by (cases "as_by_request st ?r") auto
  have d: "distinct (map fst ?l)" using memory_inv_dests(1) [OF inv] by (cases "as_by_request st ?r") auto
  have "memory_inv ?st" unfolding memory_inv_def
  proof (intro conjI)
    show "\<forall>r l. as_by_request ?st r = Some l \<longrightarrow> distinct (map fst l)"
      using memory_inv_dests(1) [OF inv] l d by simp
    show "\<forall>r x. as_inner ?st (r, x) \<noteq> None \<longleftrightarrow> (\<exists>l. as_by_request ?st r = Some l \<and> x \<in> fst ` set l)"
    proof (intro allI)
      fix r x
      have "as_inner st (r, x) \<noteq> None \<longleftrightarrow> (\<exists>l. as_by_request st r = Some l \<and> x \<in> fst ` set l)"
        by (rule memory_inv_dests(2) [OF inv])
      then show "as_inner ?st (r, x) \<noteq> None \<longleftrightarrow> (\<exists>l. as_by_request ?st r = Some l \<and> x \<in> fst ` set l)"
        by (cases "r = ?r"; cases "as_by_request st r") auto
    qed
    show "\<forall>r x i b. as_inner ?st (r, x) = Some (i, b) \<longrightarrow> i = ap_approval_id b \<and> ap_request_id b = r"
      using memory_inv_dests(3) [OF inv] by simp
  qed
  moreover have "memory_ballots ?st r = ((memory_ballots st)(?r := memory_ballots st ?r @ [(who, a)])) r" for r
    using l by (auto simp: memory_ballots_def image_iff split: option.splits)
  ultimately show ?thesis using new by (auto simp: record_approval_def Let_def)
qed

interpretation memory_store: ballot_store memory_inv memory_ballots record_approval list_for_request
proof
  fix s r
  assume inv: "memory_inv s"
  show "distinct (map fst (memory_ballots s r))"
  proof (cases "as_by_request s r")
    case (Some l)
    have "map fst (memory_ballots s r) = map fst l"
      by (simp add: memory_ballots_def Some case_prod_unfold)
    with memory_inv_dests(1) [OF inv Some] show ?thesis by simp
  qed (simp add: memory_ballots_def)
next
  fix s who and a :: signed_approval
  assume inv: "memory_inv s" and new: "who \<notin> fst ` set (memory_ballots s (ap_request_id a))"
  from new have "as_inner s (ap_request_id a, who) = None" unfolding memory_ballots_who [OF inv] by blast
  then show "\<exists>s'. record_approval a who s = (Ok Inserted, s') \<and> memory_inv s' \<and>
      memory_ballots s' = (memory_ballots s)(ap_request_id a := memory_ballots s (ap_request_id a) @ [(who, a)])"
    by (rule record_first [OF inv])
next
  fix s who and a b :: signed_approval
  assume inv: "memory_inv s" and b: "(who, b) \<in> set (memory_ballots s (ap_request_id a))"
  show "record_approval a who s = (if ap_approval_id b = ap_approval_id a then Ok AlreadyRecorded
      else Err (DuplicateApproval who (ap_request_id a)), s)"
    using memory_ballots_entry [OF inv b] by (simp add: record_approval_def Let_def)
next
  fix s r
  assume inv: "memory_inv s"
  show "list_for_request r s = Ok (map snd (memory_ballots s r))"
  proof (cases "as_by_request s r")
    case (Some l)
    have "\<forall>x \<in> set l. as_inner s (r, fst x) \<noteq> None"
      using memory_inv_dests(2) [OF inv] Some by blast
    then have "List.map_filter (\<lambda>(who, _). map_option snd (as_inner s (r, who))) l = map (\<lambda>x. snd (the (as_inner s (r, fst x)))) l"
      by (induction l) (auto simp: map_filter_simps)
    then show ?thesis by (simp add: list_for_request_def memory_ballots_def Some case_prod_unfold)
  qed (simp add: list_for_request_def memory_ballots_def)
qed

subsection \<open>Collection\<close>

lemma no_reject:
  assumes "find (\<lambda>a. ap_decision a = Reject) as = None"
  shows "\<forall>a \<in> set as. ap_decision a = Approve" "filter (\<lambda>a. ap_decision a = Approve) as = as"
proof -
  show "\<forall>a \<in> set as. ap_decision a = Approve"
    using assms unfolding find_None_iff by (metis approval_decision.exhaust)
  then show "filter (\<lambda>a. ap_decision a = Approve) as = as" by simp
qed

lemma some_reject:
  assumes "find (\<lambda>a. ap_decision a = Reject) as = Some a"
  shows "a \<in> set as" "ap_decision a = Reject"
  using assms by (auto simp: find_Some_iff)

lemma collect_decision_Some:
  assumes "collect_decision t as = Some res"
  shows "(\<exists>a. find (\<lambda>a. ap_decision a = Reject) as = Some a \<and> res = [a]) \<or>
     (\<forall>a \<in> set as. ap_decision a = Approve) \<and> unat t \<le> length as \<and> res = as"
proof (cases "find (\<lambda>a. ap_decision a = Reject) as")
  case None
  with assms no_reject [OF None] show ?thesis by (simp add: collect_decision_def split: if_splits)
next
  case (Some a)
  with assms show ?thesis by (auto simp: collect_decision_def)
qed

lemma collect_decision_None:
  assumes "collect_decision t as = None"
  shows "(\<forall>a \<in> set as. ap_decision a = Approve) \<and> length as < unat t"
proof (cases "find (\<lambda>a. ap_decision a = Reject) as")
  case None
  with assms no_reject [OF None] show ?thesis by (simp add: collect_decision_def split: if_splits)
qed (use assms in \<open>simp add: collect_decision_def\<close>)

text \<open>Where the loop stops: at the first poll that decides, fails or is past the deadline.\<close>

definition poll_result ::
  "(nat \<Rightarrow> (approval_store_error, signed_approval list) outcome) \<Rightarrow> (nat \<Rightarrow> nat) \<Rightarrow> u8 \<Rightarrow> nat \<Rightarrow> nat \<Rightarrow>
   (quorum_error, signed_approval list) outcome option" where
  "poll_result snapshot elapsed threshold timeout n =
     (case snapshot n of
        Err e \<Rightarrow> Some (Err (Transport ''approval store''))
      | Panic m \<Rightarrow> Some (Panic m)
      | Ok approvals \<Rightarrow>
          (case collect_decision threshold approvals of
             Some result \<Rightarrow> Some (Ok result)
           | None \<Rightarrow> if timeout \<le> elapsed n then Some (Err (Timeout timeout)) else None))"

lemma collect_from_unfold:
  "collect_from snapshot elapsed threshold timeout n =
     (case poll_result snapshot elapsed threshold timeout n of
        Some res \<Rightarrow> Some res | None \<Rightarrow> collect_from snapshot elapsed threshold timeout (Suc n))"
  by (subst collect_from.simps) (auto simp: poll_result_def split: outcome.splits option.splits)

lemma collect_from_skips:
  "\<forall>k. n \<le> k \<and> k < m \<longrightarrow> poll_result snapshot elapsed threshold timeout k = None \<Longrightarrow> n \<le> m \<Longrightarrow>
   collect_from snapshot elapsed threshold timeout n = collect_from snapshot elapsed threshold timeout m"
proof (induction "m - n" arbitrary: n)
  case (Suc d)
  then have "n < m" by simp
  moreover have "collect_from snapshot elapsed threshold timeout (Suc n) = collect_from snapshot elapsed threshold timeout m"
    using Suc by (intro Suc.hyps) auto
  ultimately show ?case using Suc.prems by (subst collect_from_unfold) simp
qed simp

lemma collect_at_first:
  assumes "poll_result snapshot elapsed threshold timeout n = Some res"
    and "\<forall>k < n. poll_result snapshot elapsed threshold timeout k = None"
  shows "collect_approvals snapshot elapsed threshold timeout = Some res"
proof -
  have "collect_from snapshot elapsed threshold timeout 0 = collect_from snapshot elapsed threshold timeout n"
    using assms(2) by (intro collect_from_skips) auto
  also have "\<dots> = Some res" using assms(1) by (subst collect_from_unfold) simp
  finally show ?thesis by (simp add: collect_approvals_def)
qed

text \<open>A poll of the in-memory store.\<close>

definition store_polls :: "(nat \<Rightarrow> approval_store) \<Rightarrow> request_id \<Rightarrow> nat \<Rightarrow> (approval_store_error, signed_approval list) outcome" where
  "store_polls states r n = list_for_request r (states n)"

lemma poll_of_store:
  "memory_inv (states n) \<Longrightarrow> poll_result (store_polls states r) elapsed t timeout n =
     (case collect_decision t (map snd (memory_ballots (states n) r)) of
        Some result \<Rightarrow> Some (Ok result)
      | None \<Rightarrow> if timeout \<le> elapsed n then Some (Err (Timeout timeout)) else None)"
  by (simp add: poll_result_def store_polls_def memory_store.votes)

subsection \<open>Properties\<close>


text \<open>Between the second and the third poll one approver rejects; two approvals would have been enough.\<close>

definition demo_polls :: "nat \<Rightarrow> approval_store" where
  "demo_polls n = (if n < 2 then approval_store_new else snd (record_approval (demo_approval []\<lparr>ap_decision := Reject\<rparr>) (ApproverId 1) approval_store_new))"

lemma demo_polls_ballots:
  "memory_ballots (demo_polls n) (RequestId 2) = (if n < 2 then [] else [(ApproverId 1, demo_approval []\<lparr>ap_decision := Reject\<rparr>)])"
  by (simp add: demo_polls_def memory_ballots_def record_approval_def approval_store_new_def Let_def demo_approval_def)


text \<open>C17. Replay protection: once an approver's decision on a request is recorded, no later sequence of
  submissions changes it, removes it or adds a second one by the same approver. Submitting the same
  approval again succeeds without effect, and a different one is refused without effect.\<close>

theorem recorded_decision_is_final:
  assumes "s = run_votes record_approval ys approval_store_new" "record_approval a who s = (Ok Inserted, s')"
    and "s'' = run_votes record_approval xs s'" "ap_request_id b = ap_request_id a"
  shows "list_for_request (ap_request_id a) s'' = Ok (map snd (memory_ballots s'' (ap_request_id a))) \<and>
    (\<forall>c. (who, c) \<in> set (memory_ballots s'' (ap_request_id a)) \<longleftrightarrow> c = a) \<and>
    record_approval b who s'' = (if ap_approval_id b = ap_approval_id a then Ok AlreadyRecorded
      else Err (DuplicateApproval who (ap_request_id a)), s'')"
proof -
  have s: "memory_inv s" using memory_store.run_votes_inv [OF memory_inv_new] assms(1) by blast
  have new: "as_inner s (ap_request_id a, who) = None"
    using assms(2) by (auto simp: record_approval_def Let_def split: option.splits if_splits)
  have s': "memory_inv s'" "(who, a) \<in> set (memory_ballots s' (ap_request_id a))"
    using record_first [OF s new] assms(2) by auto
  have s'': "memory_inv s''" using memory_store.run_votes_inv [OF s'(1)] assms(3) by blast
  have final: "(who, c) \<in> set (memory_ballots s'' (ap_request_id a)) \<longleftrightarrow> c = a" for c
    unfolding assms(3) by (rule memory_store.vote_is_final [OF s'])
  with memory_store.later_vote [OF s'', of who a b] memory_store.votes [OF s''] assms(4) show ?thesis by simp
qed

theorem recorded_decision_is_final_witness:
  "\<exists>s'. record_approval (demo_approval []) (ApproverId 1) approval_store_new = (Ok Inserted, s') \<and>
     record_approval (demo_approval [1]) (ApproverId 1) s' = (Ok AlreadyRecorded, s')"
proof -
  have new: "approval_store_new = run_votes record_approval [] approval_store_new" by (simp add: run_votes_def)
  obtain s' where s': "record_approval (demo_approval []) (ApproverId 1) approval_store_new = (Ok Inserted, s')"
    by (simp add: record_approval_def approval_store_new_def Let_def)
  moreover have "s' = run_votes record_approval [] s'" by (simp add: run_votes_def)
  ultimately show ?thesis
    using recorded_decision_is_final [OF new s', of s' "[]" "demo_approval [1]"] by (simp add: demo_approval_def)
qed

end
