(* ===== verification/Audit_Log.thy ===== *)
theory Audit_Log
  imports Signers Policy_Types
begin

text \<open>
  The hash-chained audit log of \<open>qfc-audit\<close>: the events (\<open>event.rs\<close>), the sink trait (\<open>sink.rs\<close>) and the
  file sink with its recovery and its offline verifier (\<open>file.rs\<close>). The log file is its bytes, \<open>None\<close>
  when it does not exist; an input/output fault is an argument of the operation it strikes.
  JSON, ULID text, SHA-256 and Ed25519 are crates.
\<close>

subsection \<open>Events (event.rs)\<close>

datatype actor = ActorRequester string | ActorApprover string | ActorSystem | ActorEnclave

datatype audit_kind =
    WalletCreated
  | WalletRevoked
  | SigningRequested
  | SigningEvaluated
  | QuorumNotified
  | QuorumApprovalReceived
  | QuorumApprovalRejected
  | QuorumTimedOut
  | QuorumThresholdReached
  | PolicyDecisionSigned
  | SigningAttempted
  | SigningSucceeded
  | SigningFailed
  | PolicyChanged
  | ApproverSetChanged
  | SystemError
  | EnclaveAttested

record audit_event =
  ev_event_id :: event_id
  ev_prev_event_hash :: bytes
  ev_timestamp_unix_ms :: i64
  ev_actor :: actor
  ev_kind :: audit_kind
  ev_request_id :: "request_id option"
  ev_wallet_id :: "wallet_id option"
  ev_details :: json
  ev_server_signature :: bytes

primrec kind_byte :: "audit_kind \<Rightarrow> u8" where
  "kind_byte WalletCreated = 1"
| "kind_byte WalletRevoked = 2"
| "kind_byte SigningRequested = 3"
| "kind_byte SigningEvaluated = 4"
| "kind_byte QuorumNotified = 5"
| "kind_byte QuorumApprovalReceived = 6"
| "kind_byte QuorumApprovalRejected = 7"
| "kind_byte QuorumTimedOut = 8"
| "kind_byte SigningAttempted = 9"
| "kind_byte SigningSucceeded = 10"
| "kind_byte SigningFailed = 11"
| "kind_byte PolicyChanged = 12"
| "kind_byte ApproverSetChanged = 13"
| "kind_byte SystemError = 14"
| "kind_byte EnclaveAttested = 15"
| "kind_byte QuorumThresholdReached = 16"
| "kind_byte PolicyDecisionSigned = 17"

text \<open>
  The crates: \<open>au_value\<close> is the serialisation of a JSON value, \<open>au_to_vec\<close> and \<open>au_from_slice\<close> that of an
  event, with the error text on the left.
\<close>

record audit_crates =
  au_sign :: sign_crates
  au_ulid :: "ulid \<Rightarrow> string"
  au_value :: "json \<Rightarrow> bytes"
  au_to_vec :: "audit_event \<Rightarrow> string + bytes"
  au_from_slice :: "bytes \<Rightarrow> string + audit_event"

definition audit_preimage :: "audit_crates \<Rightarrow> bytes \<Rightarrow> event_id \<Rightarrow> audit_kind \<Rightarrow> json \<Rightarrow> bytes" where
  "audit_preimage cr prev_event_hash eid kind details =
     prev_event_hash @ as_bytes (au_ulid cr (event_ulid eid)) @ as_bytes ''|'' @ [kind_byte kind] @
     as_bytes ''|'' @ au_value cr details"

definition event_preimage :: "audit_crates \<Rightarrow> audit_event \<Rightarrow> bytes" where
  "event_preimage cr e = audit_preimage cr (ev_prev_event_hash e) (ev_event_id e) (ev_kind e) (ev_details e)"

text \<open>The chain head after an event.\<close>

definition event_digest :: "audit_crates \<Rightarrow> audit_event \<Rightarrow> bytes" where
  "event_digest cr e = sha256 (au_sign cr) (event_preimage cr e @ ev_server_signature e)"

subsection \<open>The sink (sink.rs, file.rs)\<close>

datatype audit_error = AuditIo string | AuditSerde string | AuditCrypto string

record audit_event_draft =
  dr_actor :: actor
  dr_kind :: audit_kind
  dr_request_id :: "request_id option"
  dr_wallet_id :: "wallet_id option"
  dr_details :: json

record file_audit_sink =
  fas_server_key :: bytes
  fas_prev_event_hash :: bytes
  fas_written :: u64

type_synonym log_file = "bytes option"

definition log_bytes :: "log_file \<Rightarrow> bytes" where
  "log_bytes log = (case log of None \<Rightarrow> [] | Some c \<Rightarrow> c)"

text \<open>
  Where an emit can fail: opening the file, writing or flushing (a prefix of the line is then in the
  file), or making it durable (the whole line is in the file).
\<close>

datatype log_fault = LogOpen | LogWrite nat | LogFlush nat | LogSync

definition append_line :: "(log_fault \<times> string) option \<Rightarrow> bytes \<Rightarrow> log_file \<Rightarrow> (audit_error, unit) outcome \<times> log_file" where
  "append_line fault line log =
     (case fault of
        None \<Rightarrow> (Ok (), Some (log_bytes log @ line))
      | Some (LogOpen, m) \<Rightarrow> (Err (AuditIo m), log)
      | Some (LogWrite n, m) \<Rightarrow> (Err (AuditIo m), Some (log_bytes log @ take n line))
      | Some (LogFlush n, m) \<Rightarrow> (Err (AuditIo m), Some (log_bytes log @ take n line))
      | Some (LogSync, m) \<Rightarrow> (Err (AuditIo m), Some (log_bytes log @ line)))"

definition stamp_event :: "audit_crates \<Rightarrow> bytes \<Rightarrow> bytes \<Rightarrow> event_id \<Rightarrow> i64 \<Rightarrow> audit_event_draft \<Rightarrow> audit_event" where
  "stamp_event cr server_key prev eid now draft =
     (let preimage = audit_preimage cr prev eid (dr_kind draft) (dr_details draft) in
      \<lparr>ev_event_id = eid, ev_prev_event_hash = prev, ev_timestamp_unix_ms = now, ev_actor = dr_actor draft,
       ev_kind = dr_kind draft, ev_request_id = dr_request_id draft, ev_wallet_id = dr_wallet_id draft,
       ev_details = dr_details draft, ev_server_signature = ed_sign (au_sign cr) server_key preimage\<rparr>)"

definition audit_unix_ms :: "int \<Rightarrow> i64" where
  "audit_unix_ms nanos = (let ms = whole_units 1000000 nanos in if i64_ok ms then ms else 2 ^ 63 - 1)"

text \<open>\<open>emit\<close>, with the fresh identifier, the clock reading in nanoseconds and a possible fault as
  arguments.\<close>

definition emit :: "audit_crates \<Rightarrow> (log_fault \<times> string) option \<Rightarrow> event_id \<Rightarrow> int \<Rightarrow> audit_event_draft \<Rightarrow>
   file_audit_sink \<Rightarrow> log_file \<Rightarrow> (audit_error, audit_event) outcome \<times> file_audit_sink \<times> log_file" where
  "emit cr fault eid nanos draft self log =
     (let event = stamp_event cr (fas_server_key self) (fas_prev_event_hash self) eid (audit_unix_ms nanos) draft in
      case au_to_vec cr event of
        Inl m \<Rightarrow> (Err (AuditSerde m), self, log)
      | Inr line \<Rightarrow>
        (case append_line fault (line @ [10]) log of
           (Ok u, log') \<Rightarrow>
             (Ok event, self\<lparr>fas_prev_event_hash := event_digest cr event, fas_written := fas_written self + 1\<rparr>, log')
         | (Err e, log') \<Rightarrow> (Err e, self, log')
         | (Panic p, log') \<Rightarrow> (Panic p, self, log')))"

text \<open>The inputs of one emit of a batch, and the loop of the default \<open>emit_batch\<close>.\<close>

type_synonym emit_input = "(log_fault \<times> string) option \<times> event_id \<times> int \<times> audit_event_draft"

primrec emit_batch :: "audit_crates \<Rightarrow> emit_input list \<Rightarrow> file_audit_sink \<Rightarrow> log_file \<Rightarrow>
   (audit_error, audit_event list) outcome \<times> file_audit_sink \<times> log_file" where
  "emit_batch cr [] self log = (Ok [], self, log)"
| "emit_batch cr (d # ds) self log =
     (case d of (fault, eid, nanos, draft) \<Rightarrow>
       (case emit cr fault eid nanos draft self log of
          (Ok e, self', log') \<Rightarrow>
            (case emit_batch cr ds self' log' of (r, rest) \<Rightarrow> (obind r (\<lambda>es. Ok (e # es)), rest))
        | (Err x, rest) \<Rightarrow> (Err x, rest)
        | (Panic p, rest) \<Rightarrow> (Panic p, rest)))"

definition server_public_key :: "audit_crates \<Rightarrow> file_audit_sink \<Rightarrow> bytes" where
  "server_public_key cr self = ed_public (au_sign cr) (fas_server_key self)"

definition event_count :: "file_audit_sink \<Rightarrow> u64" where
  "event_count self = fas_written self"

subsection \<open>Recovery (file.rs)\<close>

datatype log_read = LogNotFound | LogReadError string | LogContent bytes

definition read_log :: "log_file \<Rightarrow> log_read" where
  "read_log log = (case log of None \<Rightarrow> LogNotFound | Some c \<Rightarrow> LogContent c)"

definition zero_hash :: bytes where
  "zero_hash = replicate 32 0"

definition log_lines :: "bytes \<Rightarrow> bytes list" where
  "log_lines content = filter (\<lambda>l. l \<noteq> []) (split_on 10 content)"

definition parse_event :: "audit_crates \<Rightarrow> bytes \<Rightarrow> (audit_error, audit_event) outcome" where
  "parse_event cr l = (case au_from_slice cr l of Inl m \<Rightarrow> Err (AuditSerde m) | Inr e \<Rightarrow> Ok e)"

definition recover_chain_head :: "audit_crates \<Rightarrow> log_read \<Rightarrow> (audit_error, bytes \<times> u64) outcome" where
  "recover_chain_head cr rd =
     (case rd of
        LogNotFound \<Rightarrow> Ok (zero_hash, 0)
      | LogReadError m \<Rightarrow> Err (AuditIo m)
      | LogContent content \<Rightarrow>
          if content = [] then Ok (zero_hash, 0)
          else let ls = log_lines content in
            if ls = [] then Panic ''non-empty by earlier check''
            else obind (parse_event cr (last ls)) (\<lambda>event.
              Ok (event_digest cr event, of_nat (length ls))))"

definition open_sink :: "audit_crates \<Rightarrow> log_read \<Rightarrow> bytes \<Rightarrow> (audit_error, file_audit_sink) outcome" where
  "open_sink cr rd server_key =
     obind (recover_chain_head cr rd) (\<lambda>(prev, written).
     Ok \<lparr>fas_server_key = server_key, fas_prev_event_hash = prev, fas_written = written\<rparr>)"

subsection \<open>The offline verifier (file.rs)\<close>

definition verify_event :: "audit_crates \<Rightarrow> audit_event \<Rightarrow> bytes \<Rightarrow> (audit_error, bool) outcome" where
  "verify_event cr event verifying_key =
     obind (fail_if (length verifying_key \<noteq> 32) (AuditCrypto ''verifying key must be 32 bytes'')) (\<lambda>_.
     obind (fail_if (ed_key_error (au_sign cr) verifying_key \<noteq> None) (AuditCrypto ''malformed ed25519 pubkey'')) (\<lambda>_.
     obind (fail_if (length (ev_server_signature event) \<noteq> 64) (AuditCrypto ''signature must be 64 bytes'')) (\<lambda>_.
     Ok (ed_verify (au_sign cr) verifying_key (event_preimage cr event) (ev_server_signature event)))))"

definition replay_step :: "audit_crates \<Rightarrow> bytes \<Rightarrow> bytes \<times> u64 \<Rightarrow> audit_event \<Rightarrow> (audit_error, bytes \<times> u64) outcome" where
  "replay_step cr verifying_key st event =
     (case st of (prev, n) \<Rightarrow>
       obind (fail_if (ev_prev_event_hash event \<noteq> prev) (AuditCrypto ''hash chain broken'')) (\<lambda>_.
       obind (verify_event cr event verifying_key) (\<lambda>good.
       obind (fail_if (\<not> good) (AuditCrypto ''signature mismatch'')) (\<lambda>_.
       Ok (event_digest cr event, n + 1)))))"

definition replay_line :: "audit_crates \<Rightarrow> bytes \<Rightarrow> bytes \<times> u64 \<Rightarrow> bytes \<Rightarrow> (audit_error, bytes \<times> u64) outcome" where
  "replay_line cr verifying_key st l = obind (parse_event cr l) (replay_step cr verifying_key st)"

definition replay_verify :: "audit_crates \<Rightarrow> log_read \<Rightarrow> bytes \<Rightarrow> (audit_error, u64) outcome" where
  "replay_verify cr rd verifying_key =
     (case rd of
        LogNotFound \<Rightarrow> Err (AuditIo ''No such file or directory (os error 2)'')
      | LogReadError m \<Rightarrow> Err (AuditIo m)
      | LogContent content \<Rightarrow>
          if content = [] then Ok 0
          else obind (ofold (replay_line cr verifying_key) (zero_hash, 0) (log_lines content)) (\<lambda>(prev, n). Ok n))"

subsection \<open>What the log relies on of the crates\<close>

definition audit_laws :: "audit_crates \<Rightarrow> bool" where
  "audit_laws cr \<longleftrightarrow> ed_laws (au_sign cr) \<and> ulid_text (au_ulid cr) \<and> (\<forall>m. length (sha256 (au_sign cr) m) = 32) \<and>
     (\<forall>e b. au_to_vec cr e = Inr b \<longrightarrow> b \<noteq> [] \<and> 10 \<notin> set b) \<and>
     (\<forall>e b. au_to_vec cr e = Inr b \<longrightarrow> length (ev_prev_event_hash e) = 32 \<longrightarrow> au_from_slice cr b = Inr e) \<and>
     (\<forall>b e. au_from_slice cr b = Inr e \<longrightarrow> length (ev_prev_event_hash e) = 32)"

lemma audit_laws_dests:
  assumes "audit_laws cr"
  shows "ulid_text (au_ulid cr)" "length (sha256 (au_sign cr) m) = 32"
    "au_to_vec cr e = Inr b \<Longrightarrow> b \<noteq> []" "au_to_vec cr e = Inr b \<Longrightarrow> 10 \<notin> set b"
    "au_to_vec cr e = Inr b \<Longrightarrow> length (ev_prev_event_hash e) = 32 \<Longrightarrow> au_from_slice cr b = Inr e"
    "au_from_slice cr b = Inr e \<Longrightarrow> length (ev_prev_event_hash e) = 32"
    "length s = 32 \<Longrightarrow> length (ed_public (au_sign cr) s) = 32"
    "length s = 32 \<Longrightarrow> ed_key_error (au_sign cr) (ed_public (au_sign cr) s) = None"
    "length s = 32 \<Longrightarrow> length (ed_sign (au_sign cr) s m) = 64"
    "length s = 32 \<Longrightarrow> ed_verify (au_sign cr) (ed_public (au_sign cr) s) m (ed_sign (au_sign cr) s m)"
  using assms unfolding audit_laws_def ed_laws_def by blast+

subsection \<open>Lines\<close>

lemma split_on_append: "split_on c (xs @ c # ys) = split_on c xs @ split_on c ys"
  by (induction xs) (auto split: list.splits)

definition terminated :: "bytes \<Rightarrow> bool" where
  "terminated c \<longleftrightarrow> c = [] \<or> last c = 10"

lemma log_lines_Nil [simp]: "log_lines [] = []"
  by (simp add: log_lines_def)

lemma log_lines_append:
  assumes "terminated c"
  shows "log_lines (c @ d) = log_lines c @ log_lines d"
proof (cases "c = []")
  case False
  with assms obtain c' where "c = c' @ [10]" unfolding terminated_def by (metis append_butlast_last_id)
  then show ?thesis by (simp add: log_lines_def split_on_append)
qed simp

lemma log_lines_line: "l \<noteq> [] \<Longrightarrow> 10 \<notin> set l \<Longrightarrow> log_lines (l @ [10]) = [l]"
  by (simp add: log_lines_def split_on_append)

subsection \<open>Emitting\<close>

lemma emit_no_fault:
  "emit cr None eid nanos draft self log = (Ok e, self', log') \<longleftrightarrow>
     (\<exists>l. e = stamp_event cr (fas_server_key self) (fas_prev_event_hash self) eid (audit_unix_ms nanos) draft \<and>
       au_to_vec cr e = Inr l \<and> log' = Some (log_bytes log @ l @ [10]) \<and>
       self' = self\<lparr>fas_prev_event_hash := event_digest cr e, fas_written := fas_written self + 1\<rparr>)"
  by (cases "au_to_vec cr (stamp_event cr (fas_server_key self) (fas_prev_event_hash self) eid (audit_unix_ms nanos) draft)")
    (auto simp: emit_def append_line_def Let_def)

lemma emit_Ok_no_fault: "emit cr fault eid nanos draft self log = (Ok e, self', log') \<Longrightarrow> fault = None"
  by (auto simp: emit_def append_line_def Let_def split: sum.splits option.splits log_fault.splits prod.splits)

lemma emit_not_Panic: "fst (emit cr fault eid nanos draft self log) \<noteq> Panic p"
  by (auto simp: emit_def append_line_def Let_def split: sum.splits option.splits log_fault.splits prod.splits)

lemma emit_error_before_write:
  assumes "emit cr fault eid nanos draft self log = (Err x, self', log')" "fault = None \<or> fault = Some (LogOpen, m)"
  shows "self' = self \<and> log' = log"
  using assms by (auto simp: emit_def append_line_def Let_def split: sum.splits)

lemma stamp_event_verifies:
  assumes "audit_laws cr" "length key = 32"
  shows "verify_event cr (stamp_event cr key prev eid now draft) (ed_public (au_sign cr) key) = Ok True"
  using audit_laws_dests [OF assms(1)] assms(2)
  by (simp add: verify_event_def stamp_event_def Let_def event_preimage_def fail_if_simps)

lemma stamp_event_prev [simp]: "ev_prev_event_hash (stamp_event cr key prev eid now draft) = prev"
  by (simp add: stamp_event_def Let_def)

text \<open>
  The invariant of the sink: replaying the file ends in exactly the head and the count the sink holds,
  and the file is a sequence of whole lines.
\<close>

definition sink_synced :: "audit_crates \<Rightarrow> file_audit_sink \<Rightarrow> log_file \<Rightarrow> bool" where
  "sink_synced cr self log \<longleftrightarrow> length (fas_server_key self) = 32 \<and> length (fas_prev_event_hash self) = 32 \<and>
     terminated (log_bytes log) \<and> (log_lines (log_bytes log) = [] \<longrightarrow> log_bytes log = []) \<and>
     ofold (replay_line cr (server_public_key cr self)) (zero_hash, 0) (log_lines (log_bytes log)) =
       Ok (fas_prev_event_hash self, fas_written self)"

lemma emitted_line:
  assumes "audit_laws cr" "au_to_vec cr e = Inr l"
  shows "log_lines (l @ [10]) = [l]" "length (ev_prev_event_hash e) = 32 \<Longrightarrow> parse_event cr l = Ok e"
  using audit_laws_dests(3-5) [OF assms] by (simp_all add: log_lines_line parse_event_def)

lemma emit_synced:
  assumes "audit_laws cr" "sink_synced cr self log" "emit cr None eid nanos draft self log = (Ok e, self', log')"
  shows "sink_synced cr self' log' \<and> fas_server_key self' = fas_server_key self \<and> fas_written self' = fas_written self + 1 \<and>
     (\<exists>l. log_lines (log_bytes log') = log_lines (log_bytes log) @ [l] \<and> parse_event cr l = Ok e)"
proof -
  from assms(3) obtain l where e: "e = stamp_event cr (fas_server_key self) (fas_prev_event_hash self) eid (audit_unix_ms nanos) draft"
    and l: "au_to_vec cr e = Inr l" and log': "log' = Some (log_bytes log @ l @ [10])"
    and self': "self' = self\<lparr>fas_prev_event_hash := event_digest cr e, fas_written := fas_written self + 1\<rparr>"
    unfolding emit_no_fault by auto
  have prev: "ev_prev_event_hash e = fas_prev_event_hash self" unfolding e by simp
  have parse: "parse_event cr l = Ok e"
    using emitted_line(2) [OF assms(1) l] assms(2) by (simp add: prev sink_synced_def)
  have lns: "log_lines (log_bytes log') = log_lines (log_bytes log) @ [l]"
    using assms(2) emitted_line(1) [OF assms(1) l] by (simp add: log' log_bytes_def [of "Some _"] log_lines_append sink_synced_def)
  have "verify_event cr e (server_public_key cr self) = Ok True"
    using stamp_event_verifies [OF assms(1)] assms(2) by (simp add: e server_public_key_def sink_synced_def)
  then have "replay_line cr (server_public_key cr self) (fas_prev_event_hash self, fas_written self) l = Ok (event_digest cr e, fas_written self + 1)"
    by (simp add: replay_line_def parse replay_step_def prev fail_if_simps)
  with assms(2) have "sink_synced cr self' log'"
    using audit_laws_dests(2) [OF assms(1)]
    by (simp add: sink_synced_def lns ofold_append self' server_public_key_def event_digest_def)
      (simp add: log' log_bytes_def [of "Some _"] terminated_def)
  with lns parse self' show ?thesis by simp
qed

lemma replay_ends:
  assumes "ofold (replay_line cr pk) st ls = Ok st'"
  shows "snd st' = snd st + of_nat (length ls) \<and>
    (ls \<noteq> [] \<longrightarrow> (\<exists>e. parse_event cr (last ls) = Ok e \<and> fst st' = event_digest cr e))"
  using assms
proof (induction ls arbitrary: st' rule: rev_induct)
  case (snoc l ls)
  then show ?case
    by (cases st') (auto simp: ofold_append outcome_simps replay_line_def replay_step_def split: prod.splits)
qed simp

lemma synced_opens:
  assumes "sink_synced cr self log"
  shows "open_sink cr (read_log log) (fas_server_key self) = Ok self"
proof (cases "log_lines (log_bytes log) = []")
  case True
  with assms show ?thesis
    by (cases log) (auto simp: sink_synced_def open_sink_def recover_chain_head_def read_log_def log_bytes_def)
next
  case False
  with assms replay_ends [of cr "server_public_key cr self" "(zero_hash, 0)"] obtain e
    where e: "parse_event cr (last (log_lines (log_bytes log))) = Ok e" "fas_prev_event_hash self = event_digest cr e"
      "fas_written self = of_nat (length (log_lines (log_bytes log)))"
    unfolding sink_synced_def by fastforce
  from False obtain c where "log = Some c" "log_lines c \<noteq> []"
    by (cases log) (auto simp: log_bytes_def)
  moreover from this(2) have "c \<noteq> []" by auto
  ultimately show ?thesis using e
    by (simp add: open_sink_def recover_chain_head_def read_log_def log_bytes_def)
qed

lemma synced_replays:
  assumes "sink_synced cr self (Some c)"
  shows "replay_verify cr (LogContent c) (server_public_key cr self) = Ok (fas_written self)"
  using assms by (auto simp: sink_synced_def replay_verify_def log_bytes_def)

lemma emit_batch_synced:
  assumes "audit_laws cr" "sink_synced cr self log" "emit_batch cr ds self log = (r, self', log')"
    and "\<And>d. d \<in> set ds \<Longrightarrow> fst d = None \<or> (\<exists>m. fst d = Some (LogOpen, m))"
  shows "sink_synced cr self' log' \<and> fas_server_key self' = fas_server_key self \<and>
    (\<forall>es. r = Ok es \<longrightarrow> fas_written self' = fas_written self + of_nat (length es) \<and>
      (\<exists>ls. log_lines (log_bytes log') = log_lines (log_bytes log) @ ls \<and> omap (parse_event cr) ls = Ok es))"
  using assms(2-4)
proof (induction ds arbitrary: self log r)
  case (Cons d ds)
  obtain fault eid nanos draft where d: "d = (fault, eid, nanos, draft)" by (cases d) auto
  obtain r1 self1 log1 where emit: "emit cr fault eid nanos draft self log = (r1, self1, log1)" by (metis prod_cases3)
  from Cons.prems(3) [of d] obtain m where fault: "fault = None \<or> fault = Some (LogOpen, m)" unfolding d by auto
  show ?case
  proof (cases r1)
    case (Ok e)
    obtain r2 where rest: "emit_batch cr ds self1 log1 = (r2, self', log')" and r: "r = obind r2 (\<lambda>es. Ok (e # es))"
      using Cons.prems(2) by (auto simp: d emit Ok split: prod.splits)
    have "fault = None" using emit unfolding Ok by (rule emit_Ok_no_fault)
    note step = emit_synced [OF assms(1) Cons.prems(1) emit [unfolded this Ok]]
    have "d \<in> set ds \<Longrightarrow> fst d = None \<or> (\<exists>m. fst d = Some (LogOpen, m))" for d
      using Cons.prems(3) by simp
    note IH = Cons.IH [OF conjunct1 [OF step] rest this]
    from step obtain l where "log_lines (log_bytes log1) = log_lines (log_bytes log) @ [l]" "parse_event cr l = Ok e" by auto
    with step IH show ?thesis by (auto simp: r outcome_simps)
  next
    case (Err x)
    with emit_error_before_write [OF emit [unfolded Err] fault] Cons.prems(1,2) show ?thesis
      by (auto simp: d emit)
  next
    case (Panic p)
    with emit emit_not_Panic show ?thesis by (metis fst_conv)
  qed
qed auto

lemma length_zero_hash [simp]: "length zero_hash = 32"
  by (simp add: zero_hash_def)

lemma new_sink_synced:
  assumes "open_sink cr LogNotFound key = Ok self" "length key = 32"
  shows "sink_synced cr self None \<and> fas_server_key self = key \<and> fas_written self = 0"
  using assms by (auto simp: open_sink_def recover_chain_head_def sink_synced_def log_bytes_def terminated_def)

subsection \<open>What the chain head commits to\<close>

text \<open>The part of an event the chain covers.\<close>

definition chained :: "audit_crates \<Rightarrow> audit_event \<Rightarrow> bytes \<times> event_id \<times> audit_kind \<times> bytes \<times> bytes" where
  "chained cr e = (ev_prev_event_hash e, ev_event_id e, ev_kind e, au_value cr (ev_details e), ev_server_signature e)"

definition hashed :: "audit_crates \<Rightarrow> audit_event \<Rightarrow> bytes" where
  "hashed cr e = event_preimage cr e @ ev_server_signature e"

lemma kind_byte_inject: "kind_byte k = kind_byte k' \<longleftrightarrow> k = k'"
  by (cases k; cases k') simp_all

lemma event_preimage_inject:
  assumes "audit_laws cr" "length (ev_prev_event_hash e) = 32" "length (ev_prev_event_hash e') = 32"
    "event_preimage cr e = event_preimage cr e'"
  shows "ev_prev_event_hash e = ev_prev_event_hash e' \<and> ev_event_id e = ev_event_id e' \<and> ev_kind e = ev_kind e' \<and>
    au_value cr (ev_details e) = au_value cr (ev_details e')"
proof -
  note u = audit_laws_dests(1) [OF assms(1)]
  have "ev_prev_event_hash e = ev_prev_event_hash e' \<and> as_bytes (au_ulid cr (event_ulid (ev_event_id e))) = as_bytes (au_ulid cr (event_ulid (ev_event_id e'))) \<and>
    kind_byte (ev_kind e) = kind_byte (ev_kind e') \<and> au_value cr (ev_details e) = au_value cr (ev_details e')"
    using assms(2-4) ulid_text_length [OF u]
    by (auto simp: event_preimage_def audit_preimage_def append_eq_same_length)
  then show ?thesis
    by (auto simp: as_bytes_inject ulid_text_inject [OF u] kind_byte_inject event_id.expand)
qed

text \<open>A run of the verifier over parsed events.\<close>

lemma replay_events:
  assumes "omap (parse_event cr) ls = Ok es"
  shows "ofold (replay_line cr pk) st ls = ofold (replay_step cr pk) st es"
  using assms
proof (induction ls arbitrary: st es)
  case (Cons l ls)
  then obtain e es' where e: "parse_event cr l = Ok e" "omap (parse_event cr) ls = Ok es'" "es = e # es'"
    by (auto simp: outcome_simps)
  with Cons.IH [OF e(2)] show ?case by (cases "replay_step cr pk st e") (simp_all add: replay_line_def)
qed simp

lemma replay_step_Ok:
  "replay_step cr pk (p, n) e = Ok st' \<longleftrightarrow> ev_prev_event_hash e = p \<and> verify_event cr e pk = Ok True \<and> st' = (event_digest cr e, n + 1)"
  by (auto simp: replay_step_def outcome_simps)

lemma verified_signature: "verify_event cr e pk = Ok True \<Longrightarrow> length (ev_server_signature e) = 64"
  by (auto simp: verify_event_def outcome_simps)

lemma equal_heads_equal_chains:
  assumes "audit_laws cr" "inj_on (sha256 (au_sign cr)) (hashed cr ` (set es \<union> set es'))"
    and "\<And>e. e \<in> set es \<union> set es' \<Longrightarrow> length (ev_prev_event_hash e) = 32"
    and "length es = length es'" "ofold (replay_step cr pk) st es = Ok (h, n)" "ofold (replay_step cr pk) st es' = Ok (h, n')"
  shows "map (chained cr) es = map (chained cr) es'"
  using assms(4,2,3,5,6)
proof (induction es es' arbitrary: h n n' rule: rev_induct2)
  case (4 e es e' es')
  obtain p m where es: "ofold (replay_step cr pk) st es = Ok (p, m)" "replay_step cr pk (p, m) e = Ok (h, n)"
    using "4.prems"(4) by (auto simp: ofold_append outcome_simps)
  obtain p' m' where es': "ofold (replay_step cr pk) st es' = Ok (p', m')" "replay_step cr pk (p', m') e' = Ok (h, n')"
    using "4.prems"(5) by (auto simp: ofold_append outcome_simps)
  from es(2) es'(2) have e: "ev_prev_event_hash e = p" "verify_event cr e pk = Ok True" "event_digest cr e = h"
    and e': "ev_prev_event_hash e' = p'" "verify_event cr e' pk = Ok True" "event_digest cr e' = h"
    by (simp_all add: replay_step_Ok)
  have "hashed cr e = hashed cr e'"
    by (rule inj_onD [OF "4.prems"(2)]) (use e(3) e'(3) in \<open>simp_all add: event_digest_def hashed_def\<close>)
  then have pre: "event_preimage cr e = event_preimage cr e'" "ev_server_signature e = ev_server_signature e'"
    using verified_signature [OF e(2)] verified_signature [OF e'(2)] by (simp_all add: hashed_def)
  have "chained cr e = chained cr e'" "p = p'"
    using event_preimage_inject [OF assms(1) _ _ pre(1)] "4.prems"(3) pre(2) e(1) e'(1) by (auto simp: chained_def)
  moreover have "map (chained cr) es = map (chained cr) es'"
  proof (rule "4.IH" [OF _ _ _ es(1) es'(1) [folded \<open>p = p'\<close>]])
    show "inj_on (sha256 (au_sign cr)) (hashed cr ` (set es \<union> set es'))"
      by (rule inj_on_subset [OF "4.prems"(2)]) auto
  qed (use "4.prems"(1,3) in auto)
  ultimately show ?case by simp
qed auto

lemma replay_only_chained:
  assumes "list_all2 (\<lambda>e e'. chained cr e = chained cr e') es es'"
  shows "ofold (replay_step cr pk) st es = ofold (replay_step cr pk) st es'"
  using assms
proof (induction arbitrary: st rule: list_all2_induct)
  case (Cons e es e' es')
  have "event_preimage cr e = event_preimage cr e'" "ev_prev_event_hash e = ev_prev_event_hash e'"
    "ev_server_signature e = ev_server_signature e'"
    using Cons.hyps(1) by (simp_all add: chained_def event_preimage_def audit_preimage_def)
  then have "replay_step cr pk st e = replay_step cr pk st e'"
    by (simp add: replay_step_def verify_event_def event_digest_def)
  with Cons.IH show ?case by simp
qed simp

subsection \<open>Executable crates\<close>

text \<open>The crates at work on events without optional fields: the fields in a row, written in hexadecimal.\<close>

definition all_kinds :: "audit_kind list" where
  "all_kinds = [WalletCreated, WalletRevoked, SigningRequested, SigningEvaluated, QuorumNotified,
     QuorumApprovalReceived, QuorumApprovalRejected, QuorumTimedOut, QuorumThresholdReached, PolicyDecisionSigned,
     SigningAttempted, SigningSucceeded, SigningFailed, PolicyChanged, ApproverSetChanged, SystemError, EnclaveAttested]"

definition ref_event_fields :: "audit_event \<Rightarrow> bytes" where
  "ref_event_fields e = be_bytes 16 (unat (event_ulid (ev_event_id e))) @ ev_prev_event_hash e @
     be_bytes 8 (nat (ev_timestamp_unix_ms e)) @ [kind_byte (ev_kind e)] @ ev_server_signature e"

definition ref_plain :: "audit_event \<Rightarrow> bool" where
  "ref_plain e \<longleftrightarrow> length (ev_prev_event_hash e) = 32 \<and> 0 \<le> ev_timestamp_unix_ms e \<and> ev_timestamp_unix_ms e < 256 ^ 8 \<and>
     ev_actor e = ActorSystem \<and> ev_request_id e = None \<and> ev_wallet_id e = None \<and> ev_details e = JNull"

definition ref_to_vec :: "audit_event \<Rightarrow> string + bytes" where
  "ref_to_vec e = (if ref_plain e then Inr (as_bytes (hex_encode (ref_event_fields e))) else Inl ''unsupported'')"

definition ref_from_slice :: "bytes \<Rightarrow> string + audit_event" where
  "ref_from_slice l =
     (case hex_decode_ref (map (\<lambda>w. char_of (unat w)) l) of
        None \<Rightarrow> Inl ''expected value''
      | Some b \<Rightarrow>
        (if length b < 57 then Inl ''EOF while parsing''
         else case find (\<lambda>k. kind_byte k = b ! 56) all_kinds of
             None \<Rightarrow> Inl ''unknown variant''
           | Some k \<Rightarrow> Inr \<lparr>ev_event_id = EventId (word_of_nat (be_nat (take 16 b))), ev_prev_event_hash = take 32 (drop 16 b),
               ev_timestamp_unix_ms = int (be_nat (take 8 (drop 48 b))), ev_actor = ActorSystem, ev_kind = k,
               ev_request_id = None, ev_wallet_id = None, ev_details = JNull, ev_server_signature = drop 57 b\<rparr>))"

definition ref_audit_crates :: audit_crates where
  "ref_audit_crates = \<lparr>au_sign = ref_sign_crates\<lparr>sha256 := \<lambda>m. toy_hash (drop 32 m)\<rparr>, au_ulid = crockford, au_value = (\<lambda>_. as_bytes ''null''),
     au_to_vec = ref_to_vec, au_from_slice = ref_from_slice\<rparr>"

lemma as_bytes_chars: "map (\<lambda>w. char_of (unat w)) (as_bytes s) = s"
proof -
  have "char_of (of_char c mod 256 :: nat) = c" for c :: char by simp
  then show ?thesis by (induction s) (simp_all add: as_bytes_def unat_of_nat)
qed

lemma find_kind: "find (\<lambda>k'. kind_byte k' = kind_byte k) all_kinds = Some k"
  by (cases k) (simp_all add: all_kinds_def)

lemma ref_event_round_trip:
  assumes "ref_plain e"
  shows "ref_from_slice (as_bytes (hex_encode (ref_event_fields e))) = Inr e"
proof -
  let ?u = "event_ulid (ev_event_id e)" and ?t = "nat (ev_timestamp_unix_ms e)"
  have "unat ?u mod 256 ^ 16 = unat ?u" using unat_lt [of ?u] by simp
  then have u: "word_of_nat (be_nat (be_bytes 16 (unat ?u))) = ?u" unfolding be_nat_be_bytes by simp
  have "?t mod 256 ^ 8 = ?t" using assms by (intro mod_less) (simp add: ref_plain_def nat_less_iff)
  then have t: "be_nat (be_bytes 8 ?t) = ?t" unfolding be_nat_be_bytes by simp
  have dec: "hex_decode_ref (hex_encode (ref_event_fields e)) = Some (ref_event_fields e)"
    using hex_decode_spec_ref by (simp add: hex_decode_spec_def)
  have b: "length (ref_event_fields e) \<ge> 57" "ref_event_fields e ! 56 = kind_byte (ev_kind e)"
    "take 16 (ref_event_fields e) = be_bytes 16 (unat ?u)" "take 32 (drop 16 (ref_event_fields e)) = ev_prev_event_hash e"
    "take 8 (drop 48 (ref_event_fields e)) = be_bytes 8 ?t" "drop 57 (ref_event_fields e) = ev_server_signature e"
    using assms by (simp_all add: ref_event_fields_def ref_plain_def nth_append)
  show ?thesis
    using b(1) unfolding ref_from_slice_def as_bytes_chars dec
    by (simp add: b(2-) find_kind u t) (use assms in \<open>cases e; simp add: ref_plain_def\<close>)
qed

lemma hex_line: "bs \<noteq> [] \<Longrightarrow> as_bytes (hex_encode bs) \<noteq> []" "10 \<notin> set (as_bytes (hex_encode bs))"
proof -
  show "bs \<noteq> [] \<Longrightarrow> as_bytes (hex_encode bs) \<noteq> []" by (cases bs) (simp_all add: hex_encode_def hex_of_byte_def as_bytes_def)
  have "CHR 0x0A \<notin> set (hex_encode bs)"
  proof
    assume "CHR 0x0A \<in> set (hex_encode bs)"
    with hex_encode_canonical [of bs] show False by (auto simp: list_all_iff is_ascii_hexdigit_def)
  qed
  then have "word_of_nat (of_char (CHR 0x0A)) \<notin> set (as_bytes (hex_encode bs))"
    unfolding as_bytes_def set_map image_iff byte_of_char_inject by auto
  then show "10 \<notin> set (as_bytes (hex_encode bs))" by simp
qed

lemma ref_audit_laws: "audit_laws ref_audit_crates"
proof -
  have "ev_prev_event_hash e \<noteq> [] \<Longrightarrow> ref_event_fields e \<noteq> []" for e by (simp add: ref_event_fields_def)
  moreover have "ref_from_slice b = Inr e \<Longrightarrow> length (ev_prev_event_hash e) = 32" for b e
    by (auto simp: ref_from_slice_def split: option.splits if_splits)
  ultimately show ?thesis
    using ref_sign_laws hex_line ref_event_round_trip
    by (auto simp: audit_laws_def sign_laws_def ed_laws_def ref_audit_crates_def ref_to_vec_def ulid_text_crockford ref_sign_crates_def
        ref_event_fields_def split: if_splits)
qed

lemma replay_reaches_head:
  assumes "omap (parse_event cr) (log_lines c) = Ok es" "replay_verify cr (LogContent c) pk = Ok n"
    "recover_chain_head cr (LogContent c) = Ok (h, k)"
  shows "\<exists>m. ofold (replay_step cr pk) (zero_hash, 0) es = Ok (h, m)"
proof (cases "c = []")
  case True
  with assms show ?thesis by (simp add: recover_chain_head_def)
next
  case False
  with assms(3) obtain e where e: "log_lines c \<noteq> []" "parse_event cr (last (log_lines c)) = Ok e" "h = event_digest cr e"
    by (auto simp: recover_chain_head_def Let_def outcome_simps split: if_splits)
  from False assms(2) obtain p m where run: "ofold (replay_line cr pk) (zero_hash, 0) (log_lines c) = Ok (p, m)"
    by (auto simp: replay_verify_def outcome_simps)
  from replay_ends [OF this] e have "p = h" by auto
  with run show ?thesis unfolding replay_events [OF assms(1)] by blast
qed

lemma parsed_prev_length:
  assumes "audit_laws cr" "omap (parse_event cr) ls = Ok es" "e \<in> set es"
  shows "length (ev_prev_event_hash e) = 32"
  using assms(2,3)
proof (induction ls arbitrary: es)
  case (Cons l ls)
  then show ?case
    using audit_laws_dests(6) [OF assms(1)] by (auto simp: outcome_simps parse_event_def split: sum.splits)
qed simp

lemma emit_batch_extends:
  assumes "audit_laws cr" "terminated (log_bytes log)" "length (fas_prev_event_hash self) = 32"
    and "emit_batch cr ds self log = (Ok es, self', log')" "es \<noteq> []"
  shows "\<exists>e l ls. log_lines (log_bytes log') = log_lines (log_bytes log) @ l # ls \<and> parse_event cr l = Ok e \<and>
    ev_prev_event_hash e = fas_prev_event_hash self \<and> log' \<noteq> None"
  using assms(2-5)
proof (induction ds arbitrary: self log es)
  case (Cons d ds)
  obtain fault eid nanos draft where d: "d = (fault, eid, nanos, draft)" by (cases d) auto
  from Cons.prems(3) obtain e self1 log1 es' where emit: "emit cr fault eid nanos draft self log = (Ok e, self1, log1)"
    and rest: "emit_batch cr ds self1 log1 = (Ok es', self', log')"
    by (auto simp: d outcome_simps split: prod.splits outcome.splits)
  have "fault = None" using emit by (rule emit_Ok_no_fault)
  with emit obtain l where e: "ev_prev_event_hash e = fas_prev_event_hash self" and l: "au_to_vec cr e = Inr l"
    and log1: "log1 = Some (log_bytes log @ l @ [10])" and self1: "fas_prev_event_hash self1 = event_digest cr e"
    by (auto simp: emit_no_fault)
  note line = emitted_line [OF assms(1) l]
  have lns: "log_lines (log_bytes log1) = log_lines (log_bytes log) @ [l]"
    using Cons.prems(1) line(1) by (simp add: log1 log_bytes_def [of "Some _"] log_lines_append)
  show ?case
  proof (cases "es' = []")
    case True
    with rest have "log' = log1" by (cases ds) (auto simp: outcome_simps split: prod.splits outcome.splits)
    with lns line(2) e Cons.prems(2) log1 show ?thesis by auto
  next
    case False
    have "terminated (log_bytes log1)" by (simp add: log1 log_bytes_def terminated_def)
    moreover have "length (fas_prev_event_hash self1) = 32"
      using audit_laws_dests(2) [OF assms(1)] by (simp add: self1 event_digest_def)
    ultimately obtain ls where "log_lines (log_bytes log') = log_lines (log_bytes log1) @ ls" "log' \<noteq> None"
      using Cons.IH [OF _ _ rest False] by blast
    with lns line(2) e Cons.prems(2) show ?thesis by auto
  qed
qed simp

subsection \<open>Properties\<close>

text \<open>C7. Whatever events a sink emits into a new file, and whichever emits fail before the file is written, the log
  it leaves passes the offline verifier with exactly the sink's count, opening the file again gives a
  sink in the very same state (so a restart continues the chain), and after a batch that succeeded the
  file holds exactly the events it returned.\<close>

theorem emitted_log_replays:
  assumes "audit_laws cr" "length key = 32" "open_sink cr LogNotFound key = Ok self"
    and "emit_batch cr ds self None = (r, self', log)"
    and "\<forall>d \<in> set ds. fst d = None \<or> (\<exists>m. fst d = Some (LogOpen, m))"
  shows "open_sink cr (read_log log) key = Ok self' \<and>
    (\<forall>c. log = Some c \<longrightarrow> replay_verify cr (LogContent c) (server_public_key cr self') = Ok (event_count self')) \<and>
    (\<forall>es. r = Ok es \<longrightarrow> event_count self' = of_nat (length es) \<and> omap (parse_event cr) (log_lines (log_bytes log)) = Ok es)"
proof -
  note new = new_sink_synced [OF assms(3,2)]
  have "sink_synced cr self' log \<and> fas_server_key self' = fas_server_key self \<and>
    (\<forall>es. r = Ok es \<longrightarrow> fas_written self' = fas_written self + of_nat (length es) \<and>
      (\<exists>ls. log_lines (log_bytes log) = log_lines (log_bytes None) @ ls \<and> omap (parse_event cr) ls = Ok es))"
    using assms(1) new assms(4,5) by (intro emit_batch_synced) auto
  with new synced_opens [of cr self' log] synced_replays [of cr self'] show ?thesis
    by (auto simp: event_count_def log_bytes_def [of None])
qed

definition demo_draft :: audit_event_draft where
  "demo_draft = \<lparr>dr_actor = ActorSystem, dr_kind = SigningRequested, dr_request_id = None, dr_wallet_id = None, dr_details = JNull\<rparr>"

definition demo_sink :: file_audit_sink where
  "demo_sink = \<lparr>fas_server_key = replicate 32 7, fas_prev_event_hash = zero_hash, fas_written = 0\<rparr>"

lemma demo_opens: "open_sink cr LogNotFound (replicate 32 7) = Ok demo_sink"
  by (simp add: open_sink_def recover_chain_head_def demo_sink_def)

lemma demo_line:
  assumes "length prev = 32"
  obtains l where "au_to_vec ref_audit_crates (stamp_event ref_audit_crates key prev eid (audit_unix_ms 0) demo_draft) = Inr l"
  using assms by (simp add: ref_audit_crates_def ref_to_vec_def ref_plain_def stamp_event_def Let_def demo_draft_def
      audit_unix_ms_def whole_units_def i64_ok_def)

lemma demo_emits_Ok:
  assumes "length (fas_prev_event_hash self) = 32"
  obtains e c where "emit ref_audit_crates None eid 0 demo_draft self log =
      (Ok e, self\<lparr>fas_prev_event_hash := event_digest ref_audit_crates e, fas_written := fas_written self + 1\<rparr>, Some c)"
  using demo_line [OF assms, of "fas_server_key self" eid] that unfolding emit_no_fault by metis

theorem emitted_log_replays_witness:
  "\<exists>es self' log. emit_batch ref_audit_crates [(None, EventId 1, 0, demo_draft), (None, EventId 2, 0, demo_draft)] demo_sink None = (Ok es, self', log) \<and>
     replay_verify ref_audit_crates (read_log log) (server_public_key ref_audit_crates self') = Ok 2"
proof -
  let ?ds = "[(None, EventId 1, 0, demo_draft), (None, EventId 2, 0, demo_draft)] :: emit_input list"
  have "length (fas_prev_event_hash demo_sink) = 32" by (simp add: demo_sink_def)
  then obtain e1 c1 where one: "emit ref_audit_crates None (EventId 1) 0 demo_draft demo_sink None =
      (Ok e1, demo_sink\<lparr>fas_prev_event_hash := event_digest ref_audit_crates e1, fas_written := fas_written demo_sink + 1\<rparr>, Some c1)"
    by (rule demo_emits_Ok)
  let ?s = "demo_sink\<lparr>fas_prev_event_hash := event_digest ref_audit_crates e1, fas_written := fas_written demo_sink + 1\<rparr>"
  have "length (fas_prev_event_hash ?s) = 32" by (simp add: event_digest_def audit_laws_dests(2) [OF ref_audit_laws])
  then obtain e2 c2 where "emit ref_audit_crates None (EventId 2) 0 demo_draft ?s (Some c1) =
      (Ok e2, ?s\<lparr>fas_prev_event_hash := event_digest ref_audit_crates e2, fas_written := fas_written ?s + 1\<rparr>, Some c2)"
    by (rule demo_emits_Ok)
  with one obtain self' where run: "emit_batch ref_audit_crates ?ds demo_sink None = (Ok [e1, e2], self', Some c2)" by simp
  have "replay_verify ref_audit_crates (LogContent c2) (server_public_key ref_audit_crates self') = Ok 2"
    using emitted_log_replays [OF ref_audit_laws _ demo_opens run] by simp
  with run show ?thesis by (auto simp: read_log_def)
qed


text \<open>C24. The chain head commits to the whole history: two logs of equally many events that both pass the
  verifier and end in the same head have, event by event, the same predecessor hash, identifier, kind,
  serialised details and signature, unless SHA-256 collides on the inputs hashed in them.\<close>

theorem chain_head_commits:
  assumes "audit_laws cr" "omap (parse_event cr) (log_lines c) = Ok es" "omap (parse_event cr) (log_lines c') = Ok es'"
    and "replay_verify cr (LogContent c) pk = Ok n" "replay_verify cr (LogContent c') pk = Ok n'"
    and "recover_chain_head cr (LogContent c) = Ok (h, k)" "recover_chain_head cr (LogContent c') = Ok (h, k')"
    and "length es = length es'" "inj_on (sha256 (au_sign cr)) (hashed cr ` (set es \<union> set es'))"
  shows "map (chained cr) es = map (chained cr) es'"
proof -
  obtain m m' where "ofold (replay_step cr pk) (zero_hash, 0) es = Ok (h, m)"
    "ofold (replay_step cr pk) (zero_hash, 0) es' = Ok (h, m')"
    using replay_reaches_head [OF assms(2,4,6)] replay_reaches_head [OF assms(3,5,7)] by blast
  moreover have "length (ev_prev_event_hash e) = 32" if "e \<in> set es \<union> set es'" for e
    using that parsed_prev_length [OF assms(1,2)] parsed_prev_length [OF assms(1,3)] by auto
  ultimately show ?thesis using equal_heads_equal_chains [OF assms(1,9) _ assms(8)] by blast
qed

definition demo_event :: "i64 \<Rightarrow> audit_event" where
  "demo_event t = stamp_event ref_audit_crates (replicate 32 7) zero_hash (EventId 1) t demo_draft"

definition demo_log :: "i64 \<Rightarrow> bytes" where
  "demo_log t = as_bytes (hex_encode (ref_event_fields (demo_event t))) @ [10]"

lemma demo_chained: "chained cr (demo_event t) = chained cr (demo_event t')" "hashed cr (demo_event t) = hashed cr (demo_event t')"
  "event_digest cr (demo_event t) = event_digest cr (demo_event t')"
  by (simp_all add: demo_event_def stamp_event_def Let_def chained_def hashed_def event_preimage_def event_digest_def)

lemma demo_log_runs:
  assumes "0 \<le> t" "t < 1000"
  shows "omap (parse_event ref_audit_crates) (log_lines (demo_log t)) = Ok [demo_event t]"
    "recover_chain_head ref_audit_crates (LogContent (demo_log t)) = Ok (event_digest ref_audit_crates (demo_event 0), 1)"
    "replay_verify ref_audit_crates (LogContent (demo_log t)) (replicate 32 7) = Ok 1"
proof -
  let ?l = "as_bytes (hex_encode (ref_event_fields (demo_event t)))"
  have vec: "au_to_vec ref_audit_crates (demo_event t) = Inr ?l"
    using assms by (simp add: ref_audit_crates_def ref_to_vec_def ref_plain_def demo_event_def stamp_event_def Let_def demo_draft_def)
  note line = emitted_line [OF ref_audit_laws vec]
  have lns: "log_lines (demo_log t) = [?l]" unfolding demo_log_def by (rule line(1))
  have parse: "parse_event ref_audit_crates ?l = Ok (demo_event t)" by (rule line(2)) (simp add: demo_event_def)
  have pk: "ed_public (au_sign ref_audit_crates) (replicate 32 7) = replicate 32 7" by (simp add: ref_audit_crates_def ref_sign_crates_def)
  have "verify_event ref_audit_crates (demo_event t) (replicate 32 7) = Ok True"
    using stamp_event_verifies [OF ref_audit_laws, of "replicate 32 7" zero_hash "EventId 1" t demo_draft] unfolding pk demo_event_def by simp
  then have "replay_line ref_audit_crates (replicate 32 7) (zero_hash, 0) ?l = Ok (event_digest ref_audit_crates (demo_event t), 1)"
    by (simp add: replay_line_def parse replay_step_def fail_if_simps) (simp add: demo_event_def)
  then show "replay_verify ref_audit_crates (LogContent (demo_log t)) (replicate 32 7) = Ok 1"
    by (simp add: replay_verify_def lns) (simp add: demo_log_def)
  show "omap (parse_event ref_audit_crates) (log_lines (demo_log t)) = Ok [demo_event t]" by (simp add: lns parse)
  show "recover_chain_head ref_audit_crates (LogContent (demo_log t)) = Ok (event_digest ref_audit_crates (demo_event 0), 1)"
    by (simp add: recover_chain_head_def lns parse demo_chained(3) [of _ t 0]) (simp add: demo_log_def)
qed

theorem chain_head_commits_witness:
  "demo_event 0 \<noteq> demo_event 5 \<and> map (chained ref_audit_crates) [demo_event 0] = map (chained ref_audit_crates) [demo_event 5]"
proof
  show "demo_event 0 \<noteq> demo_event 5" by (simp add: demo_event_def stamp_event_def Let_def)
  show "map (chained ref_audit_crates) [demo_event 0] = map (chained ref_audit_crates) [demo_event 5]"
    by (rule chain_head_commits [OF ref_audit_laws demo_log_runs(1) demo_log_runs(1) demo_log_runs(3) demo_log_runs(3)
          demo_log_runs(2) demo_log_runs(2)]) (simp_all add: demo_chained(2) [of _ 5 0])
qed

text \<open>The verifier cannot see a change of an event's timestamp, actor, request or wallet: two files whose
  events agree on the chained fields get the same verdict, whatever those four fields say.\<close>

theorem unchained_fields_unprotected:
  assumes "omap (parse_event cr) (log_lines c) = Ok es" "omap (parse_event cr) (log_lines c') = Ok es'" "es \<noteq> []"
    and "list_all2 (\<lambda>e e'. ev_prev_event_hash e' = ev_prev_event_hash e \<and> ev_event_id e' = ev_event_id e \<and> ev_kind e' = ev_kind e \<and>
      ev_details e' = ev_details e \<and> ev_server_signature e' = ev_server_signature e) es es'"
  shows "replay_verify cr (LogContent c') pk = replay_verify cr (LogContent c) pk"
proof -
  have "list_all2 (\<lambda>e e'. chained cr e = chained cr e') es es'"
    using assms(4) by (rule list_all2_mono) (simp add: chained_def)
  from replay_only_chained [OF this] have "ofold (replay_line cr pk) st (log_lines c) = ofold (replay_line cr pk) st (log_lines c')" for st
    unfolding replay_events [OF assms(1)] replay_events [OF assms(2)] by simp
  moreover have "c \<noteq> []" "c' \<noteq> []" using assms by (auto simp: list_all2_Cons1)
  ultimately show ?thesis by (simp add: replay_verify_def)
qed

theorem unchained_fields_unprotected_witness:
  "demo_event 0 \<noteq> demo_event 5 \<and> replay_verify ref_audit_crates (LogContent (demo_log 5)) (replicate 32 7) = Ok 1"
proof
  show "demo_event 0 \<noteq> demo_event 5" by (simp add: demo_event_def stamp_event_def Let_def)
  have "replay_verify ref_audit_crates (LogContent (demo_log 5)) (replicate 32 7) =
      replay_verify ref_audit_crates (LogContent (demo_log 0)) (replicate 32 7)"
    by (rule unchained_fields_unprotected [OF demo_log_runs(1) demo_log_runs(1)])
      (simp_all add: demo_event_def stamp_event_def Let_def)
  then show "replay_verify ref_audit_crates (LogContent (demo_log 5)) (replicate 32 7) = Ok 1" by (simp add: demo_log_runs(3))
qed

text \<open>C33. A failure to sync loses the chain: the event's line is in the file but the head is not advanced, so
  whatever the sink emits afterwards, the offline verifier rejects the file for good.\<close>

theorem failed_sync_breaks_chain:
  assumes "audit_laws cr" "sink_synced cr self log"
    and "emit cr (Some (LogSync, m)) eid nanos draft self log = (Err (AuditIo m), self1, log1)"
    and "event_digest cr (stamp_event cr (fas_server_key self) (fas_prev_event_hash self) eid (audit_unix_ms nanos) draft) \<noteq> fas_prev_event_hash self"
    and "emit_batch cr ds self1 log1 = (Ok es, self2, log2)" "es \<noteq> []"
  shows "self1 = self \<and> replay_verify cr (read_log log2) (server_public_key cr self) = Err (AuditCrypto ''hash chain broken'')"
proof -
  let ?e = "stamp_event cr (fas_server_key self) (fas_prev_event_hash self) eid (audit_unix_ms nanos) draft"
  from assms(3) obtain l where l: "au_to_vec cr ?e = Inr l" and log1: "log1 = Some (log_bytes log @ l @ [10])" and self1: "self1 = self"
    by (auto simp: emit_def append_line_def Let_def split: sum.splits)
  have "emit cr None eid nanos draft self log =
      (Ok ?e, self\<lparr>fas_prev_event_hash := event_digest cr ?e, fas_written := fas_written self + 1\<rparr>, log1)"
    unfolding emit_no_fault using l log1 by blast
  note step = emit_synced [OF assms(1,2) this]
  from step have run: "ofold (replay_line cr (server_public_key cr self)) (zero_hash, 0) (log_lines (log_bytes log1)) =
      Ok (event_digest cr ?e, fas_written self + 1)" and term1: "terminated (log_bytes log1)"
    by (simp_all add: sink_synced_def server_public_key_def)
  have len: "length (fas_prev_event_hash self) = 32" using assms(2) by (simp add: sink_synced_def)
  obtain e ls ls' where lns: "log_lines (log_bytes log2) = log_lines (log_bytes log1) @ ls # ls'" "parse_event cr ls = Ok e"
    "ev_prev_event_hash e = fas_prev_event_hash self" "log2 \<noteq> None"
    using emit_batch_extends [OF assms(1) term1 len assms(5) [unfolded self1] assms(6)] by auto
  have "replay_line cr (server_public_key cr self) (event_digest cr ?e, fas_written self + 1) ls = Err (AuditCrypto ''hash chain broken'')"
    using assms(4) by (simp add: replay_line_def lns(2,3) replay_step_def fail_if_def)
  then have "ofold (replay_line cr (server_public_key cr self)) (zero_hash, 0) (log_lines (log_bytes log2)) = Err (AuditCrypto ''hash chain broken'')"
    unfolding lns(1) ofold_append run by simp
  with lns(1,4) self1 show ?thesis
    by (auto simp: read_log_def replay_verify_def log_bytes_def)
qed

lemma demo_digest: "event_digest ref_audit_crates (stamp_event ref_audit_crates key zero_hash eid now draft) \<noteq> zero_hash"
proof -
  have "event_digest ref_audit_crates (stamp_event ref_audit_crates key zero_hash eid now draft) ! 26 = 124"
    using ulid_text_length [OF ulid_text_crockford]
    by (simp add: event_digest_def event_preimage_def audit_preimage_def stamp_event_def Let_def ref_audit_crates_def
        toy_hash_def nth_append as_bytes_def zero_hash_def)
  moreover have "zero_hash ! 26 = 0" by (simp add: zero_hash_def)
  ultimately show ?thesis by auto
qed

theorem failed_sync_breaks_chain_witness:
  "\<exists>self1 log1 es self2 log2.
     emit ref_audit_crates (Some (LogSync, ''EIO'')) (EventId 1) 0 demo_draft demo_sink None = (Err (AuditIo ''EIO''), self1, log1) \<and>
     emit_batch ref_audit_crates [(None, EventId 2, 0, demo_draft)] self1 log1 = (Ok es, self2, log2) \<and>
     replay_verify ref_audit_crates (read_log log2) (server_public_key ref_audit_crates demo_sink) = Err (AuditCrypto ''hash chain broken'')"
proof -
  let ?cr = ref_audit_crates
  have sync: "sink_synced ?cr demo_sink None" using new_sink_synced [OF demo_opens] by simp
  have len: "length (fas_prev_event_hash demo_sink) = 32" by (simp add: demo_sink_def)
  obtain l where l: "au_to_vec ?cr (stamp_event ?cr (fas_server_key demo_sink) (fas_prev_event_hash demo_sink) (EventId 1) (audit_unix_ms 0) demo_draft) = Inr l"
    using demo_line [OF len] by blast
  have one: "emit ?cr (Some (LogSync, ''EIO'')) (EventId 1) 0 demo_draft demo_sink None = (Err (AuditIo ''EIO''), demo_sink, Some (l @ [10]))"
    unfolding emit_def Let_def l by (simp add: append_line_def log_bytes_def)
  obtain e c where "emit ?cr None (EventId 2) 0 demo_draft demo_sink (Some (l @ [10])) =
      (Ok e, demo_sink\<lparr>fas_prev_event_hash := event_digest ?cr e, fas_written := fas_written demo_sink + 1\<rparr>, Some c)"
    using demo_emits_Ok [OF len] by blast
  then obtain s2 where two: "emit_batch ?cr [(None, EventId 2, 0, demo_draft)] demo_sink (Some (l @ [10])) = (Ok [e], s2, Some c)" by simp
  have "event_digest ?cr (stamp_event ?cr (fas_server_key demo_sink) (fas_prev_event_hash demo_sink) (EventId 1) (audit_unix_ms 0) demo_draft) \<noteq> fas_prev_event_hash demo_sink"
    by (simp add: demo_sink_def demo_digest)
  from failed_sync_breaks_chain [OF ref_audit_laws sync one this two] one two show ?thesis by auto
qed

end
