(* ===== verification/Audit_Postgres.thy ===== *)
theory Audit_Postgres
  imports Audit_Log "HOL-Library.List_Lexorder" "HOL-Library.Product_Lexorder"
begin

text \<open>
  The Postgres sink of the audit log (\<open>qfc-audit/src/postgres.rs\<close>) and the anchor payloads built from
  either sink (\<open>anchor.rs\<close>). The table \<open>audit_events\<close> is the list of its rows in insertion order;
  the queries of the source are functions of that list. A transaction runs alone (the advisory lock), takes effect
  at its commit, and a fault of the database is an argument that names the step it strikes.
\<close>

subsection \<open>Rows\<close>

record audit_row =
  row_event_id :: string
  row_prev_event_hash :: bytes
  row_timestamp_unix_ms :: i64
  row_actor_kind :: int
  row_actor_id :: "string option"
  row_kind :: int
  row_request_id :: "string option"
  row_wallet_id :: "string option"
  row_details :: json
  row_server_signature :: bytes

type_synonym audit_table = "audit_row list"

text \<open>The text of an identifier read back (\<open>Inl\<close> the crate's error), and a JSON value as \<open>JSONB\<close> gives it
  back.\<close>

record pg_crates =
  pg_audit :: audit_crates
  pg_ulid_parse :: "string \<Rightarrow> string + ulid"
  pg_jsonb :: "json \<Rightarrow> json"

text \<open>\<open>ORDER BY timestamp_unix_ms, event_id\<close>.\<close>

definition row_key :: "audit_row \<Rightarrow> int \<times> nat list" where
  "row_key r = (row_timestamp_unix_ms r, map of_char (row_event_id r))"

fun newest_row :: "audit_table \<Rightarrow> audit_row option" where
  "newest_row [] = None"
| "newest_row (r # rs) =
     (case newest_row rs of None \<Rightarrow> Some r | Some s \<Rightarrow> if row_key r \<le> row_key s then Some s else Some r)"

primrec actor_columns :: "actor \<Rightarrow> int \<times> string option" where
  "actor_columns (ActorRequester i) = (1, Some i)"
| "actor_columns (ActorApprover i) = (2, Some i)"
| "actor_columns ActorSystem = (3, None)"
| "actor_columns ActorEnclave = (4, None)"

definition kind_from_byte :: "u8 \<Rightarrow> (audit_error, audit_kind) outcome" where
  "kind_from_byte b =
     (if b = 1 then Ok WalletCreated
      else if b = 2 then Ok WalletRevoked
      else if b = 3 then Ok SigningRequested
      else if b = 4 then Ok SigningEvaluated
      else if b = 5 then Ok QuorumNotified
      else if b = 6 then Ok QuorumApprovalReceived
      else if b = 7 then Ok QuorumApprovalRejected
      else if b = 8 then Ok QuorumTimedOut
      else if b = 9 then Ok SigningAttempted
      else if b = 10 then Ok SigningSucceeded
      else if b = 11 then Ok SigningFailed
      else if b = 12 then Ok PolicyChanged
      else if b = 13 then Ok ApproverSetChanged
      else if b = 14 then Ok SystemError
      else if b = 15 then Ok EnclaveAttested
      else if b = 16 then Ok QuorumThresholdReached
      else Err (AuditSerde (''unknown audit kind byte: '' @ show_nat (unat b))))"

definition show_int :: "int \<Rightarrow> string" where
  "show_int k = (if k < 0 then ''-'' @ show_nat (nat (- k)) else show_nat (nat k))"

definition actor_from_columns :: "int \<Rightarrow> string option \<Rightarrow> (audit_error, actor) outcome" where
  "actor_from_columns k i =
     (if k = 1 then obind (ok_or i (AuditSerde ''Requester row missing actor_id'')) (\<lambda>x. Ok (ActorRequester x))
      else if k = 2 then obind (ok_or i (AuditSerde ''Approver row missing actor_id'')) (\<lambda>x. Ok (ActorApprover x))
      else if k = 3 then Ok ActorSystem
      else if k = 4 then Ok ActorEnclave
      else Err (AuditSerde (''unknown actor_kind: '' @ show_int k)))"

definition try_u8 :: "string \<Rightarrow> int \<Rightarrow> (audit_error, u8) outcome" where
  "try_u8 what k = (if 0 \<le> k \<and> k < 256 then Ok (word_of_int k) else Err (AuditSerde (what @ show_int k)))"

definition parse_ulid :: "pg_crates \<Rightarrow> string \<Rightarrow> string \<Rightarrow> (audit_error, ulid) outcome" where
  "parse_ulid pg what s = (case pg_ulid_parse pg s of Inl e \<Rightarrow> Err (AuditSerde (what @ ''invalid ULID: '' @ e)) | Inr u \<Rightarrow> Ok u)"

definition parse_opt_ulid :: "pg_crates \<Rightarrow> string \<Rightarrow> string option \<Rightarrow> (audit_error, ulid option) outcome" where
  "parse_opt_ulid pg what s = (case s of None \<Rightarrow> Ok None | Some t \<Rightarrow> obind (parse_ulid pg what t) (\<lambda>u. Ok (Some u)))"

definition event_row :: "pg_crates \<Rightarrow> audit_event \<Rightarrow> audit_row" where
  "event_row pg e =
     (let (actor_kind, actor_id) = actor_columns (ev_actor e); u = au_ulid (pg_audit pg) in
      \<lparr>row_event_id = u (event_ulid (ev_event_id e)), row_prev_event_hash = ev_prev_event_hash e,
       row_timestamp_unix_ms = ev_timestamp_unix_ms e, row_actor_kind = actor_kind, row_actor_id = actor_id,
       row_kind = uint (kind_byte (ev_kind e)), row_request_id = map_option (\<lambda>r. u (request_ulid r)) (ev_request_id e),
       row_wallet_id = map_option (\<lambda>w. u (wallet_ulid w)) (ev_wallet_id e), row_details = pg_jsonb pg (ev_details e),
       row_server_signature = ev_server_signature e\<rparr>)"

definition row_to_event :: "pg_crates \<Rightarrow> audit_row \<Rightarrow> (audit_error, audit_event) outcome" where
  "row_to_event pg row =
     obind (parse_ulid pg ''event_id parse: '' (row_event_id row)) (\<lambda>eid.
     obind (fail_if (length (row_prev_event_hash row) \<noteq> 32)
       (AuditSerde (''prev_event_hash must be 32 bytes, got '' @ show_nat (length (row_prev_event_hash row))))) (\<lambda>_.
     obind (try_u8 ''kind byte out of range: '' (row_kind row)) (\<lambda>b.
     obind (kind_from_byte b) (\<lambda>kind.
     obind (actor_from_columns (row_actor_kind row) (row_actor_id row)) (\<lambda>actor.
     obind (parse_opt_ulid pg ''request_id parse: '' (row_request_id row)) (\<lambda>req.
     obind (parse_opt_ulid pg ''wallet_id parse: '' (row_wallet_id row)) (\<lambda>wal.
     Ok \<lparr>ev_event_id = EventId eid, ev_prev_event_hash = row_prev_event_hash row, ev_timestamp_unix_ms = row_timestamp_unix_ms row,
        ev_actor = actor, ev_kind = kind, ev_request_id = map_option RequestId req, ev_wallet_id = map_option WalletId wal,
        ev_details = row_details row, ev_server_signature = row_server_signature row\<rparr>)))))))"

subsection \<open>The sink\<close>

definition CHAIN_ADVISORY_LOCK_KEY :: i64 where
  "CHAIN_ADVISORY_LOCK_KEY = 0x714643535343484E"

record pg_sink =
  pgs_server_key :: bytes
  pgs_advisory_lock_key :: i64

definition pg_from_pool :: "bytes \<Rightarrow> pg_sink" where
  "pg_from_pool server_key = \<lparr>pgs_server_key = server_key, pgs_advisory_lock_key = CHAIN_ADVISORY_LOCK_KEY\<rparr>"

definition pg_server_public_key :: "pg_crates \<Rightarrow> pg_sink \<Rightarrow> bytes" where
  "pg_server_public_key pg self = ed_public (au_sign (pg_audit pg)) (pgs_server_key self)"

definition pg_event_count :: "string option \<Rightarrow> audit_table \<Rightarrow> (audit_error, u64) outcome" where
  "pg_event_count fault table =
     (case fault of Some m \<Rightarrow> Err (AuditIo (''count: '' @ m)) | None \<Rightarrow> Ok (of_nat (length table)))"

text \<open>The steps of an emit the database can fail at; a commit reported as failed may have taken effect.\<close>

datatype pg_step = PgBegin | PgLock | PgSelect | PgInsert | PgCommit bool

definition fetch_chain_head :: "pg_crates \<Rightarrow> audit_table \<Rightarrow> (audit_error, bytes) outcome" where
  "fetch_chain_head pg table =
     (case newest_row table of
        None \<Rightarrow> Ok zero_hash
      | Some row \<Rightarrow>
          obind (parse_ulid pg ''head event_id ulid parse: '' (row_event_id row)) (\<lambda>eid.
          obind (try_u8 ''head kind byte out of range: '' (row_kind row)) (\<lambda>b.
          obind (kind_from_byte b) (\<lambda>kind.
          obind (fail_if (length (row_prev_event_hash row) \<noteq> 32)
            (AuditSerde (''head prev_event_hash must be 32 bytes, got '' @ show_nat (length (row_prev_event_hash row))))) (\<lambda>_.
          Ok (sha256 (au_sign (pg_audit pg)) (audit_preimage (pg_audit pg) (row_prev_event_hash row) (EventId eid) kind (row_details row)
            @ row_server_signature row)))))))"

text \<open>\<open>event_id\<close> is the primary key.\<close>

definition insert_event :: "pg_crates \<Rightarrow> audit_table \<Rightarrow> audit_event \<Rightarrow> (audit_error, audit_table) outcome" where
  "insert_event pg table e =
     (if row_event_id (event_row pg e) \<in> row_event_id ` set table
      then Err (AuditIo ''insert audit_events: duplicate key value violates unique constraint'')
      else Ok (table @ [event_row pg e]))"

definition pg_fail :: "(pg_step \<times> string) option \<Rightarrow> pg_step \<Rightarrow> string \<Rightarrow> (audit_error, unit) outcome" where
  "pg_fail fault step what =
     (case fault of Some (s, m) \<Rightarrow> if s = step then Err (AuditIo (what @ m)) else Ok () | None \<Rightarrow> Ok ())"

definition pg_transaction :: "pg_crates \<Rightarrow> (pg_step \<times> string) option \<Rightarrow> event_id \<Rightarrow> int \<Rightarrow> audit_event_draft \<Rightarrow> pg_sink \<Rightarrow>
   audit_table \<Rightarrow> (audit_error, audit_event \<times> audit_table) outcome" where
  "pg_transaction pg fault eid nanos draft self table =
     obind (pg_fail fault PgBegin ''begin tx: '') (\<lambda>_.
     obind (pg_fail fault PgLock ''advisory lock: '') (\<lambda>_.
     obind (pg_fail fault PgSelect ''chain head select: '') (\<lambda>_.
     obind (fetch_chain_head pg table) (\<lambda>prev.
     let event = stamp_event (pg_audit pg) (pgs_server_key self) prev eid (audit_unix_ms nanos) draft in
     obind (fail_if (length (ev_server_signature event) \<noteq> 64) (AuditCrypto ''ed25519 signature must be 64 bytes'')) (\<lambda>_.
     obind (pg_fail fault PgInsert ''insert audit_events: '') (\<lambda>_.
     obind (insert_event pg table event) (\<lambda>table'. Ok (event, table'))))))))"

definition pg_emit :: "pg_crates \<Rightarrow> (pg_step \<times> string) option \<Rightarrow> event_id \<Rightarrow> int \<Rightarrow> audit_event_draft \<Rightarrow> pg_sink \<Rightarrow>
   audit_table \<Rightarrow> (audit_error, audit_event) outcome \<times> audit_table" where
  "pg_emit pg fault eid nanos draft self table =
     (case pg_transaction pg fault eid nanos draft self table of
        Ok (event, table') \<Rightarrow>
          (case fault of
             Some (PgCommit applied, m) \<Rightarrow> (Err (AuditIo (''commit: '' @ m)), if applied then table' else table)
           | _ \<Rightarrow> (Ok event, table'))
      | Err e \<Rightarrow> (Err e, table)
      | Panic p \<Rightarrow> (Panic p, table))"

definition replay_row :: "pg_crates \<Rightarrow> bytes \<Rightarrow> bytes \<times> u64 \<Rightarrow> audit_row \<Rightarrow> (audit_error, bytes \<times> u64) outcome" where
  "replay_row pg pk st row = obind (row_to_event pg row) (replay_step (pg_audit pg) pk st)"

definition replay_verify_postgres :: "pg_crates \<Rightarrow> string option \<Rightarrow> audit_table \<Rightarrow> bytes \<Rightarrow> (audit_error, u64) outcome" where
  "replay_verify_postgres pg fault table verifying_key =
     (case fault of
        Some m \<Rightarrow> Err (AuditIo (''replay select: '' @ m))
      | None \<Rightarrow>
          obind (ofold (replay_row pg verifying_key) (zero_hash, 0) (sort_key row_key table)) (\<lambda>(prev, n). Ok n))"

subsection \<open>Anchors (anchor.rs)\<close>

record anchor_payload =
  an_date_utc :: string
  an_chain_head_hex :: string
  an_head_event_id :: "event_id option"
  an_event_count :: u64

definition kind_from_byte_local :: "u8 \<Rightarrow> (audit_error, audit_kind) outcome" where
  "kind_from_byte_local b =
     (if b = 1 then Ok WalletCreated
      else if b = 2 then Ok WalletRevoked
      else if b = 3 then Ok SigningRequested
      else if b = 4 then Ok SigningEvaluated
      else if b = 5 then Ok QuorumNotified
      else if b = 6 then Ok QuorumApprovalReceived
      else if b = 7 then Ok QuorumApprovalRejected
      else if b = 8 then Ok QuorumTimedOut
      else if b = 9 then Ok SigningAttempted
      else if b = 10 then Ok SigningSucceeded
      else if b = 11 then Ok SigningFailed
      else if b = 12 then Ok PolicyChanged
      else if b = 13 then Ok ApproverSetChanged
      else if b = 14 then Ok SystemError
      else if b = 15 then Ok EnclaveAttested
      else Err (AuditSerde (''anchor: unknown audit kind byte: '' @ show_nat (unat b))))"

definition anchor_head :: "pg_crates \<Rightarrow> audit_row \<Rightarrow> (audit_error, string \<times> event_id option) outcome" where
  "anchor_head pg row =
     obind (parse_ulid pg ''anchor head event_id parse: '' (row_event_id row)) (\<lambda>eid.
     obind (try_u8 ''anchor head kind byte: '' (row_kind row)) (\<lambda>b.
     obind (kind_from_byte_local b) (\<lambda>kind.
     obind (fail_if (length (row_prev_event_hash row) \<noteq> 32) (AuditSerde ''anchor head prev_event_hash not 32 bytes'')) (\<lambda>_.
     Ok (hex_encode (sha256 (au_sign (pg_audit pg)) (audit_preimage (pg_audit pg) (row_prev_event_hash row) (EventId eid) kind (row_details row)
          @ row_server_signature row)), Some (EventId eid))))))"

text \<open>The two queries of \<open>anchor_payload\<close> may see different states of the table.\<close>

definition anchor_payload_pg :: "pg_crates \<Rightarrow> string \<Rightarrow> string + audit_table \<Rightarrow> string + audit_table \<Rightarrow> (audit_error, anchor_payload) outcome" where
  "anchor_payload_pg pg date_utc counted selected =
     obind (case counted of Inl m \<Rightarrow> Err (AuditIo (''anchor count: '' @ m)) | Inr t \<Rightarrow> Ok (of_nat (length t))) (\<lambda>event_count.
     obind (case selected of Inl m \<Rightarrow> Err (AuditIo (''anchor head select: '' @ m)) | Inr t \<Rightarrow> Ok (newest_row t)) (\<lambda>head_row.
     obind (case head_row of None \<Rightarrow> Ok (hex_encode zero_hash, None) | Some row \<Rightarrow> anchor_head pg row) (\<lambda>(head_hex, head_id).
     Ok \<lparr>an_date_utc = date_utc, an_chain_head_hex = head_hex, an_head_event_id = head_id, an_event_count = event_count\<rparr>)))"

definition current_anchor_payload :: "string \<Rightarrow> file_audit_sink \<Rightarrow> anchor_payload" where
  "current_anchor_payload date_utc self =
     \<lparr>an_date_utc = date_utc, an_chain_head_hex = hex_encode (fas_prev_event_hash self), an_head_event_id = None,
      an_event_count = fas_written self\<rparr>"

definition anchor_preimage :: "(ulid \<Rightarrow> string) \<Rightarrow> anchor_payload \<Rightarrow> bytes" where
  "anchor_preimage ulid_str p =
     as_bytes ''qfc-audit-anchor-v1'' @ [0] @ as_bytes (an_date_utc p) @ [0] @ as_bytes (an_chain_head_hex p) @ [0] @
     (case an_head_event_id p of Some e \<Rightarrow> as_bytes (ulid_str (event_ulid e)) | None \<Rightarrow> []) @ [0] @
     u64_be (an_event_count p)"

record anchor_jsonl =
  aj_payload :: anchor_payload
  aj_anchor_public_key_hex :: string
  aj_signature_hex :: string

definition anchor_row :: "audit_crates \<Rightarrow> bytes \<Rightarrow> anchor_payload \<Rightarrow> anchor_jsonl" where
  "anchor_row cr key p =
     \<lparr>aj_payload = p, aj_anchor_public_key_hex = hex_encode (ed_public (au_sign cr) key),
      aj_signature_hex = hex_encode (ed_sign (au_sign cr) key (anchor_preimage (au_ulid cr) p))\<rparr>"

text \<open>\<open>LocalFileAnchor::submit\<close>; the file is not synced, so there is no such fault.\<close>

definition anchor_submit :: "audit_crates \<Rightarrow> (anchor_jsonl \<Rightarrow> string + bytes) \<Rightarrow> (log_fault \<times> string) option \<Rightarrow> string \<Rightarrow> bytes \<Rightarrow>
   anchor_payload \<Rightarrow> log_file \<Rightarrow> (audit_error, unit) outcome \<times> log_file" where
  "anchor_submit cr to_vec fault path key p log =
     (case to_vec (anchor_row cr key p) of
        Inl m \<Rightarrow> (Err (AuditSerde (''anchor serialize: '' @ m)), log)
      | Inr line \<Rightarrow>
        (case fault of
           Some (LogOpen, m) \<Rightarrow> (Err (AuditIo (''anchor open '' @ path @ '': '' @ m)), log)
         | Some (LogWrite n, m) \<Rightarrow> (Err (AuditIo (''anchor write: '' @ m)), Some (log_bytes log @ take n (line @ [10])))
         | Some (LogFlush n, m) \<Rightarrow> (Err (AuditIo (''anchor flush: '' @ m)), Some (log_bytes log @ take n (line @ [10])))
         | _ \<Rightarrow> (Ok (), Some (log_bytes log @ line @ [10]))))"

subsection \<open>A run of the sink\<close>

text \<open>Emits one after the other, whatever their outcomes.\<close>

type_synonym pg_input = "(pg_step \<times> string) option \<times> event_id \<times> int \<times> audit_event_draft"

fun pg_run :: "pg_crates \<Rightarrow> pg_sink \<Rightarrow> pg_input list \<Rightarrow> audit_table \<Rightarrow> audit_table" where
  "pg_run pg self [] table = table"
| "pg_run pg self ((fault, eid, nanos, draft) # ds) table =
     pg_run pg self ds (snd (pg_emit pg fault eid nanos draft self table))"

definition pg_laws :: "pg_crates \<Rightarrow> bool" where
  "pg_laws pg \<longleftrightarrow> audit_laws (pg_audit pg) \<and> (\<forall>u. pg_ulid_parse pg (au_ulid (pg_audit pg) u) = Inr u) \<and>
     (\<forall>d. au_value (pg_audit pg) (pg_jsonb pg d) = au_value (pg_audit pg) d)"

lemma pg_laws_dests:
  assumes "pg_laws pg"
  shows "audit_laws (pg_audit pg)" "pg_ulid_parse pg (au_ulid (pg_audit pg) u) = Inr u"
    "au_value (pg_audit pg) (pg_jsonb pg d) = au_value (pg_audit pg) d"
  using assms by (auto simp: pg_laws_def)

lemma show_nat_17: "show_nat 17 = ''17''" "show_nat 16 = ''16''"
  by code_simp+

lemma ofold_Ok_all:
  assumes "ofold f s xs = Ok s'" "x \<in> set xs"
  shows "\<exists>s1 s2. f s1 x = Ok s2"
  using assms by (induction xs arbitrary: s) (auto simp: outcome_simps)

lemma kind_from_kind_byte:
  "kind_from_byte (kind_byte k) =
     (if k = PolicyDecisionSigned then Err (AuditSerde ''unknown audit kind byte: 17'') else Ok k)"
  by (cases k) (simp_all add: kind_from_byte_def show_nat_17)

lemma kind_from_kind_byte_local:
  "kind_from_byte_local (kind_byte k) =
     (if k = PolicyDecisionSigned then Err (AuditSerde ''anchor: unknown audit kind byte: 17'')
      else if k = QuorumThresholdReached then Err (AuditSerde ''anchor: unknown audit kind byte: 16'') else Ok k)"
  by (cases k) (simp_all add: kind_from_byte_local_def show_nat_17)

lemma try_u8_kind [simp]: "try_u8 what (uint (kind_byte k)) = Ok (kind_byte k)"
  by (cases k) (simp_all add: try_u8_def)

lemma event_row_simps [simp]:
  "row_event_id (event_row pg e) = au_ulid (pg_audit pg) (event_ulid (ev_event_id e))"
  "row_prev_event_hash (event_row pg e) = ev_prev_event_hash e"
  "row_timestamp_unix_ms (event_row pg e) = ev_timestamp_unix_ms e"
  "row_kind (event_row pg e) = uint (kind_byte (ev_kind e))"
  "row_details (event_row pg e) = pg_jsonb pg (ev_details e)"
  "row_server_signature (event_row pg e) = ev_server_signature e"
  by (simp_all add: event_row_def Let_def split: prod.splits)

lemma actor_round_trip: "actor_columns a = (k, i) \<Longrightarrow> actor_from_columns k i = Ok a"
  by (cases a) (auto simp: actor_from_columns_def ok_or_def)

lemma parse_opt_ulid_row:
  assumes "pg_laws pg"
  shows "parse_opt_ulid pg what (map_option (\<lambda>x. au_ulid (pg_audit pg) (f x)) i) = Ok (map_option f i)"
  by (cases i) (simp_all add: parse_opt_ulid_def parse_ulid_def pg_laws_dests [OF assms])

text \<open>A row gives its event back, with the details as the database keeps them.\<close>

lemma row_to_event_row:
  assumes "pg_laws pg" "length (ev_prev_event_hash e) = 32"
  shows "row_to_event pg (event_row pg e) =
    (if ev_kind e = PolicyDecisionSigned then Err (AuditSerde ''unknown audit kind byte: 17'')
     else Ok (e\<lparr>ev_details := pg_jsonb pg (ev_details e)\<rparr>))"
proof -
  obtain k i where a: "actor_columns (ev_actor e) = (k, i)" by (cases "actor_columns (ev_actor e)")
  have row: "row_actor_kind (event_row pg e) = k" "row_actor_id (event_row pg e) = i"
    "row_request_id (event_row pg e) = map_option (\<lambda>x. au_ulid (pg_audit pg) (request_ulid x)) (ev_request_id e)"
    "row_wallet_id (event_row pg e) = map_option (\<lambda>x. au_ulid (pg_audit pg) (wallet_ulid x)) (ev_wallet_id e)"
    by (simp_all add: event_row_def a Let_def)
  show ?thesis
    using assms(2)
    by (simp add: row_to_event_def row actor_round_trip [OF a] parse_opt_ulid_row [OF assms(1)] kind_from_kind_byte
        parse_ulid_def pg_laws_dests(2) [OF assms(1)] fail_if_simps option.map_comp o_def option.map_ident)
qed

lemma fetch_chain_head_row:
  assumes "pg_laws pg" "newest_row table = Some (event_row pg e)" "length (ev_prev_event_hash e) = 32"
  shows "fetch_chain_head pg table =
    (if ev_kind e = PolicyDecisionSigned then Err (AuditSerde ''unknown audit kind byte: 17'')
     else Ok (event_digest (pg_audit pg) e))"
  using assms(2,3)
  by (simp add: fetch_chain_head_def parse_ulid_def pg_laws_dests [OF assms(1)] kind_from_kind_byte fail_if_simps
      event_digest_def event_preimage_def audit_preimage_def)

lemma newest_row_last:
  assumes "\<And>r. r \<in> set table \<Longrightarrow> row_key r < row_key r'"
  shows "newest_row (table @ [r']) = Some r'"
  using assms
proof (induction table)
  case (Cons r table)
  then have "newest_row (table @ [r']) = Some r'" "row_key r \<le> row_key r'" by (auto intro: less_imp_le)
  then show ?case by simp
qed simp



text \<open>
  The invariant of the table: the rows are in the order of their keys, replaying them ends in the head the
  next emit will read, and the count is the number of rows.
\<close>

definition table_chained :: "pg_crates \<Rightarrow> pg_sink \<Rightarrow> audit_table \<Rightarrow> bool" where
  "table_chained pg self table \<longleftrightarrow> sorted_wrt (<) (map row_key table) \<and>
     (\<exists>h. length h = 32 \<and> fetch_chain_head pg table = Ok h \<and>
       ofold (replay_row pg (pg_server_public_key pg self)) (zero_hash, 0) table = Ok (h, of_nat (length table)))"

lemma pg_fail_not_Panic [simp]: "pg_fail fault step what \<noteq> Panic p"
  by (auto simp: pg_fail_def split: option.splits)

lemma pg_transaction_Ok:
  assumes "pg_transaction pg fault eid nanos draft self table = Ok (e, table')"
  shows "\<exists>prev. fetch_chain_head pg table = Ok prev \<and> table' = table @ [event_row pg e] \<and>
    e = stamp_event (pg_audit pg) (pgs_server_key self) prev eid (audit_unix_ms nanos) draft"
  using assms by (auto simp: pg_transaction_def Let_def outcome_simps insert_event_def split: if_splits)

lemma pg_emit_cases:
  assumes "snd (pg_emit pg fault eid nanos draft self table) \<noteq> table"
  obtains e where "pg_transaction pg fault eid nanos draft self table = Ok (e, snd (pg_emit pg fault eid nanos draft self table))"
  using assms
  by (cases "pg_transaction pg fault eid nanos draft self table")
    (auto simp: pg_emit_def split: option.splits pg_step.splits if_splits prod.splits)

definition input_key :: "pg_crates \<Rightarrow> pg_input \<Rightarrow> int \<times> nat list" where
  "input_key pg d = (case d of (fault, eid, nanos, draft) \<Rightarrow>
     (audit_unix_ms nanos, map of_char (au_ulid (pg_audit pg) (event_ulid eid))))"

lemma stamp_event_fields [simp]:
  "ev_event_id (stamp_event cr key prev eid now draft) = eid" "ev_kind (stamp_event cr key prev eid now draft) = dr_kind draft"
  "ev_timestamp_unix_ms (stamp_event cr key prev eid now draft) = now"
  by (simp_all add: stamp_event_def Let_def)

lemma replay_step_details:
  assumes "pg_laws pg"
  shows "replay_step (pg_audit pg) pk st (e\<lparr>ev_details := pg_jsonb pg (ev_details e)\<rparr>) = replay_step (pg_audit pg) pk st e"
  by (simp add: replay_step_def verify_event_def event_digest_def event_preimage_def audit_preimage_def pg_laws_dests(3) [OF assms])

lemma pg_emit_chained:
  assumes "pg_laws pg" "length (pgs_server_key self) = 32" "table_chained pg self table"
    and "\<And>r. r \<in> set table \<Longrightarrow> row_key r < input_key pg (fault, eid, nanos, draft)" "dr_kind draft \<noteq> PolicyDecisionSigned"
  shows "table_chained pg self (snd (pg_emit pg fault eid nanos draft self table)) \<and>
    (\<forall>r \<in> set (snd (pg_emit pg fault eid nanos draft self table)). r \<in> set table \<or> row_key r = input_key pg (fault, eid, nanos, draft))"
proof (cases "snd (pg_emit pg fault eid nanos draft self table) = table")
  case True
  with assms(3) show ?thesis by simp
next
  case False
  let ?t = "snd (pg_emit pg fault eid nanos draft self table)"
  note audit = pg_laws_dests(1) [OF assms(1)]
  from False obtain e where "pg_transaction pg fault eid nanos draft self table = Ok (e, ?t)" by (rule pg_emit_cases)
  from pg_transaction_Ok [OF this] obtain h where h: "fetch_chain_head pg table = Ok h" and t: "?t = table @ [event_row pg e]"
    and e: "e = stamp_event (pg_audit pg) (pgs_server_key self) h eid (audit_unix_ms nanos) draft" by auto
  from assms(3) h have len: "length h = 32" and sorted: "sorted_wrt (<) (map row_key table)"
    and run: "ofold (replay_row pg (pg_server_public_key pg self)) (zero_hash, 0) table = Ok (h, of_nat (length table))"
    by (auto simp: table_chained_def)
  have key: "row_key (event_row pg e) = input_key pg (fault, eid, nanos, draft)" by (simp add: row_key_def input_key_def e)
  have prev: "length (ev_prev_event_hash e) = 32" "ev_prev_event_hash e = h" using len by (simp_all add: e)
  have kind: "ev_kind e \<noteq> PolicyDecisionSigned" using assms(5) by (simp add: e)
  have "verify_event (pg_audit pg) e (pg_server_public_key pg self) = Ok True"
    unfolding e pg_server_public_key_def by (rule stamp_event_verifies [OF audit assms(2)])
  then have "replay_row pg (pg_server_public_key pg self) (h, of_nat (length table)) (event_row pg e) =
      Ok (event_digest (pg_audit pg) e, of_nat (length table) + 1)"
    using kind by (simp add: replay_row_def row_to_event_row [OF assms(1) prev(1)] replay_step_details [OF assms(1)] replay_step_Ok prev(2))
  moreover have "newest_row ?t = Some (event_row pg e)" unfolding t by (rule newest_row_last) (use assms(4) key in simp)
  then have "fetch_chain_head pg ?t = Ok (event_digest (pg_audit pg) e)" using fetch_chain_head_row [OF assms(1) _ prev(1)] kind by simp
  moreover have "length (event_digest (pg_audit pg) e) = 32" using audit_laws_dests(2) [OF audit] by (simp add: event_digest_def)
  moreover have "sorted_wrt (<) (map row_key ?t)" using sorted assms(4) key by (simp add: t sorted_wrt_append)
  ultimately have "table_chained pg self ?t" using run by (auto simp: table_chained_def t ofold_append add.commute)
  with key show ?thesis by (auto simp: t)
qed

lemma pg_run_chained:
  assumes "pg_laws pg" "length (pgs_server_key self) = 32" "table_chained pg self table"
    and "\<And>r d. r \<in> set table \<Longrightarrow> d \<in> set ds \<Longrightarrow> row_key r < input_key pg d" "sorted_wrt (<) (map (input_key pg) ds)"
    and "\<forall>d \<in> set ds. dr_kind (snd (snd (snd d))) \<noteq> PolicyDecisionSigned"
  shows "table_chained pg self (pg_run pg self ds table)"
  using assms(3-6)
proof (induction ds arbitrary: table)
  case (Cons d ds)
  obtain fault eid nanos draft where d: "d = (fault, eid, nanos, draft)" by (cases d) auto
  note step = pg_emit_chained [OF assms(1,2) Cons.prems(1), of fault eid nanos draft]
  have "table_chained pg self (snd (pg_emit pg fault eid nanos draft self table)) \<and>
    (\<forall>r \<in> set (snd (pg_emit pg fault eid nanos draft self table)). r \<in> set table \<or> row_key r = input_key pg d)"
    unfolding d by (rule step) (use Cons.prems(2,4) d in auto)
  with Cons.prems(2,3) Cons.prems(4) show ?case unfolding d pg_run.simps by (intro Cons.IH) (auto simp: d)
qed simp

lemma table_chained_Nil: "table_chained pg self []"
  by (simp add: table_chained_def fetch_chain_head_def)

lemma table_chained_replays:
  assumes "table_chained pg self table"
  shows "replay_verify_postgres pg None table (pg_server_public_key pg self) = Ok (of_nat (length table))"
proof -
  have "sort_key row_key table = table"
    using assms by (intro sort_key_id_if_sorted strict_sorted_imp_sorted) (simp add: table_chained_def)
  with assms show ?thesis by (auto simp: table_chained_def replay_verify_postgres_def)
qed

subsection \<open>Properties\<close>

text \<open>C30. As long as identifiers and clock readings increase and no policy decision is logged, the Postgres log
  stays verifiable whatever step of whatever emit fails, a commit of unknown outcome included: the table replays to exactly
  its number of rows.\<close>

theorem pg_log_replays:
  assumes "pg_laws pg" "length key = 32" "sorted_wrt (<) (map (input_key pg) ds)"
    and "\<forall>(fault, eid, nanos, draft) \<in> set ds. dr_kind draft \<noteq> PolicyDecisionSigned"
  shows "replay_verify_postgres pg None (pg_run pg (pg_from_pool key) ds []) (pg_server_public_key pg (pg_from_pool key)) =
    Ok (of_nat (length (pg_run pg (pg_from_pool key) ds [])))"
  by (rule table_chained_replays, rule pg_run_chained [OF assms(1) _ table_chained_Nil])
    (use assms in \<open>auto simp: pg_from_pool_def\<close>)

definition base32_val :: "char \<Rightarrow> nat" where
  "base32_val c = length (takeWhile (\<lambda>d. d \<noteq> c) ''0123456789ABCDEFGHJKMNPQRSTVWXYZ'')"

definition base32_nat :: "string \<Rightarrow> nat" where
  "base32_nat s = foldl (\<lambda>a c. 32 * a + base32_val c) 0 s"

lemma base32_val_char: "d < 32 \<Longrightarrow> base32_val (base32_char d) = d"
  unfolding base32_val_def base32_char_def
  by (subst takeWhile_eq_take_P_nth [of d]) (use base32_char_inject [of _ d] in \<open>auto simp: base32_char_def\<close>)

lemma base32_nat_base32: "base32_nat (base32 n x) = x mod 32 ^ n"
proof (induction n arbitrary: x)
  case (Suc n)
  have "base32_nat (base32 (Suc n) x) = 32 * (x div 32 mod 32 ^ n) + x mod 32"
    using Suc [of "x div 32"] by (simp add: base32_nat_def base32_val_char)
  also have "\<dots> = x mod 32 ^ Suc n" by (simp add: mod_mult2_eq)
  finally show ?case .
qed (simp add: base32_nat_def)

definition ref_pg_crates :: pg_crates where
  "ref_pg_crates = \<lparr>pg_audit = ref_audit_crates, pg_ulid_parse = (\<lambda>s. Inr (word_of_nat (base32_nat s))), pg_jsonb = (\<lambda>d. d)\<rparr>"

lemma ref_pg_laws: "pg_laws ref_pg_crates"
proof -
  have "unat u mod 32 ^ 26 = unat u" for u :: ulid using unat_lt [of u] by (intro mod_less) simp
  then have "word_of_nat (base32_nat (crockford u)) = u" for u unfolding crockford_def base32_nat_base32 by simp
  then show ?thesis using ref_audit_laws by (simp add: pg_laws_def ref_pg_crates_def) (simp add: ref_audit_crates_def)
qed

lemma ref_pg_emits:
  assumes "dr_details draft = JNull"
  shows "\<exists>e. pg_emit ref_pg_crates None eid nanos draft (pg_from_pool (replicate 32 7)) [] = (Ok e, [event_row ref_pg_crates e])"
proof -
  have "length (ev_server_signature (stamp_event ref_audit_crates (replicate 32 7) zero_hash eid (audit_unix_ms nanos) draft)) = 64"
    by (simp add: stamp_event_def Let_def ref_audit_crates_def ref_sign_crates_def)
  then show ?thesis
    by (simp add: pg_emit_def pg_transaction_def pg_fail_def fetch_chain_head_def Let_def pg_from_pool_def insert_event_def
        ref_pg_crates_def fail_if_simps)
qed

theorem pg_log_replays_witness:
  "replay_verify_postgres ref_pg_crates None (pg_run ref_pg_crates (pg_from_pool (replicate 32 7))
       [(None, EventId 1, 0, demo_draft), (Some (PgCommit True, ''reset''), EventId 2, 7000000, demo_draft)] [])
     (pg_server_public_key ref_pg_crates (pg_from_pool (replicate 32 7))) =
   Ok (of_nat (length (pg_run ref_pg_crates (pg_from_pool (replicate 32 7))
       [(None, EventId 1, 0, demo_draft), (Some (PgCommit True, ''reset''), EventId 2, 7000000, demo_draft)] [])))"
  by (rule pg_log_replays [OF ref_pg_laws])
    (simp_all add: input_key_def audit_unix_ms_def whole_units_def i64_ok_def demo_draft_def)

text \<open>Logging a signed policy decision stops the Postgres log: the kind byte written is one the sink cannot
  read back, so once that event is the newest, every further emit fails and leaves the table as it is,
  the verifier rejects the table and no anchor can be built.\<close>

theorem pg_policy_decision_stops_log:
  assumes "pg_laws pg" "pg_emit pg None eid nanos draft self table = (Ok e, table')" "dr_kind draft = PolicyDecisionSigned"
    and "table_chained pg self table" "\<forall>r \<in> set table. row_key r < row_key (event_row pg e)"
  shows "(\<forall>eid' nanos' draft'. pg_emit pg None eid' nanos' draft' self table' = (Err (AuditSerde ''unknown audit kind byte: 17''), table')) \<and>
    replay_verify_postgres pg None table' pk \<noteq> Ok n \<and>
    anchor_payload_pg pg date (Inr table') (Inr table') = Err (AuditSerde ''anchor: unknown audit kind byte: 17'')"
proof -
  from assms(2) have "pg_transaction pg None eid nanos draft self table = Ok (e, table')"
    by (auto simp: pg_emit_def split: outcome.splits prod.splits)
  from pg_transaction_Ok [OF this] assms(4) obtain h where "length h = 32" "table' = table @ [event_row pg e]"
    "e = stamp_event (pg_audit pg) (pgs_server_key self) h eid (audit_unix_ms nanos) draft" by (auto simp: table_chained_def)
  then have e: "ev_kind e = PolicyDecisionSigned" "length (ev_prev_event_hash e) = 32" and t: "table' = table @ [event_row pg e]"
    using assms(3) by simp_all
  have newest: "newest_row table' = Some (event_row pg e)" unfolding t by (rule newest_row_last) (use assms(5) in simp)
  have "pg_emit pg None eid' nanos' draft' self table' = (Err (AuditSerde ''unknown audit kind byte: 17''), table')" for eid' nanos' draft'
    by (simp add: pg_emit_def pg_transaction_def pg_fail_def fetch_chain_head_row [OF assms(1) newest e(2)] e(1))
  moreover have "event_row pg e \<in> set (sort_key row_key table')" by (simp add: t)
  then have "replay_verify_postgres pg None table' pk \<noteq> Ok n"
    using row_to_event_row [OF assms(1) e(2)] e(1)
    by (auto simp: replay_verify_postgres_def replay_row_def outcome_simps dest!: ofold_Ok_all)
  moreover have "anchor_payload_pg pg date (Inr table') (Inr table') = Err (AuditSerde ''anchor: unknown audit kind byte: 17'')"
    by (simp add: anchor_payload_pg_def newest anchor_head_def parse_ulid_def pg_laws_dests(2) [OF assms(1)] try_u8_def kind_from_byte_local_def show_nat_17 e(1))
  ultimately show ?thesis by blast
qed

theorem pg_policy_decision_stops_log_witness:
  "\<exists>e. pg_emit ref_pg_crates None (EventId 1) 0 (demo_draft\<lparr>dr_kind := PolicyDecisionSigned\<rparr>) (pg_from_pool (replicate 32 7)) [] =
      (Ok e, [event_row ref_pg_crates e]) \<and>
    pg_emit ref_pg_crates None (EventId 2) 7000000 demo_draft (pg_from_pool (replicate 32 7)) [event_row ref_pg_crates e] =
      (Err (AuditSerde ''unknown audit kind byte: 17''), [event_row ref_pg_crates e])"
proof -
  obtain e where e: "pg_emit ref_pg_crates None (EventId 1) 0 (demo_draft\<lparr>dr_kind := PolicyDecisionSigned\<rparr>) (pg_from_pool (replicate 32 7)) [] =
      (Ok e, [event_row ref_pg_crates e])"
    using ref_pg_emits [of "demo_draft\<lparr>dr_kind := PolicyDecisionSigned\<rparr>"] by (auto simp: demo_draft_def)
  with pg_policy_decision_stops_log [OF ref_pg_laws e _ table_chained_Nil] show ?thesis by auto
qed

end
