(* ===== verification/Chain_Anchor.thy ===== *)
theory Chain_Anchor
  imports Audit_Postgres Evm_Decoder
begin

text \<open>
  The on-chain anchor submitter (\<open>qfc-audit/src/chain_anchor.rs\<close>): its hand-written RLP encoder, the signed
  EIP-155 transaction that carries the anchor, and the JSON-RPC conversation that submits it. The node is a
  function from request bodies to replies. The encoder is checked against the RLP format and the
  wallet's own decoder of \<open>Evm_Decoder\<close>.
\<close>

subsection \<open>The RLP encoder\<close>

definition rlp_len_prefix :: "nat \<Rightarrow> u8 \<Rightarrow> bytes" where
  "rlp_len_prefix len short_base =
     (if len \<le> 55 then [short_base + word_of_nat len]
      else let be = be_bytes 8 len; lb = dropWhile (\<lambda>b. b = 0) be in
        (short_base + 55 + word_of_nat (length lb)) # lb)"

definition rlp_string :: "bytes \<Rightarrow> bytes" where
  "rlp_string bs =
     (if length bs = 1 \<and> bs ! 0 < 0x80 then [bs ! 0] else rlp_len_prefix (length bs) 0x80 @ bs)"

definition rlp_scalar :: "bytes \<Rightarrow> bytes" where
  "rlp_scalar bytes_be = rlp_string (dropWhile (\<lambda>b. b = 0) bytes_be)"

definition anchor_rlp_u64 :: "u64 \<Rightarrow> bytes" where
  "anchor_rlp_u64 v = rlp_scalar (u64_be v)"

definition anchor_rlp_u128 :: "u128 \<Rightarrow> bytes" where
  "anchor_rlp_u128 v = rlp_scalar (be_bytes 16 (unat v))"

definition anchor_rlp_list :: "bytes \<Rightarrow> bytes" where
  "anchor_rlp_list payload = rlp_len_prefix (length payload) 0xc0 @ payload"

subsection \<open>The transaction\<close>

text \<open>\<open>hex::decode\<close> with its error text, and the uncompressed SEC1 form of a key's public point.\<close>

record anchor_crates =
  an_sign :: sign_crates
  an_hex_decode :: "string \<Rightarrow> string + bytes"
  an_uncompressed :: "bytes \<Rightarrow> bytes"

record signed_legacy_tx =
  slt_raw_hex :: string
  slt_tx_hash_hex :: string

definition legacy_prefix :: "u64 \<Rightarrow> u128 \<Rightarrow> u64 \<Rightarrow> bytes \<Rightarrow> u128 \<Rightarrow> bytes \<Rightarrow> bytes" where
  "legacy_prefix nonce gas_price gas_limit to value data =
     anchor_rlp_u64 nonce @ anchor_rlp_u128 gas_price @ anchor_rlp_u64 gas_limit @ rlp_string to @ anchor_rlp_u128 value @ rlp_string data"

definition sign_legacy_tx :: "anchor_crates \<Rightarrow> bytes \<Rightarrow> u64 \<Rightarrow> u128 \<Rightarrow> u64 \<Rightarrow> bytes \<Rightarrow> u128 \<Rightarrow> bytes \<Rightarrow> u64 \<Rightarrow>
   (audit_error, signed_legacy_tx) outcome" where
  "sign_legacy_tx cr signing_key nonce gas_price gas_limit to value data chain_id =
     (let prefix = legacy_prefix nonce gas_price gas_limit to value data;
          sign_fields = prefix @ anchor_rlp_u64 chain_id @ anchor_rlp_u64 0 @ anchor_rlp_u64 0;
          sighash = keccak256 (an_sign cr) (anchor_rlp_list sign_fields) in
      case k_sign_recoverable (an_sign cr) signing_key sighash of
        Inl m \<Rightarrow> Err (AuditCrypto ''anchor tx signing failed'')
      | Inr (sig, recid) \<Rightarrow>
          let v = ucast recid + 35 + chain_id * 2;
              signed = anchor_rlp_list (prefix @ anchor_rlp_u64 v @ rlp_scalar (take 32 sig) @ rlp_scalar (drop 32 sig)) in
          Ok \<lparr>slt_raw_hex = ''0x'' @ hex_encode signed, slt_tx_hash_hex = ''0x'' @ hex_encode (keccak256 (an_sign cr) signed)\<rparr>)"

definition evm_address :: "anchor_crates \<Rightarrow> bytes \<Rightarrow> bytes" where
  "evm_address cr signing_key = drop 12 (keccak256 (an_sign cr) (drop 1 (an_uncompressed cr signing_key)))"

definition ANCHOR_CALLDATA_TAG :: bytes where
  "ANCHOR_CALLDATA_TAG = as_bytes ''qfc-audit-anchor-v1'' @ [0]"

definition DEFAULT_ANCHOR_GAS_LIMIT :: u64 where
  "DEFAULT_ANCHOR_GAS_LIMIT = 100000"

definition anchor_calldata :: "anchor_crates \<Rightarrow> anchor_payload \<Rightarrow> (audit_error, bytes) outcome" where
  "anchor_calldata cr payload =
     (case an_hex_decode cr (an_chain_head_hex payload) of
        Inl e \<Rightarrow> Err (AuditSerde (''anchor chain_head_hex not hex: '' @ e))
      | Inr head \<Rightarrow>
          obind (fail_if (length head \<noteq> 32) (AuditSerde (''anchor chain_head_hex must be 32 bytes, got '' @ show_nat (length head)))) (\<lambda>_.
          Ok (ANCHOR_CALLDATA_TAG @ head @ u64_be (an_event_count payload) @ as_bytes (an_date_utc payload))))"

subsection \<open>JSON-RPC\<close>

datatype rpc_reply = SendFailed string | DecodeFailed string | Reply json

text \<open>The node's answer to a request body, and how the crates print a JSON value and a quoted string.\<close>

record rpc_env =
  rpc_post :: "json \<Rightarrow> rpc_reply"
  rpc_show :: "json \<Rightarrow> string"
  rpc_debug :: "string \<Rightarrow> string"

definition json_get :: "string \<Rightarrow> json \<Rightarrow> json option" where
  "json_get k j = (case j of JObj kvs \<Rightarrow> map_of kvs k | _ \<Rightarrow> None)"

definition json_as_str :: "json \<Rightarrow> string option" where
  "json_as_str j = (case j of JStr s \<Rightarrow> Some s | _ \<Rightarrow> None)"

definition rpc_call :: "rpc_env \<Rightarrow> string \<Rightarrow> json \<Rightarrow> (audit_error, json) outcome" where
  "rpc_call env meth params =
     (let body = JObj [(''jsonrpc'', JStr ''2.0''), (''id'', JNum 1), (''method'', JStr meth), (''params'', params)] in
      case rpc_post env body of
        SendFailed e \<Rightarrow> Err (AuditIo (''rpc '' @ meth @ '' send: '' @ e))
      | DecodeFailed e \<Rightarrow> Err (AuditIo (''rpc '' @ meth @ '' decode: '' @ e))
      | Reply value \<Rightarrow>
          (case json_get ''error'' value of
             Some err \<Rightarrow>
               if err \<noteq> JNull then Err (AuditIo (''rpc '' @ meth @ '' error: '' @ rpc_show env err))
               else ok_or (json_get ''result'' value) (AuditIo (''rpc '' @ meth @ '': missing result''))
           | None \<Rightarrow> ok_or (json_get ''result'' value) (AuditIo (''rpc '' @ meth @ '': missing result''))))"

text \<open>\<open>u128::from_str_radix\<close> in base 16.\<close>

definition hex_step :: "nat \<Rightarrow> char \<Rightarrow> (string, nat) outcome" where
  "hex_step acc c =
     (if \<not> is_ascii_hexdigit c then Err ''invalid digit found in string''
      else if 16 * acc + nibble_val c \<ge> 2 ^ 128 then Err ''number too large to fit in target type''
      else Ok (16 * acc + nibble_val c))"

definition u128_from_hex :: "string \<Rightarrow> (string, u128) outcome" where
  "u128_from_hex s =
     (if s = [] then Err ''cannot parse integer from empty string''
      else let digits = (if hd s = CHR ''+'' then tl s else s) in
        if digits = [] then Err ''invalid digit found in string''
        else obind (ofold hex_step 0 digits) (\<lambda>n. Ok (word_of_nat n)))"

definition parse_quantity :: "rpc_env \<Rightarrow> string \<Rightarrow> json \<Rightarrow> (audit_error, u128) outcome" where
  "parse_quantity env meth v =
     obind (ok_or (json_as_str v) (AuditIo (''rpc '' @ meth @ '': result not a string''))) (\<lambda>s.
     let hex = (if take 2 s = ''0x'' then drop 2 s else s) in
     map_err (\<lambda>e. AuditIo (''rpc '' @ meth @ '': bad quantity '' @ rpc_debug env s @ '': '' @ e)) (u128_from_hex hex))"

definition u128_to_u64 :: "audit_error \<Rightarrow> u128 \<Rightarrow> (audit_error, u64) outcome" where
  "u128_to_u64 e q = (if unat q < 2 ^ 64 then Ok (ucast q) else Err e)"

definition rpc_chain_id :: "rpc_env \<Rightarrow> (audit_error, u64) outcome" where
  "rpc_chain_id env =
     obind (rpc_call env ''eth_chainId'' (JArr [])) (\<lambda>v.
     obind (parse_quantity env ''eth_chainId'' v) (u128_to_u64 (AuditIo ''eth_chainId overflows u64'')))"

definition rpc_transaction_count :: "rpc_env \<Rightarrow> bytes \<Rightarrow> (audit_error, u64) outcome" where
  "rpc_transaction_count env address =
     obind (rpc_call env ''eth_getTransactionCount'' (JArr [JStr (''0x'' @ hex_encode address), JStr ''pending''])) (\<lambda>v.
     obind (parse_quantity env ''eth_getTransactionCount'' v) (u128_to_u64 (AuditIo ''nonce overflows u64'')))"

definition rpc_gas_price :: "rpc_env \<Rightarrow> (audit_error, u128) outcome" where
  "rpc_gas_price env = obind (rpc_call env ''eth_gasPrice'' (JArr [])) (parse_quantity env ''eth_gasPrice'')"

definition send_raw_transaction :: "rpc_env \<Rightarrow> string \<Rightarrow> (audit_error, string) outcome" where
  "send_raw_transaction env raw_hex =
     obind (rpc_call env ''eth_sendRawTransaction'' (JArr [JStr raw_hex])) (\<lambda>v.
     ok_or (json_as_str v) (AuditIo ''eth_sendRawTransaction: result not a tx hash''))"

subsection \<open>The submitter\<close>

record chain_anchor =
  ca_signing_key :: bytes
  ca_operator_address :: bytes
  ca_to :: bytes
  ca_chain_id :: "u64 option"
  ca_gas_limit :: u64
  ca_gas_price :: "u128 option"

definition chain_anchor_new :: "anchor_crates \<Rightarrow> bytes \<Rightarrow> bytes option \<Rightarrow> u64 option \<Rightarrow> u64 \<Rightarrow> u128 option \<Rightarrow>
   (audit_error, chain_anchor) outcome" where
  "chain_anchor_new cr operator_key to chain_id gas_limit gas_price =
     obind (fail_if (k_key_error (an_sign cr) operator_key \<noteq> None) (AuditCrypto ''anchor operator key invalid'')) (\<lambda>_.
     let operator_address = evm_address cr operator_key in
     Ok \<lparr>ca_signing_key = operator_key, ca_operator_address = operator_address,
        ca_to = (case to of Some t \<Rightarrow> t | None \<Rightarrow> operator_address), ca_chain_id = chain_id, ca_gas_limit = gas_limit,
        ca_gas_price = gas_price\<rparr>)"

definition operator_address_hex :: "chain_anchor \<Rightarrow> string" where
  "operator_address_hex self = ''0x'' @ hex_encode (ca_operator_address self)"

text \<open>The transaction of \<open>submit\<close> before it is sent, and \<open>submit\<close>.\<close>

definition anchor_tx :: "anchor_crates \<Rightarrow> rpc_env \<Rightarrow> chain_anchor \<Rightarrow> anchor_payload \<Rightarrow> (audit_error, signed_legacy_tx) outcome" where
  "anchor_tx cr env self payload =
     obind (case ca_chain_id self of Some c \<Rightarrow> Ok c | None \<Rightarrow> rpc_chain_id env) (\<lambda>chain_id.
     obind (rpc_transaction_count env (ca_operator_address self)) (\<lambda>nonce.
     obind (case ca_gas_price self of Some g \<Rightarrow> Ok g | None \<Rightarrow> rpc_gas_price env) (\<lambda>gas_price.
     obind (anchor_calldata cr payload) (\<lambda>data.
     sign_legacy_tx cr (ca_signing_key self) nonce gas_price (ca_gas_limit self) (ca_to self) 0 data chain_id))))"

definition chain_anchor_submit :: "anchor_crates \<Rightarrow> rpc_env \<Rightarrow> chain_anchor \<Rightarrow> anchor_payload \<Rightarrow> (audit_error, string) outcome" where
  "chain_anchor_submit cr env self payload =
     obind (anchor_tx cr env self payload) (\<lambda>tx. send_raw_transaction env (slt_raw_hex tx))"

subsection \<open>The encoder writes the RLP format\<close>

lemma rlp_len_prefix_head: "rlp_len_prefix (length p) (word_of_nat off) @ p = rlp_head off p"
  by (simp add: rlp_len_prefix_def rlp_head_def minimal_be_def Let_def)

lemma rlp_string_eq: "rlp_string b = rlp_str b"
proof -
  have "rlp_string b = (if length b = 1 \<and> unat (hd b) < 128 then b else rlp_len_prefix (length b) (word_of_nat 128) @ b)"
    by (cases b) (auto simp: rlp_string_def word_less_nat_alt)
  then show ?thesis unfolding rlp_len_prefix_head rlp_str_def .
qed

lemma anchor_rlp_list_eq: "anchor_rlp_list (concat items) = rlp_list items"
  using rlp_len_prefix_head [of "concat items" 192] by (simp add: anchor_rlp_list_def rlp_list_def)

lemma be_bytes_pad: "n < 256 ^ j \<Longrightarrow> be_bytes (k + j) n = replicate k 0 @ be_bytes j n"
proof (induction j arbitrary: n)
  case 0
  then show ?case by (induction k) (simp_all add: replicate_append_same)
next
  case (Suc j)
  then have "n div 256 < 256 ^ j" by (simp add: less_mult_imp_div_less mult.commute)
  with Suc.IH show ?case by simp
qed

lemma anchor_scalars_eq: "anchor_rlp_u64 v = rlp_u64 v" "anchor_rlp_u128 w = rlp_u256 (ucast w)"
proof -
  show "anchor_rlp_u64 v = rlp_u64 v"
    by (simp add: anchor_rlp_u64_def rlp_scalar_def rlp_string_eq rlp_u64_def minimal_be_def u64_be_def)
  have "be_bytes 32 (unat w) = replicate 16 0 @ be_bytes 16 (unat w)"
    using be_bytes_pad [of "unat w" 16 16] unat_lt [of w] by simp
  moreover have "dropWhile (\<lambda>b. b = 0) (replicate k 0 @ xs) = dropWhile (\<lambda>b. b = 0) xs" for k and xs :: bytes
    by (induction k) simp_all
  moreover have "unat (ucast w :: u256) = unat w" 
    using unat_lt [of w] by (simp add: unsigned_ucast_eq take_bit_nat_eq_self)
  ultimately show "anchor_rlp_u128 w = rlp_u256 (ucast w)"
    by (simp add: anchor_rlp_u128_def rlp_scalar_def rlp_string_eq rlp_u256_def minimal_be_def)
qed

definition anchor_evm_tx :: "u64 \<Rightarrow> u64 \<Rightarrow> u128 \<Rightarrow> u64 \<Rightarrow> bytes \<Rightarrow> bytes \<Rightarrow> decoded_evm_tx" where
  "anchor_evm_tx chain_id nonce gas_price gas_limit to data =
     \<lparr>etx_tx_type = Legacy, etx_chain_id = Some chain_id, etx_nonce = nonce, etx_to = Some to, etx_value = 0,
      etx_gas_limit = gas_limit, etx_max_fee_per_gas = None, etx_max_priority_fee_per_gas = None,
      etx_gas_price = Some (ucast gas_price), etx_data = data, etx_method_selector = Some (take 4 data),
      etx_access_list = [], etx_blob_versioned_hashes = []\<rparr>"

text \<open>The chain a decoder reads from the \<open>v\<close> of the transaction: a recovery identifier of 2 or 3 spills into it.\<close>

definition anchored_chain :: "u8 \<Rightarrow> u64 \<Rightarrow> u64" where
  "anchored_chain recid chain_id = (if recid < 2 then chain_id else chain_id + 1)"

lemma legacy_v_chain:
  assumes "recid < 4" "unat chain_id < 2 ^ 63 - 19"
  shows "legacy_chain_id (ucast (recid :: u8) + 35 + chain_id * 2) = Some (anchored_chain recid chain_id)"
proof -
  let ?v = "ucast recid + 35 + chain_id * 2 :: u64"
  have r: "unat recid < 4" using assms(1) by (simp add: word_less_nat_alt)
  have "unat ?v = unat recid + 35 + unat chain_id * 2"
  proof -
    have "unat (of_nat (unat recid + 35 + unat chain_id * 2) :: u64) = unat recid + 35 + unat chain_id * 2"
      using r assms(2) unfolding unat_of_nat by (intro mod_less) simp
    moreover have "of_nat (unat recid + 35 + unat chain_id * 2) = ?v" by simp
    ultimately show ?thesis by simp
  qed
  then have v: "unat ?v = unat recid + 35 + unat chain_id * 2" .
  then have ge: "35 \<le> ?v" by (simp add: word_le_nat_alt)
  have "unat (chain_id + 1) = unat chain_id + 1" using assms(2) by (subst unat_word_ariths) simp
  then have "unat ((?v - 35) div 2) = unat (anchored_chain recid chain_id)"
    unfolding unat_div unat_sub [OF ge] v using r by (auto simp: anchored_chain_def word_less_nat_alt)
  with ge show ?thesis unfolding legacy_chain_id_def by (simp add: unsigned_word_eqI_iff [symmetric])
qed

lemma k_laws_recoverable:
  assumes "k_laws cr" "length key = 32" "k_key_error cr key = None" "k_sign_recoverable cr key (keccak256 cr m) = Inr (sig, v)"
  shows "length sig = 64"
  using assms unfolding k_laws_def k_signature_def by (metis Inr_inject prod.inject)

definition legacy_sighash :: "anchor_crates \<Rightarrow> u64 \<Rightarrow> u128 \<Rightarrow> u64 \<Rightarrow> bytes \<Rightarrow> bytes \<Rightarrow> u64 \<Rightarrow> bytes" where
  "legacy_sighash cr nonce gas_price gas_limit to data chain_id = keccak256 (an_sign cr) (anchor_rlp_list
     (legacy_prefix nonce gas_price gas_limit to 0 data @ anchor_rlp_u64 chain_id @ anchor_rlp_u64 0 @ anchor_rlp_u64 0))"

lemma sign_legacy_tx_raw:
  assumes "sign_legacy_tx cr key nonce gas_price gas_limit to 0 data chain_id = Ok tx"
    and "k_laws (an_sign cr)" "length key = 32" "k_key_error (an_sign cr) key = None"
    and "\<forall>d sig v. k_sign_recoverable (an_sign cr) key d = Inr (sig, v) \<longrightarrow> v < 4" "unat chain_id < 2 ^ 63 - 19"
  shows "\<exists>t sig recid. k_sign_recoverable (an_sign cr) key (legacy_sighash cr nonce gas_price gas_limit to data chain_id) = Inr (sig, recid) \<and>
    slt_raw_hex tx = ''0x'' @ hex_encode (evm_encode (anchor_evm_tx (anchored_chain recid chain_id) nonce gas_price gas_limit to data) t) \<and>
    legacy_chain_id (tl_v t) = Some (anchored_chain recid chain_id) \<and> length (tl_r t) \<le> 32 \<and> length (tl_s t) \<le> 32"
proof -
  let ?prefix = "legacy_prefix nonce gas_price gas_limit to 0 data"
  let ?m = "anchor_rlp_list (?prefix @ anchor_rlp_u64 chain_id @ anchor_rlp_u64 0 @ anchor_rlp_u64 0)"
  from assms(1) obtain sig recid where k: "k_sign_recoverable (an_sign cr) key (keccak256 (an_sign cr) ?m) = Inr (sig, recid)"
    by (auto simp: sign_legacy_tx_def Let_def split: sum.splits)
  note v = assms(5) [rule_format, OF k] and len = k_laws_recoverable [OF assms(2-4) k]
  let ?z = "dropWhile (\<lambda>b. b = (0 :: u8))"
  let ?t = "\<lparr>tl_v = ucast recid + 35 + chain_id * 2, tl_r = ?z (take 32 sig), tl_s = ?z (drop 32 sig), tl_blob_fee = 0\<rparr>"
  let ?items = "[rlp_u64 nonce, rlp_u256 (ucast gas_price), rlp_u64 gas_limit, rlp_to (Some to), rlp_u256 0, rlp_str data, rlp_u64 (tl_v ?t),
    rlp_str (tl_r ?t), rlp_str (tl_s ?t)]"
  have "anchor_rlp_list (?prefix @ anchor_rlp_u64 (tl_v ?t) @ rlp_scalar (take 32 sig) @ rlp_scalar (drop 32 sig)) =
      anchor_rlp_list (concat ?items)"
    by (simp add: legacy_prefix_def anchor_scalars_eq rlp_scalar_def rlp_string_eq rlp_to_def)
  also have "\<dots> = evm_encode (anchor_evm_tx (anchored_chain recid chain_id) nonce gas_price gas_limit to data) ?t"
    unfolding anchor_rlp_list_eq by (simp add: evm_encode_def anchor_evm_tx_def Let_def)
  finally have "slt_raw_hex tx = ''0x'' @ hex_encode (evm_encode (anchor_evm_tx (anchored_chain recid chain_id) nonce gas_price gas_limit to data) ?t)"
    using assms(1) k by (auto simp: sign_legacy_tx_def Let_def)
  moreover have "length (?z xs) \<le> 32" if "length xs = 32" for xs using that length_dropWhile_le [of "\<lambda>b. b = 0" xs] by simp
  then have "length (tl_r ?t) \<le> 32 \<and> length (tl_s ?t) \<le> 32" using len by simp
  moreover have "legacy_chain_id (tl_v ?t) = Some (anchored_chain recid chain_id)" using legacy_v_chain [OF v assms(6)] by simp
  moreover have "k_sign_recoverable (an_sign cr) key (legacy_sighash cr nonce gas_price gas_limit to data chain_id) = Inr (sig, recid)"
    using k by (simp add: legacy_sighash_def)
  ultimately show ?thesis by blast
qed

lemma anchor_evm_tx_wf:
  assumes "length to = 20" "length data \<ge> 4" "legacy_chain_id v = Some chain_id"
  shows "evm_wf (anchor_evm_tx chain_id nonce gas_price gas_limit to data)"
  using assms(1,2) assms(3) [symmetric] by (auto simp: evm_wf_def anchor_evm_tx_def first_four_def access_list_wf_def)

lemma anchor_encode_length:
  assumes "length to = 20" "length (tl_r t) \<le> 32" "length (tl_s t) \<le> 32" "length data < 2 ^ 62"
  shows "length (evm_encode (anchor_evm_tx chain_id nonce gas_price gas_limit to data) t) < 2 ^ 63"
proof -
  let ?items = "[rlp_u64 nonce, rlp_u256 (ucast gas_price), rlp_u64 gas_limit, rlp_to (Some to), rlp_u256 0, rlp_str data, rlp_u64 (tl_v t),
    rlp_str (tl_r t), rlp_str (tl_s t)]"
  have "length (concat ?items) < 2 ^ 63 - 9"
    using encoded_lengths(2) [of to] encoded_lengths(2) [of data] encoded_lengths(2) [of "tl_r t"] encoded_lengths(2) [of "tl_s t"]
      encoded_lengths(3) [of nonce] encoded_lengths(3) [of gas_limit] encoded_lengths(3) [of "tl_v t"]
      encoded_lengths(4) [of "ucast gas_price"] encoded_lengths(4) [of 0] assms
    by (simp add: rlp_to_def)
  then show ?thesis using encoded_lengths(1) [of ?items] by (simp add: evm_encode_def anchor_evm_tx_def Let_def)
qed

lemma anchor_calldata_Ok:
  assumes "anchor_calldata cr p = Ok data" "\<And>b. an_hex_decode cr (hex_encode b) = Inr b" "an_chain_head_hex p = hex_encode h"
  shows "data = ANCHOR_CALLDATA_TAG @ h @ u64_be (an_event_count p) @ as_bytes (an_date_utc p) \<and> length h = 32"
  using assms by (auto simp: anchor_calldata_def outcome_simps)

subsection \<open>Properties\<close>

text \<open>C29. The transaction an anchor submission broadcasts is a well-formed legacy transaction that the wallet's own EVM
  decoder reads back as a call of value zero to the configured address, whose
  data are the tag, the 32 bytes of the audit chain's head, the event count and the date. The chain is the configured one, or without one
  the node's, when the signature's recovery identifier is 0 or 1; when it is 2 or 3, which the source does not exclude, the transaction is for the chain
  numbered one higher. The chain's number is below 2^63 - 19, where the computation of v cannot overflow.\<close>

theorem anchor_tx_decodes:
  assumes "rlp_laws rc" "k_laws (an_sign cr)" "\<And>b. an_hex_decode cr (hex_encode b) = Inr b"
    and "\<forall>d sig v. k_sign_recoverable (an_sign cr) (ca_signing_key self) d = Inr (sig, v) \<longrightarrow> v < 4"
    and "length (ca_signing_key self) = 32" "k_key_error (an_sign cr) (ca_signing_key self) = None"
    and "(case ca_chain_id self of Some c \<Rightarrow> Ok c | None \<Rightarrow> rpc_chain_id env) = Ok chain_id" "unat chain_id < 2 ^ 63 - 19" "length (ca_to self) = 20"
    and "anchor_tx cr env self (current_anchor_payload date sink) = Ok tx" "length date < 2 ^ 61"
  shows "\<exists>raw dec nonce gas_price sig recid. slt_raw_hex tx = ''0x'' @ hex_encode raw \<and> decode_evm_tx rc raw = Ok dec \<and>
    k_sign_recoverable (an_sign cr) (ca_signing_key self)
      (legacy_sighash cr nonce gas_price (ca_gas_limit self) (ca_to self) (etx_data dec) chain_id) = Inr (sig, recid) \<and>
    etx_chain_id dec = Some (if recid < 2 then chain_id else chain_id + 1) \<and> etx_nonce dec = nonce \<and> etx_to dec = Some (ca_to self) \<and> etx_value dec = 0 \<and>
    etx_data dec = ANCHOR_CALLDATA_TAG @ fas_prev_event_hash sink @ u64_be (fas_written sink) @ as_bytes date"
proof -
  let ?p = "current_anchor_payload date sink"
  from assms(10,7) obtain nonce price data where data: "anchor_calldata cr ?p = Ok data"
    and tx: "sign_legacy_tx cr (ca_signing_key self) nonce price (ca_gas_limit self) (ca_to self) 0 data chain_id = Ok tx"
    by (auto simp: anchor_tx_def outcome_simps)
  have "data = ANCHOR_CALLDATA_TAG @ fas_prev_event_hash sink @ u64_be (fas_written sink) @ as_bytes date \<and>
      length (fas_prev_event_hash sink) = 32"
    using anchor_calldata_Ok [OF data assms(3)] by (simp add: current_anchor_payload_def)
  then have d: "data = ANCHOR_CALLDATA_TAG @ fas_prev_event_hash sink @ u64_be (fas_written sink) @ as_bytes date"
    and len: "length data \<ge> 4" "length data < 2 ^ 62" using assms(11) by (simp_all add: ANCHOR_CALLDATA_TAG_def)
  from sign_legacy_tx_raw [OF tx assms(2,5,6,4,8)] obtain t sig recid where
    k: "k_sign_recoverable (an_sign cr) (ca_signing_key self) (legacy_sighash cr nonce price (ca_gas_limit self) (ca_to self) data chain_id) = Inr (sig, recid)"
    and t: "slt_raw_hex tx = ''0x'' @ hex_encode (evm_encode (anchor_evm_tx (anchored_chain recid chain_id) nonce price (ca_gas_limit self) (ca_to self) data) t)"
    "legacy_chain_id (tl_v t) = Some (anchored_chain recid chain_id)" "length (tl_r t) \<le> 32" "length (tl_s t) \<le> 32" by blast
  let ?dec = "anchor_evm_tx (anchored_chain recid chain_id) nonce price (ca_gas_limit self) (ca_to self) data"
  have "decode_evm_tx rc (evm_encode ?dec t) = Ok ?dec"
    by (rule legacy_round_trip [OF assms(1) anchor_evm_tx_wf [OF assms(9) len(1) t(2)] _ _ anchor_encode_length [OF assms(9) t(3,4) len(2)]])
      (simp_all add: anchor_evm_tx_def t(2))
  moreover have "etx_data ?dec = data" "etx_nonce ?dec = nonce" "etx_chain_id ?dec = Some (if recid < 2 then chain_id else chain_id + 1)"
    "etx_to ?dec = Some (ca_to self)" "etx_value ?dec = 0" by (simp_all add: anchor_evm_tx_def anchored_chain_def)
  ultimately show ?thesis using t(1) k unfolding d [symmetric] by metis
qed

definition ref_anchor_crates :: anchor_crates where
  "ref_anchor_crates = \<lparr>an_sign = ref_sign_crates,
     an_hex_decode = (\<lambda>s. case hex_decode_ref s of Some b \<Rightarrow> Inr b | None \<Rightarrow> Inl ''Invalid character''), an_uncompressed = (\<lambda>k. 4 # k @ k)\<rparr>"

definition ref_node :: rpc_env where
  "ref_node = \<lparr>rpc_post = (\<lambda>body. Reply (JObj [(''result'', JStr ''0x5'')])), rpc_show = (\<lambda>_. []), rpc_debug = (\<lambda>s. s)\<rparr>"

definition demo_anchor :: chain_anchor where
  "demo_anchor = \<lparr>ca_signing_key = replicate 32 7, ca_operator_address = replicate 20 9, ca_to = replicate 20 9, ca_chain_id = Some 9000,
     ca_gas_limit = DEFAULT_ANCHOR_GAS_LIMIT, ca_gas_price = None\<rparr>"

theorem anchor_tx_decodes_witness:
  "\<exists>tx raw dec. anchor_tx ref_anchor_crates ref_node demo_anchor (current_anchor_payload ''2026-05-21'' demo_sink) = Ok tx \<and>
     slt_raw_hex tx = ''0x'' @ hex_encode raw \<and> decode_evm_tx ref_rlp raw = Ok dec \<and> etx_value dec = 0 \<and> etx_chain_id dec = Some 9000"
proof -
  let ?cr = ref_anchor_crates and ?p = "current_anchor_payload ''2026-05-21'' demo_sink"
  have hex: "an_hex_decode ?cr (hex_encode b) = Inr b" for b
    using hex_decode_spec_ref by (simp add: ref_anchor_crates_def hex_decode_spec_def)
  have node: "parse_quantity ref_node m (JStr ''0x5'') = Ok 5" for m
    by (simp add: parse_quantity_def json_as_str_def ok_or_def u128_from_hex_def hex_step_def is_ascii_hexdigit_def nibble_val_def Let_def)
  have call: "rpc_call ref_node m ps = Ok (JStr ''0x5'')" for m ps
    by (simp add: rpc_call_def ref_node_def json_get_def ok_or_def Let_def)
  have "anchor_calldata ?cr ?p = Ok (ANCHOR_CALLDATA_TAG @ zero_hash @ u64_be 0 @ as_bytes ''2026-05-21'')"
    by (simp add: anchor_calldata_def current_anchor_payload_def hex demo_sink_def fail_if_simps)
  then obtain tx where tx: "anchor_tx ?cr ref_node demo_anchor ?p = Ok tx"
    by (simp add: anchor_tx_def demo_anchor_def rpc_transaction_count_def rpc_gas_price_def call node u128_to_u64_def
        sign_legacy_tx_def Let_def ref_anchor_crates_def ref_sign_crates_def)
  have laws: "k_laws (an_sign ?cr)" using ref_sign_laws by (simp add: ref_anchor_crates_def sign_laws_def)
  have "replicate 32 (7 :: u8) \<noteq> replicate 32 0" by simp
  then have key: "k_key_error (an_sign ?cr) (ca_signing_key demo_anchor) = None"
    by (simp add: ref_anchor_crates_def ref_sign_crates_def demo_anchor_def)
  have recid: "k_sign_recoverable (an_sign ?cr) k d = Inr (sig, v) \<Longrightarrow> v = 0" for k d sig v by (simp add: ref_anchor_crates_def ref_sign_crates_def)
  have "\<exists>raw dec nonce gas_price sig recid. slt_raw_hex tx = ''0x'' @ hex_encode raw \<and> decode_evm_tx ref_rlp raw = Ok dec \<and>
    k_sign_recoverable (an_sign ?cr) (ca_signing_key demo_anchor)
      (legacy_sighash ?cr nonce gas_price (ca_gas_limit demo_anchor) (ca_to demo_anchor) (etx_data dec) 9000) = Inr (sig, recid) \<and>
    etx_chain_id dec = Some (if recid < 2 then 9000 else 9000 + 1) \<and> etx_nonce dec = nonce \<and> etx_to dec = Some (ca_to demo_anchor) \<and> etx_value dec = 0 \<and>
    etx_data dec = ANCHOR_CALLDATA_TAG @ fas_prev_event_hash demo_sink @ u64_be (fas_written demo_sink) @ as_bytes ''2026-05-21''"
    by (rule anchor_tx_decodes [OF ref_rlp_laws laws hex _ _ key _ _ _ tx]) (auto simp: demo_anchor_def dest: recid)
  with tx recid show ?thesis by fastforce
qed

end
