(* ===== verification/Procedures.thy ===== *)
theory Procedures
  imports Prelude
begin

text \<open>
  Procedures over a shared state: the shape of the asynchronous code of the server, which calls its
  backends one after the other and returns at the first error.
\<close>

subsection \<open>Calls\<close>

text \<open>
  A call of asynchronous code on a state \<open>'w\<close>: \<open>None\<close> when it never returns, otherwise its outcome and
  the state it leaves. \<open>pbind\<close> is sequencing with the question-mark operator: an error or a panic ends the
  procedure and keeps the effects so far. \<open>ptry\<close> hands an error to the caller as a value.
\<close>

type_synonym ('w, 'e, 'a) proc = "'w \<Rightarrow> (('e, 'a) outcome \<times> 'w) option"

definition preturn :: "'a \<Rightarrow> ('w, 'e, 'a) proc" where
  "preturn x w = Some (Ok x, w)"

definition pthrow :: "'e \<Rightarrow> ('w, 'e, 'a) proc" where
  "pthrow e w = Some (Err e, w)"

definition plift :: "('e, 'a) outcome \<Rightarrow> ('w, 'e, 'a) proc" where
  "plift r w = Some (r, w)"

definition pbind :: "('w, 'e, 'a) proc \<Rightarrow> ('a \<Rightarrow> ('w, 'e, 'b) proc) \<Rightarrow> ('w, 'e, 'b) proc" where
  "pbind m f w =
     (case m w of
        None \<Rightarrow> None
      | Some (Ok x, w') \<Rightarrow> f x w'
      | Some (Err e, w') \<Rightarrow> Some (Err e, w')
      | Some (Panic p, w') \<Rightarrow> Some (Panic p, w'))"

definition pmap_err :: "('e \<Rightarrow> 'f) \<Rightarrow> ('w, 'e, 'a) proc \<Rightarrow> ('w, 'f, 'a) proc" where
  "pmap_err g m w = map_option (map_prod (map_err g) id) (m w)"

definition ptry :: "('w, 'e, 'a) proc \<Rightarrow> ('w, 'f, ('e, 'a) outcome) proc" where
  "ptry m w =
     (case m w of
        None \<Rightarrow> None
      | Some (Ok x, w') \<Rightarrow> Some (Ok (Ok x), w')
      | Some (Err e, w') \<Rightarrow> Some (Ok (Err e), w')
      | Some (Panic p, w') \<Rightarrow> Some (Panic p, w'))"

primrec pmap :: "('a \<Rightarrow> ('w, 'e, 'b) proc) \<Rightarrow> 'a list \<Rightarrow> ('w, 'e, 'b list) proc" where
  "pmap f [] = preturn []"
| "pmap f (x # xs) = pbind (f x) (\<lambda>y. pbind (pmap f xs) (\<lambda>ys. preturn (y # ys)))"

named_theorems proc_simps \<open>inversion of procedures that return a value\<close>

lemma preturn_Ok [proc_simps]: "preturn x w = Some (Ok y, w') \<longleftrightarrow> y = x \<and> w' = w"
  by (auto simp: preturn_def)

lemma pthrow_Ok [proc_simps]: "pthrow e w \<noteq> Some (Ok y, w')"
  by (simp add: pthrow_def)

lemma plift_Ok [proc_simps]: "plift r w = Some (Ok y, w') \<longleftrightarrow> r = Ok y \<and> w' = w"
  by (auto simp: plift_def)

lemma pbind_Ok [proc_simps]: "pbind m f w = Some (Ok y, w') \<longleftrightarrow> (\<exists>x w1. m w = Some (Ok x, w1) \<and> f x w1 = Some (Ok y, w'))"
  by (auto simp: pbind_def split: option.splits outcome.splits)

lemma pmap_err_Ok [proc_simps]: "pmap_err g m w = Some (Ok y, w') \<longleftrightarrow> m w = Some (Ok y, w')"
  by (auto simp: pmap_err_def outcome_simps)

lemma ptry_Ok [proc_simps]:
  "ptry m w = Some (Ok r, w') \<longleftrightarrow> m w = Some (r, w') \<and> (\<forall>p. r \<noteq> Panic p)"
  by (auto simp: ptry_def split: option.splits outcome.splits)

lemma pbind_step: "m w = Some (Ok x, w1) \<Longrightarrow> pbind m f w = f x w1"
  by (simp add: pbind_def)

lemma pmap_Ok_Cons [proc_simps]:
  "pmap f (x # xs) w = Some (Ok ys, w') \<longleftrightarrow>
   (\<exists>y zs w1. ys = y # zs \<and> f x w = Some (Ok y, w1) \<and> pmap f xs w1 = Some (Ok zs, w'))"
  by (auto simp: proc_simps)

subsection \<open>What a procedure appends to a trail\<close>

text \<open>
  \<open>trail\<close> reads a growing list off the state. \<open>leaves good trail m L\<close>: when \<open>m\<close> returns \<open>x\<close>, the
  invariant still holds and the trail has grown by a list \<open>l\<close> with \<open>L x l\<close>. \<open>silent good trail m\<close>: \<open>m\<close> leaves
  the trail alone, however it ends.
\<close>

definition leaves :: "('w \<Rightarrow> bool) \<Rightarrow> ('w \<Rightarrow> 'd list) \<Rightarrow> ('w, 'e, 'a) proc \<Rightarrow> ('a \<Rightarrow> 'd list \<Rightarrow> bool) \<Rightarrow> bool" where
  "leaves good trail m L \<longleftrightarrow>
     (\<forall>w x w'. good w \<longrightarrow> m w = Some (Ok x, w') \<longrightarrow> good w' \<and> (\<exists>l. trail w' = trail w @ l \<and> L x l))"

definition silent :: "('w \<Rightarrow> bool) \<Rightarrow> ('w \<Rightarrow> 'd list) \<Rightarrow> ('w, 'e, 'a) proc \<Rightarrow> bool" where
  "silent good trail m \<longleftrightarrow> (\<forall>w r w'. good w \<longrightarrow> m w = Some (r, w') \<longrightarrow> good w' \<and> trail w' = trail w)"

lemma leavesD:
  assumes "leaves good trail m L" "good w" "m w = Some (Ok x, w')"
  obtains l where "good w'" "trail w' = trail w @ l" "L x l"
  using assms unfolding leaves_def by blast

lemma leaves_bind:
  assumes "leaves good trail m L" "\<And>x. leaves good trail (f x) (M x)"
  shows "leaves good trail (pbind m f) (\<lambda>y l. \<exists>x l1 l2. L x l1 \<and> M x y l2 \<and> l = l1 @ l2)"
  unfolding leaves_def
proof (intro allI impI)
  fix w y w' assume "good w" "pbind m f w = Some (Ok y, w')"
  then obtain x w1 where m: "m w = Some (Ok x, w1)" and f: "f x w1 = Some (Ok y, w')" by (auto simp: proc_simps)
  from leavesD [OF assms(1) \<open>good w\<close> m] obtain l1 where 1: "good w1" "trail w1 = trail w @ l1" "L x l1" .
  from leavesD [OF assms(2) 1(1) f] obtain l2 where 2: "good w'" "trail w' = trail w1 @ l2" "M x y l2" .
  show "good w' \<and> (\<exists>l. trail w' = trail w @ l \<and> (\<exists>x l1 l2. L x l1 \<and> M x y l2 \<and> l = l1 @ l2))"
    using 1 2 by auto
qed

lemma leaves_weaken:
  assumes "leaves good trail m L" "\<And>x l. L x l \<Longrightarrow> M x l"
  shows "leaves good trail m M"
  using assms unfolding leaves_def by blast

lemma leaves_return: "leaves good trail (preturn x) (\<lambda>y l. y = x \<and> l = [])"
  by (simp add: leaves_def proc_simps)

lemma leaves_throw: "leaves good trail (pthrow e) L"
  by (simp add: leaves_def proc_simps)

lemma leaves_lift: "leaves good trail (plift r) (\<lambda>y l. r = Ok y \<and> l = [])"
  by (simp add: leaves_def proc_simps)

lemma leaves_map_err: "leaves good trail m L \<Longrightarrow> leaves good trail (pmap_err g m) L"
  by (simp add: leaves_def proc_simps)

lemma silent_leaves: "silent good trail m \<Longrightarrow> leaves good trail m (\<lambda>x l. l = [])"
  unfolding silent_def leaves_def by (metis append_Nil2)

lemma silent_try: "silent good trail m \<Longrightarrow> leaves good trail (ptry m) (\<lambda>r l. l = [] \<and> (\<forall>p. r \<noteq> Panic p))"
  unfolding silent_def leaves_def by (auto simp: proc_simps)

lemma silent_map_err: "silent good trail m \<Longrightarrow> silent good trail (pmap_err g m)"
  unfolding silent_def pmap_err_def by auto

lemma leaves_pmap:
  assumes "\<And>x. x \<in> set xs \<Longrightarrow> leaves good trail (f x) (\<lambda>y l. l = ev x)"
  shows "leaves good trail (pmap f xs) (\<lambda>ys l. l = concat (map ev xs))"
  using assms
proof (induction xs)
  case Nil
  then show ?case by (auto intro: leaves_weaken [OF leaves_return])
next
  case (Cons x xs)
  have "leaves good trail (pmap f xs) (\<lambda>ys l. l = concat (map ev xs))" using Cons by simp
  moreover have "leaves good trail (f x) (\<lambda>y l. l = ev x)" using Cons.prems by simp
  ultimately show ?case
    unfolding pmap.simps
    by (intro leaves_weaken [OF leaves_bind [OF _ leaves_bind [OF _ leaves_return]]]) auto
qed

lemma leaves_pmap_silent:
  assumes "\<And>x. leaves good trail (f x) (\<lambda>y l. l = [])"
  shows "leaves good trail (pmap f xs) (\<lambda>ys l. l = [])"
  using leaves_pmap [where ev = "\<lambda>_. []" and xs = xs and f = f, OF assms] by (rule leaves_weaken) simp

lemma leaves_if: "leaves good trail m L \<Longrightarrow> leaves good trail (if b then pthrow e else m) L"
  by (simp add: leaves_throw)

subsection \<open>What a procedure keeps\<close>

text \<open>\<open>returned m x\<close>: some call of \<open>m\<close> returned \<open>x\<close>. \<open>keeps P m\<close>: \<open>m\<close> keeps \<open>P\<close> however it ends.\<close>

definition returned :: "('w, 'e, 'a) proc \<Rightarrow> 'a \<Rightarrow> bool" where
  "returned m x \<longleftrightarrow> (\<exists>w w'. m w = Some (Ok x, w'))"

definition keeps :: "('w \<Rightarrow> bool) \<Rightarrow> ('w, 'e, 'a) proc \<Rightarrow> bool" where
  "keeps P m \<longleftrightarrow> (\<forall>w r w'. P w \<longrightarrow> m w = Some (r, w') \<longrightarrow> P w')"

lemma silent_returned: "silent good trail m \<Longrightarrow> leaves good trail m (\<lambda>x l. l = [] \<and> returned m x)"
  unfolding silent_def leaves_def returned_def by (metis append_Nil2)

lemma silent_try_returned:
  "silent good trail m \<Longrightarrow> leaves good trail (ptry m) (\<lambda>r l. l = [] \<and> (\<forall>x. r = Ok x \<longrightarrow> returned m x))"
  unfolding silent_def leaves_def returned_def by (auto simp: proc_simps)

lemma keepsD: "keeps P m \<Longrightarrow> P w \<Longrightarrow> m w = Some (r, w') \<Longrightarrow> P w'"
  unfolding keeps_def by blast

lemma keeps_bind:
  assumes "keeps P m" "\<And>x. keeps P (f x)"
  shows "keeps P (pbind m f)"
  unfolding keeps_def
proof (intro allI impI)
  fix w r w' assume "P w" "pbind m f w = Some (r, w')"
  then obtain r1 w1 where m: "m w = Some (r1, w1)" by (auto simp: pbind_def split: option.splits)
  then have "P w1" using \<open>P w\<close> by (rule keepsD [OF assms(1), rotated])
  with m \<open>pbind m f w = Some (r, w')\<close> show "P w'"
    by (cases r1) (auto simp: pbind_def intro: keepsD [OF assms(2)])
qed

lemma keeps_pure [simp]: "keeps P (preturn x)" "keeps P (pthrow e)" "keeps P (plift r)"
  by (simp_all add: keeps_def preturn_def pthrow_def plift_def)

lemma keeps_map_err: "keeps P m \<Longrightarrow> keeps P (pmap_err g m)"
  unfolding keeps_def pmap_err_def by auto

lemma keeps_try: "keeps P m \<Longrightarrow> keeps P (ptry m)"
  unfolding keeps_def ptry_def by (auto split: option.splits outcome.splits)

lemma keeps_pmap: "(\<And>x. keeps P (f x)) \<Longrightarrow> keeps P (pmap f xs)"
  by (induction xs) (auto intro!: keeps_bind)

lemma keeps_if: "keeps P m \<Longrightarrow> keeps P n \<Longrightarrow> keeps P (if b then m else n)"
  by simp

subsection \<open>Procedures that succeed\<close>

text \<open>\<open>succeeds m w Q\<close>: \<open>m\<close> returns a value from \<open>w\<close>, and the value and the state satisfy \<open>Q\<close>.\<close>

definition succeeds :: "('w, 'e, 'a) proc \<Rightarrow> 'w \<Rightarrow> ('a \<Rightarrow> 'w \<Rightarrow> bool) \<Rightarrow> bool" where
  "succeeds m w Q \<longleftrightarrow> (\<exists>x w'. m w = Some (Ok x, w') \<and> Q x w')"

lemma succeeds_bind: "succeeds (pbind m f) w Q \<longleftrightarrow> succeeds m w (\<lambda>x w1. succeeds (f x) w1 Q)"
  by (auto simp: succeeds_def proc_simps)

lemma succeeds_return [simp]: "succeeds (preturn x) w Q \<longleftrightarrow> Q x w"
  by (simp add: succeeds_def preturn_def)

lemma succeeds_map_err: "succeeds (pmap_err g m) w Q \<longleftrightarrow> succeeds m w Q"
  by (auto simp: succeeds_def proc_simps)

lemma succeeds_try: "succeeds m w (\<lambda>x w'. Q (Ok x) w') \<Longrightarrow> succeeds (ptry m) w Q"
  unfolding succeeds_def by (auto simp: ptry_def)

lemma succeeds_weaken: "succeeds m w Q \<Longrightarrow> (\<And>x w'. Q x w' \<Longrightarrow> R x w') \<Longrightarrow> succeeds m w R"
  unfolding succeeds_def by blast

lemma pmap_still:
  "(\<And>x. x \<in> set xs \<Longrightarrow> f x w = Some (Ok (g x), w)) \<Longrightarrow> pmap f xs w = Some (Ok (map g xs), w)"
  by (induction xs) (simp_all add: preturn_def pbind_def)

lemma succeeds_seq:
  assumes "succeeds m w Q" "\<And>x w1. Q x w1 \<Longrightarrow> succeeds (f x) w1 R"
  shows "succeeds (pbind m f) w R"
  unfolding succeeds_bind using assms by (rule succeeds_weaken)

end
