(* ===== verification/Hybrid_Verifier.thy ===== *)
theory Hybrid_Verifier
  imports Approvals Policy_Types Evm_Decoder
begin

text \<open>
  The in-enclave check of a policy decision (\<open>qfc-enclave/src/hybrid_verifier.rs\<close>) over the request types of
  \<open>enclave.rs\<close>: the service's signature, its binding to the request and the wallet, freshness, the
  approvals of a quorum decision, and the wallet's hard ceilings. Signatures, hashes, JSON, RLP and identifier
  text are crates.
\<close>

subsection \<open>Approvals as the enclave sees them (enclave.rs)\<close>

datatype enclave_approval_decision = EnclaveApprove | EnclaveReject

record enclave_approval =
  ea_approval_id :: approval_id
  ea_approver_public_key :: bytes
  ea_approver_scheme :: signing_scheme
  ea_request_id :: request_id
  ea_message_hash :: bytes
  ea_decision :: enclave_approval_decision
  ea_timestamp_unix_ms :: i64
  ea_signature :: bytes

subsection \<open>The verifier (hybrid\_verifier.rs)\<close>

record wallet_ceilings =
  wc_wallet_id :: wallet_id
  wc_max_value_per_tx :: "u128 option"
  wc_contract_allowlist :: "bytes list"
  wc_chain_allowlist :: "u64 list"

definition MAX_DECISION_AGE_SECS :: u32 where
  "MAX_DECISION_AGE_SECS = 24 * 60 * 60"

definition MAX_APPROVALS :: nat where
  "MAX_APPROVALS = 64"

definition MAX_APPROVAL_AGE_SECS_VERIFIER :: i64 where
  "MAX_APPROVAL_AGE_SECS_VERIFIER = 3600"

datatype hybrid_verify_error =
    MissingPolicyDecision
  | InvalidPolicyServiceSignature
  | PolicyDecisionRawPayloadMismatch
  | RequestIdMismatch request_id request_id
  | WalletIdMismatch wallet_id wallet_id
  | DecisionStale u32 u32
  | DecisionFromTheFuture i64
  | PolicyDeny
  | ValueCapExceeded string u128
  | TargetNotAllowed string
  | CeilingChainNotAllowed u64
  | NotEnoughApprovals u8 u8
  | InvalidApproval string
  | TooManyApprovals nat nat
  | ApprovalSignerError signer_error
  | UnsupportedVmForCeilings vm_type

record hybrid_crates =
  hv_sign :: sign_crates
  hv_rlp :: rlp_crate
  hv_ulid :: "ulid \<Rightarrow> string"
  hv_decision_json :: "policy_decision \<Rightarrow> bytes"
  hv_json :: "json \<Rightarrow> bytes option"

record hybrid_verifier =
  hv_policy_service_pubkey :: bytes
  hv_require_signed_decision :: bool

definition hybrid_new :: "bytes \<Rightarrow> hybrid_verifier" where
  "hybrid_new pubkey = \<lparr>hv_policy_service_pubkey = pubkey, hv_require_signed_decision = True\<rparr>"

definition with_require_signed_decision :: "hybrid_verifier \<Rightarrow> bool \<Rightarrow> hybrid_verifier" where
  "with_require_signed_decision self require = self\<lparr>hv_require_signed_decision := require\<rparr>"

primrec enclave_decision_byte :: "enclave_approval_decision \<Rightarrow> u8" where
  "enclave_decision_byte EnclaveApprove = 1"
| "enclave_decision_byte EnclaveReject = 0"

definition enclave_approval_preimage :: "(ulid \<Rightarrow> string) \<Rightarrow> enclave_approval \<Rightarrow> bytes" where
  "enclave_approval_preimage ulid_str ap =
     as_bytes (ulid_str (approval_ulid (ea_approval_id ap))) @ as_bytes ''|'' @
     as_bytes (ulid_str (request_ulid (ea_request_id ap))) @ as_bytes ''|'' @
     ea_message_hash ap @ as_bytes ''|'' @
     [enclave_decision_byte (ea_decision ap)] @ as_bytes ''|'' @
     i64_be (ea_timestamp_unix_ms ap)"

primrec approval_hash_alg :: "signing_scheme \<Rightarrow> hash_alg" where
  "approval_hash_alg Ed25519 = HashNone"
| "approval_hash_alg MlDsa44 = HashNone"
| "approval_hash_alg MlDsa65 = HashNone"
| "approval_hash_alg MlDsa87 = HashNone"
| "approval_hash_alg Secp256k1 = Sha256"
| "approval_hash_alg Secp256k1Recoverable = Sha256"

primrec canonical_signing_message :: "(json \<Rightarrow> bytes option) \<Rightarrow> signing_payload \<Rightarrow> bytes" where
  "canonical_signing_message to_vec (Raw b) = b"
| "canonical_signing_message to_vec (PersonalSign b) = b"
| "canonical_signing_message to_vec (TypedData j) = (case to_vec j of Some b \<Rightarrow> b | None \<Rightarrow> [])"
| "canonical_signing_message to_vec (VmTransaction vm c t raw) = raw"

definition verify_ed25519 :: "sign_crates \<Rightarrow> bytes \<Rightarrow> bytes \<Rightarrow> bytes \<Rightarrow> (hybrid_verify_error, unit) outcome" where
  "verify_ed25519 cr public_key message signature =
     obind (fail_if (length public_key \<noteq> 32) InvalidPolicyServiceSignature) (\<lambda>_.
     obind (fail_if (ed_key_error cr public_key \<noteq> None) InvalidPolicyServiceSignature) (\<lambda>_.
     obind (fail_if (length signature \<noteq> 64) InvalidPolicyServiceSignature) (\<lambda>_.
     fail_if (\<not> ed_verify cr public_key message signature) InvalidPolicyServiceSignature)))"

definition check_chain_ceiling :: "signing_request \<Rightarrow> wallet_ceilings \<Rightarrow> (hybrid_verify_error, unit) outcome" where
  "check_chain_ceiling request wallet =
     (if wc_chain_allowlist wallet = [] then Ok ()
      else case chain_id_of (sr_payload request) of
          None \<Rightarrow> Ok ()
        | Some c \<Rightarrow> fail_if (c \<notin> set (wc_chain_allowlist wallet)) (CeilingChainNotAllowed c))"

definition check_target_ceiling :: "signing_request \<Rightarrow> wallet_ceilings \<Rightarrow> (hybrid_verify_error, unit) outcome" where
  "check_target_ceiling request wallet =
     (if wc_contract_allowlist wallet = [] then Ok ()
      else case sr_payload request of
          VmTransaction Evm c (Some to) raw \<Rightarrow>
            obind (fail_if (length to \<noteq> 20) (TargetNotAllowed (hex_encode to))) (\<lambda>_.
            fail_if (to \<notin> set (wc_contract_allowlist wallet)) (TargetNotAllowed (hex_encode to)))
        | _ \<Rightarrow> Ok ())"

definition check_value_ceiling :: "hybrid_crates \<Rightarrow> signing_request \<Rightarrow> wallet_ceilings \<Rightarrow> (hybrid_verify_error, unit) outcome" where
  "check_value_ceiling cr request wallet =
     (case wc_max_value_per_tx wallet of
        None \<Rightarrow> Ok ()
      | Some cap \<Rightarrow>
          (case sr_payload request of
             VmTransaction Evm c to raw \<Rightarrow>
               obind (map_err (\<lambda>_. InvalidApproval ''could not decode EVM tx for ceiling check'') (decode_evm_tx (hv_rlp cr) raw)) (\<lambda>decoded.
               fail_if (etx_value decoded > ucast cap) (ValueCapExceeded (show_nat (unat (etx_value decoded))) cap))
           | _ \<Rightarrow> Ok ()))"

definition check_hard_ceilings :: "hybrid_crates \<Rightarrow> signing_request \<Rightarrow> wallet_ceilings \<Rightarrow> (hybrid_verify_error, unit) outcome" where
  "check_hard_ceilings cr request wallet =
     obind (check_chain_ceiling request wallet) (\<lambda>_.
     obind (check_target_ceiling request wallet) (\<lambda>_.
     check_value_ceiling cr request wallet))"

text \<open>One turn of the loop over the approvals.\<close>

definition check_approval :: "hybrid_crates \<Rightarrow> request_id \<Rightarrow> bytes \<Rightarrow> i64 \<Rightarrow> enclave_approval \<Rightarrow> (hybrid_verify_error, unit) outcome" where
  "check_approval cr rid expected_hash now ap =
     obind (fail_if (ea_request_id ap \<noteq> rid) (InvalidApproval ''wrong request_id'')) (\<lambda>_.
     obind (fail_if (ea_message_hash ap \<noteq> expected_hash) (InvalidApproval ''wrong message_hash'')) (\<lambda>_.
     let age_ms = i64_saturating_sub now (ea_timestamp_unix_ms ap) in
     obind (fail_if (age_ms < 0) (InvalidApproval ''approval timestamp is in the future'')) (\<lambda>_.
     obind (fail_if (whole_units 1000 age_ms > MAX_APPROVAL_AGE_SECS_VERIFIER) (InvalidApproval ''approval is stale'')) (\<lambda>_.
     obind (fail_if (ea_decision ap = EnclaveReject) (InvalidApproval ''approver rejected'')) (\<lambda>_.
     map_err ApprovalSignerError
       (dispatch_signer (hv_sign cr) (ea_approver_scheme ap) (\<lambda>signer.
          sg_verify signer (ea_approver_public_key ap) (enclave_approval_preimage (hv_ulid cr) ap) (ea_signature ap)
            (approval_hash_alg (ea_approver_scheme ap)))))))))"

definition u8_saturating_add1 :: "u8 \<Rightarrow> u8" where
  "u8_saturating_add1 n = (if n = 255 then 255 else n + 1)"

definition check_approvals :: "hybrid_crates \<Rightarrow> enclave_approval list \<Rightarrow> signing_request \<Rightarrow> u8 \<Rightarrow> i64 \<Rightarrow> (hybrid_verify_error, unit) outcome" where
  "check_approvals cr approvals request threshold now =
     (let expected_hash = sha256 (hv_sign cr) (canonical_signing_message (hv_json cr) (sr_payload request)) in
      obind (ofold (\<lambda>valid ap. obind (check_approval cr (sr_request_id request) expected_hash now ap) (\<lambda>_.
        Ok (u8_saturating_add1 valid))) 0 approvals) (\<lambda>valid.
      fail_if (valid < threshold) (NotEnoughApprovals valid threshold)))"

definition age_secs_of :: "i64 \<Rightarrow> u32" where
  "age_secs_of age_ms = (let s = whole_units 1000 age_ms in if s < 2 ^ 32 then word_of_int s else - 1)"

primrec check_decision :: "hybrid_crates \<Rightarrow> enclave_approval list \<Rightarrow> signing_request \<Rightarrow> i64 \<Rightarrow> policy_decision \<Rightarrow> (hybrid_verify_error, unit) outcome" where
  "check_decision cr approvals request now (Deny d p r h) = Err PolicyDeny"
| "check_decision cr approvals request now (RequireQuorum d p threshold total_n s h) = check_approvals cr approvals request threshold now"
| "check_decision cr approvals request now (Allow d p h) = Ok ()"

definition check_signed :: "hybrid_crates \<Rightarrow> hybrid_verifier \<Rightarrow> signed_policy_decision \<Rightarrow> enclave_approval list \<Rightarrow> signing_request \<Rightarrow>
   wallet_ceilings \<Rightarrow> i64 \<Rightarrow> (hybrid_verify_error, unit) outcome" where
  "check_signed cr self sd approvals request wallet now =
     (let canonical = build_preimage (hv_decision_json cr) (hv_ulid cr) (spd_decision sd) (spd_request_id sd)
            (spd_wallet_id sd) (spd_signed_at_unix_ms sd) (spd_max_age_secs sd) in
      obind (fail_if (canonical \<noteq> spd_raw_payload sd) PolicyDecisionRawPayloadMismatch) (\<lambda>_.
      obind (fail_if (take (length POLICY_DECISION_DOMAIN) (spd_raw_payload sd) \<noteq> as_bytes POLICY_DECISION_DOMAIN)
        PolicyDecisionRawPayloadMismatch) (\<lambda>_.
      obind (verify_ed25519 (hv_sign cr) (hv_policy_service_pubkey self) (spd_raw_payload sd) (spd_signature sd)) (\<lambda>_.
      obind (fail_if (spd_request_id sd \<noteq> sr_request_id request) (RequestIdMismatch (sr_request_id request) (spd_request_id sd))) (\<lambda>_.
      obind (fail_if (spd_wallet_id sd \<noteq> wc_wallet_id wallet) (WalletIdMismatch (wc_wallet_id wallet) (spd_wallet_id sd))) (\<lambda>_.
      let age_ms = i64_saturating_sub now (spd_signed_at_unix_ms sd) in
      obind (fail_if (age_ms < 0) (DecisionFromTheFuture (spd_signed_at_unix_ms sd))) (\<lambda>_.
      let age_secs = age_secs_of age_ms; effective_max = min (spd_max_age_secs sd) MAX_DECISION_AGE_SECS in
      obind (fail_if (age_secs > effective_max) (DecisionStale age_secs effective_max)) (\<lambda>_.
      obind (check_decision cr approvals request now (spd_decision sd)) (\<lambda>_.
      check_hard_ceilings cr request wallet)))))))))"

definition hybrid_verify :: "hybrid_crates \<Rightarrow> hybrid_verifier \<Rightarrow> signed_policy_decision option \<Rightarrow> enclave_approval list \<Rightarrow>
   signing_request \<Rightarrow> wallet_ceilings \<Rightarrow> i64 \<Rightarrow> (hybrid_verify_error, unit) outcome" where
  "hybrid_verify cr self signed_decision approvals request wallet now =
     obind (fail_if (length approvals > MAX_APPROVALS) (TooManyApprovals (length approvals) MAX_APPROVALS)) (\<lambda>_.
     case signed_decision of
       Some sd \<Rightarrow> check_signed cr self sd approvals request wallet now
     | None \<Rightarrow>
         if hv_require_signed_decision self then Err MissingPolicyDecision
         else check_hard_ceilings cr request wallet)"

subsection \<open>What the checks accept\<close>

text \<open>The ceilings, read as predicates.\<close>

definition within_ceilings :: "hybrid_crates \<Rightarrow> signing_payload \<Rightarrow> wallet_ceilings \<Rightarrow> bool" where
  "within_ceilings cr payload w \<longleftrightarrow>
     (wc_chain_allowlist w = [] \<or> (\<forall>c. chain_id_of payload = Some c \<longrightarrow> c \<in> set (wc_chain_allowlist w))) \<and>
     (wc_contract_allowlist w = [] \<or>
        (\<forall>c to raw. payload = VmTransaction Evm c (Some to) raw \<longrightarrow> length to = 20 \<and> to \<in> set (wc_contract_allowlist w))) \<and>
     (\<forall>cap c to raw. wc_max_value_per_tx w = Some cap \<longrightarrow> payload = VmTransaction Evm c to raw \<longrightarrow>
        (\<exists>tx. decode_evm_tx (hv_rlp cr) raw = Ok tx \<and> unat (etx_value tx) \<le> unat cap))"

lemma ucast_u256_less: "x > (ucast (cap :: u128) :: u256) \<longleftrightarrow> unat cap < unat x"
proof -
  have "unat (ucast cap :: u256) = unat cap"
    using unat_lt [of cap] by (simp add: unsigned_ucast_eq take_bit_nat_eq_self)
  then show ?thesis by (simp add: word_less_nat_alt)
qed

lemma check_hard_ceilings_Ok:
  "check_hard_ceilings cr req w = Ok () \<longleftrightarrow> within_ceilings cr (sr_payload req) w"
proof -
  have "check_chain_ceiling req w = Ok () \<longleftrightarrow>
      wc_chain_allowlist w = [] \<or> (\<forall>c. chain_id_of (sr_payload req) = Some c \<longrightarrow> c \<in> set (wc_chain_allowlist w))"
    by (auto simp: check_chain_ceiling_def outcome_simps split: option.splits)
  moreover have "check_target_ceiling req w = Ok () \<longleftrightarrow> wc_contract_allowlist w = [] \<or>
      (\<forall>c to raw. sr_payload req = VmTransaction Evm c (Some to) raw \<longrightarrow> length to = 20 \<and> to \<in> set (wc_contract_allowlist w))"
    by (auto simp: check_target_ceiling_def outcome_simps split: signing_payload.splits vm_type.splits option.splits)
  moreover have "check_value_ceiling cr req w = Ok () \<longleftrightarrow>
      (\<forall>cap c to raw. wc_max_value_per_tx w = Some cap \<longrightarrow> sr_payload req = VmTransaction Evm c to raw \<longrightarrow>
        (\<exists>tx. decode_evm_tx (hv_rlp cr) raw = Ok tx \<and> unat (etx_value tx) \<le> unat cap))"
    by (auto simp: check_value_ceiling_def outcome_simps ucast_u256_less not_less split: option.splits signing_payload.splits vm_type.splits)
  ultimately show ?thesis by (simp add: check_hard_ceilings_def outcome_simps within_ceilings_def)
qed

definition approval_valid :: "hybrid_crates \<Rightarrow> request_id \<Rightarrow> bytes \<Rightarrow> i64 \<Rightarrow> enclave_approval \<Rightarrow> bool" where
  "approval_valid cr rid h now a \<longleftrightarrow>
     ea_request_id a = rid \<and> ea_message_hash a = h \<and> ea_timestamp_unix_ms a \<le> now \<and> now < ea_timestamp_unix_ms a + 3601000 \<and>
     ea_decision a = EnclaveApprove \<and>
     sg_verify (signer_of (hv_sign cr) (ea_approver_scheme a)) (ea_approver_public_key a) (enclave_approval_preimage (hv_ulid cr) a)
       (ea_signature a) (approval_hash_alg (ea_approver_scheme a)) = Ok ()"

lemma check_approval_Ok: "check_approval cr rid h now a = Ok () \<longleftrightarrow> approval_valid cr rid h now a"
proof -
  let ?t = "ea_timestamp_unix_ms a"
  have age: "i64_saturating_sub now ?t < 0 \<longleftrightarrow> now < ?t" by (rule i64_saturating_sub_neg)
  have fresh: "?t \<le> now \<Longrightarrow> whole_units 1000 (i64_saturating_sub now ?t) \<le> 3600 \<longleftrightarrow> now < ?t + 3601000"
    using whole_seconds_bound [of "i64_saturating_sub now ?t"] by (auto simp: i64_saturating_sub_nonneg)
  have "ea_decision a \<noteq> EnclaveReject \<longleftrightarrow> ea_decision a = EnclaveApprove" by (cases "ea_decision a") simp_all
  then show ?thesis
    by (auto simp: check_approval_def approval_valid_def Let_def outcome_simps age fresh dispatch_signer_def
        MAX_APPROVAL_AGE_SECS_VERIFIER_def not_less)
qed

lemma unat_saturating_add1: "unat (u8_saturating_add1 n) = min 255 (unat n + 1)"
proof (cases "n = 255")
  case False
  then have "unat n \<noteq> unat (255 :: u8)" unfolding unsigned_word_eqI_iff .
  then have "unat n + 1 < 2 ^ 8" using unat_lt [of n] by simp
  with False show ?thesis by (simp add: u8_saturating_add1_def unat_word_ariths)
qed (simp add: u8_saturating_add1_def)

lemma count_approvals:
  "ofold (\<lambda>valid ap. obind (check_approval cr rid h now ap) (\<lambda>_. Ok (u8_saturating_add1 valid))) n aps = Ok v \<longleftrightarrow>
     (\<forall>a \<in> set aps. approval_valid cr rid h now a) \<and> unat v = min 255 (unat n + length aps)"
proof (induction aps arbitrary: n)
  case Nil
  have "unat n \<le> 255" using unat_lt [of n] by simp
  then show ?case by (auto simp: unsigned_word_eqI_iff [symmetric])
qed (auto simp: outcome_simps check_approval_Ok unat_saturating_add1)

definition quorum_valid :: "hybrid_crates \<Rightarrow> enclave_approval list \<Rightarrow> signing_request \<Rightarrow> u8 \<Rightarrow> i64 \<Rightarrow> bool" where
  "quorum_valid cr aps req t now \<longleftrightarrow> unat t \<le> length aps \<and>
     (\<forall>a \<in> set aps. approval_valid cr (sr_request_id req)
       (sha256 (hv_sign cr) (canonical_signing_message (hv_json cr) (sr_payload req))) now a)"

lemma check_approvals_Ok: "check_approvals cr aps req t now = Ok () \<longleftrightarrow> quorum_valid cr aps req t now"
proof -
  have t: "unat t \<le> 255" using unat_lt [of t] by simp
  have "\<exists>v :: u8. unat v = min 255 (length aps)"
    by (rule exI [of _ "of_nat (min 255 (length aps))"]) (simp add: unat_of_nat)
  with t show ?thesis
    by (auto simp: check_approvals_def Let_def outcome_simps count_approvals quorum_valid_def word_less_nat_alt not_less)
qed

definition decision_permits :: "hybrid_crates \<Rightarrow> enclave_approval list \<Rightarrow> signing_request \<Rightarrow> i64 \<Rightarrow> policy_decision \<Rightarrow> bool" where
  "decision_permits cr aps req now d =
     (case d of Allow _ _ _ \<Rightarrow> True | Deny _ _ _ _ \<Rightarrow> False | RequireQuorum _ _ t _ _ _ \<Rightarrow> quorum_valid cr aps req t now)"

lemma check_decision_Ok: "check_decision cr aps req now d = Ok () \<longleftrightarrow> decision_permits cr aps req now d"
  by (cases d) (simp_all add: decision_permits_def check_approvals_Ok)

lemma age_secs_bound:
  assumes "0 \<le> ms" "unat eff = n" "n \<le> 86400"
  shows "age_secs_of ms \<le> eff \<longleftrightarrow> ms < (int n + 1) * 1000"
proof -
  have w: "whole_units 1000 ms = ms div 1000" using assms(1) by (simp add: whole_units_nonneg)
  show ?thesis
  proof (cases "ms div 1000 < 2 ^ 32")
    case True
    then have "unat (word_of_int (ms div 1000) :: u32) = nat (ms div 1000)"
      using assms(1) by (simp add: unsigned_of_int take_bit_int_eq_self)
    with True w assms(2) show ?thesis by (simp add: age_secs_of_def Let_def word_le_nat_alt nat_le_iff) linarith
  next
    case False
    have "unat (- 1 :: u32) = 2 ^ 32 - 1" by (simp add: unsigned_minus_1_eq_mask mask_eq_exp_minus_1)
    with False w assms(2,3) show ?thesis by (simp add: age_secs_of_def Let_def word_le_nat_alt)
  qed
qed

text \<open>The whole contract of the verifier on a signed decision.\<close>

definition decision_authorises :: "hybrid_crates \<Rightarrow> bytes \<Rightarrow> signed_policy_decision \<Rightarrow> enclave_approval list \<Rightarrow> signing_request \<Rightarrow>
   wallet_ceilings \<Rightarrow> i64 \<Rightarrow> bool" where
  "decision_authorises cr pk sd aps req w now \<longleftrightarrow>
     spd_raw_payload sd = build_preimage (hv_decision_json cr) (hv_ulid cr) (spd_decision sd) (sr_request_id req) (wc_wallet_id w)
       (spd_signed_at_unix_ms sd) (spd_max_age_secs sd) \<and>
     spd_request_id sd = sr_request_id req \<and> spd_wallet_id sd = wc_wallet_id w \<and>
     length pk = 32 \<and> ed_key_error (hv_sign cr) pk = None \<and> length (spd_signature sd) = 64 \<and>
     ed_verify (hv_sign cr) pk (spd_raw_payload sd) (spd_signature sd) \<and>
     spd_signed_at_unix_ms sd \<le> now \<and>
     now < spd_signed_at_unix_ms sd + (int (min (unat (spd_max_age_secs sd)) 86400) + 1) * 1000 \<and>
     decision_permits cr aps req now (spd_decision sd) \<and> within_ceilings cr (sr_payload req) w"

lemma verify_ed25519_Ok:
  "verify_ed25519 cr pk m sig = Ok () \<longleftrightarrow> length pk = 32 \<and> ed_key_error cr pk = None \<and> length sig = 64 \<and> ed_verify cr pk m sig"
  by (auto simp: verify_ed25519_def outcome_simps)

lemma check_signed_Ok:
  assumes "i64_ok now" "i64_ok (spd_signed_at_unix_ms sd)"
  shows "check_signed cr self sd aps req w now = Ok () \<longleftrightarrow>
    decision_authorises cr (hv_policy_service_pubkey self) sd aps req w now"
proof -
  let ?t = "spd_signed_at_unix_ms sd"
  define eff where "eff = min (spd_max_age_secs sd) MAX_DECISION_AGE_SECS"
  have age: "i64_saturating_sub now ?t < 0 \<longleftrightarrow> now < ?t" by (rule i64_saturating_sub_neg)
  have eff: "unat eff = min (unat (spd_max_age_secs sd)) 86400"
    by (simp add: eff_def MAX_DECISION_AGE_SECS_def min_def word_le_nat_alt)
  have fresh: "?t \<le> now \<Longrightarrow> age_secs_of (i64_saturating_sub now ?t) \<le> eff \<longleftrightarrow>
      now < ?t + (int (min (unat (spd_max_age_secs sd)) 86400) + 1) * 1000"
    using age_secs_bound [OF _ eff, of "i64_saturating_sub now ?t"] by (auto simp: i64_saturating_sub_nonneg)
  have len: "length POLICY_DECISION_DOMAIN = 22" by (simp add: POLICY_DECISION_DOMAIN_def)
  have dom: "take (length POLICY_DECISION_DOMAIN) (build_preimage j u d r w' t a) = as_bytes POLICY_DECISION_DOMAIN" for j u d r w' t a
    unfolding len by (rule preimage_has_domain)
  show ?thesis
    unfolding check_signed_def decision_authorises_def Let_def eff_def [symmetric]
    by (auto simp: outcome_simps age fresh not_less verify_ed25519_Ok check_decision_Ok check_hard_ceilings_Ok dom)
qed


subsection \<open>Approvals on both sides\<close>

text \<open>An approval of the quorum layer with the fields the enclave's type mirrors.\<close>

definition enclave_view :: "signed_approval \<Rightarrow> enclave_approval" where
  "enclave_view a = \<lparr>ea_approval_id = ap_approval_id a, ea_approver_public_key = identity_public_key (ap_approver a),
     ea_approver_scheme = identity_scheme (ap_approver a), ea_request_id = ap_request_id a, ea_message_hash = ap_message_hash a,
     ea_decision = (case ap_decision a of Approve \<Rightarrow> EnclaveApprove | Reject \<Rightarrow> EnclaveReject),
     ea_timestamp_unix_ms = ap_timestamp_unix_ms a, ea_signature = ap_signature a\<rparr>"

lemma enclave_view_simps:
  "ea_approver_public_key (enclave_view a) = identity_public_key (ap_approver a)"
  "ea_approver_scheme (enclave_view a) = identity_scheme (ap_approver a)" "ea_request_id (enclave_view a) = ap_request_id a"
  "ea_message_hash (enclave_view a) = ap_message_hash a" "ea_timestamp_unix_ms (enclave_view a) = ap_timestamp_unix_ms a"
  "ea_signature (enclave_view a) = ap_signature a"
  "ea_decision (enclave_view a) = EnclaveReject \<longleftrightarrow> ap_decision a = Reject"
  by (cases "ap_decision a"; simp add: enclave_view_def)+

lemma enclave_preimage_view: "enclave_approval_preimage u (enclave_view a) = approval_preimage u a"
  by (cases "ap_decision a") (simp_all add: enclave_approval_preimage_def approval_preimage_def enclave_view_def signing_preimage_def)

lemma hash_algs_agree: "approval_hash_alg s = hash_alg_for s"
  by (cases s) (simp_all add: hash_alg_for_def)

text \<open>An approval anybody can make: any Ed25519 key, over the preimage of the request.\<close>

definition self_made_approval :: "hybrid_crates \<Rightarrow> bytes \<Rightarrow> signing_request \<Rightarrow> i64 \<Rightarrow> enclave_approval" where
  "self_made_approval cr secret req now =
     (let a = \<lparr>ea_approval_id = ApprovalId 0, ea_approver_public_key = ed_public (hv_sign cr) secret, ea_approver_scheme = Ed25519,
        ea_request_id = sr_request_id req,
        ea_message_hash = sha256 (hv_sign cr) (canonical_signing_message (hv_json cr) (sr_payload req)),
        ea_decision = EnclaveApprove, ea_timestamp_unix_ms = now, ea_signature = []\<rparr> in
      a\<lparr>ea_signature := ed_sign (hv_sign cr) secret (enclave_approval_preimage (hv_ulid cr) a)\<rparr>)"

lemma self_made_valid:
  assumes "ed_laws (hv_sign cr)" "length secret = 32"
  shows "approval_valid cr (sr_request_id req) (sha256 (hv_sign cr) (canonical_signing_message (hv_json cr) (sr_payload req))) now
    (self_made_approval cr secret req now)"
  using assms
  by (simp add: approval_valid_def self_made_approval_def Let_def ed_laws_def signer_defs enclave_approval_preimage_def fail_if_simps
      require_no_hash_def)

lemma hybrid_verify_Ok:
  assumes "i64_ok now" "\<forall>sd. d = Some sd \<longrightarrow> i64_ok (spd_signed_at_unix_ms sd)"
  shows "hybrid_verify cr (hybrid_new pk) d aps req w now = Ok () \<longleftrightarrow>
    length aps \<le> 64 \<and> (\<exists>sd. d = Some sd \<and> decision_authorises cr pk sd aps req w now)"
  using assms check_signed_Ok [OF assms(1)]
  by (cases d) (auto simp: hybrid_verify_def hybrid_new_def MAX_APPROVALS_def outcome_simps not_less)

subsection \<open>Properties\<close>

text \<open>C3. A verifier that requires a signed decision accepts exactly when there are at most 64 approvals and there is a decision whose
  canonical preimage, built from this request and this wallet, carries the pinned service key's
  signature, that is neither from the future nor older than its maximum age and a day, that allows the
  request or is met by a quorum of valid approvals, and the payload is within the wallet's ceilings.\<close>

theorem hybrid_verify_iff:
  assumes "i64_ok now" "\<forall>sd. d = Some sd \<longrightarrow> i64_ok (spd_signed_at_unix_ms sd)"
  shows "hybrid_verify cr (hybrid_new pk) d aps req w now = Ok () \<longleftrightarrow>
    length aps \<le> 64 \<and> (\<exists>sd. d = Some sd \<and> decision_authorises cr pk sd aps req w now)"
  using assms by (rule hybrid_verify_Ok)

text \<open>The enclave and the orchestrator agree on approvals: the enclave's re-implementation accepts the mirrored fields of an
  approval exactly when the quorum layer verifies that approval and it is not a rejection.\<close>

theorem enclave_agrees_on_approvals:
  "check_approval cr rid h now (enclave_view a) = Ok () \<longleftrightarrow>
     approval_verify (hv_sign cr) (hv_ulid cr) a rid h now = Ok () \<and> ap_decision a = Approve"
  by (cases "ap_decision a")
    (auto simp: check_approval_def approval_verify_def Let_def outcome_simps enclave_preimage_view hash_algs_agree dispatch_signer_def
      MAX_APPROVAL_AGE_SECS_VERIFIER_def MAX_APPROVAL_AGE_SECS_def enclave_view_simps)

text \<open>C35. The enclave's quorum check counts signatures, not approvers: whatever the threshold, approvals all made with one
  key that belongs to no approver set satisfy it.\<close>

theorem any_key_meets_quorum:
  assumes "ed_laws (hv_sign cr)" "length secret = 32"
  shows "check_approvals cr (replicate (unat threshold) (self_made_approval cr secret req now)) req threshold now = Ok ()"
  using self_made_valid [OF assms] by (simp add: check_approvals_Ok quorum_valid_def)


definition ref_hybrid_crates :: hybrid_crates where
  "ref_hybrid_crates = \<lparr>hv_sign = ref_sign_crates, hv_rlp = ref_rlp, hv_ulid = crockford, hv_decision_json = (\<lambda>_. [1]), hv_json = (\<lambda>_. None)\<rparr>"

definition demo_hybrid_request :: signing_request where
  "demo_hybrid_request = \<lparr>sr_request_id = RequestId 1, sr_wallet_id = WalletId 2, sr_requester = ApiKey ''k'', sr_payload = Raw [1, 2],
     sr_hd_path = None, sr_received_at_unix_ms = 0\<rparr>"

definition demo_ceilings :: wallet_ceilings where
  "demo_ceilings = \<lparr>wc_wallet_id = WalletId 2, wc_max_value_per_tx = Some 5, wc_contract_allowlist = [], wc_chain_allowlist = [1]\<rparr>"

definition demo_signed_decision :: signed_policy_decision where
  "demo_signed_decision =
     (let raw = build_preimage (hv_decision_json ref_hybrid_crates) (hv_ulid ref_hybrid_crates) (Allow (DecisionId 1) (PolicyId 1) [])
        (RequestId 1) (WalletId 2) 1000 60 in
      \<lparr>spd_decision = Allow (DecisionId 1) (PolicyId 1) [], spd_request_id = RequestId 1, spd_wallet_id = WalletId 2, spd_raw_payload = raw,
       spd_signature = ed_sign ref_sign_crates (replicate 32 7) raw, spd_signed_at_unix_ms = 1000, spd_max_age_secs = 60\<rparr>)"

lemma demo_authorises:
  "decision_authorises ref_hybrid_crates (replicate 32 7) demo_signed_decision [] demo_hybrid_request demo_ceilings 61999"
  by (simp add: decision_authorises_def demo_signed_decision_def demo_hybrid_request_def demo_ceilings_def Let_def
      decision_permits_def within_ceilings_def) (simp add: ref_hybrid_crates_def ref_sign_crates_def)

theorem hybrid_verify_iff_witness:
  "hybrid_verify ref_hybrid_crates (hybrid_new (replicate 32 7)) (Some demo_signed_decision) [] demo_hybrid_request demo_ceilings 61999 = Ok () \<and>
   hybrid_verify ref_hybrid_crates (hybrid_new (replicate 32 7)) (Some demo_signed_decision) [] demo_hybrid_request demo_ceilings 62000 \<noteq> Ok ()"
proof -
  have at: "spd_signed_at_unix_ms demo_signed_decision = 1000" "spd_max_age_secs demo_signed_decision = 60"
    by (simp_all add: demo_signed_decision_def Let_def)
  then have "\<not> decision_authorises ref_hybrid_crates (replicate 32 7) demo_signed_decision [] demo_hybrid_request demo_ceilings 62000"
    by (simp add: decision_authorises_def)
  moreover have "hybrid_verify ref_hybrid_crates (hybrid_new (replicate 32 7)) (Some demo_signed_decision) [] demo_hybrid_request demo_ceilings t = Ok () \<longleftrightarrow>
      decision_authorises ref_hybrid_crates (replicate 32 7) demo_signed_decision [] demo_hybrid_request demo_ceilings t" if "i64_ok t" for t
    by (subst hybrid_verify_iff [OF that]) (simp_all add: at i64_ok_def)
  ultimately show ?thesis using demo_authorises by (simp add: i64_ok_def)
qed

theorem any_key_meets_quorum_witness:
  "check_approvals ref_hybrid_crates (replicate 3 (self_made_approval ref_hybrid_crates (replicate 32 9) demo_hybrid_request 5)) demo_hybrid_request 3 5 = Ok ()"
proof -
  have "ed_laws (hv_sign ref_hybrid_crates)" using ref_sign_laws by (simp add: ref_hybrid_crates_def sign_laws_def)
  from any_key_meets_quorum [OF this, of "replicate 32 9" 3 demo_hybrid_request 5] show ?thesis by simp
qed

end
