(* ===== verification/Mock_Enclave.thy ===== *)
theory Mock_Enclave
  imports Hybrid_Verifier Shamir
begin

text \<open>
  The enclave boundary: attestation documents (\<open>qfc-enclave/src/attestation.rs\<close>), the request and response types
  (\<open>enclave.rs\<close>) and the in-process enclave (\<open>enclaves/mock.rs\<close>), which checks the policy decision, recombines
  the shares, derives the key, signs and attests. Random bytes, clock readings and nonces are
  arguments; the cryptographic crates are those of the theories it composes.
\<close>

subsection \<open>Attestation (attestation.rs)\<close>

record attestation_payload =
  atp_backend :: string
  atp_timestamp_unix_ms :: i64
  atp_nonce :: bytes
  atp_pcrs :: "(u8 \<times> bytes) list"
  atp_attestation_public_key :: bytes
  atp_user_data :: bytes

record attestation_doc =
  atd_raw_payload :: bytes
  atd_payload :: attestation_payload
  atd_signature :: bytes

datatype attestation_error =
    PayloadParse string
  | PayloadMismatch
  | InvalidKey string
  | InvalidSignature

definition PCR_MOCK_SENTINEL_LEN :: nat where "PCR_MOCK_SENTINEL_LEN = 48"
definition PCR_LEN :: nat where "PCR_LEN = 48"

definition pcr_mock_sentinel :: bytes where
  "pcr_mock_sentinel = replicate PCR_MOCK_SENTINEL_LEN 0xCD"

text \<open>The JSON form of a payload.\<close>

record att_crates =
  att_sign :: sign_crates
  att_to_vec :: "attestation_payload \<Rightarrow> string + bytes"
  att_from_slice :: "bytes \<Rightarrow> string + attestation_payload"

definition attestation_verify :: "att_crates \<Rightarrow> attestation_doc \<Rightarrow> (attestation_error, unit) outcome" where
  "attestation_verify cr doc =
     (case att_from_slice cr (atd_raw_payload doc) of
        Inl e \<Rightarrow> Err (PayloadParse e)
      | Inr reparsed \<Rightarrow>
          let pk = atp_attestation_public_key (atd_payload doc) in
          obind (fail_if (reparsed \<noteq> atd_payload doc) PayloadMismatch) (\<lambda>_.
          obind (fail_if (length pk \<noteq> 32) (InvalidKey ''expected 32-byte ed25519 pubkey'')) (\<lambda>_.
          obind (fail_if (ed_key_error (att_sign cr) pk \<noteq> None) (InvalidKey ''malformed ed25519 pubkey'')) (\<lambda>_.
          obind (fail_if (length (atd_signature doc) \<noteq> 64) InvalidSignature) (\<lambda>_.
          fail_if (\<not> ed_verify (att_sign cr) pk (atd_raw_payload doc) (atd_signature doc)) InvalidSignature)))))"

record mock_attestation_key =
  mak_sk :: bytes
  mak_vk :: bytes

definition attestation_key_from_seed :: "att_crates \<Rightarrow> bytes \<Rightarrow> mock_attestation_key" where
  "attestation_key_from_seed cr seed = \<lparr>mak_sk = seed, mak_vk = ed_public (att_sign cr) seed\<rparr>"

definition attestation_now :: "int \<Rightarrow> i64" where
  "attestation_now nanos = (let ms = whole_units 1000000 nanos in if i64_ok ms then ms else 2 ^ 63 - 1)"

definition mock_payload :: "i64 \<Rightarrow> bytes \<Rightarrow> bytes \<Rightarrow> bytes \<Rightarrow> attestation_payload" where
  "mock_payload now vk nonce user_data =
     \<lparr>atp_backend = ''mock'', atp_timestamp_unix_ms = now, atp_nonce = nonce,
      atp_pcrs = [(0, pcr_mock_sentinel), (1, pcr_mock_sentinel), (2, pcr_mock_sentinel)],
      atp_attestation_public_key = vk, atp_user_data = user_data\<rparr>"

definition sign_attestation :: "att_crates \<Rightarrow> int \<Rightarrow> mock_attestation_key \<Rightarrow> bytes \<Rightarrow> bytes \<Rightarrow> (attestation_error, attestation_doc) outcome" where
  "sign_attestation cr nanos self nonce user_data =
     (let payload = mock_payload (attestation_now nanos) (mak_vk self) nonce user_data in
      case att_to_vec cr payload of
        Inl e \<Rightarrow> Err (PayloadParse e)
      | Inr raw \<Rightarrow> Ok \<lparr>atd_raw_payload = raw, atd_payload = payload, atd_signature = ed_sign (att_sign cr) (mak_sk self) raw\<rparr>)"

subsection \<open>Requests and responses (enclave.rs)\<close>

datatype enclave_error =
    MockNotAllowed
  | EnclaveNotEnoughShares u8 nat
  | EnclaveInconsistentShares string
  | EnclaveSss share_error
  | EnclaveDerivation derivation_error
  | EnclaveSigner signer_error
  | EnclaveAttestation attestation_error
  | SchemeNotImplemented string
  | InvalidRequest string
  | HybridVerification hybrid_verify_error
  | EnclaveNotImplemented string

record signing_context =
  ctx_chain_id :: "u64 option"
  ctx_vm_type :: "string option"
  ctx_extra :: json

record enclave_sign_request =
  esr_request_id :: request_id
  esr_wallet_id :: wallet_id
  esr_shares :: "shamir_share list"
  esr_scheme :: signing_scheme
  esr_hd_path :: "hd_path option"
  esr_message :: bytes
  esr_hash_alg :: hash_alg
  esr_context :: signing_context
  esr_policy_decision :: "signed_policy_decision option"
  esr_approvals :: "enclave_approval list"
  esr_wallet_ceilings :: "wallet_ceilings option"
  esr_policy_signing_payload :: "signing_payload option"

record enclave_sign_response =
  resp_signature :: bytes
  resp_public_key :: bytes
  resp_attestation :: attestation_doc

record generate_wallet_request =
  gen_wallet_id :: wallet_id
  gen_scheme :: signing_scheme
  gen_threshold :: u8
  gen_total :: u8
  gen_master_hd_path :: "hd_path option"

record generate_wallet_response =
  gresp_shares :: "shamir_share list"
  gresp_master_public_key :: bytes
  gresp_attestation :: attestation_doc

subsection \<open>The in-process enclave (mock.rs)\<close>

record mock_enclave =
  mock_attestation_key :: mock_attestation_key
  mock_policy_service_pubkey :: "bytes option"
  mock_require_signed_decision :: bool

text \<open>The crates of one enclave; \<open>en_context\<close> is the JSON form of a signing context.\<close>

record ('x, 'sc, 'r) enclave_crates =
  en_hybrid :: hybrid_crates
  en_att :: att_crates
  en_hd :: "'x hd_crates"
  en_sss :: "('sc, 'r) sss_crates"
  en_context :: "signing_context \<Rightarrow> string + bytes"

abbreviation en_sign :: "('x, 'sc, 'r) enclave_crates \<Rightarrow> sign_crates" where
  "en_sign cr \<equiv> hv_sign (en_hybrid cr)"

definition MOCK_ENABLE_VALUE :: string where
  "MOCK_ENABLE_VALUE = ''yes-i-know''"

definition env_gate_open :: "string option \<Rightarrow> bool" where
  "env_gate_open env_value \<longleftrightarrow> env_value = Some MOCK_ENABLE_VALUE"

definition mock_new_with_seed :: "att_crates \<Rightarrow> bytes \<Rightarrow> mock_enclave" where
  "mock_new_with_seed cr seed =
     \<lparr>mock_attestation_key = attestation_key_from_seed cr seed, mock_policy_service_pubkey = None, mock_require_signed_decision = False\<rparr>"

definition mock_enclave_new :: "att_crates \<Rightarrow> string option \<Rightarrow> bytes \<Rightarrow> (enclave_error, mock_enclave) outcome" where
  "mock_enclave_new cr env seed = (if env_gate_open env then Ok (mock_new_with_seed cr seed) else Err MockNotAllowed)"

definition with_policy_service_pubkey :: "mock_enclave \<Rightarrow> bytes \<Rightarrow> mock_enclave" where
  "with_policy_service_pubkey self pubkey = self\<lparr>mock_policy_service_pubkey := Some pubkey\<rparr>"

definition mock_with_require_signed_decision :: "mock_enclave \<Rightarrow> bool \<Rightarrow> mock_enclave" where
  "mock_with_require_signed_decision self require = self\<lparr>mock_require_signed_decision := require\<rparr>"

definition attestation_public_key :: "mock_enclave \<Rightarrow> bytes" where
  "attestation_public_key self = mak_vk (mock_attestation_key self)"

definition check_share_params :: "shamir_share list \<Rightarrow> (enclave_error, shamir_params) outcome" where
  "check_share_params shares =
     (case shares of
        [] \<Rightarrow> Err (EnclaveNotEnoughShares 1 0)
      | first # _ \<Rightarrow>
          let params = ss_params first in
          obind (fail_if (length shares < unat (sp_threshold params)) (EnclaveNotEnoughShares (sp_threshold params) (length shares))) (\<lambda>_.
          obind (fail_if (\<exists>s \<in> set shares. ss_params s \<noteq> params) (EnclaveInconsistentShares ''parameters mismatch'')) (\<lambda>_.
          obind (fail_if (length (remdups_adj (sort (map ss_index shares))) \<noteq> length shares)
            (EnclaveInconsistentShares ''duplicate share indices'')) (\<lambda>_.
          Ok params))))"

definition ML_DSA_SEED_BYTES :: nat where "ML_DSA_SEED_BYTES = 32"

definition derive_signing_key :: "'x hd_crates \<Rightarrow> signing_scheme \<Rightarrow> secret_bytes \<Rightarrow> hd_path option \<Rightarrow> (enclave_error, secret_bytes) outcome" where
  "derive_signing_key hc scheme seed hd_path =
     (if is_classical scheme then
        (case hd_path of
           None \<Rightarrow>
             obind (fail_if (secret_len seed < 32) (InvalidRequest ''seed too short for classical scheme'')) (\<lambda>_.
             Ok (SecretBytes (take 32 (expose seed))))
         | Some path \<Rightarrow> obind (map_err EnclaveDerivation (derive_classical hc scheme seed path)) (\<lambda>d. Ok (cd_secret d)))
      else
        obind (fail_if (hd_path \<noteq> None) (EnclaveDerivation (SchemeNotHd ''ml_dsa''))) (\<lambda>_.
        obind (fail_if (secret_len seed < ML_DSA_SEED_BYTES) (InvalidRequest ''seed too short for ML-DSA (need 32 bytes)'')) (\<lambda>_.
        Ok (SecretBytes (take ML_DSA_SEED_BYTES (expose seed))))))"

definition mock_attest :: "att_crates \<Rightarrow> int \<Rightarrow> mock_enclave \<Rightarrow> bytes \<Rightarrow> (enclave_error, attestation_doc) outcome" where
  "mock_attest cr nanos self nonce = map_err EnclaveAttestation (sign_attestation cr nanos (mock_attestation_key self) nonce [])"

definition verifier_request :: "i64 \<Rightarrow> enclave_sign_request \<Rightarrow> signing_request" where
  "verifier_request received req =
     \<lparr>sr_request_id = esr_request_id req, sr_wallet_id = esr_wallet_id req, sr_requester = ApiKey ''mock-enclave'',
      sr_payload = (case esr_policy_signing_payload req of Some p \<Rightarrow> p | None \<Rightarrow> Raw (esr_message req)),
      sr_hd_path = esr_hd_path req, sr_received_at_unix_ms = received\<rparr>"

definition request_ceilings :: "enclave_sign_request \<Rightarrow> wallet_ceilings" where
  "request_ceilings req =
     (case esr_wallet_ceilings req of
        Some w \<Rightarrow> w
      | None \<Rightarrow> \<lparr>wc_wallet_id = esr_wallet_id req, wc_max_value_per_tx = None, wc_contract_allowlist = [], wc_chain_allowlist = []\<rparr>)"

text \<open>Step 0 of \<open>sign_in_enclave\<close>: the policy check of an enclave with a pinned key.\<close>

definition mock_verify :: "hybrid_crates \<Rightarrow> mock_enclave \<Rightarrow> int \<Rightarrow> int \<Rightarrow> enclave_sign_request \<Rightarrow> (enclave_error, unit) outcome" where
  "mock_verify cr self received_nanos now_nanos req =
     (case mock_policy_service_pubkey self of
        None \<Rightarrow> Ok ()
      | Some pubkey \<Rightarrow>
          map_err HybridVerification
            (hybrid_verify cr (with_require_signed_decision (hybrid_new pubkey) (mock_require_signed_decision self))
               (esr_policy_decision req) (esr_approvals req) (verifier_request (attestation_now received_nanos) req) (request_ceilings req)
               (attestation_now now_nanos)))"

definition sign_user_data :: "('x, 'sc, 'r) enclave_crates \<Rightarrow> enclave_sign_request \<Rightarrow> bytes \<Rightarrow> bytes \<Rightarrow> bytes" where
  "sign_user_data cr req signature ctx =
     as_bytes (hv_ulid (en_hybrid cr) (request_ulid (esr_request_id req))) @ as_bytes ''|'' @
     as_bytes (hv_ulid (en_hybrid cr) (wallet_ulid (esr_wallet_id req))) @ as_bytes ''|'' @
     sha256 (en_sign cr) (esr_message req) @ as_bytes ''|'' @ sha256 (en_sign cr) signature @ as_bytes ''|'' @
     (case esr_hd_path req of Some p \<Rightarrow> as_bytes (hd_path_to_string p) | None \<Rightarrow> []) @ as_bytes ''|'' @ ctx"

text \<open>Steps 1 to 5.\<close>

definition sign_with_shares :: "('x, 'sc, 'r) enclave_crates \<Rightarrow> mock_enclave \<Rightarrow> int \<Rightarrow> bytes \<Rightarrow> enclave_sign_request \<Rightarrow>
   (enclave_error, enclave_sign_response) outcome" where
  "sign_with_shares cr self att_nanos nonce req =
     obind (check_share_params (esr_shares req)) (\<lambda>_.
     obind (map_err EnclaveSss (combine_shares (en_sss cr) (esr_shares req))) (\<lambda>combined.
     obind (derive_signing_key (en_hd cr) (esr_scheme req) (SecretBytes combined) (esr_hd_path req)) (\<lambda>signing_key.
     obind (map_err EnclaveSigner (signer_for_scheme (en_sign cr) (esr_scheme req))) (\<lambda>signer.
     obind (map_err EnclaveSigner (sg_public_key signer signing_key)) (\<lambda>pubkey.
     obind (map_err EnclaveSigner (sg_sign signer signing_key (esr_message req) (esr_hash_alg req))) (\<lambda>signature.
     case en_context cr (esr_context req) of
       Inl e \<Rightarrow> Err (EnclaveAttestation (PayloadParse e))
     | Inr ctx \<Rightarrow>
         obind (map_err EnclaveAttestation (sign_attestation (en_att cr) att_nanos (mock_attestation_key self) nonce
           (sign_user_data cr req signature ctx))) (\<lambda>attestation.
         Ok \<lparr>resp_signature = signature, resp_public_key = pubkey, resp_attestation = attestation\<rparr>)))))))"

definition sign_in_enclave :: "('x, 'sc, 'r) enclave_crates \<Rightarrow> mock_enclave \<Rightarrow> int \<Rightarrow> int \<Rightarrow> int \<Rightarrow> bytes \<Rightarrow> enclave_sign_request \<Rightarrow>
   (enclave_error, enclave_sign_response) outcome" where
  "sign_in_enclave cr self received_nanos now_nanos att_nanos nonce req =
     obind (mock_verify (en_hybrid cr) self received_nanos now_nanos req) (\<lambda>_.
     sign_with_shares cr self att_nanos nonce req)"

text \<open>\<open>generate_wallet\<close>; \<open>entropy\<close> is what the random generator fills the seed with.\<close>

definition generate_wallet :: "('x, 'sc, 'r) enclave_crates \<Rightarrow> mock_enclave \<Rightarrow> (nat \<Rightarrow> u8) \<Rightarrow> (nat \<Rightarrow> 'r) \<Rightarrow> int \<Rightarrow> bytes \<Rightarrow>
   generate_wallet_request \<Rightarrow> (enclave_error, generate_wallet_response) outcome" where
  "generate_wallet cr self entropy rng att_nanos nonce req =
     obind (fail_if (gen_threshold req < 2 \<or> gen_threshold req > gen_total req)
       (InvalidRequest ''invalid (threshold, total) - need 2 <= threshold <= total'')) (\<lambda>_.
     obind (fail_if (is_post_quantum (gen_scheme req) \<and> gen_master_hd_path req \<noteq> None) (EnclaveDerivation (SchemeNotHd ''ml_dsa''))) (\<lambda>_.
     let seed_len = (if is_post_quantum (gen_scheme req) then ML_DSA_SEED_BYTES else 64);
         seed = SecretBytes (map entropy [0..<seed_len]) in
     obind (derive_signing_key (en_hd cr) (gen_scheme req) seed (gen_master_hd_path req)) (\<lambda>signing_key.
     obind (map_err EnclaveSigner (signer_for_scheme (en_sign cr) (gen_scheme req))) (\<lambda>signer.
     obind (map_err EnclaveSigner (sg_public_key signer signing_key)) (\<lambda>pubkey.
     obind (map_err EnclaveSss (split_secret (en_sss cr) rng (expose seed) \<lparr>sp_threshold = gen_threshold req, sp_total = gen_total req\<rparr>)) (\<lambda>shares.
     let user_data = as_bytes (hv_ulid (en_hybrid cr) (wallet_ulid (gen_wallet_id req))) @ as_bytes ''|'' @
           sha256 (en_sign cr) pubkey @ as_bytes ''|'' @ map ss_index shares in
     obind (map_err EnclaveAttestation (sign_attestation (en_att cr) att_nanos (mock_attestation_key self) nonce user_data)) (\<lambda>attestation.
     Ok \<lparr>gresp_shares = shares, gresp_master_public_key = pubkey, gresp_attestation = attestation\<rparr>)))))))"

subsection \<open>Attestations verify\<close>

definition att_laws :: "att_crates \<Rightarrow> bool" where
  "att_laws cr \<longleftrightarrow> ed_laws (att_sign cr) \<and> 
     (\<forall>t vk nonce ud. \<exists>raw. att_to_vec cr (mock_payload t vk nonce ud) = Inr raw \<and> att_from_slice cr raw = Inr (mock_payload t vk nonce ud))"

definition attestation_key_ok :: "att_crates \<Rightarrow> mock_attestation_key \<Rightarrow> bool" where
  "attestation_key_ok cr k \<longleftrightarrow> length (mak_sk k) = 32 \<and> mak_vk k = ed_public (att_sign cr) (mak_sk k)"

lemma sign_attestation_verifies:
  assumes "att_laws cr" "attestation_key_ok cr k"
  shows "\<exists>doc. sign_attestation cr nanos k nonce ud = Ok doc \<and> attestation_verify cr doc = Ok () \<and>
    atp_user_data (atd_payload doc) = ud \<and> atp_nonce (atd_payload doc) = nonce \<and>
    atp_attestation_public_key (atd_payload doc) = mak_vk k"
proof -
  let ?p = "mock_payload (attestation_now nanos) (mak_vk k) nonce ud"
  obtain raw where "att_to_vec cr ?p = Inr raw" "att_from_slice cr raw = Inr ?p" using assms(1) unfolding att_laws_def by blast
  moreover have "ed_laws (att_sign cr)" using assms(1) by (simp add: att_laws_def)
  moreover have "atp_user_data ?p = ud" "atp_nonce ?p = nonce" "atp_attestation_public_key ?p = mak_vk k" by (simp_all add: mock_payload_def)
  ultimately show ?thesis
    using assms(2)
    by (simp add: sign_attestation_def attestation_verify_def Let_def attestation_key_ok_def ed_laws_def fail_if_simps)
qed

subsection \<open>Signing with shares\<close>

definition enclave_laws :: "('x, 'sc, 'r) enclave_crates \<Rightarrow> bool" where
  "enclave_laws cr \<longleftrightarrow> sign_laws (en_sign cr) \<and> sss_spec (en_sss cr) \<and> att_laws (en_att cr) \<and> (\<forall>c. \<exists>b. en_context cr c = Inr b)"

lemma check_share_params_Ok:
  "check_share_params shares = Ok params \<longleftrightarrow> shares \<noteq> [] \<and> params = ss_params (hd shares) \<and> unat (sp_threshold params) \<le> length shares \<and>
     (\<forall>s \<in> set shares. ss_params s = params) \<and> distinct (map ss_index shares)"
proof (cases "shares = []")
  case False
  have "length (remdups_adj (sort (map ss_index shares))) = length shares \<longleftrightarrow> distinct (map ss_index shares)"
    using length_remdups_adj_sort [of "map ss_index shares"] by simp
  with False show ?thesis
    unfolding check_share_params_def list.case_eq_if Let_def by (simp add: outcome_simps not_less) blast
qed (simp add: check_share_params_def)

lemma sign_total_secret:
  assumes "enclave_laws cr" "check_share_params (esr_shares req) = Ok params" "combine_shares (en_sss cr) (esr_shares req) = Ok seed"
    and "derive_signing_key (en_hd cr) (esr_scheme req) (SecretBytes seed) (esr_hd_path req) = Ok key"
    and "valid_secret (en_sign cr) (esr_scheme req) key" "supports_hash (esr_scheme req) (esr_hash_alg req)"
    and "attestation_key_ok (en_att cr) (mock_attestation_key self)"
  shows "\<exists>resp. sign_with_shares cr self att_nanos nonce req = Ok resp \<and>
    sg_public_key (signer_of (en_sign cr) (esr_scheme req)) key = Ok (resp_public_key resp) \<and>
    sg_verify (signer_of (en_sign cr) (esr_scheme req)) (resp_public_key resp) (esr_message req) (resp_signature resp) (esr_hash_alg req) = Ok () \<and>
    attestation_verify (en_att cr) (resp_attestation resp) = Ok ()"
proof -
  have laws: "sign_laws (en_sign cr)" "att_laws (en_att cr)" using assms(1) by (simp_all add: enclave_laws_def)
  obtain pk sig where s: "sg_public_key (signer_of (en_sign cr) (esr_scheme req)) key = Ok pk"
    "sg_sign (signer_of (en_sign cr) (esr_scheme req)) key (esr_message req) (esr_hash_alg req) = Ok sig"
    "sg_verify (signer_of (en_sign cr) (esr_scheme req)) pk (esr_message req) sig (esr_hash_alg req) = Ok ()"
    using signing_contract.signs [OF signer_contract [OF laws(1)] assms(5,6)] by blast
  obtain ctx where c: "en_context cr (esr_context req) = Inr ctx" using assms(1) by (auto simp: enclave_laws_def)
  obtain doc where d: "sign_attestation (en_att cr) att_nanos (mock_attestation_key self) nonce (sign_user_data cr req sig ctx) = Ok doc"
    "attestation_verify (en_att cr) doc = Ok ()"
    using sign_attestation_verifies [OF laws(2) assms(7)] by blast
  show ?thesis
    by (simp add: sign_with_shares_def assms(2-4) signer_for_scheme_def s c d)
qed

lemma sign_with_shares_Ok:
  assumes "sign_with_shares cr self att_nanos nonce req = Ok resp"
  shows "\<exists>params seed key. check_share_params (esr_shares req) = Ok params \<and> combine_shares (en_sss cr) (esr_shares req) = Ok seed \<and>
    derive_signing_key (en_hd cr) (esr_scheme req) (SecretBytes seed) (esr_hd_path req) = Ok key \<and>
    sg_sign (signer_of (en_sign cr) (esr_scheme req)) key (esr_message req) (esr_hash_alg req) = Ok (resp_signature resp) \<and>
    sg_public_key (signer_of (en_sign cr) (esr_scheme req)) key = Ok (resp_public_key resp)"
  using assms by (cases "en_context cr (esr_context req)") (auto simp: sign_with_shares_def outcome_simps signer_for_scheme_def)

lemma generate_wallet_Ok:
  assumes "generate_wallet cr self ent rng att_nanos nonce g = Ok r" "sss_spec (en_sss cr)"
  shows "\<exists>seed key. derive_signing_key (en_hd cr) (gen_scheme g) (SecretBytes seed) (gen_master_hd_path g) = Ok key \<and>
    sg_public_key (signer_of (en_sign cr) (gen_scheme g)) key = Ok (gresp_master_public_key r) \<and>
    (\<forall>s \<in> set (gresp_shares r). ss_params s = \<lparr>sp_threshold = gen_threshold g, sp_total = gen_total g\<rparr>) \<and>
    map (unat \<circ> ss_index) (gresp_shares r) = [1..<unat (gen_total g) + 1] \<and>
    (\<forall>sub. set sub \<subseteq> set (gresp_shares r) \<and> distinct (map ss_index sub) \<and> unat (gen_threshold g) \<le> length sub \<longrightarrow>
      combine_shares (en_sss cr) sub = Ok seed)"
proof -
  define seed where "seed = map ent [0..<if is_post_quantum (gen_scheme g) then ML_DSA_SEED_BYTES else 64]"
  let ?ps = "\<lparr>sp_threshold = gen_threshold g, sp_total = gen_total g\<rparr>"
  from assms(1) obtain key where key: "derive_signing_key (en_hd cr) (gen_scheme g) (SecretBytes seed) (gen_master_hd_path g) = Ok key"
      "sg_public_key (signer_of (en_sign cr) (gen_scheme g)) key = Ok (gresp_master_public_key r)"
    and split: "split_secret (en_sss cr) rng seed ?ps = Ok (gresp_shares r)"
    unfolding generate_wallet_def Let_def seed_def [symmetric] by (auto simp: outcome_simps signer_for_scheme_def)
  have v: "shamir_validate ?ps = Ok ()" using split by (auto simp: split_secret_def outcome_simps)
  have seed: "seed \<noteq> []" "length seed < 2 ^ 32" by (simp_all add: seed_def ML_DSA_SEED_BYTES_def)
  show ?thesis
    using split_secret_combines [OF assms(2) v seed, of rng] key split by auto
qed

lemma wallet_shares_sign:
  assumes "enclave_laws cr" "attestation_key_ok (en_att cr) (mock_attestation_key self)"
    and "generate_wallet cr self entropy rng t n g = Ok r"
    and "set (esr_shares req) \<subseteq> set (gresp_shares r)" "distinct (map ss_index (esr_shares req))" "unat (gen_threshold g) \<le> length (esr_shares req)"
    and "esr_scheme req = gen_scheme g" "esr_hd_path req = gen_master_hd_path g" "supports_hash (gen_scheme g) (esr_hash_alg req)"
    and "mock_verify (en_hybrid cr) self t1 t2 req = Ok ()"
  shows "\<exists>resp. sign_in_enclave cr self t1 t2 t3 nonce req = Ok resp \<and> resp_public_key resp = gresp_master_public_key r \<and>
    sg_verify (signer_of (en_sign cr) (gen_scheme g)) (gresp_master_public_key r) (esr_message req) (resp_signature resp) (esr_hash_alg req) = Ok () \<and>
    attestation_verify (en_att cr) (resp_attestation resp) = Ok ()"
proof -
  have laws: "sign_laws (en_sign cr)" "sss_spec (en_sss cr)" using assms(1) by (simp_all add: enclave_laws_def)
  from generate_wallet_Ok [OF assms(3) laws(2)] obtain seed key where
    key: "derive_signing_key (en_hd cr) (gen_scheme g) (SecretBytes seed) (gen_master_hd_path g) = Ok key"
      "sg_public_key (signer_of (en_sign cr) (gen_scheme g)) key = Ok (gresp_master_public_key r)"
    and params: "\<forall>s \<in> set (gresp_shares r). ss_params s = \<lparr>sp_threshold = gen_threshold g, sp_total = gen_total g\<rparr>"
    and comb: "combine_shares (en_sss cr) (esr_shares req) = Ok seed"
    using assms(4-6) by blast
  have "2 \<le> unat (gen_threshold g)"
    using assms(3) by (auto simp: generate_wallet_def outcome_simps word_less_nat_alt not_less)
  with assms(6) have ne: "esr_shares req \<noteq> []" by auto
  then have "ss_params (hd (esr_shares req)) = \<lparr>sp_threshold = gen_threshold g, sp_total = gen_total g\<rparr>"
    using params assms(4) hd_in_set by blast
  then have chk: "check_share_params (esr_shares req) = Ok (ss_params (hd (esr_shares req)))"
    using ne params assms(4-6) by (auto simp: check_share_params_Ok)
  have valid: "valid_secret (en_sign cr) (esr_scheme req) key"
    using signing_contract.key_only_valid [OF signer_contract [OF laws(1)] key(2)] assms(7) by simp
  obtain resp where "sign_with_shares cr self t3 nonce req = Ok resp"
    "sg_public_key (signer_of (en_sign cr) (gen_scheme g)) key = Ok (resp_public_key resp)"
    "sg_verify (signer_of (en_sign cr) (gen_scheme g)) (resp_public_key resp) (esr_message req) (resp_signature resp) (esr_hash_alg req) = Ok ()"
    "attestation_verify (en_att cr) (resp_attestation resp) = Ok ()"
    using sign_total_secret [OF assms(1) chk comb _ valid _ assms(2), of t3 nonce] key(1) assms(7-9) by auto
  with key(2) assms(10) show ?thesis by (auto simp: sign_in_enclave_def)
qed


subsection \<open>An executable enclave\<close>

text \<open>Lengths in unary, then the bytes.\<close>

definition ref_frame :: "bytes \<Rightarrow> bytes" where
  "ref_frame b = replicate (length b) 1 @ 0 # b"

definition ref_unframe :: "bytes \<Rightarrow> bytes \<times> bytes" where
  "ref_unframe xs = (let n = length (takeWhile (\<lambda>x. x = 1) xs); r = drop (n + 1) xs in (take n r, drop n r))"

lemma ref_unframe_frame [simp]: "ref_unframe (ref_frame b @ rest) = (b, rest)"
proof -
  have "takeWhile (\<lambda>x. x = 1) (replicate n (1 :: u8) @ 0 # ys) = replicate n 1" for n ys by (induction n) simp_all
  then show ?thesis by (simp add: ref_unframe_def ref_frame_def)
qed

definition ref_att_to_vec :: "attestation_payload \<Rightarrow> string + bytes" where
  "ref_att_to_vec p = Inr (of_bool (atp_timestamp_unix_ms p < 0) # ref_frame (replicate (nat \<bar>atp_timestamp_unix_ms p\<bar>) 0) @
     ref_frame (atp_nonce p) @ ref_frame (atp_attestation_public_key p) @ atp_user_data p)"

definition ref_att_from_slice :: "bytes \<Rightarrow> string + attestation_payload" where
  "ref_att_from_slice b =
     (if b = [] then Inl ''EOF while parsing a value''
      else let (t, r1) = ref_unframe (tl b); (nonce, r2) = ref_unframe r1; (vk, ud) = ref_unframe r2 in
        Inr (mock_payload (if hd b = 0 then int (length t) else - int (length t)) vk nonce ud))"

definition ref_att_crates :: att_crates where
  "ref_att_crates = \<lparr>att_sign = ref_sign_crates, att_to_vec = ref_att_to_vec, att_from_slice = ref_att_from_slice\<rparr>"

definition ref_enclave_crates :: "(unit, u256, unit) enclave_crates" where
  "ref_enclave_crates = \<lparr>en_hybrid = ref_hybrid_crates, en_att = ref_att_crates, en_hd = ref_hd, en_sss = ref_sss, en_context = (\<lambda>_. Inr [])\<rparr>"

lemma ref_enclave_laws: "enclave_laws ref_enclave_crates"
proof -
  have "ref_att_from_slice (of_bool (t < 0) # ref_frame (replicate (nat \<bar>t\<bar>) 0) @ ref_frame nonce @ ref_frame vk @ ud) =
      Inr (mock_payload t vk nonce ud)" for t nonce vk ud
    by (simp add: ref_att_from_slice_def)
  then have "att_laws ref_att_crates"
    using ref_sign_laws by (simp add: att_laws_def ref_att_crates_def sign_laws_def ref_att_to_vec_def mock_payload_def)
  then show ?thesis
    using ref_sign_laws ref_sss_spec by (simp add: enclave_laws_def ref_enclave_crates_def ref_hybrid_crates_def)
qed

definition demo_enclave :: mock_enclave where
  "demo_enclave = mock_with_require_signed_decision (with_policy_service_pubkey (mock_new_with_seed ref_att_crates (replicate 32 5)) (replicate 32 7)) True"

definition demo_generate :: generate_wallet_request where
  "demo_generate = \<lparr>gen_wallet_id = WalletId 2, gen_scheme = Ed25519, gen_threshold = 2, gen_total = 3, gen_master_hd_path = None\<rparr>"

definition demo_sign :: "shamir_share list \<Rightarrow> enclave_sign_request" where
  "demo_sign shares = \<lparr>esr_request_id = RequestId 1, esr_wallet_id = WalletId 2, esr_shares = shares, esr_scheme = Ed25519, esr_hd_path = None,
     esr_message = [1, 2], esr_hash_alg = HashNone, esr_context = \<lparr>ctx_chain_id = None, ctx_vm_type = None, ctx_extra = JNull\<rparr>,
     esr_policy_decision = Some demo_signed_decision, esr_approvals = [], esr_wallet_ceilings = None, esr_policy_signing_payload = Some (Raw [1, 2])\<rparr>"

lemma demo_key_ok: "attestation_key_ok (en_att ref_enclave_crates) (mock_attestation_key demo_enclave)"
  by (simp add: attestation_key_ok_def demo_enclave_def mock_with_require_signed_decision_def with_policy_service_pubkey_def
      mock_new_with_seed_def attestation_key_from_seed_def ref_enclave_crates_def)

lemma demo_verifies: "mock_verify (en_hybrid ref_enclave_crates) demo_enclave 0 61999000000 (demo_sign shares) = Ok ()"
proof -
  have now: "attestation_now 61999000000 = 61999" by (simp add: attestation_now_def whole_units_def i64_ok_def Let_def)
  have "decision_authorises ref_hybrid_crates (replicate 32 7) demo_signed_decision [] (verifier_request 0 (demo_sign shares))
      (request_ceilings (demo_sign shares)) 61999"
    using demo_authorises
    by (simp add: decision_authorises_def demo_hybrid_request_def demo_ceilings_def verifier_request_def request_ceilings_def demo_sign_def
        decision_permits_def within_ceilings_def demo_signed_decision_def Let_def)
  moreover have "i64_ok (61999 :: int)" "i64_ok (spd_signed_at_unix_ms demo_signed_decision)"
    by (simp_all add: i64_ok_def demo_signed_decision_def Let_def)
  moreover have "attestation_now 0 = 0" by (simp add: attestation_now_def whole_units_def i64_ok_def Let_def)
  ultimately show ?thesis
    using hybrid_verify_Ok [of 61999 "Some demo_signed_decision" ref_hybrid_crates "replicate 32 7" "[]" "verifier_request 0 (demo_sign shares)"
        "request_ceilings (demo_sign shares)"]
    by (simp add: mock_verify_def demo_enclave_def mock_with_require_signed_decision_def with_policy_service_pubkey_def now
        ref_enclave_crates_def with_require_signed_decision_def hybrid_new_def demo_sign_def)
qed

lemma demo_generates: "\<exists>r. generate_wallet ref_enclave_crates demo_enclave (\<lambda>_. 7) (\<lambda>_. ()) 0 [] demo_generate = Ok r"
proof -
  let ?cr = ref_enclave_crates and ?seed = "map (\<lambda>_. 7 :: u8) [0..<64]" and ?ps = "\<lparr>sp_threshold = 2, sp_total = 3\<rparr>"
  have v: "shamir_validate ?ps = Ok ()" by (simp add: shamir_validate_Ok)
  obtain shares where shares: "split_secret (en_sss ?cr) (\<lambda>_. ()) ?seed ?ps = Ok shares"
    using split_secret_combines [OF ref_sss_spec v, of ?seed "\<lambda>_. ()"] by (auto simp: ref_enclave_crates_def)
  have att: "\<exists>doc. sign_attestation (en_att ?cr) 0 (mock_attestation_key demo_enclave) [] ud = Ok doc" for ud
    using sign_attestation_verifies [OF _ demo_key_ok, of 0 "[]" ud] ref_enclave_laws by (auto simp: enclave_laws_def)
  have "length (take 32 ?seed) = 32" by simp
  then obtain pk where pk: "sg_public_key (signer_of (en_sign ?cr) Ed25519) (SecretBytes (take 32 ?seed)) = Ok pk"
    by (simp add: signer_defs ref_enclave_crates_def ref_hybrid_crates_def ed25519_public_key_def ed_signing_key_def)
  obtain doc where "sign_attestation (en_att ?cr) 0 (mock_attestation_key demo_enclave) []
      (as_bytes (hv_ulid (en_hybrid ?cr) 2) @ as_bytes ''|'' @ sha256 (en_sign ?cr) pk @ as_bytes ''|'' @ map ss_index shares) = Ok doc"
    using att by blast
  moreover have "derive_signing_key (en_hd ?cr) Ed25519 (SecretBytes ?seed) None = Ok (SecretBytes (take 32 ?seed))"
    by (simp add: derive_signing_key_def is_classical_def secret_len_def fail_if_simps)
  ultimately show ?thesis
    using shares pk
    by (simp add: generate_wallet_def demo_generate_def is_post_quantum_def is_classical_def signer_for_scheme_def fail_if_simps Let_def)
qed

lemma demo_signs:
  assumes "generate_wallet ref_enclave_crates demo_enclave (\<lambda>_. 7) (\<lambda>_. ()) 0 [] demo_generate = Ok r"
  shows "set (esr_shares (demo_sign (gresp_shares r))) \<subseteq> set (gresp_shares r)" "distinct (map ss_index (esr_shares (demo_sign (gresp_shares r))))"
    "unat (gen_threshold demo_generate) \<le> length (esr_shares (demo_sign (gresp_shares r)))"
proof -
  have idx: "map (unat \<circ> ss_index) (gresp_shares r) = [1..<4]"
    using generate_wallet_Ok [OF assms] ref_sss_spec by (auto simp: demo_generate_def ref_enclave_crates_def)
  then have "distinct (map (unat \<circ> ss_index) (gresp_shares r))" by simp
  moreover from arg_cong [OF idx, of length] have "length (gresp_shares r) = 3" by simp
  ultimately show "set (esr_shares (demo_sign (gresp_shares r))) \<subseteq> set (gresp_shares r)" "distinct (map ss_index (esr_shares (demo_sign (gresp_shares r))))"
    "unat (gen_threshold demo_generate) \<le> length (esr_shares (demo_sign (gresp_shares r)))"
    by (auto simp: demo_sign_def demo_generate_def distinct_map inj_on_def)
qed

lemma demo_response: "\<exists>(r :: generate_wallet_response) resp. sign_in_enclave ref_enclave_crates demo_enclave 0 61999000000 0 [] (demo_sign (gresp_shares r)) = Ok resp"
proof -
  obtain r where r: "generate_wallet ref_enclave_crates demo_enclave (\<lambda>_. 7) (\<lambda>_. ()) 0 [] demo_generate = Ok r" using demo_generates by blast
  have "\<exists>resp. sign_in_enclave ref_enclave_crates demo_enclave 0 61999000000 0 [] (demo_sign (gresp_shares r)) = Ok resp \<and>
      resp_public_key resp = gresp_master_public_key r \<and>
      sg_verify (signer_of (en_sign ref_enclave_crates) (gen_scheme demo_generate)) (gresp_master_public_key r)
        (esr_message (demo_sign (gresp_shares r))) (resp_signature resp) (esr_hash_alg (demo_sign (gresp_shares r))) = Ok () \<and>
      attestation_verify (en_att ref_enclave_crates) (resp_attestation resp) = Ok ()"
    by (rule wallet_shares_sign [OF ref_enclave_laws demo_key_ok r demo_signs [OF r] _ _ _ demo_verifies])
      (simp_all add: demo_sign_def demo_generate_def supports_hash_def is_secp_def)
  then show ?thesis by blast
qed

subsection \<open>Properties\<close>

text \<open>C18. A generated wallet can sign: any threshold-many of its shares, in any order, given back with the path of its
  reported key in a request that the enclave's policy check accepts and that names a hash the wallet's scheme supports,
  make the enclave return a signature that verifies under the public key it reported
  at creation, with an attestation that verifies.\<close>

theorem generated_wallet_signs:
  assumes "enclave_laws cr" "attestation_key_ok (en_att cr) (mock_attestation_key self)"
    and "generate_wallet cr self entropy rng t n g = Ok r"
    and "set (esr_shares req) \<subseteq> set (gresp_shares r)" "distinct (map ss_index (esr_shares req))" "unat (gen_threshold g) \<le> length (esr_shares req)"
    and "esr_scheme req = gen_scheme g" "esr_hd_path req = gen_master_hd_path g" "supports_hash (gen_scheme g) (esr_hash_alg req)"
    and "mock_verify (en_hybrid cr) self t1 t2 req = Ok ()"
  shows "\<exists>resp. sign_in_enclave cr self t1 t2 t3 nonce req = Ok resp \<and> resp_public_key resp = gresp_master_public_key r \<and>
    sg_verify (signer_of (en_sign cr) (gen_scheme g)) (gresp_master_public_key r) (esr_message req) (resp_signature resp) (esr_hash_alg req) = Ok () \<and>
    attestation_verify (en_att cr) (resp_attestation resp) = Ok ()"
  using assms by (rule wallet_shares_sign)

theorem generated_wallet_signs_witness:
  "\<exists>r resp. generate_wallet ref_enclave_crates demo_enclave (\<lambda>_. 7) (\<lambda>_. ()) 0 [] demo_generate = Ok r \<and>
     sign_in_enclave ref_enclave_crates demo_enclave 0 61999000000 0 [] (demo_sign (gresp_shares r)) = Ok resp \<and>
     resp_public_key resp = gresp_master_public_key r"
proof -
  obtain r where r: "generate_wallet ref_enclave_crates demo_enclave (\<lambda>_. 7) (\<lambda>_. ()) 0 [] demo_generate = Ok r" using demo_generates by blast
  have "\<exists>resp. sign_in_enclave ref_enclave_crates demo_enclave 0 61999000000 0 [] (demo_sign (gresp_shares r)) = Ok resp \<and>
      resp_public_key resp = gresp_master_public_key r \<and>
      sg_verify (signer_of (en_sign ref_enclave_crates) (gen_scheme demo_generate)) (gresp_master_public_key r)
        (esr_message (demo_sign (gresp_shares r))) (resp_signature resp) (esr_hash_alg (demo_sign (gresp_shares r))) = Ok () \<and>
      attestation_verify (en_att ref_enclave_crates) (resp_attestation resp) = Ok ()"
    by (rule generated_wallet_signs [OF ref_enclave_laws demo_key_ok r demo_signs [OF r] _ _ _ demo_verifies])
      (simp_all add: demo_sign_def demo_generate_def supports_hash_def is_secp_def)
  with r show ?thesis by blast
qed

text \<open>C8. An enclave with a pinned policy key that requires signed decisions signs only what was authorised: a response
  implies that the decision it was given passed every check of the hybrid verifier for this request and wallet.\<close>

theorem enclave_signs_only_authorised:
  assumes "sign_in_enclave cr self t1 t2 t3 nonce req = Ok resp"
    and "mock_policy_service_pubkey self = Some pk" "mock_require_signed_decision self"
    and "\<forall>sd. esr_policy_decision req = Some sd \<longrightarrow> i64_ok (spd_signed_at_unix_ms sd)"
  shows "\<exists>sd. esr_policy_decision req = Some sd \<and>
    decision_authorises (en_hybrid cr) pk sd (esr_approvals req) (verifier_request (attestation_now t1) req) (request_ceilings req) (attestation_now t2)"
proof -
  have now: "i64_ok (attestation_now t2)" by (auto simp: attestation_now_def Let_def i64_ok_def)
  have h: "with_require_signed_decision (hybrid_new pk) True = hybrid_new pk" by (simp add: with_require_signed_decision_def hybrid_new_def)
  have "hybrid_verify (en_hybrid cr) (hybrid_new pk) (esr_policy_decision req) (esr_approvals req)
      (verifier_request (attestation_now t1) req) (request_ceilings req) (attestation_now t2) = Ok ()"
    using assms(1-3) h by (auto simp: sign_in_enclave_def mock_verify_def outcome_simps)
  then show ?thesis unfolding hybrid_verify_Ok [OF now assms(4)] by blast
qed

theorem enclave_signs_only_authorised_witness:
  "\<exists>(r :: generate_wallet_response) sd. esr_policy_decision (demo_sign (gresp_shares r)) = Some sd \<and>
     decision_authorises (en_hybrid ref_enclave_crates) (replicate 32 7) sd (esr_approvals (demo_sign (gresp_shares r)))
       (verifier_request (attestation_now 0) (demo_sign (gresp_shares r))) (request_ceilings (demo_sign (gresp_shares r))) (attestation_now 61999000000)"
proof -
  obtain r :: generate_wallet_response and resp where "sign_in_enclave ref_enclave_crates demo_enclave 0 61999000000 0 [] (demo_sign (gresp_shares r)) = Ok resp"
    using demo_response by blast
  from enclave_signs_only_authorised [OF this, of "replicate 32 7"] show ?thesis
    by (auto simp: demo_enclave_def mock_with_require_signed_decision_def with_policy_service_pubkey_def demo_sign_def demo_signed_decision_def
        Let_def i64_ok_def)
qed

text \<open>C36. What the enclave verifies is not tied to what it signs: of an accepted request with a structured payload the message can be
  replaced by any other bytes, and the enclave signs those under the same decision.\<close>

theorem enclave_signs_any_message:
  assumes "enclave_laws cr" "attestation_key_ok (en_att cr) (mock_attestation_key self)"
    and "sign_in_enclave cr self t1 t2 t3 nonce req = Ok resp" "esr_policy_signing_payload req = Some payload"
  shows "\<exists>resp'. sign_in_enclave cr self t1 t2 t3 nonce (req\<lparr>esr_message := m\<rparr>) = Ok resp' \<and>
    resp_public_key resp' = resp_public_key resp \<and>
    sg_verify (signer_of (en_sign cr) (esr_scheme req)) (resp_public_key resp) m (resp_signature resp') (esr_hash_alg req) = Ok ()"
proof -
  let ?req = "req\<lparr>esr_message := m\<rparr>"
  have laws: "sign_laws (en_sign cr)" using assms(1) by (simp add: enclave_laws_def)
  have "verifier_request t ?req = verifier_request t req" for t using assms(4) by (simp add: verifier_request_def)
  moreover have "request_ceilings ?req = request_ceilings req" by (cases "esr_wallet_ceilings req") (simp_all add: request_ceilings_def)
  ultimately have "mock_verify (en_hybrid cr) self t1 t2 ?req = mock_verify (en_hybrid cr) self t1 t2 req"
    by (cases "mock_policy_service_pubkey self") (simp_all add: mock_verify_def)
  moreover from assms(3) have ok: "mock_verify (en_hybrid cr) self t1 t2 req = Ok ()" "sign_with_shares cr self t3 nonce req = Ok resp"
    by (auto simp: sign_in_enclave_def outcome_simps)
  ultimately have ver: "mock_verify (en_hybrid cr) self t1 t2 ?req = Ok ()" by simp
  from sign_with_shares_Ok [OF ok(2)] obtain params seed key where k: "check_share_params (esr_shares ?req) = Ok params"
    "combine_shares (en_sss cr) (esr_shares ?req) = Ok seed"
    "derive_signing_key (en_hd cr) (esr_scheme ?req) (SecretBytes seed) (esr_hd_path ?req) = Ok key"
    and sg: "sg_sign (signer_of (en_sign cr) (esr_scheme req)) key (esr_message req) (esr_hash_alg req) = Ok (resp_signature resp)"
      "sg_public_key (signer_of (en_sign cr) (esr_scheme req)) key = Ok (resp_public_key resp)" by auto
  have "valid_secret (en_sign cr) (esr_scheme ?req) key" "supports_hash (esr_scheme ?req) (esr_hash_alg ?req)"
    using signing_contract.only_valid [OF signer_contract [OF laws] sg(1)] by simp_all
  from sign_total_secret [OF assms(1) k this assms(2), of t3 nonce] sg(2) ver show ?thesis
    by (auto simp: sign_in_enclave_def)
qed

theorem enclave_signs_any_message_witness:
  "\<exists>(r :: generate_wallet_response) resp'. sign_in_enclave ref_enclave_crates demo_enclave 0 61999000000 0 [] ((demo_sign (gresp_shares r))\<lparr>esr_message := [9, 9]\<rparr>) = Ok resp'"
proof -
  obtain r :: generate_wallet_response and resp where "sign_in_enclave ref_enclave_crates demo_enclave 0 61999000000 0 [] (demo_sign (gresp_shares r)) = Ok resp"
    using demo_response by blast
  from enclave_signs_any_message [OF ref_enclave_laws demo_key_ok this, of "Raw [1, 2]" "[9, 9]"] show ?thesis
    by (auto simp: demo_sign_def)
qed

end
