(* ===== verification/Wallet_Service.thy ===== *)
theory Wallet_Service
  imports Procedures Mock_Enclave Audit_Log Share_Stores Static_Policy Approver_Registry Approval_Collection
begin

text \<open>
  The orchestrator \<open>WalletService\<close> of \<open>qfc-server-wallet\<close> (\<open>service.rs\<close>, \<open>wallet.rs\<close>).

  The service holds trait objects. They are the fields of \<open>backends\<close>: procedures on a world \<open>'w\<close>, the
  state of everything outside the service. Fresh identifiers and clock readings come from the world as
  well. The service's own state is the map of wallets. Metrics and tracing spans are left out, they are
  written and never read.
\<close>

subsection \<open>Wallet records (wallet.rs)\<close>

record wallet_config =
  cfg_display_name :: string
  cfg_owner_id :: owner_id
  cfg_scheme :: signing_scheme
  cfg_threshold :: u8
  cfg_total :: u8
  cfg_policy_id :: policy_id
  cfg_max_value_per_tx :: "u128 option"
  cfg_contract_allowlist :: "bytes list"
  cfg_chain_allowlist :: "u64 list"

datatype wallet_status = WalletActive | WalletFrozen | WalletStatusRevoked

record wallet_record =
  wr_wallet_id :: wallet_id
  wr_config :: wallet_config
  wr_master_public_key :: bytes
  wr_status :: wallet_status
  wr_created_at_unix_ms :: i64

subsection \<open>The service (service.rs)\<close>

datatype service_error =
    WalletNotFound wallet_id
  | PolicyDenied string
  | ServiceQuorum quorum_error
  | ServicePolicy policy_error
  | ServiceEnclave enclave_error
  | ServiceStore store_error
  | ServiceAudit audit_error
  | InsufficientShares string
  | ServiceInternal string

definition MAX_DECISION_AGE_SECS_DEFAULT :: u32 where
  "MAX_DECISION_AGE_SECS_DEFAULT = 60"

record 'w policy_service_signer =
  pss_sign_decision :: "policy_decision \<Rightarrow> request_id \<Rightarrow> wallet_id \<Rightarrow> u32 \<Rightarrow> ('w, policy_signer_error, signed_policy_decision) proc"
  pss_public_key :: bytes

record 'w backends =
  be_generate_wallet :: "generate_wallet_request \<Rightarrow> ('w, enclave_error, generate_wallet_response) proc"
  be_sign_in_enclave :: "enclave_sign_request \<Rightarrow> ('w, enclave_error, enclave_sign_response) proc"
  be_put :: "stored_share \<Rightarrow> ('w, store_error, unit) proc"
  be_get :: "share_id \<Rightarrow> ('w, store_error, stored_share) proc"
  be_list :: "wallet_id \<Rightarrow> ('w, store_error, share_id list) proc"
  be_evaluate :: "signing_request \<Rightarrow> ('w, policy_error, policy_decision) proc"
  be_request_approval :: "approval_request \<Rightarrow> ('w, quorum_error, unit) proc"
  be_collect_approvals :: "request_id \<Rightarrow> u8 \<Rightarrow> nat \<Rightarrow> ('w, quorum_error, signed_approval list) proc"
  be_emit :: "audit_event_draft \<Rightarrow> ('w, audit_error, audit_event) proc"
  be_get_approver :: "approver_id \<Rightarrow> ('w, registry_error, approver_record) proc"
  be_get_approver_set :: "approver_set_id \<Rightarrow> ('w, registry_error, approver_set) proc"
  be_record_approval :: "signed_approval \<Rightarrow> approver_id \<Rightarrow> ('w, approval_store_error, record_outcome) proc"
  be_ulid :: "'w \<Rightarrow> ulid \<times> 'w"
  be_clock :: "'w \<Rightarrow> int \<times> 'w"

record 'w wallet_service =
  ws_backends :: "'w backends"
  ws_quorum_timeout :: nat
  ws_policy_service_signer :: "'w policy_service_signer option"

record 'w service_state =
  ss_wallets :: "wallet_id \<rightharpoonup> wallet_record"
  ss_world :: 'w

text \<open>
  The crates the service uses itself: SHA-256, the text form of identifiers, JSON forms made by serde, and
  the display and debug texts of errors.
\<close>

record service_crates =
  sv_sign :: sign_crates
  sv_ulid :: "ulid \<Rightarrow> string"
  sv_scheme :: "signing_scheme \<Rightarrow> json"
  sv_decision :: "policy_decision \<Rightarrow> json"
  sv_typed :: "json \<Rightarrow> bytes option"
  sv_deny_debug :: "deny_reason \<Rightarrow> string"
  sv_enclave_text :: "enclave_error \<Rightarrow> string"
  sv_registry_text :: "registry_error \<Rightarrow> string"
  sv_signer_text :: "policy_signer_error \<Rightarrow> string"
  sv_store_text :: "approval_store_error \<Rightarrow> string"

text \<open>Construction; timeouts are in milliseconds.\<close>

definition service_new :: "'w backends \<Rightarrow> 'w wallet_service" where
  "service_new be = \<lparr>ws_backends = be, ws_quorum_timeout = 120000, ws_policy_service_signer = None\<rparr>"

definition with_policy_service_signer :: "'w wallet_service \<Rightarrow> 'w policy_service_signer \<Rightarrow> 'w wallet_service" where
  "with_policy_service_signer self signer = self\<lparr>ws_policy_service_signer := Some signer\<rparr>"

definition with_quorum_timeout :: "'w wallet_service \<Rightarrow> nat \<Rightarrow> 'w wallet_service" where
  "with_quorum_timeout self timeout = self\<lparr>ws_quorum_timeout := timeout\<rparr>"

definition on_world :: "('w, 'e, 'a) proc \<Rightarrow> ('w service_state, 'e, 'a) proc" where
  "on_world m s = map_option (\<lambda>(r, w). (r, s\<lparr>ss_world := w\<rparr>)) (m (ss_world s))"

definition fresh_ulid :: "'w wallet_service \<Rightarrow> ('w service_state, 'e, ulid) proc" where
  "fresh_ulid self = on_world (\<lambda>w. case be_ulid (ws_backends self) w of (u, w') \<Rightarrow> Some (Ok u, w'))"

definition service_unix_ms :: "'w wallet_service \<Rightarrow> ('w service_state, 'e, i64) proc" where
  "service_unix_ms self = on_world (\<lambda>w. case be_clock (ws_backends self) w of
     (nanos, w') \<Rightarrow> Some (Ok (let ms = whole_units 1000000 nanos in if i64_ok ms then ms else 2 ^ 63 - 1), w'))"

definition audit_emit :: "'w wallet_service \<Rightarrow> audit_event_draft \<Rightarrow> ('w service_state, service_error, audit_event) proc" where
  "audit_emit self draft = pmap_err ServiceAudit (on_world (be_emit (ws_backends self) draft))"

definition get_wallet :: "wallet_id \<Rightarrow> ('w service_state, service_error, wallet_record) proc" where
  "get_wallet wid s = Some (ok_or (ss_wallets s wid) (WalletNotFound wid), s)"

definition insert_wallet :: "wallet_record \<Rightarrow> ('w service_state, service_error, unit) proc" where
  "insert_wallet rec s = Some (Ok (), s\<lparr>ss_wallets := (ss_wallets s)(wr_wallet_id rec \<mapsto> rec)\<rparr>)"

definition store_share :: "'w wallet_service \<Rightarrow> wallet_id \<Rightarrow> i64 \<Rightarrow> shamir_share \<Rightarrow> ('w service_state, service_error, unit) proc" where
  "store_share self wid now sh = pmap_err ServiceStore (on_world (be_put (ws_backends self)
     \<lparr>sto_share_id = \<lparr>sid_wallet_id = wid, sid_index = ss_index sh\<rparr>, sto_created_at_unix_ms = now, sto_share = sh\<rparr>))"

definition created_event :: "service_crates \<Rightarrow> actor \<Rightarrow> wallet_id \<Rightarrow> wallet_config \<Rightarrow> generate_wallet_response \<Rightarrow> audit_event_draft" where
  "created_event cr owner wid config gen =
     \<lparr>dr_actor = owner, dr_kind = WalletCreated, dr_request_id = None, dr_wallet_id = Some wid,
      dr_details = JObj
        [(''scheme'', sv_scheme cr (cfg_scheme config)),
         (''threshold'', JNum (uint (cfg_threshold config))),
         (''total'', JNum (uint (cfg_total config))),
         (''share_indices'', JArr (map (\<lambda>sh. JNum (uint (ss_index sh))) (gresp_shares gen))),
         (''master_public_key_hex'', JStr (hex_encode (gresp_master_public_key gen))),
         (''policy_id'', JStr (sv_ulid cr (policy_ulid (cfg_policy_id config))))]\<rparr>"

definition create_wallet :: "service_crates \<Rightarrow> 'w wallet_service \<Rightarrow> wallet_config \<Rightarrow> actor \<Rightarrow>
   ('w service_state, service_error, wallet_record) proc" where
  "create_wallet cr self config owner_actor =
     pbind (fresh_ulid self) (\<lambda>u.
     let wid = WalletId u in
     pbind (pmap_err ServiceEnclave (on_world (be_generate_wallet (ws_backends self)
       \<lparr>gen_wallet_id = wid, gen_scheme = cfg_scheme config, gen_threshold = cfg_threshold config,
        gen_total = cfg_total config, gen_master_hd_path = None\<rparr>))) (\<lambda>gen.
     pbind (service_unix_ms self) (\<lambda>now.
     pbind (pmap (store_share self wid now) (gresp_shares gen)) (\<lambda>_.
     let rec = \<lparr>wr_wallet_id = wid, wr_config = config, wr_master_public_key = gresp_master_public_key gen,
                wr_status = WalletActive, wr_created_at_unix_ms = now\<rparr> in
     pbind (insert_wallet rec) (\<lambda>_.
     pbind (audit_emit self (created_event cr owner_actor wid config gen)) (\<lambda>_.
     preturn rec))))))"

subsection \<open>Signing\<close>

definition canonical_message_bytes :: "service_crates \<Rightarrow> signing_payload \<Rightarrow> bytes" where
  "canonical_message_bytes cr payload =
     (case payload of
        Raw b \<Rightarrow> b
      | PersonalSign b \<Rightarrow> b
      | TypedData j \<Rightarrow> (case sv_typed cr j of Some b \<Rightarrow> b | None \<Rightarrow> [])
      | VmTransaction vm chain t raw \<Rightarrow> raw)"

definition requester_to_actor :: "service_crates \<Rightarrow> requester \<Rightarrow> actor" where
  "requester_to_actor cr r = ActorRequester (requester_key (sv_ulid cr) r)"

text \<open>The events of one signing request all carry its request and wallet identifiers.\<close>

definition request_event :: "request_id \<Rightarrow> wallet_id \<Rightarrow> actor \<Rightarrow> audit_kind \<Rightarrow> json \<Rightarrow> audit_event_draft" where
  "request_event rid wid act kind details =
     \<lparr>dr_actor = act, dr_kind = kind, dr_request_id = Some rid, dr_wallet_id = Some wid, dr_details = details\<rparr>"

definition requested_details :: "bytes \<Rightarrow> hd_path option \<Rightarrow> json" where
  "requested_details message_hash hd_path = JObj
     [(''message_hash_hex'', JStr (hex_encode message_hash)),
      (''hd_path'', case hd_path of Some p \<Rightarrow> JStr (hd_path_to_string p) | None \<Rightarrow> JNull)]"

definition resolve_identities :: "service_crates \<Rightarrow> 'w wallet_service \<Rightarrow> approver_set option \<Rightarrow>
   ('w service_state, service_error, approver_identity list) proc" where
  "resolve_identities cr self aset =
     (case aset of
        None \<Rightarrow> preturn []
      | Some s \<Rightarrow> pmap (\<lambda>m.
          pbind (pmap_err (\<lambda>e. ServiceQuorum (Transport (''registry: '' @ sv_registry_text cr e)))
            (on_world (be_get_approver (ws_backends self) m))) (\<lambda>rec. preturn (rec_identity rec)))
          (set_members s))"

definition collect_timeout :: "'w wallet_service \<Rightarrow> approver_set option \<Rightarrow> nat" where
  "collect_timeout self aset =
     (case Option.bind aset set_quorum_timeout_secs of
        Some secs \<Rightarrow> unat secs * 1000
      | None \<Rightarrow> ws_quorum_timeout self)"

definition approval_event :: "service_crates \<Rightarrow> request_id \<Rightarrow> wallet_id \<Rightarrow> signed_approval \<Rightarrow> audit_event_draft" where
  "approval_event cr rid wid a =
     request_event rid wid (ActorApprover (identity_key (sv_ulid cr) (ap_approver a)))
       (if ap_decision a = Approve then QuorumApprovalReceived else QuorumApprovalRejected)
       (JObj [(''approval_id'', JStr (sv_ulid cr (approval_ulid (ap_approval_id a))))])"

definition notified_event :: "service_crates \<Rightarrow> request_id \<Rightarrow> wallet_id \<Rightarrow> u8 \<Rightarrow> approver_set_id \<Rightarrow> audit_event_draft" where
  "notified_event cr rid wid threshold sid = request_event rid wid ActorSystem QuorumNotified (JObj
     [(''threshold'', JNum (uint threshold)), (''approver_set'', JStr (sv_ulid cr (approver_set_ulid sid)))])"

definition reached_event :: "request_id \<Rightarrow> wallet_id \<Rightarrow> u8 \<Rightarrow> signed_approval list \<Rightarrow> audit_event_draft" where
  "reached_event rid wid threshold approvals = request_event rid wid ActorSystem QuorumThresholdReached (JObj
     [(''threshold'', JNum (uint threshold)), (''collected'', JNum (int (length approvals)))])"

text \<open>The branch of \<open>sign\<close> for a decision that requires a quorum.\<close>

definition quorum_stage :: "service_crates \<Rightarrow> 'w wallet_service \<Rightarrow> request_id \<Rightarrow> wallet_id \<Rightarrow> bytes \<Rightarrow> u8 \<Rightarrow> approver_set_id \<Rightarrow>
   ('w service_state, service_error, signed_approval list) proc" where
  "quorum_stage cr self rid wid message_hash threshold sid =
     pbind (ptry (on_world (be_get_approver_set (ws_backends self) sid))) (\<lambda>set_result.
     let aset = ok_opt set_result in
     pbind (resolve_identities cr self aset) (\<lambda>identities.
     pbind (pmap_err ServiceQuorum (on_world (be_request_approval (ws_backends self)
       \<lparr>ar_request_id = rid, ar_message_hash = message_hash, ar_approver_set = identities, ar_threshold = threshold\<rparr>))) (\<lambda>_.
     pbind (audit_emit self (notified_event cr rid wid threshold sid)) (\<lambda>_.
     pbind (ptry (on_world (be_collect_approvals (ws_backends self) rid threshold (collect_timeout self aset)))) (\<lambda>result.
     pbind (case result of
         Ok approvals \<Rightarrow> preturn approvals
       | Err (Timeout d) \<Rightarrow>
           pbind (audit_emit self (request_event rid wid ActorSystem QuorumTimedOut (JObj [(''timeout_ms'', JNum (int d))]))) (\<lambda>_.
           pthrow (ServiceQuorum (Timeout d)))
       | Err e \<Rightarrow> pthrow (ServiceQuorum e)
       | Panic p \<Rightarrow> plift (Panic p)) (\<lambda>approvals.
     pbind (pmap (\<lambda>a. audit_emit self (approval_event cr rid wid a)) approvals) (\<lambda>_.
     case find (\<lambda>a. ap_decision a = Reject) approvals of
       Some reject \<Rightarrow> pthrow (PolicyDenied (''quorum rejected by '' @ identity_key (sv_ulid cr) (ap_approver reject)))
     | None \<Rightarrow>
         pbind (audit_emit self (reached_event rid wid threshold approvals)) (\<lambda>_.
         preturn approvals))))))))"

definition signed_event :: "service_crates \<Rightarrow> request_id \<Rightarrow> wallet_id \<Rightarrow> policy_decision \<Rightarrow> bytes \<Rightarrow> signed_policy_decision \<Rightarrow> audit_event_draft" where
  "signed_event cr rid wid decision key bundle = request_event rid wid ActorSystem PolicyDecisionSigned (JObj
     [(''decision_id'', JStr (sv_ulid cr (decision_ulid (decision_id_of decision)))),
      (''signer_pubkey_fingerprint_hex'', JStr (hex_encode (take 16 (sha256 (sv_sign cr) key)))),
      (''signed_at_unix_ms'', JNum (spd_signed_at_unix_ms bundle)),
      (''max_age_secs'', JNum (uint (spd_max_age_secs bundle)))])"

text \<open>Step 2a: the decision is signed for the enclave when a signer is configured.\<close>

definition sign_stage :: "service_crates \<Rightarrow> 'w wallet_service \<Rightarrow> request_id \<Rightarrow> wallet_id \<Rightarrow> policy_decision \<Rightarrow>
   ('w service_state, service_error, signed_policy_decision option) proc" where
  "sign_stage cr self rid wid decision =
     (case ws_policy_service_signer self of
        None \<Rightarrow> preturn None
      | Some signer \<Rightarrow>
          pbind (pmap_err (\<lambda>e. ServiceInternal (''policy signer: '' @ sv_signer_text cr e))
            (on_world (pss_sign_decision signer decision rid wid MAX_DECISION_AGE_SECS_DEFAULT))) (\<lambda>bundle.
          pbind (audit_emit self (signed_event cr rid wid decision (pss_public_key signer) bundle)) (\<lambda>_.
          preturn (Some bundle))))"

definition fetch_shares :: "'w wallet_service \<Rightarrow> wallet_record \<Rightarrow> u8 \<Rightarrow> ('w service_state, service_error, stored_share list) proc" where
  "fetch_shares self wallet threshold =
     pbind (pmap_err ServiceStore (on_world (be_list (ws_backends self) (wr_wallet_id wallet)))) (\<lambda>ids.
     if length ids < unat threshold
     then pthrow (InsufficientShares (''have '' @ show_nat (length ids) @ '' shares, need '' @ show_nat (unat threshold)))
     else pmap (\<lambda>sid. pmap_err ServiceStore (on_world (be_get (ws_backends self) sid))) (take (unat threshold) ids))"

definition config_ceilings :: "wallet_id \<Rightarrow> wallet_config \<Rightarrow> wallet_ceilings" where
  "config_ceilings wid config =
     \<lparr>wc_wallet_id = wid, wc_max_value_per_tx = cfg_max_value_per_tx config,
      wc_contract_allowlist = cfg_contract_allowlist config, wc_chain_allowlist = cfg_chain_allowlist config\<rparr>"

definition succeeded_event :: "service_crates \<Rightarrow> request_id \<Rightarrow> wallet_id \<Rightarrow> enclave_sign_response \<Rightarrow> audit_event_draft" where
  "succeeded_event cr rid wid r = request_event rid wid ActorEnclave SigningSucceeded
     (JObj [(''signature_hash_hex'', JStr (hex_encode (sha256 (sv_sign cr) (resp_signature r))))])"

text \<open>Steps 3 and 4: fetch the shares, call the enclave, log the result.\<close>

definition enclave_request :: "wallet_record \<Rightarrow> request_id \<Rightarrow> wallet_id \<Rightarrow> signing_payload \<Rightarrow> bytes \<Rightarrow> hd_path option \<Rightarrow> signing_context \<Rightarrow>
   hash_alg \<Rightarrow> signed_policy_decision option \<Rightarrow> stored_share list \<Rightarrow> enclave_sign_request" where
  "enclave_request wallet rid wid payload message hd_path ctx alg bundle shares =
     \<lparr>esr_request_id = rid, esr_wallet_id = wid, esr_shares = map sto_share shares, esr_scheme = cfg_scheme (wr_config wallet),
      esr_hd_path = hd_path, esr_message = message, esr_hash_alg = alg, esr_context = ctx, esr_policy_decision = bundle,
      esr_approvals = [], esr_wallet_ceilings = Some (config_ceilings wid (wr_config wallet)),
      esr_policy_signing_payload = Some payload\<rparr>"

definition enclave_stage :: "service_crates \<Rightarrow> 'w wallet_service \<Rightarrow> wallet_record \<Rightarrow> request_id \<Rightarrow> wallet_id \<Rightarrow> signing_payload \<Rightarrow> bytes \<Rightarrow>
   hd_path option \<Rightarrow> signing_context \<Rightarrow> hash_alg \<Rightarrow> signed_policy_decision option \<Rightarrow>
   ('w service_state, service_error, enclave_sign_response) proc" where
  "enclave_stage cr self wallet rid wid payload message hd_path ctx alg bundle =
     pbind (fetch_shares self wallet (cfg_threshold (wr_config wallet))) (\<lambda>shares.
     pbind (audit_emit self (request_event rid wid ActorSystem SigningAttempted (JObj []))) (\<lambda>_.
     pbind (ptry (on_world (be_sign_in_enclave (ws_backends self)
       (enclave_request wallet rid wid payload message hd_path ctx alg bundle shares)))) (\<lambda>resp.
     case resp of
       Ok r \<Rightarrow> pbind (audit_emit self (succeeded_event cr rid wid r)) (\<lambda>_. preturn r)
     | Err e \<Rightarrow>
         pbind (audit_emit self (request_event rid wid ActorEnclave SigningFailed (JObj [(''error'', JStr (sv_enclave_text cr e))]))) (\<lambda>_.
         pthrow (ServiceEnclave e))
     | Panic p \<Rightarrow> plift (Panic p))))"

definition decision_stage :: "service_crates \<Rightarrow> 'w wallet_service \<Rightarrow> request_id \<Rightarrow> wallet_id \<Rightarrow> bytes \<Rightarrow> policy_decision \<Rightarrow>
   ('w service_state, service_error, signed_approval list) proc" where
  "decision_stage cr self rid wid message_hash decision =
     (case decision of
        Deny d p reason hits \<Rightarrow> pthrow (PolicyDenied (sv_deny_debug cr reason))
      | RequireQuorum d p threshold n sid hits \<Rightarrow> quorum_stage cr self rid wid message_hash threshold sid
      | Allow d p hits \<Rightarrow> preturn [])"

text \<open>The body of \<open>sign\<close> once the wallet is known to be usable.\<close>

definition sign_request :: "service_crates \<Rightarrow> 'w wallet_service \<Rightarrow> wallet_record \<Rightarrow> wallet_id \<Rightarrow> signing_payload \<Rightarrow> requester \<Rightarrow>
   hd_path option \<Rightarrow> signing_context \<Rightarrow> hash_alg \<Rightarrow> ('w service_state, service_error, enclave_sign_response) proc" where
  "sign_request cr self wallet wid payload requester hd_path ctx alg =
     pbind (fresh_ulid self) (\<lambda>u.
     let rid = RequestId u;
         message = canonical_message_bytes cr payload;
         message_hash = message_hash_for (sv_sign cr) message in
     pbind (audit_emit self (request_event rid wid (requester_to_actor cr requester) SigningRequested
       (requested_details message_hash hd_path))) (\<lambda>_.
     pbind (service_unix_ms self) (\<lambda>received.
     pbind (pmap_err ServicePolicy (on_world (be_evaluate (ws_backends self)
       \<lparr>sr_request_id = rid, sr_wallet_id = wid, sr_requester = requester, sr_payload = payload, sr_hd_path = hd_path,
        sr_received_at_unix_ms = received\<rparr>))) (\<lambda>decision.
     pbind (audit_emit self (request_event rid wid ActorSystem SigningEvaluated (JObj [(''decision'', sv_decision cr decision)]))) (\<lambda>_.
     pbind (decision_stage cr self rid wid message_hash decision) (\<lambda>_.
     pbind (sign_stage cr self rid wid decision) (\<lambda>bundle.
     enclave_stage cr self wallet rid wid payload message hd_path ctx alg bundle)))))))"

definition service_sign :: "service_crates \<Rightarrow> 'w wallet_service \<Rightarrow> wallet_id \<Rightarrow> signing_payload \<Rightarrow> requester \<Rightarrow> hd_path option \<Rightarrow>
   signing_context \<Rightarrow> hash_alg \<Rightarrow> ('w service_state, service_error, enclave_sign_response) proc" where
  "service_sign cr self wid payload requester hd_path ctx alg =
     pbind (get_wallet wid) (\<lambda>wallet.
     if wr_status wallet = WalletStatusRevoked then pthrow (WalletNotFound wid)
     else sign_request cr self wallet wid payload requester hd_path ctx alg)"

text \<open>\<open>record_approval\<close>.\<close>

definition duplicate_error :: "service_crates \<Rightarrow> approval_store_error \<Rightarrow> service_error" where
  "duplicate_error cr e =
     (case e of
        DuplicateApproval a r \<Rightarrow> ServiceQuorum (Transport (''duplicate approval: '' @ sv_store_text cr e))
      | ApprovalIo msg \<Rightarrow> ServiceQuorum (Transport msg))"

definition service_record_approval :: "service_crates \<Rightarrow> 'w wallet_service \<Rightarrow> signed_approval \<Rightarrow> approver_id \<Rightarrow> bytes \<Rightarrow>
   ('w service_state, service_error, record_outcome) proc" where
  "service_record_approval cr self approval who expected_message_hash =
     pbind (pmap_err (\<lambda>e. ServiceQuorum (Transport (''registry: '' @ sv_registry_text cr e)))
       (on_world (be_get_approver (ws_backends self) who))) (\<lambda>rec.
     if rec_identity rec \<noteq> ap_approver approval
     then pthrow (ServiceQuorum (UnknownApprover (identity_key (sv_ulid cr) (ap_approver approval))))
     else if rec_status rec = Revoked
     then pthrow (ServiceQuorum (UnknownApprover (''approver '' @ sv_ulid cr (approver_ulid who) @ '' is revoked'')))
     else
       pbind (service_unix_ms self) (\<lambda>now.
       pbind (plift (map_err (ServiceQuorum \<circ> quorum_error.InvalidApproval)
         (approval_verify (sv_sign cr) (sv_ulid cr) approval (ap_request_id approval) expected_message_hash now))) (\<lambda>_.
       pmap_err (duplicate_error cr) (on_world (be_record_approval (ws_backends self) approval who)))))"

subsection \<open>The trail of a signed request\<close>

definition quorum_trail :: "service_crates \<Rightarrow> request_id \<Rightarrow> wallet_id \<Rightarrow> policy_decision \<Rightarrow> signed_approval list \<Rightarrow> audit_event_draft list" where
  "quorum_trail cr rid wid decision approvals =
     (case decision of
        RequireQuorum d p threshold n sid hits \<Rightarrow>
          notified_event cr rid wid threshold sid # map (approval_event cr rid wid) approvals @ [reached_event rid wid threshold approvals]
      | _ \<Rightarrow> [])"

definition bundle_trail :: "service_crates \<Rightarrow> 'w wallet_service \<Rightarrow> request_id \<Rightarrow> wallet_id \<Rightarrow> policy_decision \<Rightarrow> signed_policy_decision option \<Rightarrow>
   audit_event_draft list" where
  "bundle_trail cr self rid wid decision bundle =
     (case ws_policy_service_signer self of
        None \<Rightarrow> []
      | Some signer \<Rightarrow> (case bundle of None \<Rightarrow> [] | Some b \<Rightarrow> [signed_event cr rid wid decision (pss_public_key signer) b]))"

definition signing_trail :: "service_crates \<Rightarrow> 'w wallet_service \<Rightarrow> request_id \<Rightarrow> wallet_id \<Rightarrow> signing_payload \<Rightarrow> requester \<Rightarrow> hd_path option \<Rightarrow>
   policy_decision \<Rightarrow> signed_approval list \<Rightarrow> signed_policy_decision option \<Rightarrow> enclave_sign_response \<Rightarrow> audit_event_draft list" where
  "signing_trail cr self rid wid payload requester hd_path decision approvals bundle r =
     [request_event rid wid (requester_to_actor cr requester) SigningRequested
        (requested_details (message_hash_for (sv_sign cr) (canonical_message_bytes cr payload)) hd_path),
      request_event rid wid ActorSystem SigningEvaluated (JObj [(''decision'', sv_decision cr decision)])] @
     quorum_trail cr rid wid decision approvals @
     bundle_trail cr self rid wid decision bundle @
     [request_event rid wid ActorSystem SigningAttempted (JObj []), succeeded_event cr rid wid r]"

text \<open>Where the approvals of a signed request come from.\<close>

definition collected :: "'w wallet_service \<Rightarrow> request_id \<Rightarrow> policy_decision \<Rightarrow> signed_approval list \<Rightarrow> bool" where
  "collected self rid decision approvals \<longleftrightarrow> (\<forall>a \<in> set approvals. ap_decision a = Approve) \<and>
     (case decision of
        RequireQuorum d p threshold n sid hits \<Rightarrow> \<exists>timeout. returned (be_collect_approvals (ws_backends self) rid threshold timeout) approvals
      | Allow d p hits \<Rightarrow> approvals = []
      | Deny d p reason hits \<Rightarrow> False)"

subsection \<open>The contract with the backends\<close>

text \<open>
  What the audit trail of the service relies on: a sink appends what it acknowledges, and no other backend
  writes to it.
\<close>

locale audit_trail =
  fixes self :: "'w wallet_service" and inv :: "'w \<Rightarrow> bool" and trail :: "'w \<Rightarrow> audit_event_draft list"
  assumes emit: "inv w \<Longrightarrow> be_emit (ws_backends self) d w = Some (Ok e, w') \<Longrightarrow> inv w' \<and> trail w' = trail w @ [d]"
    and generate: "silent inv trail (be_generate_wallet (ws_backends self) g)"
    and sign: "silent inv trail (be_sign_in_enclave (ws_backends self) req)"
    and put: "silent inv trail (be_put (ws_backends self) sh)"
    and get: "silent inv trail (be_get (ws_backends self) sid)"
    and listing: "silent inv trail (be_list (ws_backends self) wid)"
    and evaluate: "silent inv trail (be_evaluate (ws_backends self) sreq)"
    and request: "silent inv trail (be_request_approval (ws_backends self) areq)"
    and collect: "silent inv trail (be_collect_approvals (ws_backends self) rid threshold timeout)"
    and get_approver: "silent inv trail (be_get_approver (ws_backends self) who)"
    and get_set: "silent inv trail (be_get_approver_set (ws_backends self) setid)"
    and ulid: "inv w \<Longrightarrow> be_ulid (ws_backends self) w = (u, w') \<Longrightarrow> inv w' \<and> trail w' = trail w"
    and clock: "inv w \<Longrightarrow> be_clock (ws_backends self) w = (t, w') \<Longrightarrow> inv w' \<and> trail w' = trail w"
    and signer: "ws_policy_service_signer self = Some sg \<Longrightarrow> silent inv trail (pss_sign_decision sg dec rq wlt age)"
begin

abbreviation sinv :: "'w service_state \<Rightarrow> bool" where "sinv s \<equiv> inv (ss_world s)"
abbreviation strail :: "'w service_state \<Rightarrow> audit_event_draft list" where "strail s \<equiv> trail (ss_world s)"

lemma on_world_silent: "silent inv trail m \<Longrightarrow> silent sinv strail (on_world m)"
  unfolding silent_def on_world_def by fastforce

lemma emit_leaves: "leaves sinv strail (audit_emit self d) (\<lambda>_ l. l = [d])"
  unfolding leaves_def audit_emit_def on_world_def by (auto simp: proc_simps dest: emit)

lemma ulid_leaves: "leaves sinv strail (fresh_ulid self) (\<lambda>_ l. l = [])"
  unfolding leaves_def fresh_ulid_def on_world_def by (auto dest: ulid split: prod.splits)

lemma clock_leaves: "leaves sinv strail (service_unix_ms self) (\<lambda>_ l. l = [])"
  unfolding leaves_def service_unix_ms_def on_world_def by (auto dest: clock split: prod.splits)

lemma wallet_leaves: "leaves sinv strail (get_wallet wid) (\<lambda>_ l. l = [])"
  by (auto simp: leaves_def get_wallet_def)

lemma insert_leaves: "leaves sinv strail (insert_wallet rec) (\<lambda>_ l. l = [])"
  by (auto simp: leaves_def insert_wallet_def)

lemma call_leaves: "silent inv trail m \<Longrightarrow> leaves sinv strail (pmap_err g (on_world m)) (\<lambda>_ l. l = [])"
  by (intro silent_leaves silent_map_err on_world_silent)

lemma on_world_returned: "returned (on_world m) x \<Longrightarrow> returned m x"
  unfolding returned_def on_world_def by auto

lemma call_returned: "silent inv trail m \<Longrightarrow> leaves sinv strail (pmap_err g (on_world m)) (\<lambda>x l. l = [] \<and> returned m x)"
  by (rule leaves_map_err, rule leaves_weaken [OF silent_returned [OF on_world_silent]])
    (auto dest: on_world_returned)

lemma try_leaves: "silent inv trail m \<Longrightarrow> leaves sinv strail (ptry (on_world m)) (\<lambda>r l. l = [] \<and> (\<forall>x. r = Ok x \<longrightarrow> returned m x))"
  by (rule leaves_weaken [OF silent_try_returned [OF on_world_silent]]) (auto dest: on_world_returned)

lemma create_wallet_leaves:
  "leaves sinv strail (create_wallet cr self config owner) (\<lambda>rec l. \<exists>gen.
     l = [created_event cr owner (wr_wallet_id rec) config gen] \<and> wr_master_public_key rec = gresp_master_public_key gen \<and>
     wr_config rec = config \<and> wr_status rec = WalletActive)"
proof -
  have shares: "leaves sinv strail (pmap (store_share self wid now) shs) (\<lambda>_ l. l = [])" for wid now shs
    by (rule leaves_pmap_silent) (simp add: store_share_def call_leaves put)
  show ?thesis
    unfolding create_wallet_def Let_def
    by (rule leaves_weaken [OF leaves_bind [OF ulid_leaves leaves_bind [OF call_leaves [OF generate]
        leaves_bind [OF clock_leaves leaves_bind [OF shares leaves_bind [OF insert_leaves
        leaves_bind [OF emit_leaves leaves_return]]]]]]]) auto
qed

lemma identities_leave: "leaves sinv strail (resolve_identities cr self aset) (\<lambda>_ l. l = [])"
proof (cases aset)
  case None
  then show ?thesis by (auto simp: resolve_identities_def intro: leaves_weaken [OF leaves_return])
next
  case (Some s)
  have "leaves sinv strail (pbind (pmap_err f (on_world (be_get_approver (ws_backends self) m))) (\<lambda>rec. preturn (rec_identity rec)))
      (\<lambda>_ l. l = [])" for m f
    by (rule leaves_weaken [OF leaves_bind [OF call_leaves [OF get_approver] leaves_return]]) auto
  then show ?thesis unfolding resolve_identities_def Some option.case
    by (intro leaves_pmap_silent) simp
qed

lemma quorum_leaves:
  "leaves sinv strail (quorum_stage cr self rid wid h threshold sid) (\<lambda>approvals l.
     l = notified_event cr rid wid threshold sid # map (approval_event cr rid wid) approvals @ [reached_event rid wid threshold approvals] \<and>
     (\<forall>a \<in> set approvals. ap_decision a = Approve) \<and>
     (\<exists>timeout. returned (be_collect_approvals (ws_backends self) rid threshold timeout) approvals))"
proof -
  have events: "leaves sinv strail (pmap (\<lambda>a. audit_emit self (approval_event cr rid wid a)) as)
      (\<lambda>_ l. l = map (approval_event cr rid wid) as)" for as
    by (rule leaves_weaken [OF leaves_pmap [where ev = "\<lambda>a. [approval_event cr rid wid a]"]]) (simp_all add: emit_leaves)
  have outcome: "leaves sinv strail (case result of
         Ok approvals \<Rightarrow> preturn approvals
       | Err (Timeout d) \<Rightarrow>
           pbind (audit_emit self (request_event rid wid ActorSystem QuorumTimedOut (JObj [(''timeout_ms'', JNum (int d))]))) (\<lambda>_.
           pthrow (ServiceQuorum (Timeout d)))
       | Err e \<Rightarrow> pthrow (ServiceQuorum e)
       | Panic p \<Rightarrow> plift (Panic p)) (\<lambda>r l. l = [] \<and> result = Ok r)" for result
  proof (cases result)
    case (Err e)
    have "leaves sinv strail (pbind (audit_emit self d) (\<lambda>_. pthrow x)) L" for d L and x :: service_error
      by (rule leaves_weaken [OF leaves_bind [OF emit_leaves leaves_throw [where L = "\<lambda>_ _. False"]]]) simp
    then show ?thesis unfolding Err by (cases e) (simp_all add: leaves_throw)
  qed (auto intro: leaves_weaken [OF leaves_return] leaves_weaken [OF leaves_lift])
  have verdict: "leaves sinv strail (case find (\<lambda>a. ap_decision a = Reject) as of
        Some reject \<Rightarrow> pthrow (PolicyDenied (''quorum rejected by '' @ identity_key (sv_ulid cr) (ap_approver reject)))
      | None \<Rightarrow> pbind (audit_emit self (reached_event rid wid threshold as)) (\<lambda>_. preturn as))
      (\<lambda>r l. r = as \<and> l = [reached_event rid wid threshold as] \<and> (\<forall>a \<in> set as. ap_decision a = Approve))" for as
  proof (cases "find (\<lambda>a. ap_decision a = Reject) as")
    case None
    then have "\<forall>a \<in> set as. ap_decision a = Approve"
      unfolding find_None_iff by (metis approval_decision.exhaust)
    with None show ?thesis by (auto intro: leaves_weaken [OF leaves_bind [OF emit_leaves leaves_return]])
  qed (simp add: leaves_throw)
  show ?thesis
    unfolding quorum_stage_def Let_def
    by (rule leaves_weaken [OF leaves_bind [OF try_leaves [OF get_set] leaves_bind [OF identities_leave
        leaves_bind [OF call_leaves [OF request] leaves_bind [OF emit_leaves leaves_bind [OF try_leaves [OF collect]
        leaves_bind [OF outcome leaves_bind [OF events verdict]]]]]]]]) auto
qed

lemma decision_leaves:
  "leaves sinv strail (decision_stage cr self rid wid h decision) (\<lambda>approvals l.
     l = quorum_trail cr rid wid decision approvals \<and> collected self rid decision approvals)"
  unfolding decision_stage_def
  by (cases decision)
    (auto simp: quorum_trail_def collected_def leaves_throw intro: leaves_weaken [OF leaves_return] leaves_weaken [OF quorum_leaves])

lemma bundle_leaves:
  "leaves sinv strail (sign_stage cr self rid wid decision) (\<lambda>bundle l. l = bundle_trail cr self rid wid decision bundle)"
proof (cases "ws_policy_service_signer self")
  case None
  then show ?thesis by (auto simp: sign_stage_def bundle_trail_def intro: leaves_weaken [OF leaves_return])
next
  case (Some sg)
  show ?thesis unfolding sign_stage_def Some option.case
    by (rule leaves_weaken [OF leaves_bind [OF call_leaves [OF signer [OF Some]] leaves_bind [OF emit_leaves leaves_return]]])
      (auto simp: bundle_trail_def Some)
qed

lemma shares_leave: "leaves sinv strail (fetch_shares self wallet threshold) (\<lambda>_ l. l = [])"
proof -
  have "leaves sinv strail (pmap (\<lambda>sid. pmap_err ServiceStore (on_world (be_get (ws_backends self) sid))) sids) (\<lambda>_ l. l = [])" for sids
    by (rule leaves_pmap_silent) (rule call_leaves [OF get])
  then show ?thesis unfolding fetch_shares_def
    by (intro leaves_weaken [OF leaves_bind [OF call_leaves [OF listing] leaves_if]]) auto
qed

lemma enclave_leaves:
  "leaves sinv strail (enclave_stage cr self wallet rid wid payload message hd_path ctx alg bundle) (\<lambda>r l.
     l = [request_event rid wid ActorSystem SigningAttempted (JObj []), succeeded_event cr rid wid r] \<and>
     (\<exists>shares. returned (be_sign_in_enclave (ws_backends self)
       (enclave_request wallet rid wid payload message hd_path ctx alg bundle shares)) r))"
proof -
  have result: "leaves sinv strail (case resp of
       Ok r \<Rightarrow> pbind (audit_emit self (succeeded_event cr rid wid r)) (\<lambda>_. preturn r)
     | Err e \<Rightarrow>
         pbind (audit_emit self (request_event rid wid ActorEnclave SigningFailed (JObj [(''error'', JStr (sv_enclave_text cr e))]))) (\<lambda>_.
         pthrow (ServiceEnclave e))
     | Panic p \<Rightarrow> plift (Panic p)) (\<lambda>r l. l = [succeeded_event cr rid wid r] \<and> resp = Ok r)" for resp
    by (cases resp)
      (auto intro: leaves_weaken [OF leaves_bind [OF emit_leaves leaves_return]] leaves_weaken [OF leaves_lift]
        leaves_weaken [OF leaves_bind [OF emit_leaves leaves_throw [where L = "\<lambda>_ _. False"]]])
  show ?thesis unfolding enclave_stage_def
    by (rule leaves_weaken [OF leaves_bind [OF shares_leave leaves_bind [OF emit_leaves leaves_bind [OF try_leaves [OF sign] result]]]]) auto
qed

lemma sign_leaves:
  "leaves sinv strail (sign_request cr self wallet wid payload requester hd_path ctx alg) (\<lambda>r l.
     \<exists>rid received decision approvals bundle shares.
       returned (be_evaluate (ws_backends self) \<lparr>sr_request_id = rid, sr_wallet_id = wid, sr_requester = requester,
         sr_payload = payload, sr_hd_path = hd_path, sr_received_at_unix_ms = received\<rparr>) decision \<and>
       collected self rid decision approvals \<and>
       returned (be_sign_in_enclave (ws_backends self)
         (enclave_request wallet rid wid payload (canonical_message_bytes cr payload) hd_path ctx alg bundle shares)) r \<and>
       l = signing_trail cr self rid wid payload requester hd_path decision approvals bundle r)"
  unfolding sign_request_def Let_def
  by (rule leaves_weaken [OF leaves_bind [OF ulid_leaves leaves_bind [OF emit_leaves
      leaves_bind [OF clock_leaves leaves_bind [OF call_returned [OF evaluate] leaves_bind [OF emit_leaves
      leaves_bind [OF decision_leaves leaves_bind [OF bundle_leaves enclave_leaves]]]]]]]])
    (fastforce simp: signing_trail_def)

end

end
