(* ===== verification/Http_Schemas.thy ===== *)
theory Http_Schemas
  imports Wallet_Service
begin

text \<open>
  The wire types of the HTTP interface and their conversions (\<open>api/schemas.rs\<close>, \<open>api/error.rs\<close>).

  A request body here is the value serde has read from the JSON text, a response body the value it will
  write; the JSON syntax itself is that crate's. Identifiers and byte strings are still text: parsing them
  is the work of the conversions. Each mirror enumeration has its own constructors, as in the source.
\<close>

subsection \<open>Errors (error.rs)\<close>

datatype api_error =
    BadRequest string
  | Unauthorized string
  | Forbidden string
  | ApiNotFound string
  | Conflict string
  | UnprocessableEntity string
  | ApiInternal string

record api_error_body =
  eb_error :: string
  eb_hint :: string

fun error_parts :: "api_error \<Rightarrow> nat \<times> string \<times> string" where
  "error_parts (BadRequest m) = (400, ''bad_request'', m)"
| "error_parts (Unauthorized m) = (401, ''unauthorized'', m)"
| "error_parts (Forbidden m) = (403, ''policy_denied'', m)"
| "error_parts (ApiNotFound m) = (404, ''wallet_not_found'', m)"
| "error_parts (Conflict m) = (409, ''quorum_failed'', m)"
| "error_parts (UnprocessableEntity m) = (422, ''approval_verification_failed'', m)"
| "error_parts (ApiInternal m) = (500, ''internal_error'', m)"

text \<open>
  What the interface uses of other crates: the service's own, the parsers of identifiers, hexadecimal text
  and header values, JSON forms made by serde, and the display texts of errors.
\<close>

record api_crates =
  hc_service :: service_crates
  hc_ulid_parse :: "string \<Rightarrow> string + ulid"
  hc_hex_decode :: "string \<Rightarrow> string + bytes"
  hc_header_to_str :: "bytes \<Rightarrow> string option"
  hc_actor_json :: "actor \<Rightarrow> json option"
  hc_attestation_json :: "attestation_doc \<Rightarrow> string + json"
  hc_path_text :: "hd_path_error \<Rightarrow> string"
  hc_quorum_text :: "quorum_error \<Rightarrow> string"
  hc_verify_text :: "approval_verify_error \<Rightarrow> string"
  hc_audit_text :: "audit_error \<Rightarrow> string"
  hc_share_text :: "store_error \<Rightarrow> string"
  hc_policy_text :: "policy_error \<Rightarrow> string"
  hc_docs :: "string \<Rightarrow> nat \<times> string"
  hc_openapi :: string

abbreviation hc_ulid :: "api_crates \<Rightarrow> ulid \<Rightarrow> string" where
  "hc_ulid cr \<equiv> sv_ulid (hc_service cr)"

fun from_service_error :: "api_crates \<Rightarrow> service_error \<Rightarrow> api_error" where
  "from_service_error cr (WalletNotFound wid) = ApiNotFound (''wallet '' @ hc_ulid cr (wallet_ulid wid) @ '' not found'')"
| "from_service_error cr (PolicyDenied msg) = Forbidden msg"
| "from_service_error cr (ServiceQuorum e) = Conflict (hc_quorum_text cr e)"
| "from_service_error cr (ServiceEnclave e) = ApiInternal (''enclave: '' @ sv_enclave_text (hc_service cr) e)"
| "from_service_error cr (ServiceAudit e) = ApiInternal (''audit: '' @ hc_audit_text cr e)"
| "from_service_error cr (ServiceStore e) = ApiInternal (''store: '' @ hc_share_text cr e)"
| "from_service_error cr (ServicePolicy e) = ApiInternal (''policy: '' @ hc_policy_text cr e)"
| "from_service_error cr (InsufficientShares e) = ApiInternal (''shares: '' @ e)"
| "from_service_error cr (ServiceInternal msg) = ApiInternal msg"

subsection \<open>Mirror enumerations (schemas.rs)\<close>

datatype signing_scheme_dto = Ed25519Dto | Secp256k1Dto | Secp256k1RecoverableDto | MlDsa44Dto | MlDsa65Dto | MlDsa87Dto

primrec scheme_from_dto :: "signing_scheme_dto \<Rightarrow> signing_scheme" where
  "scheme_from_dto Ed25519Dto = Ed25519"
| "scheme_from_dto Secp256k1Dto = Secp256k1"
| "scheme_from_dto Secp256k1RecoverableDto = Secp256k1Recoverable"
| "scheme_from_dto MlDsa44Dto = MlDsa44"
| "scheme_from_dto MlDsa65Dto = MlDsa65"
| "scheme_from_dto MlDsa87Dto = MlDsa87"

primrec scheme_to_dto :: "signing_scheme \<Rightarrow> signing_scheme_dto" where
  "scheme_to_dto Ed25519 = Ed25519Dto"
| "scheme_to_dto Secp256k1 = Secp256k1Dto"
| "scheme_to_dto Secp256k1Recoverable = Secp256k1RecoverableDto"
| "scheme_to_dto MlDsa44 = MlDsa44Dto"
| "scheme_to_dto MlDsa65 = MlDsa65Dto"
| "scheme_to_dto MlDsa87 = MlDsa87Dto"

datatype hash_alg_dto = HashNoneDto | Sha256Dto | Keccak256Dto | Blake3Dto

primrec hash_alg_from_dto :: "hash_alg_dto \<Rightarrow> hash_alg" where
  "hash_alg_from_dto HashNoneDto = HashNone"
| "hash_alg_from_dto Sha256Dto = Sha256"
| "hash_alg_from_dto Keccak256Dto = Keccak256"
| "hash_alg_from_dto Blake3Dto = Blake3"

datatype vm_type_dto = EvmDto | QvmDto | WasmDto

primrec vm_type_from_dto :: "vm_type_dto \<Rightarrow> vm_type" where
  "vm_type_from_dto EvmDto = Evm"
| "vm_type_from_dto QvmDto = Qvm"
| "vm_type_from_dto WasmDto = Wasm"

datatype audit_kind_dto =
    WalletCreatedDto | WalletRevokedDto | SigningRequestedDto | SigningEvaluatedDto | QuorumNotifiedDto
  | QuorumApprovalReceivedDto | QuorumApprovalRejectedDto | QuorumTimedOutDto | QuorumThresholdReachedDto
  | SigningAttemptedDto | SigningSucceededDto | SigningFailedDto | PolicyChangedDto | ApproverSetChangedDto
  | SystemErrorDto | EnclaveAttestedDto | PolicyDecisionSignedDto

primrec audit_kind_to_dto :: "audit_kind \<Rightarrow> audit_kind_dto" where
  "audit_kind_to_dto WalletCreated = WalletCreatedDto"
| "audit_kind_to_dto WalletRevoked = WalletRevokedDto"
| "audit_kind_to_dto SigningRequested = SigningRequestedDto"
| "audit_kind_to_dto SigningEvaluated = SigningEvaluatedDto"
| "audit_kind_to_dto QuorumNotified = QuorumNotifiedDto"
| "audit_kind_to_dto QuorumApprovalReceived = QuorumApprovalReceivedDto"
| "audit_kind_to_dto QuorumApprovalRejected = QuorumApprovalRejectedDto"
| "audit_kind_to_dto QuorumTimedOut = QuorumTimedOutDto"
| "audit_kind_to_dto QuorumThresholdReached = QuorumThresholdReachedDto"
| "audit_kind_to_dto SigningAttempted = SigningAttemptedDto"
| "audit_kind_to_dto SigningSucceeded = SigningSucceededDto"
| "audit_kind_to_dto SigningFailed = SigningFailedDto"
| "audit_kind_to_dto PolicyChanged = PolicyChangedDto"
| "audit_kind_to_dto ApproverSetChanged = ApproverSetChangedDto"
| "audit_kind_to_dto SystemError = SystemErrorDto"
| "audit_kind_to_dto EnclaveAttested = EnclaveAttestedDto"
| "audit_kind_to_dto PolicyDecisionSigned = PolicyDecisionSignedDto"

datatype wallet_status_dto = WalletActiveDto | WalletFrozenDto | WalletRevokedStatusDto

primrec wallet_status_to_dto :: "wallet_status \<Rightarrow> wallet_status_dto" where
  "wallet_status_to_dto WalletActive = WalletActiveDto"
| "wallet_status_to_dto WalletFrozen = WalletFrozenDto"
| "wallet_status_to_dto WalletStatusRevoked = WalletRevokedStatusDto"

datatype approver_status_dto = ApproverActiveDto | ApproverRevokedDto

primrec approver_status_to_dto :: "approver_status \<Rightarrow> approver_status_dto" where
  "approver_status_to_dto Active = ApproverActiveDto"
| "approver_status_to_dto Revoked = ApproverRevokedDto"

datatype approval_decision_dto = ApproveDto | RejectDto

primrec decision_from_dto :: "approval_decision_dto \<Rightarrow> approval_decision" where
  "decision_from_dto ApproveDto = Approve"
| "decision_from_dto RejectDto = Reject"

primrec decision_to_dto :: "approval_decision \<Rightarrow> approval_decision_dto" where
  "decision_to_dto Approve = ApproveDto"
| "decision_to_dto Reject = RejectDto"

subsection \<open>Fields that are parsed\<close>

text \<open>
  \<open>parse_field\<close> is \<open>s.parse::<Id>()\<close> with the error text of the field; the identifier types print a failure
  of the crate as \<open>invalid ULID\<close>. \<open>hex_field\<close> is \<open>hex::decode\<close> in the same way.
\<close>

definition parse_field :: "api_crates \<Rightarrow> string \<Rightarrow> (ulid \<Rightarrow> 'a) \<Rightarrow> string \<Rightarrow> (api_error, 'a) outcome" where
  "parse_field cr field con s =
     (case hc_ulid_parse cr s of
        Inl e \<Rightarrow> Err (BadRequest (''invalid '' @ field @ '': invalid ULID: '' @ e))
      | Inr u \<Rightarrow> Ok (con u))"

definition hex_field :: "api_crates \<Rightarrow> string \<Rightarrow> string \<Rightarrow> (api_error, bytes) outcome" where
  "hex_field cr field s =
     (case hc_hex_decode cr s of
        Inl e \<Rightarrow> Err (BadRequest (''invalid '' @ field @ '': '' @ e))
      | Inr b \<Rightarrow> Ok b)"

subsection \<open>Wallets and signing\<close>

record create_wallet_request =
  cwr_scheme :: signing_scheme_dto
  cwr_threshold :: u8
  cwr_total :: u8
  cwr_display_name :: string
  cwr_owner_id :: string
  cwr_policy_id :: "string option"

text \<open>A missing policy identifier is drawn afresh, so the conversion is a procedure.\<close>

definition into_config :: "api_crates \<Rightarrow> 'w wallet_service \<Rightarrow> create_wallet_request \<Rightarrow> ('w service_state, api_error, wallet_config) proc" where
  "into_config cr self req =
     pbind (case cwr_policy_id req of
         Some s \<Rightarrow> plift (parse_field cr ''policy_id'' PolicyId s)
       | None \<Rightarrow> pbind (fresh_ulid self) (\<lambda>u. preturn (PolicyId u))) (\<lambda>policy.
     preturn \<lparr>cfg_display_name = cwr_display_name req, cfg_owner_id = OwnerId (cwr_owner_id req),
       cfg_scheme = scheme_from_dto (cwr_scheme req), cfg_threshold = cwr_threshold req, cfg_total = cwr_total req,
       cfg_policy_id = policy, cfg_max_value_per_tx = None, cfg_contract_allowlist = [], cfg_chain_allowlist = []\<rparr>)"

record wallet_view =
  wv_wallet_id :: string
  wv_scheme :: signing_scheme_dto
  wv_threshold :: u8
  wv_total :: u8
  wv_display_name :: string
  wv_owner_id :: string
  wv_policy_id :: string
  wv_master_public_key_hex :: string
  wv_status :: wallet_status_dto
  wv_created_at_unix_ms :: i64

definition wallet_view_from :: "api_crates \<Rightarrow> wallet_record \<Rightarrow> wallet_view" where
  "wallet_view_from cr r =
     \<lparr>wv_wallet_id = hc_ulid cr (wallet_ulid (wr_wallet_id r)), wv_scheme = scheme_to_dto (cfg_scheme (wr_config r)),
      wv_threshold = cfg_threshold (wr_config r), wv_total = cfg_total (wr_config r),
      wv_display_name = cfg_display_name (wr_config r), wv_owner_id = owner_str (cfg_owner_id (wr_config r)),
      wv_policy_id = hc_ulid cr (policy_ulid (cfg_policy_id (wr_config r))),
      wv_master_public_key_hex = hex_encode (wr_master_public_key r), wv_status = wallet_status_to_dto (wr_status r),
      wv_created_at_unix_ms = wr_created_at_unix_ms r\<rparr>"

datatype requester_dto =
    ApiKeyDto string
  | OauthSubjectDto string
  | NestedWalletRequesterDto string
  | OnChainContractDto u64 string

fun requester_into_domain :: "api_crates \<Rightarrow> requester_dto \<Rightarrow> (api_error, requester) outcome" where
  "requester_into_domain cr (ApiKeyDto key) = Ok (ApiKey key)"
| "requester_into_domain cr (OauthSubjectDto sub) = Ok (OAuthSubject sub)"
| "requester_into_domain cr (NestedWalletRequesterDto s) =
     obind (parse_field cr ''wallet_id'' WalletId s) (\<lambda>w. Ok (NestedWalletRequester w))"
| "requester_into_domain cr (OnChainContractDto chain s) =
     obind (hex_field cr ''address_hex'' s) (\<lambda>a. Ok (OnChainContract chain a))"

datatype signing_payload_dto =
    RawDto string
  | PersonalSignDto string
  | TypedDataDto json
  | VmTransactionDto vm_type_dto u64 "string option" string

fun payload_into_domain :: "api_crates \<Rightarrow> signing_payload_dto \<Rightarrow> (api_error, signing_payload) outcome" where
  "payload_into_domain cr (RawDto s) = obind (hex_field cr ''bytes_hex'' s) (\<lambda>b. Ok (Raw b))"
| "payload_into_domain cr (PersonalSignDto s) = obind (hex_field cr ''bytes_hex'' s) (\<lambda>b. Ok (PersonalSign b))"
| "payload_into_domain cr (TypedDataDto j) = Ok (TypedData j)"
| "payload_into_domain cr (VmTransactionDto vm chain to_hex raw_hex) =
     obind (case to_hex of Some s \<Rightarrow> obind (hex_field cr ''to_hex'' s) (\<lambda>b. Ok (Some b)) | None \<Rightarrow> Ok None) (\<lambda>t.
     obind (hex_field cr ''raw_hex'' raw_hex) (\<lambda>raw.
     Ok (VmTransaction (vm_type_from_dto vm) chain t raw)))"

record signing_context_dto =
  scd_chain_id :: "u64 option"
  scd_vm_type :: "string option"
  scd_extra :: json

definition context_default :: signing_context_dto where
  "context_default = \<lparr>scd_chain_id = None, scd_vm_type = None, scd_extra = JNull\<rparr>"

definition context_from_dto :: "signing_context_dto \<Rightarrow> signing_context" where
  "context_from_dto d = \<lparr>ctx_chain_id = scd_chain_id d, ctx_vm_type = scd_vm_type d, ctx_extra = scd_extra d\<rparr>"

record sign_request_dto =
  srd_payload :: signing_payload_dto
  srd_requester :: requester_dto
  srd_hd_path :: "string option"
  srd_hash_alg :: hash_alg_dto
  srd_context :: "signing_context_dto option"

definition hd_path_parsed :: "api_crates \<Rightarrow> sign_request_dto \<Rightarrow> (api_error, hd_path option) outcome" where
  "hd_path_parsed cr req =
     (case srd_hd_path req of
        None \<Rightarrow> Ok None
      | Some s \<Rightarrow> obind (map_err (\<lambda>e. BadRequest (''invalid hd_path: '' @ hc_path_text cr e)) (hd_path_from_str s)) (\<lambda>p. Ok (Some p)))"

record sign_response =
  sre_signature_hex :: string
  sre_public_key_hex :: string
  sre_attestation :: json

subsection \<open>Audit events\<close>

record audit_events_query =
  aeq_wallet_id :: "string option"
  aeq_limit :: "nat option"

record audit_event_view =
  aev_event_id :: string
  aev_prev_event_hash_hex :: string
  aev_timestamp_unix_ms :: i64
  aev_actor :: json
  aev_kind :: audit_kind_dto
  aev_request_id :: "string option"
  aev_wallet_id :: "string option"
  aev_details :: json
  aev_server_signature_hex :: string

definition audit_event_view_from :: "api_crates \<Rightarrow> audit_event \<Rightarrow> audit_event_view" where
  "audit_event_view_from cr e =
     \<lparr>aev_event_id = hc_ulid cr (event_ulid (ev_event_id e)), aev_prev_event_hash_hex = hex_encode (ev_prev_event_hash e),
      aev_timestamp_unix_ms = ev_timestamp_unix_ms e,
      aev_actor = (case hc_actor_json cr (ev_actor e) of Some j \<Rightarrow> j | None \<Rightarrow> JNull), aev_kind = audit_kind_to_dto (ev_kind e),
      aev_request_id = map_option (\<lambda>r. hc_ulid cr (request_ulid r)) (ev_request_id e),
      aev_wallet_id = map_option (\<lambda>w. hc_ulid cr (wallet_ulid w)) (ev_wallet_id e), aev_details = ev_details e,
      aev_server_signature_hex = hex_encode (ev_server_signature e)\<rparr>"

subsection \<open>Approvers and approvals\<close>

datatype approver_identity_dto =
    ChainDto u64 string string signing_scheme_dto
  | ExternalDto string string signing_scheme_dto
  | HardwareDto string string signing_scheme_dto
  | NestedWalletDto string string signing_scheme_dto

fun identity_into_domain :: "api_crates \<Rightarrow> approver_identity_dto \<Rightarrow> (api_error, approver_identity) outcome" where
  "identity_into_domain cr (ChainDto chain address_hex public_key_hex scheme) =
     obind (hex_field cr ''address_hex'' address_hex) (\<lambda>a.
     obind (hex_field cr ''public_key_hex'' public_key_hex) (\<lambda>pk. Ok (ChainAccount chain a pk (scheme_from_dto scheme))))"
| "identity_into_domain cr (ExternalDto i public_key_hex scheme) =
     obind (hex_field cr ''public_key_hex'' public_key_hex) (\<lambda>pk. Ok (ExternalKey i pk (scheme_from_dto scheme)))"
| "identity_into_domain cr (HardwareDto handle public_key_hex scheme) =
     obind (hex_field cr ''public_key_hex'' public_key_hex) (\<lambda>pk.
     Ok (Hardware \<lparr>hah_handle = handle, hah_public_key = pk, hah_scheme = scheme_from_dto scheme\<rparr>))"
| "identity_into_domain cr (NestedWalletDto s public_key_hex scheme) =
     obind (parse_field cr ''wallet_id'' WalletId s) (\<lambda>w.
     obind (hex_field cr ''public_key_hex'' public_key_hex) (\<lambda>pk. Ok (NestedWallet w pk (scheme_from_dto scheme))))"

fun identity_to_dto :: "api_crates \<Rightarrow> approver_identity \<Rightarrow> approver_identity_dto" where
  "identity_to_dto cr (ChainAccount chain a pk scheme) = ChainDto chain (hex_encode a) (hex_encode pk) (scheme_to_dto scheme)"
| "identity_to_dto cr (ExternalKey i pk scheme) = ExternalDto i (hex_encode pk) (scheme_to_dto scheme)"
| "identity_to_dto cr (Hardware h) = HardwareDto (hah_handle h) (hex_encode (hah_public_key h)) (scheme_to_dto (hah_scheme h))"
| "identity_to_dto cr (NestedWallet w pk scheme) = NestedWalletDto (hc_ulid cr (wallet_ulid w)) (hex_encode pk) (scheme_to_dto scheme)"

record create_approver_request =
  car_identity :: approver_identity_dto
  car_label :: string
  car_owner_id :: string
  car_webhook_url :: "string option"

record approver_view =
  av_approver_id :: string
  av_identity :: approver_identity_dto
  av_scheme :: signing_scheme_dto
  av_label :: string
  av_owner_id :: string
  av_webhook_url :: "string option"
  av_status :: approver_status_dto
  av_added_at_unix_ms :: i64

definition approver_view_from :: "api_crates \<Rightarrow> approver_record \<Rightarrow> approver_view" where
  "approver_view_from cr r =
     \<lparr>av_approver_id = hc_ulid cr (approver_ulid (rec_approver_id r)), av_identity = identity_to_dto cr (rec_identity r),
      av_scheme = scheme_to_dto (rec_scheme r), av_label = rec_label r, av_owner_id = owner_str (rec_owner_id r),
      av_webhook_url = rec_webhook_url r, av_status = approver_status_to_dto (rec_status r),
      av_added_at_unix_ms = rec_added_at_unix_ms r\<rparr>"

record create_approver_set_request =
  csr_name :: string
  csr_owner_id :: string
  csr_members :: "string list"
  csr_threshold :: u8
  csr_total :: u8
  csr_quorum_timeout_secs :: "u32 option"

definition set_into_domain :: "api_crates \<Rightarrow> create_approver_set_request \<Rightarrow> (api_error, approver_set_create) outcome" where
  "set_into_domain cr req =
     obind (omap (parse_field cr ''approver_id'' ApproverId) (csr_members req)) (\<lambda>members.
     Ok \<lparr>sc_name = csr_name req, sc_owner_id = OwnerId (csr_owner_id req), sc_members = members,
         sc_threshold = csr_threshold req, sc_total = csr_total req, sc_quorum_timeout_secs = csr_quorum_timeout_secs req\<rparr>)"

record approver_set_view =
  asv_approver_set_id :: string
  asv_name :: string
  asv_owner_id :: string
  asv_members :: "string list"
  asv_threshold :: u8
  asv_total :: u8
  asv_quorum_timeout_secs :: "u32 option"
  asv_created_at_unix_ms :: i64

definition approver_set_view_from :: "api_crates \<Rightarrow> approver_set \<Rightarrow> approver_set_view" where
  "approver_set_view_from cr s =
     \<lparr>asv_approver_set_id = hc_ulid cr (approver_set_ulid (set_id s)), asv_name = set_name s, asv_owner_id = owner_str (set_owner_id s),
      asv_members = map (\<lambda>m. hc_ulid cr (approver_ulid m)) (set_members s), asv_threshold = set_threshold s, asv_total = set_total s,
      asv_quorum_timeout_secs = set_quorum_timeout_secs s, asv_created_at_unix_ms = set_created_at_unix_ms s\<rparr>"

record submit_approval_request =
  sar_approver_id :: string
  sar_approval_id :: string
  sar_decision :: approval_decision_dto
  sar_signature_hex :: string
  sar_timestamp_unix_ms :: i64
  sar_message_hash_hex :: string
  sar_identity :: approver_identity_dto

record submit_approval_response =
  sap_recorded :: bool
  sap_approval_id :: string

record approval_view =
  apv_approval_id :: string
  apv_request_id :: string
  apv_approver :: approver_identity_dto
  apv_approver_key :: string
  apv_decision :: approval_decision_dto
  apv_message_hash_hex :: string
  apv_timestamp_unix_ms :: i64
  apv_signature_hex :: string

definition approval_view_from :: "api_crates \<Rightarrow> signed_approval \<Rightarrow> approval_view" where
  "approval_view_from cr a =
     \<lparr>apv_approval_id = hc_ulid cr (approval_ulid (ap_approval_id a)), apv_request_id = hc_ulid cr (request_ulid (ap_request_id a)),
      apv_approver = identity_to_dto cr (ap_approver a), apv_approver_key = identity_key (hc_ulid cr) (ap_approver a),
      apv_decision = decision_to_dto (ap_decision a), apv_message_hash_hex = hex_encode (ap_message_hash a),
      apv_timestamp_unix_ms = ap_timestamp_unix_ms a, apv_signature_hex = hex_encode (ap_signature a)\<rparr>"

text \<open>\<open>hash_field\<close> is the conversion of hexadecimal text to 32 bytes, made twice for one submission.\<close>

definition hash_field :: "api_crates \<Rightarrow> string \<Rightarrow> (api_error, bytes) outcome" where
  "hash_field cr s =
     obind (hex_field cr ''message_hash_hex'' s) (\<lambda>msg.
     if length msg = 32 then Ok msg else Err (BadRequest ''message_hash_hex must be 32 bytes''))"

definition into_signed :: "api_crates \<Rightarrow> submit_approval_request \<Rightarrow> request_id \<Rightarrow> (api_error, signed_approval \<times> approver_id) outcome" where
  "into_signed cr req rid =
     obind (parse_field cr ''approver_id'' ApproverId (sar_approver_id req)) (\<lambda>who.
     obind (parse_field cr ''approval_id'' ApprovalId (sar_approval_id req)) (\<lambda>aid.
     obind (hex_field cr ''signature_hex'' (sar_signature_hex req)) (\<lambda>sig.
     obind (hash_field cr (sar_message_hash_hex req)) (\<lambda>hash.
     obind (identity_into_domain cr (sar_identity req)) (\<lambda>identity.
     Ok (\<lparr>ap_approval_id = aid, ap_approver = identity, ap_request_id = rid, ap_message_hash = hash,
          ap_decision = decision_from_dto (sar_decision req), ap_timestamp_unix_ms = sar_timestamp_unix_ms req,
          ap_signature = sig\<rparr>, who))))))"

subsection \<open>What the conversions rely on\<close>

text \<open>
  Text written for an identifier or for bytes is read back.
\<close>

definition api_laws :: "api_crates \<Rightarrow> bool" where
  "api_laws cr \<longleftrightarrow> ulid_text (hc_ulid cr) \<and> (\<forall>u. hc_ulid_parse cr (hc_ulid cr u) = Inr u) \<and>
     (\<forall>b. hc_hex_decode cr (hex_encode b) = Inr b)"

lemma scheme_dto_inverse [simp]: "scheme_from_dto (scheme_to_dto s) = s"
  by (cases s) simp_all

lemma decision_dto_inverse [simp]: "decision_from_dto (decision_to_dto d) = d"
  by (cases d) simp_all

lemma parse_field_text [simp]: "api_laws cr \<Longrightarrow> parse_field cr f con (hc_ulid cr u) = Ok (con u)"
  by (simp add: api_laws_def parse_field_def)

lemma hex_field_text [simp]: "api_laws cr \<Longrightarrow> hex_field cr f (hex_encode b) = Ok b"
  by (simp add: api_laws_def hex_field_def)

lemma hash_field_text: "api_laws cr \<Longrightarrow> length b = 32 \<Longrightarrow> hash_field cr (hex_encode b) = Ok b"
  by (simp add: hash_field_def)

lemma identity_dto_round_trip: "api_laws cr \<Longrightarrow> identity_into_domain cr (identity_to_dto cr i) = Ok i"
  by (cases i) simp_all

end
