(* ===== verification/Reference_Codec.thy ===== *)
theory Reference_Codec
  imports Audit_Log
begin

text \<open>
  An executable stand-in for the JSON serialiser of audit events, for concrete runs of the server: every
  value is a list of numbers, written in decimal with a comma after each. It encodes every event and is
  decoded without loss, as the laws of \<open>audit_laws\<close> ask.
\<close>

subsection \<open>Numbers as text\<close>

definition write_tokens :: "nat list \<Rightarrow> string" where
  "write_tokens ts = concat (map (\<lambda>n. show_nat n @ '','') ts)"

definition read_tokens :: "string \<Rightarrow> nat list" where
  "read_tokens s = map dec_value (butlast (split_on (CHR '','') s))"

lemma comma_not_digit: "CHR '','' \<notin> set (show_nat n)"
  using show_nat_digits [of n] by (auto simp: is_digit_def)

lemma read_write_tokens [simp]: "read_tokens (write_tokens ts) = ts"
proof -
  have "split_on (CHR '','') (write_tokens ts) = map show_nat ts @ [[]]"
    by (induction ts) (simp_all add: write_tokens_def comma_not_digit)
  then show ?thesis by (simp add: read_tokens_def comp_def)
qed

lemma write_tokens_chars: "c \<in> set (write_tokens ts) \<Longrightarrow> c = CHR '','' \<or> is_digit c"
  by (auto simp: write_tokens_def split: if_splits dest: bspec [OF show_nat_digits])

subsection \<open>Values as numbers\<close>

definition put_string :: "string \<Rightarrow> nat list" where
  "put_string s = length s # map of_char s"

definition get_string :: "nat list \<Rightarrow> (string \<times> nat list) option" where
  "get_string ts = (case ts of [] \<Rightarrow> None | n # r \<Rightarrow> Some (map char_of (take n r), drop n r))"

definition put_bytes :: "bytes \<Rightarrow> nat list" where
  "put_bytes b = length b # map unat b"

definition get_bytes :: "nat list \<Rightarrow> (bytes \<times> nat list) option" where
  "get_bytes ts = (case ts of [] \<Rightarrow> None | n # r \<Rightarrow> Some (map word_of_nat (take n r), drop n r))"

definition put_int :: "int \<Rightarrow> nat list" where
  "put_int i = [of_bool (i < 0), nat \<bar>i\<bar>]"

definition get_int :: "nat list \<Rightarrow> (int \<times> nat list) option" where
  "get_int ts = (case ts of s # n # r \<Rightarrow> Some (if s = 0 then int n else - int n, r) | _ \<Rightarrow> None)"

lemma get_put [simp]:
  "get_string (put_string s @ rest) = Some (s, rest)"
  "get_bytes (put_bytes b @ rest) = Some (b, rest)"
  "get_int (put_int i @ rest) = Some (i, rest)"
  by (simp_all add: get_string_def put_string_def get_bytes_def put_bytes_def get_int_def put_int_def comp_def)

primrec get_many :: "(nat list \<Rightarrow> ('a \<times> nat list) option) \<Rightarrow> nat \<Rightarrow> nat list \<Rightarrow> ('a list \<times> nat list) option" where
  "get_many g 0 ts = Some ([], ts)"
| "get_many g (Suc n) ts = Option.bind (g ts) (\<lambda>(x, r). Option.bind (get_many g n r) (\<lambda>(xs, r'). Some (x # xs, r')))"

lemma get_many_put:
  assumes "\<And>x rest. x \<in> set xs \<Longrightarrow> g (p x @ rest) = Some (x, rest)"
  shows "get_many g (length xs) (concat (map p xs) @ rest) = Some (xs, rest)"
  using assms by (induction xs arbitrary: rest) auto

primrec put_json :: "json \<Rightarrow> nat list" where
  "put_json JNull = [0]"
| "put_json (JBool b) = [1, of_bool b]"
| "put_json (JNum i) = 2 # put_int i"
| "put_json (JStr s) = 3 # put_string s"
| "put_json (JArr js) = 4 # length js # concat (map put_json js)"
| "put_json (JObj kvs) = 5 # length kvs # concat (map (\<lambda>kv. put_string (fst kv) @ snd kv) (map (map_prod id put_json) kvs))"

primrec get_json :: "nat \<Rightarrow> nat list \<Rightarrow> (json \<times> nat list) option" where
  "get_json 0 ts = None"
| "get_json (Suc f) ts =
     (case ts of
        [] \<Rightarrow> None
      | t # r \<Rightarrow>
          if t = 0 then Some (JNull, r)
          else if t = 1 then (case r of [] \<Rightarrow> None | b # r' \<Rightarrow> Some (JBool (b = 1), r'))
          else if t = 2 then map_option (map_prod JNum id) (get_int r)
          else if t = 3 then map_option (map_prod JStr id) (get_string r)
          else if t = 4 then (case r of [] \<Rightarrow> None | n # r' \<Rightarrow> map_option (map_prod JArr id) (get_many (get_json f) n r'))
          else (case r of [] \<Rightarrow> None | n # r' \<Rightarrow> map_option (map_prod JObj id) (get_many
            (\<lambda>ts. Option.bind (get_string ts) (\<lambda>(k, r). Option.bind (get_json f r) (\<lambda>(v, r'). Some ((k, v), r')))) n r')))"

lemma length_concat_ge: "x \<in> set xs \<Longrightarrow> length (p x) \<le> length (concat (map p xs))"
  by (induction xs) auto

lemma get_put_json: "length (put_json j) \<le> f \<Longrightarrow> get_json f (put_json j @ rest) = Some (j, rest)"
proof (induction j arbitrary: f rest)
  case (JArr js)
  from JArr.prems obtain k where f: "f = Suc k" "length (concat (map put_json js)) \<le> k" by (cases f) auto
  have "get_json k (put_json x @ r) = Some (x, r)" if "x \<in> set js" for x r
    using JArr.IH [OF that] length_concat_ge [OF that, of put_json] f(2) by simp
  from get_many_put [of js "get_json k" put_json, OF this] show ?case by (simp add: f(1))
next
  case (JObj kvs)
  let ?p = "\<lambda>kv. put_string (fst kv) @ put_json (snd kv)"
  from JObj.prems obtain k where f: "f = Suc k" "length (concat (map ?p kvs)) \<le> k" by (cases f) (auto simp: comp_def)
  let ?g = "\<lambda>ts. Option.bind (get_string ts) (\<lambda>(key, r). Option.bind (get_json k r) (\<lambda>(v, r'). Some ((key, v), r')))"
  have "?g (?p kv @ r) = Some (kv, r)" if "kv \<in> set kvs" for kv r
  proof -
    have "length (put_json (snd kv)) \<le> k" using length_concat_ge [OF that, of ?p] f(2) by simp
    then show ?thesis using JObj.IH [OF that, of "snd kv"] by (simp add: snds.intros)
  qed
  from get_many_put [of kvs ?g ?p, OF this] show ?case by (simp add: f(1) comp_def)
next
  case (JBool b)
  then show ?case by (cases f) auto
next
  case (JNum i)
  then show ?case by (cases f) auto
next
  case (JStr s)
  then show ?case by (cases f) auto
qed (auto simp: gr0_conv_Suc Suc_le_eq)

subsection \<open>Events as numbers\<close>

definition put_opt :: "ulid option \<Rightarrow> nat list" where
  "put_opt u = (case u of None \<Rightarrow> [0, 0] | Some u \<Rightarrow> [1, unat u])"

definition get_opt :: "nat list \<Rightarrow> (ulid option \<times> nat list) option" where
  "get_opt ts = (case ts of s # n # r \<Rightarrow> Some (if s = 0 then None else Some (word_of_nat n), r) | _ \<Rightarrow> None)"

primrec put_actor :: "actor \<Rightarrow> nat list" where
  "put_actor (ActorRequester s) = 0 # put_string s"
| "put_actor (ActorApprover s) = 1 # put_string s"
| "put_actor ActorSystem = 2 # put_string []"
| "put_actor ActorEnclave = 3 # put_string []"

definition get_actor :: "nat list \<Rightarrow> (actor \<times> nat list) option" where
  "get_actor ts = (case ts of [] \<Rightarrow> None | t # r \<Rightarrow> map_option (map_prod (\<lambda>s.
     if t = 0 then ActorRequester s else if t = 1 then ActorApprover s else if t = 2 then ActorSystem else ActorEnclave) id) (get_string r))"

definition put_event :: "audit_event \<Rightarrow> nat list" where
  "put_event e = unat (event_ulid (ev_event_id e)) # unat (kind_byte (ev_kind e)) # put_bytes (ev_prev_event_hash e) @
     put_int (ev_timestamp_unix_ms e) @ put_actor (ev_actor e) @ put_opt (map_option request_ulid (ev_request_id e)) @
     put_opt (map_option wallet_ulid (ev_wallet_id e)) @ put_bytes (ev_server_signature e) @ put_json (ev_details e)"

definition get_event :: "nat list \<Rightarrow> audit_event option" where
  "get_event ts =
     (case ts of
        i # k # r0 \<Rightarrow>
          Option.bind (find (\<lambda>kd. unat (kind_byte kd) = k) all_kinds) (\<lambda>kind.
          Option.bind (get_bytes r0) (\<lambda>(prev, r1).
          Option.bind (get_int r1) (\<lambda>(t, r2).
          Option.bind (get_actor r2) (\<lambda>(act, r3).
          Option.bind (get_opt r3) (\<lambda>(rid, r4).
          Option.bind (get_opt r4) (\<lambda>(wid, r5).
          Option.bind (get_bytes r5) (\<lambda>(sig, r6).
          Option.bind (get_json (length r6) r6) (\<lambda>(details, r7).
          if length prev = 32 then
            Some \<lparr>ev_event_id = EventId (word_of_nat i), ev_prev_event_hash = prev, ev_timestamp_unix_ms = t, ev_actor = act, ev_kind = kind,
              ev_request_id = map_option RequestId rid, ev_wallet_id = map_option WalletId wid, ev_details = details, ev_server_signature = sig\<rparr>
          else None))))))))
      | _ \<Rightarrow> None)"

lemma get_put_parts [simp]:
  "get_opt (put_opt u @ rest) = Some (u, rest)" "get_actor (put_actor a @ rest) = Some (a, rest)"
  by (cases u; simp add: get_opt_def put_opt_def) (cases a; simp add: get_actor_def)

lemma find_kind_byte: "find (\<lambda>kd. unat (kind_byte kd) = unat (kind_byte k)) all_kinds = Some k"
  by (cases k) (simp_all add: all_kinds_def)

lemma get_put_event:
  assumes "length (ev_prev_event_hash e) = 32"
  shows "get_event (put_event e) = Some e"
proof -
  have json: "get_json (length (put_json j)) (put_json j) = Some (j, [])" for j
    using get_put_json [of j "length (put_json j)" "[]"] by simp
  have ids: "map_option RequestId (map_option request_ulid r) = r" "map_option WalletId (map_option wallet_ulid w) = w" for r w
    by (cases r; simp) (cases w; simp)
  show ?thesis
    using assms by (cases e) (simp add: get_event_def put_event_def find_kind_byte json ids)
qed

definition event_to_vec :: "audit_event \<Rightarrow> string + bytes" where
  "event_to_vec e = Inr (as_bytes (write_tokens (put_event e)))"

definition event_from_slice :: "bytes \<Rightarrow> string + audit_event" where
  "event_from_slice l = (case get_event (read_tokens (map (\<lambda>w. char_of (unat w)) l)) of None \<Rightarrow> Inl ''expected value'' | Some e \<Rightarrow> Inr e)"

definition full_audit_crates :: audit_crates where
  "full_audit_crates = ref_audit_crates\<lparr>au_to_vec := event_to_vec, au_from_slice := event_from_slice\<rparr>"

lemma full_audit_laws: "audit_laws full_audit_crates"
proof -
  have ref: "audit_laws ref_audit_crates" by (rule ref_audit_laws)
  have nl: "10 \<notin> set (as_bytes (write_tokens ts))" for ts
  proof
    assume "10 \<in> set (as_bytes (write_tokens ts))"
    then obtain c where c: "c \<in> set (write_tokens ts)" "word_of_nat (of_char c) = (10 :: u8)" by (auto simp: as_bytes_def)
    have "of_char c < (256 :: nat)" by simp
    then have "unat (word_of_nat (of_char c) :: u8) = of_char c" unfolding unat_of_nat by simp
    then have "of_char c = (10 :: nat)" unfolding c(2) by simp
    with write_tokens_chars [OF c(1)] show False by (auto simp: is_digit_def)
  qed
  have ne: "as_bytes (write_tokens (put_event e)) \<noteq> []" for e
    by (simp add: as_bytes_def write_tokens_def put_event_def)
  have inverse: "event_from_slice (as_bytes (write_tokens (put_event e))) = Inr e" if "length (ev_prev_event_hash e) = 32" for e
    by (simp add: event_from_slice_def as_bytes_chars get_put_event [OF that])
  have len: "length (ev_prev_event_hash e) = 32" if "get_event ts = Some e" for ts e
    using that by (auto simp: get_event_def split: list.splits if_splits bind_splits)
  show ?thesis
    using ref nl ne inverse len
    by (auto simp: audit_laws_def full_audit_crates_def event_to_vec_def event_from_slice_def split: option.splits)
qed

end
