(* ===== verification/Server_Wiring.thy ===== *)
theory Server_Wiring
  imports Wallet_Service Reference_Codec
begin

text \<open>
  The service on its backends, as the binary puts them together (\<open>main.rs\<close>): the in-process enclave,
  the in-memory share store, a policy, a quorum approver, the file audit sink, the in-memory approver
  registry and approval store.

  The world is the state of these backends and a counter. What the operating system supplies (fresh
  identifiers, clock readings, random bytes, write faults) is a sequence indexed by the counter, which
  advances at every use. One request runs at a time, except that approvals may arrive while a collector waits.
\<close>

subsection \<open>The world\<close>

record 'p world =
  wo_sink :: file_audit_sink
  wo_log :: log_file
  wo_shares :: mock_store
  wo_policy :: 'p
  wo_registry :: registry
  wo_approvals :: approval_store
  wo_quorum :: mock_quorum
  wo_tick :: nat

record 'r environment =
  env_ulid :: "nat \<Rightarrow> ulid"
  env_clock :: "nat \<Rightarrow> int"
  env_entropy :: "nat \<Rightarrow> nat \<Rightarrow> u8"
  env_rng :: "nat \<Rightarrow> nat \<Rightarrow> 'r"
  env_nonce :: "nat \<Rightarrow> bytes"
  env_fault :: "nat \<Rightarrow> (log_fault \<times> string) option"

record ('x, 'sc, 'r, 'p) wiring =
  wi_audit :: audit_crates
  wi_enclave :: "('x, 'sc, 'r) enclave_crates"
  wi_mock :: mock_enclave
  wi_evaluate :: "decision_id \<Rightarrow> 'p \<Rightarrow> signing_request \<Rightarrow> (policy_error, policy_decision) outcome \<times> 'p"
  wi_request :: "approval_request \<Rightarrow> mock_quorum \<Rightarrow> (quorum_error, unit) outcome \<times> mock_quorum"
  wi_collect :: "nat \<Rightarrow> request_id \<Rightarrow> u8 \<Rightarrow> nat \<Rightarrow> mock_quorum \<times> approval_store \<Rightarrow>
     ((quorum_error, signed_approval list) outcome \<times> mock_quorum \<times> approval_store) option"
  wi_decision_json :: "policy_decision \<Rightarrow> bytes"
  wi_env :: "'r environment"

definition advance :: "nat \<Rightarrow> 'p world \<Rightarrow> 'p world" where
  "advance n w = w\<lparr>wo_tick := wo_tick w + n\<rparr>"

definition wired_emit :: "('x, 'sc, 'r, 'p) wiring \<Rightarrow> audit_event_draft \<Rightarrow> ('p world, audit_error, audit_event) proc" where
  "wired_emit wi d w =
     (case emit (wi_audit wi) (env_fault (wi_env wi) (wo_tick w)) (EventId (env_ulid (wi_env wi) (wo_tick w)))
         (env_clock (wi_env wi) (wo_tick w)) d (wo_sink w) (wo_log w) of
        (r, sink, log) \<Rightarrow> Some (r, (advance 1 w)\<lparr>wo_sink := sink, wo_log := log\<rparr>))"

definition wired :: "('x, 'sc, 'r, 'p) wiring \<Rightarrow> 'p world backends" where
  "wired wi = (let env = wi_env wi in
     \<lparr>be_generate_wallet = (\<lambda>g w. Some (generate_wallet (wi_enclave wi) (wi_mock wi) (env_entropy env (wo_tick w)) (env_rng env (wo_tick w))
        (env_clock env (wo_tick w)) (env_nonce env (wo_tick w)) g, advance 1 w)),
      be_sign_in_enclave = (\<lambda>req w. Some (sign_in_enclave (wi_enclave wi) (wi_mock wi) (env_clock env (wo_tick w)) (env_clock env (wo_tick w + 1))
        (env_clock env (wo_tick w + 2)) (env_nonce env (wo_tick w)) req, advance 3 w)),
      be_put = (\<lambda>sh w. case mock_put () sh (wo_shares w) of (r, s) \<Rightarrow> Some (r, w\<lparr>wo_shares := s\<rparr>)),
      be_get = (\<lambda>sid w. Some (mock_get sid (wo_shares w), w)),
      be_list = (\<lambda>wid w. Some (mock_list wid (wo_shares w), w)),
      be_evaluate = (\<lambda>req w. case wi_evaluate wi (DecisionId (env_ulid env (wo_tick w))) (wo_policy w) req of
        (r, p) \<Rightarrow> Some (r, (advance 1 w)\<lparr>wo_policy := p\<rparr>)),
      be_request_approval = (\<lambda>req w. case wi_request wi req (wo_quorum w) of (r, q) \<Rightarrow> Some (r, w\<lparr>wo_quorum := q\<rparr>)),
      be_collect_approvals = (\<lambda>rid threshold timeout w. map_option (\<lambda>(r, q, a). (r, (advance 1 w)\<lparr>wo_quorum := q, wo_approvals := a\<rparr>))
        (wi_collect wi (wo_tick w) rid threshold timeout (wo_quorum w, wo_approvals w))),
      be_emit = wired_emit wi,
      be_get_approver = (\<lambda>who w. Some (get_approver who (wo_registry w), w)),
      be_get_approver_set = (\<lambda>sid w. Some (get_approver_set sid (wo_registry w), w)),
      be_record_approval = (\<lambda>a who w. case record_approval a who (wo_approvals w) of (r, s) \<Rightarrow> Some (r, w\<lparr>wo_approvals := s\<rparr>)),
      be_ulid = (\<lambda>w. (env_ulid env (wo_tick w), advance 1 w)),
      be_clock = (\<lambda>w. (env_clock env (wo_tick w), advance 1 w))\<rparr>)"

text \<open>A \<open>LocalPolicyServiceSigner\<close> on the same clock.\<close>

definition local_signer :: "('x, 'sc, 'r, 'p) wiring \<Rightarrow> bytes \<Rightarrow> 'p world policy_service_signer" where
  "local_signer wi key =
     \<lparr>pss_sign_decision = (\<lambda>d rid wid age w. Some (sign_decision (wi_decision_json wi) (hv_ulid (en_hybrid (wi_enclave wi)))
        (ed_sign (en_sign (wi_enclave wi)) key) (env_clock (wi_env wi) (wo_tick w)) d rid wid age, advance 1 w)),
      pss_public_key = ed_public (en_sign (wi_enclave wi)) key\<rparr>"

definition server_service :: "('x, 'sc, 'r, 'p) wiring \<Rightarrow> bytes option \<Rightarrow> nat \<Rightarrow> 'p world wallet_service" where
  "server_service wi sg timeout = (case sg of
       None \<Rightarrow> with_quorum_timeout (service_new (wired wi)) timeout
     | Some key \<Rightarrow> with_policy_service_signer (with_quorum_timeout (service_new (wired wi)) timeout) (local_signer wi key))"

text \<open>
  The wiring of the binary. Its policy allows everything; its approver is the mock one, which does not read
  the approval store; \<open>polls\<close> gives what the collector sees at each poll and \<open>elapsed\<close> the time passed.
\<close>

definition main_wiring :: "audit_crates \<Rightarrow> ('x, 'sc, 'r) enclave_crates \<Rightarrow> mock_enclave \<Rightarrow> policy_id \<Rightarrow> (policy_decision \<Rightarrow> bytes) \<Rightarrow>
   'r environment \<Rightarrow> (nat \<Rightarrow> mock_quorum \<Rightarrow> nat \<Rightarrow> mock_quorum) \<Rightarrow> (nat \<Rightarrow> nat \<Rightarrow> nat) \<Rightarrow> ('x, 'sc, 'r, unit) wiring" where
  "main_wiring au en mock pid json env polls elapsed =
     \<lparr>wi_audit = au, wi_enclave = en, wi_mock = mock,
      wi_evaluate = (\<lambda>d p req. (static_evaluate (hv_ulid (en_hybrid en)) (allow_all pid) d req, p)),
      wi_request = mock_request_approval,
      wi_collect = (\<lambda>t rid threshold timeout (q, a).
        map_option (\<lambda>r. (r, polls t q 0, a)) (mock_collect_from (polls t q) (elapsed t) rid threshold timeout 0)),
      wi_decision_json = json, wi_env = env\<rparr>"

lemma server_service_fields [simp]:
  "ws_backends (server_service wi sg timeout) = wired wi"
  "ws_policy_service_signer (server_service wi sg timeout) = map_option (local_signer wi) sg"
  by (simp_all add: server_service_def with_quorum_timeout_def with_policy_service_signer_def service_new_def split: option.split)

subsection \<open>The audit trail of the wired server\<close>

definition draft_of :: "audit_event \<Rightarrow> audit_event_draft" where
  "draft_of e = \<lparr>dr_actor = ev_actor e, dr_kind = ev_kind e, dr_request_id = ev_request_id e, dr_wallet_id = ev_wallet_id e,
     dr_details = ev_details e\<rparr>"

definition logged :: "('x, 'sc, 'r, 'p) wiring \<Rightarrow> 'p world \<Rightarrow> audit_event_draft list" where
  "logged wi w = (case omap (parse_event (wi_audit wi)) (log_lines (log_bytes (wo_log w))) of Ok es \<Rightarrow> map draft_of es | _ \<Rightarrow> [])"

definition world_inv :: "('x, 'sc, 'r, 'p) wiring \<Rightarrow> 'p world \<Rightarrow> bool" where
  "world_inv wi w \<longleftrightarrow> audit_laws (wi_audit wi) \<and> sink_synced (wi_audit wi) (wo_sink w) (wo_log w)"

lemma world_inv_same:
  "wo_sink w' = wo_sink w \<Longrightarrow> wo_log w' = wo_log w \<Longrightarrow> world_inv wi w \<Longrightarrow> world_inv wi w' \<and> logged wi w' = logged wi w"
  by (simp add: world_inv_def logged_def)

lemma draft_of_stamp [simp]: "draft_of (stamp_event cr key prev eid now d) = d"
  by (simp add: draft_of_def stamp_event_def Let_def)

lemma replayed_parses: "ofold (replay_line cr pk) st ls = Ok st' \<Longrightarrow> \<exists>es. omap (parse_event cr) ls = Ok es"
  by (induction ls arbitrary: st) (auto simp: outcome_simps replay_line_def)

lemma omap_append_one: "omap f xs = Ok ys \<Longrightarrow> f x = Ok y \<Longrightarrow> omap f (xs @ [x]) = Ok (ys @ [y])"
  by (induction xs arbitrary: ys) (auto simp: outcome_simps)

lemma wired_emit_logs:
  assumes "world_inv wi w" "wired_emit wi d w = Some (Ok e, w')"
  shows "world_inv wi w' \<and> logged wi w' = logged wi w @ [d]"
proof -
  from assms(2) obtain sink log where em: "emit (wi_audit wi) (env_fault (wi_env wi) (wo_tick w)) (EventId (env_ulid (wi_env wi) (wo_tick w)))
      (env_clock (wi_env wi) (wo_tick w)) d (wo_sink w) (wo_log w) = (Ok e, sink, log)"
    and w': "wo_sink w' = sink" "wo_log w' = log"
    by (auto simp: wired_emit_def split: prod.splits)
  from emit_Ok_no_fault [OF em] em have em: "emit (wi_audit wi) None (EventId (env_ulid (wi_env wi) (wo_tick w)))
      (env_clock (wi_env wi) (wo_tick w)) d (wo_sink w) (wo_log w) = (Ok e, sink, log)" by simp
  have laws: "audit_laws (wi_audit wi)" "sink_synced (wi_audit wi) (wo_sink w) (wo_log w)" using assms(1) by (simp_all add: world_inv_def)
  from emit_synced [OF laws em] obtain l where l: "sink_synced (wi_audit wi) sink log"
    "log_lines (log_bytes log) = log_lines (log_bytes (wo_log w)) @ [l]" "parse_event (wi_audit wi) l = Ok e" by blast
  have "draft_of e = d" using em by (auto simp: emit_no_fault)
  moreover obtain es where "omap (parse_event (wi_audit wi)) (log_lines (log_bytes (wo_log w))) = Ok es"
    using laws(2) replayed_parses unfolding sink_synced_def by blast
  ultimately show ?thesis
    using l laws(1) by (simp add: world_inv_def logged_def w' omap_append_one)
qed

text \<open>Calls that leave the audit log alone, and calls that leave the share store alone.\<close>

definition off_log :: "('p world, 'e, 'a) proc \<Rightarrow> bool" where
  "off_log m \<longleftrightarrow> (\<forall>w r w'. m w = Some (r, w') \<longrightarrow> wo_sink w' = wo_sink w \<and> wo_log w' = wo_log w)"

definition off_shares :: "('p world, 'e, 'a) proc \<Rightarrow> bool" where
  "off_shares m \<longleftrightarrow> (\<forall>w r w'. m w = Some (r, w') \<longrightarrow> wo_shares w' = wo_shares w \<and> wo_tick w \<le> wo_tick w')"

lemma off_log_silent: "off_log m \<Longrightarrow> silent (world_inv wi) (logged wi) m"
  unfolding off_log_def silent_def by (metis world_inv_same)

lemma advance_fields [simp]:
  "wo_sink (advance n w) = wo_sink w" "wo_log (advance n w) = wo_log w" "wo_shares (advance n w) = wo_shares w"
  "wo_policy (advance n w) = wo_policy w" "wo_registry (advance n w) = wo_registry w" "wo_approvals (advance n w) = wo_approvals w"
  "wo_quorum (advance n w) = wo_quorum w" "wo_tick (advance n w) = wo_tick w + n"
  by (simp_all add: advance_def)

lemma wired_enclave:
  "be_generate_wallet (wired wi) g w = Some (generate_wallet (wi_enclave wi) (wi_mock wi) (env_entropy (wi_env wi) (wo_tick w))
     (env_rng (wi_env wi) (wo_tick w)) (env_clock (wi_env wi) (wo_tick w)) (env_nonce (wi_env wi) (wo_tick w)) g, advance 1 w)"
  "be_sign_in_enclave (wired wi) req w = Some (sign_in_enclave (wi_enclave wi) (wi_mock wi) (env_clock (wi_env wi) (wo_tick w))
     (env_clock (wi_env wi) (wo_tick w + 1)) (env_clock (wi_env wi) (wo_tick w + 2)) (env_nonce (wi_env wi) (wo_tick w)) req, advance 3 w)"
  by (simp_all add: wired_def Let_def)

lemma wired_stores:
  "be_put (wired wi) sh w = Some (Ok (), w\<lparr>wo_shares := AList.update (sto_share_id sh) sh (wo_shares w)\<rparr>)"
  "be_get (wired wi) sid w = Some (mock_get sid (wo_shares w), w)"
  "be_list (wired wi) wid w = Some (mock_list wid (wo_shares w), w)"
  "be_get_approver (wired wi) who w = Some (get_approver who (wo_registry w), w)"
  "be_get_approver_set (wired wi) aset w = Some (get_approver_set aset (wo_registry w), w)"
  "be_record_approval (wired wi) a who w = Some (fst (record_approval a who (wo_approvals w)), w\<lparr>wo_approvals := snd (record_approval a who (wo_approvals w))\<rparr>)"
  by (simp_all add: wired_def Let_def mock_put_def split_beta)

lemma wired_rest:
  "be_evaluate (wired wi) sreq w = (let res = wi_evaluate wi (DecisionId (env_ulid (wi_env wi) (wo_tick w))) (wo_policy w) sreq in
     Some (fst res, (advance 1 w)\<lparr>wo_policy := snd res\<rparr>))"
  "be_request_approval (wired wi) areq w = (let res = wi_request wi areq (wo_quorum w) in Some (fst res, w\<lparr>wo_quorum := snd res\<rparr>))"
  "be_collect_approvals (wired wi) rid threshold timeout w = map_option (\<lambda>(r, q, a). (r, (advance 1 w)\<lparr>wo_quorum := q, wo_approvals := a\<rparr>))
     (wi_collect wi (wo_tick w) rid threshold timeout (wo_quorum w, wo_approvals w))"
  "be_emit (wired wi) = wired_emit wi"
  "be_ulid (wired wi) w = (env_ulid (wi_env wi) (wo_tick w), advance 1 w)"
  "be_clock (wired wi) w = (env_clock (wi_env wi) (wo_tick w), advance 1 w)"
  by (simp_all add: wired_def Let_def split_beta)

lemma local_signer_sign:
  "pss_sign_decision (local_signer wi key) d rid wid age w = Some (sign_decision (wi_decision_json wi) (hv_ulid (en_hybrid (wi_enclave wi)))
     (ed_sign (en_sign (wi_enclave wi)) key) (env_clock (wi_env wi) (wo_tick w)) d rid wid age, advance 1 w)"
  by (simp add: local_signer_def)

lemmas wired_calls = wired_enclave wired_stores wired_rest local_signer_sign

lemma wired_off_log:
  "off_log (be_generate_wallet (wired wi) g)" "off_log (be_sign_in_enclave (wired wi) req)" "off_log (be_put (wired wi) sh)"
  "off_log (be_get (wired wi) sid)" "off_log (be_list (wired wi) wid)" "off_log (be_evaluate (wired wi) sreq)"
  "off_log (be_request_approval (wired wi) areq)" "off_log (be_collect_approvals (wired wi) rid threshold timeout)"
  "off_log (be_get_approver (wired wi) who)" "off_log (be_get_approver_set (wired wi) aset)"
  "off_log (pss_sign_decision (local_signer wi key) dec rq wlt age)"
  unfolding off_log_def wired_calls Let_def by auto

lemma wired_off_shares:
  "off_shares (be_generate_wallet (wired wi) g)" "off_shares (be_sign_in_enclave (wired wi) req)"
  "off_shares (be_get (wired wi) sid)" "off_shares (be_list (wired wi) wid)" "off_shares (be_evaluate (wired wi) sreq)"
  "off_shares (be_request_approval (wired wi) areq)" "off_shares (be_collect_approvals (wired wi) rid threshold timeout)"
  "off_shares (be_get_approver (wired wi) who)" "off_shares (be_get_approver_set (wired wi) aset)"
  "off_shares (be_record_approval (wired wi) a who)" "off_shares (pss_sign_decision (local_signer wi key) dec rq wlt age)"
  "off_shares (wired_emit wi d)"
  unfolding off_shares_def wired_calls Let_def wired_emit_def by (auto split: prod.splits)

interpretation server: audit_trail "server_service wi sg timeout" "world_inv wi" "logged wi"
  for wi :: "('x, 'sc, 'r, 'p) wiring" and sg timeout
proof unfold_locales
  fix w d e w'
  assume "world_inv wi w" "be_emit (ws_backends (server_service wi sg timeout)) d w = Some (Ok e, w')"
  then show "world_inv wi w' \<and> logged wi w' = logged wi w @ [d]"
    by (intro wired_emit_logs) (simp_all add: wired_rest)
next
  fix sgn dec rq wlt age
  assume "ws_policy_service_signer (server_service wi sg timeout) = Some sgn"
  then show "silent (world_inv wi) (logged wi) (pss_sign_decision sgn dec rq wlt age)"
    by (auto intro: off_log_silent wired_off_log)
next
  fix w u w'
  assume "world_inv wi w" "be_ulid (ws_backends (server_service wi sg timeout)) w = (u, w')"
  then show "world_inv wi w' \<and> logged wi w' = logged wi w" using world_inv_same [of w' w wi] by (auto simp: wired_rest)
next
  fix w t w'
  assume "world_inv wi w" "be_clock (ws_backends (server_service wi sg timeout)) w = (t, w')"
  then show "world_inv wi w' \<and> logged wi w' = logged wi w" using world_inv_same [of w' w wi] by (auto simp: wired_rest)
qed (simp_all add: off_log_silent wired_off_log)

subsection \<open>Wallets and their shares\<close>

text \<open>
  \<open>backed wi lookup rec\<close>: the record is that of a wallet this enclave generated, and the store holds all the
  shares it was given, under the wallet's identifier, and no others.
\<close>

definition backed :: "('x, 'sc, 'r, 'p) wiring \<Rightarrow> (share_id \<rightharpoonup> stored_share) \<Rightarrow> wallet_record \<Rightarrow> bool" where
  "backed wi lookup rec \<longleftrightarrow> (\<exists>entropy rng t n g r. generate_wallet (wi_enclave wi) (wi_mock wi) entropy rng t n g = Ok r \<and>
     gen_scheme g = cfg_scheme (wr_config rec) \<and> gen_threshold g = cfg_threshold (wr_config rec) \<and> gen_master_hd_path g = None \<and>
     gresp_master_public_key r = wr_master_public_key rec \<and>
     (\<forall>sh \<in> set (gresp_shares r). \<exists>st. lookup \<lparr>sid_wallet_id = wr_wallet_id rec, sid_index = ss_index sh\<rparr> = Some st \<and> sto_share st = sh) \<and>
     (\<forall>sid. sid_wallet_id sid = wr_wallet_id rec \<and> lookup sid \<noteq> None \<longrightarrow> sid_index sid \<in> ss_index ` set (gresp_shares r)))"

definition issued :: "('x, 'sc, 'r, 'p) wiring \<Rightarrow> 'p world \<Rightarrow> wallet_id \<Rightarrow> bool" where
  "issued wi w wid \<longleftrightarrow> (\<exists>n < wo_tick w. wid = WalletId (env_ulid (wi_env wi) n))"

definition stores_inv :: "('x, 'sc, 'r, 'p) wiring \<Rightarrow> 'p world service_state \<Rightarrow> bool" where
  "stores_inv wi s \<longleftrightarrow> distinct (map fst (wo_shares (ss_world s))) \<and>
     (\<forall>sid \<in> fst ` set (wo_shares (ss_world s)). issued wi (ss_world s) (sid_wallet_id sid)) \<and>
     (\<forall>wid rec. ss_wallets s wid = Some rec \<longrightarrow> wr_wallet_id rec = wid \<and> issued wi (ss_world s) wid \<and>
        backed wi (map_of (wo_shares (ss_world s))) rec)"

text \<open>The invariant holds as long as the identifiers drawn so far are different.\<close>

definition fresh_ids :: "('x, 'sc, 'r, 'p) wiring \<Rightarrow> 'p world \<Rightarrow> bool" where
  "fresh_ids wi w \<longleftrightarrow> inj_on (env_ulid (wi_env wi)) {..<wo_tick w}"

definition service_inv :: "('x, 'sc, 'r, 'p) wiring \<Rightarrow> 'p world service_state \<Rightarrow> bool" where
  "service_inv wi s \<longleftrightarrow> (fresh_ids wi (ss_world s) \<longrightarrow> stores_inv wi s)"

lemma fresh_ids_mono: "fresh_ids wi w' \<Longrightarrow> wo_tick w \<le> wo_tick w' \<Longrightarrow> fresh_ids wi w"
  unfolding fresh_ids_def by (erule inj_on_subset) auto

lemma issued_mono: "issued wi w wid \<Longrightarrow> wo_tick w \<le> wo_tick w' \<Longrightarrow> issued wi w' wid"
  unfolding issued_def using order_less_le_trans by blast

lemma not_issued:
  assumes "fresh_ids wi w'" "wo_tick w < wo_tick w'"
  shows "\<not> issued wi w (WalletId (env_ulid (wi_env wi) (wo_tick w)))"
proof
  assume "issued wi w (WalletId (env_ulid (wi_env wi) (wo_tick w)))"
  then obtain n where n: "n < wo_tick w" "env_ulid (wi_env wi) (wo_tick w) = env_ulid (wi_env wi) n" by (auto simp: issued_def)
  with assms have "wo_tick w = n" unfolding fresh_ids_def by (intro inj_onD [of "env_ulid (wi_env wi)" "{..<wo_tick w'}"]) auto
  with n(1) show False by simp
qed

lemma stores_inv_mono:
  assumes "stores_inv wi s" "wo_shares (ss_world s') = wo_shares (ss_world s)" "wo_tick (ss_world s) \<le> wo_tick (ss_world s')" "ss_wallets s' = ss_wallets s"
  shows "stores_inv wi s'"
  using assms(1) issued_mono [OF _ assms(3)] unfolding stores_inv_def assms(2,4) by blast

lemma service_inv_mono:
  assumes "service_inv wi s" "wo_shares (ss_world s') = wo_shares (ss_world s)" "wo_tick (ss_world s) \<le> wo_tick (ss_world s')" "ss_wallets s' = ss_wallets s"
  shows "service_inv wi s'"
  using assms(1) stores_inv_mono [OF _ assms(2-4)] fresh_ids_mono [OF _ assms(3)] unfolding service_inv_def by blast

lemma off_shares_keeps: "off_shares m \<Longrightarrow> keeps (service_inv wi) (on_world m)"
  unfolding keeps_def off_shares_def on_world_def by (auto intro: service_inv_mono)

lemma keeps_parts:
  "keeps (service_inv wi) (fresh_ulid (server_service wi sg timeout))"
  "keeps (service_inv wi) (service_unix_ms (server_service wi sg timeout))"
  "keeps (service_inv wi) (audit_emit (server_service wi sg timeout) d)"
  "keeps (service_inv wi) (get_wallet wid)"
proof -
  show "keeps (service_inv wi) (fresh_ulid (server_service wi sg timeout))" unfolding fresh_ulid_def
    by (rule off_shares_keeps) (simp add: off_shares_def wired_rest)
  show "keeps (service_inv wi) (service_unix_ms (server_service wi sg timeout))" unfolding service_unix_ms_def
    by (rule off_shares_keeps) (simp add: off_shares_def wired_rest)
  show "keeps (service_inv wi) (audit_emit (server_service wi sg timeout) d)" unfolding audit_emit_def
    by (intro keeps_map_err off_shares_keeps) (simp add: wired_rest wired_off_shares)
  show "keeps (service_inv wi) (get_wallet wid)" by (auto simp: keeps_def get_wallet_def)
qed

lemma keeps_call: "off_shares m \<Longrightarrow> keeps (service_inv wi) (pmap_err g (on_world m))"
  by (intro keeps_map_err off_shares_keeps)

lemmas keeps_rules = keeps_bind keeps_pmap keeps_try keeps_call keeps_parts off_shares_keeps wired_off_shares keeps_if

lemma sign_keeps: "keeps (service_inv wi) (service_sign cr (server_service wi sg timeout) wid payload rq hd_path ctx alg)"
proof -
  let ?svc = "server_service wi sg timeout"
  have identities: "keeps (service_inv wi) (resolve_identities cr ?svc aset)" for aset
    unfolding resolve_identities_def by (cases aset) (auto intro!: keeps_rules)
  have outcome: "keeps (service_inv wi) (case result of
         Ok approvals \<Rightarrow> preturn approvals
       | Err (Timeout d) \<Rightarrow> pbind (audit_emit ?svc (ev d)) (\<lambda>_. pthrow (ServiceQuorum (Timeout d)))
       | Err e \<Rightarrow> pthrow (ServiceQuorum e)
       | Panic p \<Rightarrow> plift (Panic p))" for result ev
    by (auto intro!: keeps_rules split: outcome.split quorum_error.split)
  have verdict: "keeps (service_inv wi) (case find P as of Some reject \<Rightarrow> pthrow (err reject)
      | None \<Rightarrow> pbind (audit_emit ?svc ev) (\<lambda>_. preturn as))" for P as err ev
    by (auto intro!: keeps_rules split: option.split)
  have quorum: "keeps (service_inv wi) (quorum_stage cr ?svc rid wid h threshold sid)" for rid h threshold sid
    unfolding quorum_stage_def Let_def server_service_fields
    by (intro keeps_rules identities outcome verdict)
  have decision: "keeps (service_inv wi) (decision_stage cr ?svc rid wid h decision)" for rid h decision
    unfolding decision_stage_def by (cases decision) (simp_all add: quorum)
  have signed_stage: "keeps (service_inv wi) (sign_stage cr ?svc rid wid decision)" for rid decision
    unfolding sign_stage_def by (cases sg) (auto intro!: keeps_rules)
  have fetch: "keeps (service_inv wi) (fetch_shares ?svc wallet threshold)" for wallet threshold
    unfolding fetch_shares_def server_service_fields by (intro keeps_rules keeps_pure)
  have result: "keeps (service_inv wi) (case resp of
       Ok r \<Rightarrow> pbind (audit_emit ?svc (done_ev r)) (\<lambda>_. preturn r)
     | Err e \<Rightarrow> pbind (audit_emit ?svc (failed e)) (\<lambda>_. pthrow (ServiceEnclave e))
     | Panic p \<Rightarrow> plift (Panic p))" for resp done_ev failed
    by (cases resp) (auto intro!: keeps_rules)
  have enclave: "keeps (service_inv wi) (enclave_stage cr ?svc wallet rid wid payload message hd_path ctx alg b)" for wallet rid message b
    unfolding enclave_stage_def server_service_fields by (intro keeps_rules fetch result)
  show ?thesis
    unfolding service_sign_def sign_request_def Let_def server_service_fields
    by (intro keeps_rules keeps_pure decision signed_stage enclave)
qed

lemma approve_keeps: "keeps (service_inv wi) (service_record_approval cr (server_service wi sg timeout) a who h)"
  unfolding service_record_approval_def server_service_fields by (intro keeps_rules keeps_pure)

subsection \<open>Creating a wallet\<close>

definition stored :: "wallet_id \<Rightarrow> i64 \<Rightarrow> shamir_share \<Rightarrow> stored_share" where
  "stored wid now sh = \<lparr>sto_share_id = \<lparr>sid_wallet_id = wid, sid_index = ss_index sh\<rparr>, sto_created_at_unix_ms = now, sto_share = sh\<rparr>"

lemma store_all:
  "pmap (store_share (server_service wi sg timeout) wid now) shs s =
     Some (Ok (map (\<lambda>_. ()) shs), s\<lparr>ss_world := (ss_world s)\<lparr>wo_shares := snd (put_all mock_put (map (\<lambda>sh. ((), stored wid now sh)) shs) (wo_shares (ss_world s)))\<rparr>\<rparr>)"
proof (induction shs arbitrary: s)
  case (Cons sh shs)
  have "store_share (server_service wi sg timeout) wid now sh s =
      Some (Ok (), s\<lparr>ss_world := (ss_world s)\<lparr>wo_shares := AList.update (sto_share_id (stored wid now sh)) (stored wid now sh) (wo_shares (ss_world s))\<rparr>\<rparr>)" for s
    by (simp add: store_share_def pmap_err_def on_world_def wired_stores stored_def)
  with Cons show ?case by (simp add: pbind_def preturn_def mock_put_def)
qed (simp add: preturn_def)

lemma stored_lookup:
  assumes "distinct (map ss_index shs)" "distinct (map fst st)"
  shows "distinct (map fst (snd (put_all mock_put (map (\<lambda>sh. ((), stored wid now sh)) shs) st)))"
    and "map_of (snd (put_all mock_put (map (\<lambda>sh. ((), stored wid now sh)) shs) st)) =
      map_of st ++ map_of (map (\<lambda>sh. (\<lparr>sid_wallet_id = wid, sid_index = ss_index sh\<rparr>, stored wid now sh)) shs)"
proof -
  let ?xs = "map (\<lambda>sh. ((), stored wid now sh)) shs"
  have eq: "map (sto_share_id \<circ> snd) ?xs = map (\<lambda>i. \<lparr>sid_wallet_id = wid, sid_index = i\<rparr>) (map ss_index shs)"
    by (simp add: stored_def)
  have "distinct (map (sto_share_id \<circ> snd) ?xs)"
    unfolding eq by (subst distinct_map) (simp add: assms(1) inj_on_def)
  from mock.put_all_lookup [OF assms(2) this]
  show "distinct (map fst (snd (put_all mock_put ?xs st)))"
    "map_of (snd (put_all mock_put ?xs st)) = map_of st ++ map_of (map (\<lambda>sh. (\<lparr>sid_wallet_id = wid, sid_index = ss_index sh\<rparr>, stored wid now sh)) shs)"
    by (auto simp: comp_def stored_def)
qed

lemma generated_indices:
  assumes "generate_wallet cr self ent rng t n g = Ok r" "sss_spec (en_sss cr)"
  shows "distinct (map ss_index (gresp_shares r))" "length (gresp_shares r) = unat (gen_total g)" "unat (gen_threshold g) \<le> unat (gen_total g)"
proof -
  have idx: "map (unat \<circ> ss_index) (gresp_shares r) = [1..<unat (gen_total g) + 1]" using generate_wallet_Ok [OF assms] by blast
  then have "distinct (map unat (map ss_index (gresp_shares r)))" unfolding map_map by simp
  then show "distinct (map ss_index (gresp_shares r))" unfolding distinct_map [of unat] by blast
  show "length (gresp_shares r) = unat (gen_total g)" using arg_cong [OF idx, of length] by simp
  show "unat (gen_threshold g) \<le> unat (gen_total g)"
    using assms(1) by (auto simp: generate_wallet_def outcome_simps word_le_nat_alt not_less)
qed

lemma backed_other:
  assumes "backed wi m rec" "\<And>sid. sid_wallet_id sid = wr_wallet_id rec \<Longrightarrow> m' sid = m sid"
  shows "backed wi m' rec"
  using assms(1) unfolding backed_def by (simp add: assms(2) cong: conj_cong)

lemma inserted_inv:
  assumes "service_inv wi s" "sss_spec (en_sss (wi_enclave wi))"
    and "wid = WalletId (env_ulid (wi_env wi) (wo_tick (ss_world s)))"
    and gen: "generate_wallet (wi_enclave wi) (wi_mock wi) ent rng t n g = Ok r"
      "gen_scheme g = cfg_scheme config" "gen_threshold g = cfg_threshold config" "gen_master_hd_path g = None"
    and s': "wo_shares (ss_world s') = snd (put_all mock_put (map (\<lambda>sh. ((), stored wid now sh)) (gresp_shares r)) (wo_shares (ss_world s)))"
      "wo_tick (ss_world s) < wo_tick (ss_world s')"
      "ss_wallets s' = (ss_wallets s)(wid \<mapsto> \<lparr>wr_wallet_id = wid, wr_config = config, wr_master_public_key = gresp_master_public_key r,
         wr_status = WalletActive, wr_created_at_unix_ms = now\<rparr>)"
  shows "service_inv wi s'"
  unfolding service_inv_def
proof
  assume fresh_ids: "fresh_ids wi (ss_world s')"
  with s'(2) assms(1) have inv: "stores_inv wi s" unfolding service_inv_def using fresh_ids_mono less_imp_le by blast
  let ?m = "map_of (wo_shares (ss_world s))" and ?m' = "map_of (wo_shares (ss_world s'))"
  let ?new = "map_of (map (\<lambda>sh. (\<lparr>sid_wallet_id = wid, sid_index = ss_index sh\<rparr>, stored wid now sh)) (gresp_shares r))"
  note idx = generated_indices [OF gen(1) assms(2)]
  have "distinct (map fst (wo_shares (ss_world s)))" using inv by (simp add: stores_inv_def)
  note look = stored_lookup [OF idx(1) this, of wid now, folded s'(1)]
  have fresh: "\<not> issued wi (ss_world s) wid" using not_issued [OF fresh_ids s'(2)] assms(3) by simp
  have now: "issued wi (ss_world s') wid" unfolding issued_def using s'(2) assms(3) by blast
  have old: "issued wi (ss_world s') v" if "issued wi (ss_world s) v" for v using issued_mono [OF that] s'(2) by simp
  have keys: "?new sid \<noteq> None \<longleftrightarrow> sid_wallet_id sid = wid \<and> sid_index sid \<in> ss_index ` set (gresp_shares r)" for sid
    unfolding map_of_eq_None_iff by (cases sid) (auto simp: image_iff)
  have hit: "?new \<lparr>sid_wallet_id = wid, sid_index = ss_index sh\<rparr> = Some (stored wid now sh)" if "sh \<in> set (gresp_shares r)" for sh
  proof (rule map_of_is_SomeI)
    have "distinct (map (\<lambda>i. \<lparr>sid_wallet_id = wid, sid_index = i\<rparr>) (map ss_index (gresp_shares r)))"
      by (subst distinct_map) (simp add: idx(1) inj_on_def)
    then show "distinct (map fst (map (\<lambda>sh. (\<lparr>sid_wallet_id = wid, sid_index = ss_index sh\<rparr>, stored wid now sh)) (gresp_shares r)))"
      by (simp add: comp_def)
  qed (use that in auto)
  have none: "?m sid = None" if "sid_wallet_id sid = wid" for sid
    using inv fresh that unfolding stores_inv_def map_of_eq_None_iff by blast
  have other: "?m' sid = ?m sid" if "sid_wallet_id sid \<noteq> wid" for sid
    using keys [of sid] that by (simp add: look(2) map_add_def)
  have at: "?m' sid = ?new sid" if "sid_wallet_id sid = wid" for sid
    using none [OF that] by (simp add: look(2) map_add_def split: option.split)
  have shares: "issued wi (ss_world s') (sid_wallet_id sid)" if "sid \<in> fst ` set (wo_shares (ss_world s'))" for sid
  proof (cases "sid_wallet_id sid = wid")
    case False
    then have "sid \<in> fst ` set (wo_shares (ss_world s))" using that other unfolding dom_map_of_conv_image_fst [symmetric] by (simp add: dom_def)
    then show ?thesis using inv old unfolding stores_inv_def by blast
  qed (use now in simp)
  let ?rec = "\<lparr>wr_wallet_id = wid, wr_config = config, wr_master_public_key = gresp_master_public_key r, wr_status = WalletActive, wr_created_at_unix_ms = now\<rparr>"
  have b1: "\<forall>sh \<in> set (gresp_shares r). \<exists>st. ?m' \<lparr>sid_wallet_id = wid, sid_index = ss_index sh\<rparr> = Some st \<and> sto_share st = sh"
    using hit at by (simp add: stored_def)
  have b2: "\<forall>sid. sid_wallet_id sid = wid \<and> ?m' sid \<noteq> None \<longrightarrow> sid_index sid \<in> ss_index ` set (gresp_shares r)"
    using at keys by metis
  have "backed wi ?m' ?rec" unfolding backed_def
    by (rule exI [of _ ent], rule exI [of _ rng], rule exI [of _ t], rule exI [of _ n], rule exI [of _ g], rule exI [of _ r])
      (use gen b1 b2 in simp)
  moreover have "wr_wallet_id rec = v \<and> issued wi (ss_world s') v \<and> backed wi ?m' rec" if "ss_wallets s v = Some rec" for v rec
  proof -
    have v: "wr_wallet_id rec = v" "issued wi (ss_world s) v" "backed wi ?m rec" using inv that unfolding stores_inv_def by blast+
    with fresh have "v \<noteq> wid" by blast
    then have "backed wi ?m' rec" using v(1) other by (intro backed_other [OF v(3)]) simp
    with v old show ?thesis by blast
  qed
  ultimately show "stores_inv wi s'"
    unfolding stores_inv_def s'(3) using look(1) shares now by auto
qed

lemma create_keeps:
  fixes wi :: "('x, 'sc, 'r, 'p) wiring"
  assumes "sss_spec (en_sss (wi_enclave wi))"
  shows "keeps (service_inv wi) (create_wallet cr (server_service wi sg timeout) config owner)"
  unfolding keeps_def
proof (intro allI impI)
  fix s :: "'p world service_state" and res s'
  let ?svc = "server_service wi sg timeout" and ?w = "ss_world s"
  define wid where "wid = WalletId (env_ulid (wi_env wi) (wo_tick ?w))"
  define w1 where "w1 = advance 1 ?w"
  define g where "g = \<lparr>gen_wallet_id = wid, gen_scheme = cfg_scheme config, gen_threshold = cfg_threshold config, gen_total = cfg_total config, gen_master_hd_path = None\<rparr>"
  define gen where "gen = generate_wallet (wi_enclave wi) (wi_mock wi) (env_entropy (wi_env wi) (wo_tick w1)) (env_rng (wi_env wi) (wo_tick w1))
      (env_clock (wi_env wi) (wo_tick w1)) (env_nonce (wi_env wi) (wo_tick w1)) g"
  assume inv: "service_inv wi s" and run: "create_wallet cr ?svc config owner s = Some (res, s')"
  have fresh: "fresh_ulid ?svc s = Some (Ok (env_ulid (wi_env wi) (wo_tick ?w)), s\<lparr>ss_world := w1\<rparr>)"
    by (simp add: fresh_ulid_def on_world_def wired_rest w1_def)
  have call: "pmap_err ServiceEnclave (on_world (be_generate_wallet (wired wi) g)) (s\<lparr>ss_world := w1\<rparr>) =
      Some (map_err ServiceEnclave gen, s\<lparr>ss_world := advance 1 w1\<rparr>)"
    by (simp add: pmap_err_def on_world_def wired_enclave gen_def)
  have err: "service_inv wi (s\<lparr>ss_world := advance 1 w1\<rparr>)" by (rule service_inv_mono [OF inv]) (simp_all add: w1_def)
  show "service_inv wi s'"
  proof (cases gen)
    case (Ok r)
    define now where "now = (let ms = whole_units 1000000 (env_clock (wi_env wi) (wo_tick (advance 1 w1))) in if i64_ok ms then ms else 2 ^ 63 - 1)"
    define rec where "rec = \<lparr>wr_wallet_id = wid, wr_config = config, wr_master_public_key = gresp_master_public_key r, wr_status = WalletActive, wr_created_at_unix_ms = now\<rparr>"
    define w4 where "w4 = (advance 1 (advance 1 w1))\<lparr>wo_shares := snd (put_all mock_put (map (\<lambda>sh. ((), stored wid now sh)) (gresp_shares r)) (wo_shares ?w))\<rparr>"
    define s4 where "s4 = \<lparr>ss_wallets = (ss_wallets s)(wid \<mapsto> rec), ss_world = w4\<rparr>"
    have clock: "service_unix_ms ?svc (s\<lparr>ss_world := advance 1 w1\<rparr>) = Some (Ok now, s\<lparr>ss_world := advance 1 (advance 1 w1)\<rparr>)"
      by (simp add: service_unix_ms_def on_world_def wired_rest now_def)
    have put: "pmap (store_share ?svc wid now) (gresp_shares r) (s\<lparr>ss_world := advance 1 (advance 1 w1)\<rparr>) =
        Some (Ok (map (\<lambda>_. ()) (gresp_shares r)), s\<lparr>ss_world := w4\<rparr>)"
      by (simp add: store_all w4_def w1_def)
    have ins: "insert_wallet rec (s\<lparr>ss_world := w4\<rparr>) = Some (Ok (), s4)" by (simp add: insert_wallet_def s4_def rec_def)
    from run have "pbind (audit_emit ?svc (created_event cr owner wid config r)) (\<lambda>_. preturn rec) s4 = Some (res, s')"
      by (simp add: create_wallet_def pbind_def fresh call Ok clock put ins wid_def [symmetric] g_def [symmetric] rec_def [symmetric] del: One_nat_def)
    moreover have "service_inv wi s4"
    proof (rule inserted_inv [OF inv assms wid_def gen_def [symmetric, unfolded Ok]])
      show "wo_shares (ss_world s4) = snd (put_all mock_put (map (\<lambda>sh. ((), stored wid now sh)) (gresp_shares r)) (wo_shares (ss_world s)))"
        "wo_tick (ss_world s) < wo_tick (ss_world s4)" by (simp_all add: s4_def w4_def w1_def)
    qed (simp_all add: g_def s4_def rec_def)
    moreover have "keeps (service_inv wi) (pbind (audit_emit ?svc (created_event cr owner wid config r)) (\<lambda>_. preturn rec))"
      by (intro keeps_bind keeps_parts keeps_pure)
    ultimately show ?thesis unfolding keeps_def by blast
  qed (use run err in \<open>auto simp: create_wallet_def pbind_def fresh call wid_def [symmetric] g_def [symmetric] simp del: One_nat_def\<close>)
qed

end
