(* ===== verification/Server_Guarantees.thy ===== *)
theory Server_Guarantees
  imports Server_Wiring
begin

text \<open>
  What the wired server guarantees: the states it can reach, that every wallet it lists can sign, what the
  audit log says of a signature, and what the approval path does and does not enforce.
\<close>

subsection \<open>Reachable states\<close>

text \<open>
  A service that starts without wallets and serves requests in any order, whatever their outcome. Between two
  requests the registry and the approvals may change in any way.
\<close>

inductive reachable :: "('x, 'sc, 'r, 'p) wiring \<Rightarrow> service_crates \<Rightarrow> bytes option \<Rightarrow> nat \<Rightarrow> 'p world service_state \<Rightarrow> bool"
  for wi cr sg timeout where
  start: "ss_wallets s = Map.empty \<Longrightarrow> wo_shares (ss_world s) = mock_new \<Longrightarrow> reachable wi cr sg timeout s"
| create: "reachable wi cr sg timeout s \<Longrightarrow> create_wallet cr (server_service wi sg timeout) config owner s = Some (res, s') \<Longrightarrow>
    reachable wi cr sg timeout s'"
| sign: "reachable wi cr sg timeout s \<Longrightarrow> service_sign cr (server_service wi sg timeout) wid payload rq hd_path ctx alg s = Some (res', s') \<Longrightarrow>
    reachable wi cr sg timeout s'"
| approve: "reachable wi cr sg timeout s \<Longrightarrow> service_record_approval cr (server_service wi sg timeout) a who h s = Some (res'', s') \<Longrightarrow>
    reachable wi cr sg timeout s'"
| admin: "reachable wi cr sg timeout s \<Longrightarrow>
    reachable wi cr sg timeout (s\<lparr>ss_world := (ss_world s)\<lparr>wo_registry := reg, wo_approvals := apps, wo_quorum := q\<rparr>\<rparr>)"

lemma reachable_inv:
  assumes "reachable wi cr sg timeout s" "sss_spec (en_sss (wi_enclave wi))"
  shows "service_inv wi s"
  using assms(1)
proof (induction rule: reachable.induct)
  case (start s)
  then show ?case by (simp add: service_inv_def stores_inv_def mock_new_def)
next
  case create
  then show ?case using keepsD [OF create_keeps [OF assms(2)]] by blast
next
  case sign
  then show ?case using keepsD [OF sign_keeps] by blast
next
  case approve
  then show ?case using keepsD [OF approve_keeps] by blast
next
  case (admin s reg apps q)
  then show ?case by (auto intro: service_inv_mono)
qed

subsection \<open>Signing succeeds\<close>

lemma fetch_backed:
  assumes "stores_inv wi s" "ss_wallets s wid = Some rec" "sss_spec (en_sss (wi_enclave wi))"
  obtains entropy rng t n g r sts where
    "generate_wallet (wi_enclave wi) (wi_mock wi) entropy rng t n g = Ok r"
    "gen_scheme g = cfg_scheme (wr_config rec)" "gen_threshold g = cfg_threshold (wr_config rec)" "gen_master_hd_path g = None"
    "gresp_master_public_key r = wr_master_public_key rec"
    "fetch_shares (server_service wi sg timeout) rec (cfg_threshold (wr_config rec)) s = Some (Ok sts, s)"
    "set (map sto_share sts) \<subseteq> set (gresp_shares r)" "distinct (map ss_index (map sto_share sts))" "unat (gen_threshold g) \<le> length (map sto_share sts)"
proof -
  let ?m = "map_of (wo_shares (ss_world s))"
  from assms(1,2) have wid: "wr_wallet_id rec = wid" and b: "backed wi ?m rec" and d: "distinct (map fst (wo_shares (ss_world s)))"
    unfolding stores_inv_def by blast+
  from b obtain entropy rng t n g r where gen: "generate_wallet (wi_enclave wi) (wi_mock wi) entropy rng t n g = Ok r"
      "gen_scheme g = cfg_scheme (wr_config rec)" "gen_threshold g = cfg_threshold (wr_config rec)" "gen_master_hd_path g = None"
      "gresp_master_public_key r = wr_master_public_key rec"
    and has: "\<forall>sh \<in> set (gresp_shares r). \<exists>st. ?m \<lparr>sid_wallet_id = wid, sid_index = ss_index sh\<rparr> = Some st \<and> sto_share st = sh"
    and only: "\<forall>sid. sid_wallet_id sid = wid \<and> ?m sid \<noteq> None \<longrightarrow> sid_index sid \<in> ss_index ` set (gresp_shares r)"
    unfolding backed_def wid by blast
  note idx = generated_indices [OF gen(1) assms(3)]
  from mock.listing [OF d, of wid] obtain ids where ids: "mock_list wid (wo_shares (ss_world s)) = Ok ids"
    "sorted_wrt (\<lambda>a b. sid_index a < sid_index b) ids" "set ids = {sid. sid_wallet_id sid = wid \<and> ?m sid \<noteq> None}" by blast
  define k where "k = unat (cfg_threshold (wr_config rec))"
  have image: "set (map sid_index ids) = set (map ss_index (gresp_shares r))"
  proof
    show "set (map sid_index ids) \<subseteq> set (map ss_index (gresp_shares r))" using only ids(3) by auto
    have "ss_index sh \<in> sid_index ` set ids" if "sh \<in> set (gresp_shares r)" for sh
      using has that ids(3) by (intro image_eqI [of _ _ "\<lparr>sid_wallet_id = wid, sid_index = ss_index sh\<rparr>"]) auto
    then show "set (map ss_index (gresp_shares r)) \<subseteq> set (map sid_index ids)" by auto
  qed
  have dist: "distinct (map sid_index ids)"
    using ids(2) by (simp add: sorted_wrt_map [symmetric] strict_sorted_iff)
  have len: "k \<le> length ids"
    using distinct_card [OF dist] distinct_card [OF idx(1)] image idx(2,3) gen(3) by (simp add: k_def)
  define sts where "sts = map (\<lambda>sid. the (?m sid)) (take k ids)"
  have st: "\<exists>st. ?m sid = Some st \<and> sto_share st \<in> set (gresp_shares r) \<and> ss_index (sto_share st) = sid_index sid"
    if "sid \<in> set (take k ids)" for sid
  proof -
    have "sid_wallet_id sid = wid" "?m sid \<noteq> None" using in_set_takeD [OF that] ids(3) by auto
    with only obtain sh where sh: "sh \<in> set (gresp_shares r)" "sid_index sid = ss_index sh" by blast
    then have "sid = \<lparr>sid_wallet_id = wid, sid_index = ss_index sh\<rparr>" using \<open>sid_wallet_id sid = wid\<close> by (cases sid) simp
    with has sh show ?thesis by auto
  qed
  have "pmap (\<lambda>sid. pmap_err ServiceStore (on_world (be_get (wired wi) sid))) (take k ids) s = Some (Ok sts, s)"
    unfolding sts_def
    by (rule pmap_still) (use st in \<open>fastforce simp: pmap_err_def on_world_def wired_stores mock_get_def\<close>)
  then have fetch: "fetch_shares (server_service wi sg timeout) rec (cfg_threshold (wr_config rec)) s = Some (Ok sts, s)"
    using len ids(1) wid
    by (simp add: fetch_shares_def pbind_def pmap_err_def on_world_def wired_stores k_def)
  have "map ss_index (map sto_share sts) = take k (map sid_index ids)"
    using st by (fastforce simp: sts_def take_map)
  then have "distinct (map ss_index (map sto_share sts))" using dist by (metis distinct_take)
  moreover have "set (map sto_share sts) \<subseteq> set (gresp_shares r)" using st by (fastforce simp: sts_def)
  moreover have "unat (gen_threshold g) \<le> length (map sto_share sts)" using len gen(3) by (simp add: sts_def k_def)
  ultimately show ?thesis using that [OF gen fetch] by blast
qed

text \<open>The audit log accepts every event from now on.\<close>

definition log_works :: "('x, 'sc, 'r, 'p) wiring \<Rightarrow> 'p world \<Rightarrow> bool" where
  "log_works wi w \<longleftrightarrow> (\<forall>n \<ge> wo_tick w. env_fault (wi_env wi) n = None) \<and> (\<forall>e. \<exists>b. au_to_vec (wi_audit wi) e = Inr b)"

definition same_store :: "'p world service_state \<Rightarrow> 'p world service_state \<Rightarrow> bool" where
  "same_store s s' \<longleftrightarrow> ss_wallets s' = ss_wallets s \<and> wo_shares (ss_world s') = wo_shares (ss_world s) \<and> wo_tick (ss_world s) \<le> wo_tick (ss_world s')"

lemma same_store_trans: "same_store s s1 \<Longrightarrow> same_store s1 s2 \<Longrightarrow> same_store s s2"
  by (simp add: same_store_def)

lemma log_works_mono: "log_works wi (ss_world s) \<Longrightarrow> same_store s s' \<Longrightarrow> log_works wi (ss_world s')"
  by (auto simp: log_works_def same_store_def)

lemma emit_succeeds:
  assumes "log_works wi (ss_world s)"
  shows "succeeds (audit_emit (server_service wi sg timeout) d) s (\<lambda>_ s'. same_store s s')"
proof -
  let ?e = "stamp_event (wi_audit wi) (fas_server_key (wo_sink (ss_world s))) (fas_prev_event_hash (wo_sink (ss_world s)))
    (EventId (env_ulid (wi_env wi) (wo_tick (ss_world s)))) (audit_unix_ms (env_clock (wi_env wi) (wo_tick (ss_world s)))) d"
  obtain b where "au_to_vec (wi_audit wi) ?e = Inr b" using assms by (auto simp: log_works_def)
  moreover have "env_fault (wi_env wi) (wo_tick (ss_world s)) = None" using assms by (simp add: log_works_def)
  ultimately show ?thesis
    by (simp add: succeeds_def audit_emit_def pmap_err_def on_world_def wired_rest wired_emit_def emit_def append_line_def same_store_def Let_def)
qed

lemma quiet_succeeds:
  "succeeds (fresh_ulid (server_service wi sg timeout)) s (\<lambda>_ s'. same_store s s')"
  "succeeds (service_unix_ms (server_service wi sg timeout)) s (\<lambda>_ s'. same_store s s')"
  by (simp_all add: succeeds_def fresh_ulid_def service_unix_ms_def on_world_def wired_rest same_store_def)

subsection \<open>What the policy answers\<close>

text \<open>
  The decision of the policy on a signing request that arrives in a state: the request carries the identifier and
  the time the service stamps on it, and the policy is in the state it is in then.
\<close>

definition policy_answer :: "('x, 'sc, 'r, 'p) wiring \<Rightarrow> 'p world service_state \<Rightarrow> wallet_id \<Rightarrow> signing_payload \<Rightarrow> requester \<Rightarrow> hd_path option \<Rightarrow>
   (policy_error, policy_decision) outcome" where
  "policy_answer wi s wid payload rq hd_path =
     (let t = wo_tick (ss_world s); ms = whole_units 1000000 (env_clock (wi_env wi) (t + 2)) in
      fst (wi_evaluate wi (DecisionId (env_ulid (wi_env wi) (t + 3))) (wo_policy (ss_world s))
        \<lparr>sr_request_id = RequestId (env_ulid (wi_env wi) t), sr_wallet_id = wid, sr_requester = rq, sr_payload = payload, sr_hd_path = hd_path,
         sr_received_at_unix_ms = (if i64_ok ms then ms else 2 ^ 63 - 1)\<rparr>))"

text \<open>Steps of the service that leave the wallets, the shares, the policy, the registry and the quorum alone and take one reading of the environment each.\<close>

definition steps :: "nat \<Rightarrow> 'p world service_state \<Rightarrow> 'p world service_state \<Rightarrow> bool" where
  "steps n s s' \<longleftrightarrow> ss_wallets s' = ss_wallets s \<and> wo_shares (ss_world s') = wo_shares (ss_world s) \<and> wo_policy (ss_world s') = wo_policy (ss_world s) \<and>
     wo_quorum (ss_world s') = wo_quorum (ss_world s) \<and> wo_registry (ss_world s') = wo_registry (ss_world s) \<and>
     wo_tick (ss_world s') = wo_tick (ss_world s) + n"

lemma steps_refl: "steps 0 s s"
  by (simp add: steps_def)

lemma steps_trans: "steps m s s1 \<Longrightarrow> steps n s1 s2 \<Longrightarrow> steps (m + n) s s2"
  by (simp add: steps_def)

lemma steps_same_store: "steps n s s' \<Longrightarrow> same_store s s'"
  by (simp add: steps_def same_store_def)

lemma emit_steps: "audit_emit (server_service wi sg timeout) d s = Some (r, s') \<Longrightarrow> steps 1 s s'"
  by (auto simp: audit_emit_def pmap_err_def on_world_def wired_rest wired_emit_def steps_def split: prod.splits)

lemma ulid_steps:
  "fresh_ulid (server_service wi sg timeout) s = Some (r, s') \<longleftrightarrow>
     r = Ok (env_ulid (wi_env wi) (wo_tick (ss_world s))) \<and> s' = s\<lparr>ss_world := advance 1 (ss_world s)\<rparr>"
  by (auto simp: fresh_ulid_def on_world_def wired_rest)

lemma clock_steps:
  "service_unix_ms (server_service wi sg timeout) s = Some (r, s') \<longleftrightarrow>
     r = Ok (let ms = whole_units 1000000 (env_clock (wi_env wi) (wo_tick (ss_world s))) in if i64_ok ms then ms else 2 ^ 63 - 1) \<and>
     s' = s\<lparr>ss_world := advance 1 (ss_world s)\<rparr>"
  by (auto simp: service_unix_ms_def on_world_def wired_rest)

lemma advance_steps: "steps 1 s (s\<lparr>ss_world := advance 1 (ss_world s)\<rparr>)"
  by (simp add: steps_def advance_def)

lemma evaluate_answers:
  assumes "steps 3 s s1" "rid = RequestId (env_ulid (wi_env wi) (wo_tick (ss_world s)))"
    and "received = (let ms = whole_units 1000000 (env_clock (wi_env wi) (wo_tick (ss_world s) + 2)) in if i64_ok ms then ms else 2 ^ 63 - 1)"
  shows "\<exists>s2. on_world (be_evaluate (wired wi) \<lparr>sr_request_id = rid, sr_wallet_id = wid, sr_requester = rq, sr_payload = payload, sr_hd_path = hd_path,
      sr_received_at_unix_ms = received\<rparr>) s1 = Some (policy_answer wi s wid payload rq hd_path, s2) \<and>
    same_store s s2 \<and> wo_quorum (ss_world s2) = wo_quorum (ss_world s) \<and> wo_registry (ss_world s2) = wo_registry (ss_world s)"
  using assms by (simp add: on_world_def wired_rest policy_answer_def steps_def same_store_def Let_def advance_def)

text \<open>Up to the decision, a signing request that does not stop at the log asks the policy exactly this.\<close>

lemma sign_request_asks:
  assumes "sign_request cr (server_service wi sg timeout) wallet wid payload rq hd_path ctx alg s = Some (Ok r, s')"
  obtains rid decision b s4 s5 s6 where "policy_answer wi s wid payload rq hd_path = Ok decision"
    "sign_stage cr (server_service wi sg timeout) rid wid decision s4 = Some (Ok b, s5)"
    "enclave_stage cr (server_service wi sg timeout) wallet rid wid payload (canonical_message_bytes cr payload) hd_path ctx alg b s5 = Some (Ok r, s')"
proof -
  let ?svc = "server_service wi sg timeout"
  from assms obtain u s1 e s2 received s3 decision s4 s5 b s6 where
    u: "fresh_ulid ?svc s = (Some (Ok u, s1) :: ((service_error, _) outcome \<times> _) option)"
    and e: "audit_emit ?svc (request_event (RequestId u) wid (requester_to_actor cr rq) SigningRequested
      (requested_details (message_hash_for (sv_sign cr) (canonical_message_bytes cr payload)) hd_path)) s1 = Some (Ok e, s2)"
    and t: "service_unix_ms ?svc s2 = (Some (Ok received, s3) :: ((service_error, _) outcome \<times> _) option)"
    and ev: "on_world (be_evaluate (wired wi) \<lparr>sr_request_id = RequestId u, sr_wallet_id = wid, sr_requester = rq, sr_payload = payload, sr_hd_path = hd_path,
      sr_received_at_unix_ms = received\<rparr>) s3 = Some (Ok decision, s4)"
    and rest: "sign_stage cr ?svc (RequestId u) wid decision s5 = Some (Ok b, s6)"
      "enclave_stage cr ?svc wallet (RequestId u) wid payload (canonical_message_bytes cr payload) hd_path ctx alg b s6 = Some (Ok r, s')"
    unfolding sign_request_def Let_def proc_simps server_service_fields by blast
  have s1: "steps 1 s s1" "u = env_ulid (wi_env wi) (wo_tick (ss_world s))" using u advance_steps by (simp_all add: ulid_steps)
  have s2: "steps 2 s s2" using steps_trans [OF s1(1) emit_steps [OF e]] by (simp add: numeral_2_eq_2)
  have "steps 1 s2 s3" using t advance_steps by (simp add: clock_steps)
  from steps_trans [OF s2 this] have "steps 3 s s3" by (simp add: numeral_3_eq_3)
  from evaluate_answers [OF this, of "RequestId u" wi received wid rq payload hd_path] ev
  have "policy_answer wi s wid payload rq hd_path = Ok decision" using s1(2) t s2 by (auto simp: clock_steps steps_def)
  from that [OF this rest] show thesis .
qed

lemma enclave_stage_succeeds:
  assumes "stores_inv wi s" "ss_wallets s wid = Some rec" "log_works wi (ss_world s)"
    and "enclave_laws (wi_enclave wi)" "attestation_key_ok (en_att (wi_enclave wi)) (mock_attestation_key (wi_mock wi))"
    and "mock_policy_service_pubkey (wi_mock wi) = None" "supports_hash (cfg_scheme (wr_config rec)) alg"
  shows "succeeds (enclave_stage cr (server_service wi sg timeout) rec rid wid payload message None ctx alg bndl) s (\<lambda>r s'.
    sg_verify (signer_of (en_sign (wi_enclave wi)) (cfg_scheme (wr_config rec))) (wr_master_public_key rec) message (resp_signature r) alg = Ok () \<and>
    attestation_verify (en_att (wi_enclave wi)) (resp_attestation r) = Ok ())"
proof -
  have spec: "sss_spec (en_sss (wi_enclave wi))" using assms(4) by (simp add: enclave_laws_def)
  from fetch_backed [OF assms(1,2) spec, of sg timeout] obtain entropy rng t n g r sts where
    gen: "generate_wallet (wi_enclave wi) (wi_mock wi) entropy rng t n g = Ok r"
      "gen_scheme g = cfg_scheme (wr_config rec)" "gen_threshold g = cfg_threshold (wr_config rec)" "gen_master_hd_path g = None"
      "gresp_master_public_key r = wr_master_public_key rec"
    and fetch: "fetch_shares (server_service wi sg timeout) rec (cfg_threshold (wr_config rec)) s = Some (Ok sts, s)"
    and sub: "set (map sto_share sts) \<subseteq> set (gresp_shares r)" "distinct (map ss_index (map sto_share sts))" "unat (gen_threshold g) \<le> length (map sto_share sts)" .
  let ?req = "enclave_request rec rid wid payload message None ctx alg bndl sts"
  have ver: "mock_verify (en_hybrid (wi_enclave wi)) (wi_mock wi) t1 t2 ?req = Ok ()" for t1 t2 using assms(6) by (simp add: mock_verify_def)
  have signs: "succeeds (ptry (on_world (be_sign_in_enclave (wired wi) ?req))) s1 (\<lambda>res s'. same_store s1 s' \<and> (\<exists>resp. res = Ok resp \<and>
      sg_verify (signer_of (en_sign (wi_enclave wi)) (cfg_scheme (wr_config rec))) (wr_master_public_key rec) message (resp_signature resp) alg = Ok () \<and>
      attestation_verify (en_att (wi_enclave wi)) (resp_attestation resp) = Ok ()))" for s1
  proof -
    have "\<exists>resp. sign_in_enclave (wi_enclave wi) (wi_mock wi) t1 t2 t3 nonce ?req = Ok resp \<and> resp_public_key resp = gresp_master_public_key r \<and>
        sg_verify (signer_of (en_sign (wi_enclave wi)) (gen_scheme g)) (gresp_master_public_key r) (esr_message ?req) (resp_signature resp) (esr_hash_alg ?req) = Ok () \<and>
        attestation_verify (en_att (wi_enclave wi)) (resp_attestation resp) = Ok ()" for t1 t2 t3 nonce
      by (rule wallet_shares_sign [OF assms(4,5) gen(1) _ _ _ _ _ _ ver]) (use sub gen assms(7) in \<open>simp_all add: enclave_request_def\<close>)
    then obtain resp where "sign_in_enclave (wi_enclave wi) (wi_mock wi) (env_clock (wi_env wi) (wo_tick (ss_world s1)))
        (env_clock (wi_env wi) (wo_tick (ss_world s1) + 1)) (env_clock (wi_env wi) (wo_tick (ss_world s1) + 2)) (env_nonce (wi_env wi) (wo_tick (ss_world s1))) ?req = Ok resp"
      "sg_verify (signer_of (en_sign (wi_enclave wi)) (gen_scheme g)) (gresp_master_public_key r) (esr_message ?req) (resp_signature resp) (esr_hash_alg ?req) = Ok ()"
      "attestation_verify (en_att (wi_enclave wi)) (resp_attestation resp) = Ok ()" by blast
    then show ?thesis
      by (intro succeeds_try) (simp add: succeeds_def on_world_def wired_enclave same_store_def enclave_request_def gen)
  qed
  let ?ok = "\<lambda>r s'. sg_verify (signer_of (en_sign (wi_enclave wi)) (cfg_scheme (wr_config rec))) (wr_master_public_key rec) message (resp_signature r) alg = Ok () \<and>
    attestation_verify (en_att (wi_enclave wi)) (resp_attestation r) = Ok ()"
  have finish: "succeeds (pbind (audit_emit (server_service wi sg timeout) (succeeded_event cr rid wid resp)) (\<lambda>_. preturn resp)) s1 ?ok"
    if "?ok resp s1" "log_works wi (ss_world s1)" for resp s1
    by (rule succeeds_seq [OF emit_succeeds [OF that(2)]]) (simp add: that(1))
  show ?thesis unfolding enclave_stage_def server_service_fields
  proof (rule succeeds_seq [where Q = "\<lambda>x s'. x = sts \<and> s' = s"])
    show "succeeds (fetch_shares (server_service wi sg timeout) rec (cfg_threshold (wr_config rec))) s (\<lambda>x s'. x = sts \<and> s' = s)"
      using fetch by (simp add: succeeds_def)
  next
    fix x s0 assume x: "x = sts \<and> s0 = s"
    show "succeeds (pbind (audit_emit (server_service wi sg timeout) (request_event rid wid ActorSystem SigningAttempted (JObj []))) (\<lambda>_.
        pbind (ptry (on_world (be_sign_in_enclave (wired wi) (enclave_request rec rid wid payload message None ctx alg bndl x)))) (\<lambda>resp.
        case resp of
          Ok r \<Rightarrow> pbind (audit_emit (server_service wi sg timeout) (succeeded_event cr rid wid r)) (\<lambda>_. preturn r)
        | Err e \<Rightarrow> pbind (audit_emit (server_service wi sg timeout)
            (request_event rid wid ActorEnclave SigningFailed (JObj [(''error'', JStr (sv_enclave_text cr e))]))) (\<lambda>_. pthrow (ServiceEnclave e))
        | Panic p \<Rightarrow> plift (Panic p)))) s0 ?ok"
    proof (rule succeeds_seq [OF emit_succeeds], goal_cases)
      case 1
      then show ?case using assms(3) x by simp
    next
      case (2 _ s1)
      then have lw: "log_works wi (ss_world s1)" using log_works_mono [OF assms(3)] x by simp
      show ?case unfolding x [THEN conjunct1]
      proof (rule succeeds_seq [OF signs], goal_cases)
        case (1 res s2)
        then obtain resp where res: "res = Ok resp" and ok: "?ok resp s2" and same: "same_store s1 s2" by blast
        show ?case using finish [OF ok log_works_mono [OF lw same]] unfolding res outcome.case .
      qed
    qed
  qed
qed

lemma stages_succeed:
  assumes "log_works wi (ss_world s)" "steps n s s1"
  shows "succeeds (audit_emit (server_service wi sg timeout) d) s1 (\<lambda>_ s'. steps (n + 1) s s')"
    "succeeds (fresh_ulid (server_service wi sg timeout)) s1 (\<lambda>u s'. u = env_ulid (wi_env wi) (wo_tick (ss_world s) + n) \<and> steps (n + 1) s s')"
    "succeeds (service_unix_ms (server_service wi sg timeout)) s1 (\<lambda>t s'.
      t = (let ms = whole_units 1000000 (env_clock (wi_env wi) (wo_tick (ss_world s) + n)) in if i64_ok ms then ms else 2 ^ 63 - 1) \<and> steps (n + 1) s s')"
proof -
  have step: "steps 1 s1 s' \<Longrightarrow> steps (n + 1) s s'" for s' by (rule steps_trans [OF assms(2)])
  have tick: "wo_tick (ss_world s1) = wo_tick (ss_world s) + n" using assms(2) by (simp add: steps_def)
  have "succeeds (audit_emit (server_service wi sg timeout) d) s1 (\<lambda>_ s'. same_store s1 s')"
    by (rule emit_succeeds [OF log_works_mono [OF assms(1) steps_same_store [OF assms(2)]]])
  then show "succeeds (audit_emit (server_service wi sg timeout) d) s1 (\<lambda>_ s'. steps (n + 1) s s')"
    unfolding succeeds_def using emit_steps step by blast
  show "succeeds (fresh_ulid (server_service wi sg timeout)) s1 (\<lambda>u s'. u = env_ulid (wi_env wi) (wo_tick (ss_world s) + n) \<and> steps (n + 1) s s')"
    "succeeds (service_unix_ms (server_service wi sg timeout)) s1 (\<lambda>t s'.
      t = (let ms = whole_units 1000000 (env_clock (wi_env wi) (wo_tick (ss_world s) + n)) in if i64_ok ms then ms else 2 ^ 63 - 1) \<and> steps (n + 1) s s')"
    unfolding succeeds_def ulid_steps clock_steps using step [OF advance_steps] tick by auto
qed

text \<open>A signing request whose log works goes on with the decision the policy gives.\<close>

lemma sign_request_goes_on:
  assumes "log_works wi (ss_world s)" "policy_answer wi s wid payload rq hd_path = Ok decision" "rid = RequestId (env_ulid (wi_env wi) (wo_tick (ss_world s)))"
  obtains s1 where "same_store s s1" "wo_quorum (ss_world s1) = wo_quorum (ss_world s)" "wo_registry (ss_world s1) = wo_registry (ss_world s)"
    "sign_request cr (server_service wi sg timeout) wallet wid payload rq hd_path ctx alg s =
      pbind (decision_stage cr (server_service wi sg timeout) rid wid (message_hash_for (sv_sign cr) (canonical_message_bytes cr payload)) decision) (\<lambda>_.
      pbind (sign_stage cr (server_service wi sg timeout) rid wid decision) (\<lambda>bundle.
      enclave_stage cr (server_service wi sg timeout) wallet rid wid payload (canonical_message_bytes cr payload) hd_path ctx alg bundle)) s1"
proof -
  let ?svc = "server_service wi sg timeout"
  let ?received = "let ms = whole_units 1000000 (env_clock (wi_env wi) (wo_tick (ss_world s) + 2)) in if i64_ok ms then ms else 2 ^ 63 - 1"
  let ?requested = "request_event rid wid (requester_to_actor cr rq) SigningRequested (requested_details (message_hash_for (sv_sign cr) (canonical_message_bytes cr payload)) hd_path)"
  let ?evaluated = "request_event rid wid ActorSystem SigningEvaluated (JObj [(''decision'', sv_decision cr decision)])"
  note run = stages_succeed [OF assms(1), where sg = sg and timeout = timeout]
  obtain u s1 where s1: "fresh_ulid ?svc s = (Some (Ok u, s1) :: ((service_error, _) outcome \<times> _) option)" "RequestId u = rid" "steps 1 s s1"
    using run(2) [OF steps_refl] assms(3) by (auto simp: succeeds_def)
  obtain e2 s2 where s2: "audit_emit ?svc ?requested s1 = Some (Ok e2, s2)" "steps 2 s s2"
    using run(1) [OF s1(3), of ?requested] unfolding succeeds_def one_add_one by blast
  obtain s3 where s3: "service_unix_ms ?svc s2 = (Some (Ok ?received, s3) :: ((service_error, _) outcome \<times> _) option)" "steps 3 s s3"
    using run(3) [OF s2(2)] by (auto simp: succeeds_def)
  obtain s4 where s4: "on_world (be_evaluate (wired wi) \<lparr>sr_request_id = rid, sr_wallet_id = wid, sr_requester = rq, sr_payload = payload, sr_hd_path = hd_path,
      sr_received_at_unix_ms = ?received\<rparr>) s3 = Some (Ok decision, s4)" "same_store s s4" "wo_quorum (ss_world s4) = wo_quorum (ss_world s)" "wo_registry (ss_world s4) = wo_registry (ss_world s)"
    using evaluate_answers [OF s3(2) assms(3) refl, of wid rq payload hd_path] unfolding assms(2) by blast
  obtain e5 s5 where s5: "audit_emit ?svc ?evaluated s4 = Some (Ok e5, s5)" "steps 1 s4 s5"
    using stages_succeed(1) [OF log_works_mono [OF assms(1) s4(2)] steps_refl, of sg timeout ?evaluated] by (auto simp: succeeds_def)
  show thesis
  proof (rule that)
    show "same_store s s5" by (rule same_store_trans [OF s4(2) steps_same_store [OF s5(2)]])
    show "wo_quorum (ss_world s5) = wo_quorum (ss_world s)" "wo_registry (ss_world s5) = wo_registry (ss_world s)"
      using s5(2) s4(3,4) by (simp_all add: steps_def)
  qed (use s1 s2(1) s3(1) s4(1) s5(1) in \<open>simp add: sign_request_def Let_def pbind_def pmap_err_def\<close>)
qed

lemma sign_succeeds:
  assumes "stores_inv wi s" "ss_wallets s wid = Some rec" "wr_status rec \<noteq> WalletStatusRevoked" "log_works wi (ss_world s)"
    and "enclave_laws (wi_enclave wi)" "attestation_key_ok (en_att (wi_enclave wi)) (mock_attestation_key (wi_mock wi))"
    and "mock_policy_service_pubkey (wi_mock wi) = None" "supports_hash (cfg_scheme (wr_config rec)) alg"
    and "policy_answer wi s wid payload rq None = Ok (Allow d pid hits)"
  shows "succeeds (service_sign cr (server_service wi None timeout) wid payload rq None ctx alg) s (\<lambda>r s'.
    sg_verify (signer_of (en_sign (wi_enclave wi)) (cfg_scheme (wr_config rec))) (wr_master_public_key rec)
      (canonical_message_bytes cr payload) (resp_signature r) alg = Ok () \<and>
    attestation_verify (en_att (wi_enclave wi)) (resp_attestation r) = Ok ())" (is "succeeds _ _ ?Q")
proof -
  let ?svc = "server_service wi None timeout"
  have enclave: "succeeds (enclave_stage cr ?svc rec rid wid payload (canonical_message_bytes cr payload) None ctx alg None) s1 ?Q"
    if "same_store s s1" for rid s1
    using that assms(2)
    by (intro enclave_stage_succeeds stores_inv_mono [OF assms(1)] log_works_mono [OF assms(4)] assms) (simp_all add: same_store_def)
  obtain s1 where "same_store s s1" and run: "sign_request cr ?svc rec wid payload rq None ctx alg s =
      pbind (decision_stage cr ?svc (RequestId (env_ulid (wi_env wi) (wo_tick (ss_world s)))) wid
        (message_hash_for (sv_sign cr) (canonical_message_bytes cr payload)) (Allow d pid hits)) (\<lambda>_.
      pbind (sign_stage cr ?svc (RequestId (env_ulid (wi_env wi) (wo_tick (ss_world s)))) wid (Allow d pid hits)) (\<lambda>bundle.
      enclave_stage cr ?svc rec (RequestId (env_ulid (wi_env wi) (wo_tick (ss_world s)))) wid payload (canonical_message_bytes cr payload) None ctx alg bundle)) s1"
    by (rule sign_request_goes_on [OF assms(4,9) refl])
  with enclave have "succeeds (sign_request cr ?svc rec wid payload rq None ctx alg) s ?Q"
    by (simp add: succeeds_def run decision_stage_def sign_stage_def pbind_def preturn_def)
  with assms(2,3) show ?thesis by (simp add: service_sign_def pbind_def get_wallet_def succeeds_def)
qed

subsection \<open>A quorum never reaches the enclave\<close>

lemma sign_stage_bundle:
  assumes "sign_stage cr (server_service wi (Some key) timeout) rid wid decision s = Some (Ok b, s')"
  shows "\<exists>sd. b = Some sd \<and> spd_decision sd = decision \<and> i64_ok (spd_signed_at_unix_ms sd)"
  using assms
  by (auto simp: sign_stage_def proc_simps on_world_def local_signer_sign sign_decision_def current_unix_ms_def Let_def outcome_simps
      split: if_splits)

lemma enclave_stage_signed:
  assumes "enclave_stage cr self wallet rid wid payload message hd_path ctx alg b s = Some (Ok r, s')"
  shows "\<exists>shares. returned (be_sign_in_enclave (ws_backends self) (enclave_request wallet rid wid payload message hd_path ctx alg b shares)) r"
proof -
  from assms obtain shares s1 resp s2 where
    call: "ptry (on_world (be_sign_in_enclave (ws_backends self) (enclave_request wallet rid wid payload message hd_path ctx alg b shares))) s1 =
      (Some (Ok resp, s2) :: ((service_error, _) outcome \<times> _) option)"
    and rest: "(case resp of
       Ok r \<Rightarrow> pbind (audit_emit self (succeeded_event cr rid wid r)) (\<lambda>_. preturn r)
     | Err e \<Rightarrow>
         pbind (audit_emit self (request_event rid wid ActorEnclave SigningFailed (JObj [(''error'', JStr (sv_enclave_text cr e))]))) (\<lambda>_.
         pthrow (ServiceEnclave e))
     | Panic p \<Rightarrow> plift (Panic p)) s2 = Some (Ok r, s')"
    unfolding enclave_stage_def pbind_Ok by blast
  from rest have "resp = Ok r" by (cases resp) (auto simp: proc_simps)
  with call show ?thesis by (auto simp: proc_simps on_world_def returned_def)
qed

lemma enclave_stage_quorum:
  assumes "enclave_stage cr (server_service wi sg timeout) wallet rid wid payload message hd_path ctx alg (Some sd) s = Some (Ok r, s')"
    and "spd_decision sd = RequireQuorum d p t n sid hits" "i64_ok (spd_signed_at_unix_ms sd)"
    and "mock_policy_service_pubkey (wi_mock wi) = Some pk"
  shows "t = 0"
proof -
  from assms(1) obtain shares t1 t2 t3 nonce where
    "sign_in_enclave (wi_enclave wi) (wi_mock wi) t1 t2 t3 nonce (enclave_request wallet rid wid payload message hd_path ctx alg (Some sd) shares) = Ok r"
    using enclave_stage_signed [OF assms(1)] by (auto simp: returned_def wired_enclave)
  then have "mock_verify (en_hybrid (wi_enclave wi)) (wi_mock wi) t1 t2 (enclave_request wallet rid wid payload message hd_path ctx alg (Some sd) shares) = Ok ()"
    by (auto simp: sign_in_enclave_def outcome_simps)
  then have v: "hybrid_verify (en_hybrid (wi_enclave wi)) (with_require_signed_decision (hybrid_new pk) (mock_require_signed_decision (wi_mock wi)))
      (Some sd) [] (verifier_request (attestation_now t1) (enclave_request wallet rid wid payload message hd_path ctx alg (Some sd) shares))
      (config_ceilings wid (wr_config wallet)) (attestation_now t2) = Ok ()"
    using assms(4) by (simp add: mock_verify_def outcome_simps enclave_request_def request_ceilings_def)
  have now: "i64_ok (attestation_now t2)" by (auto simp: attestation_now_def Let_def i64_ok_def)
  from v have "hybrid_verify (en_hybrid (wi_enclave wi)) (hybrid_new pk) (Some sd) []
      (verifier_request (attestation_now t1) (enclave_request wallet rid wid payload message hd_path ctx alg (Some sd) shares))
      (config_ceilings wid (wr_config wallet)) (attestation_now t2) = Ok ()"
    by (simp add: hybrid_verify_def with_require_signed_decision_def hybrid_new_def check_signed_def)
  then show ?thesis
    unfolding hybrid_verify_Ok [OF now, of "Some sd", simplified, OF assms(3)]
    by (auto simp: decision_authorises_def assms(2) decision_permits_def quorum_valid_def unsigned_eq_0_iff)
qed

lemma quorum_never_signs:
  assumes "policy_answer wi s wid payload rq hd_path = Ok (RequireQuorum d pid t n sid hits)" "0 < t"
    and "mock_policy_service_pubkey (wi_mock wi) = Some pk"
  shows "service_sign cr (server_service wi (Some key) timeout) wid payload rq hd_path ctx alg s \<noteq> Some (Ok r, s')"
proof
  let ?svc = "server_service wi (Some key) timeout"
  assume "service_sign cr ?svc wid payload rq hd_path ctx alg s = Some (Ok r, s')"
  then obtain wallet where "sign_request cr ?svc wallet wid payload rq hd_path ctx alg s = Some (Ok r, s')"
    by (auto simp: service_sign_def proc_simps get_wallet_def split: if_splits)
  then obtain rid decision b s4 s5 where dec: "policy_answer wi s wid payload rq hd_path = Ok decision"
    and b: "sign_stage cr ?svc rid wid decision s4 = Some (Ok b, s5)"
    and en: "enclave_stage cr ?svc wallet rid wid payload (canonical_message_bytes cr payload) hd_path ctx alg b s5 = Some (Ok r, s')"
    by (rule sign_request_asks)
  from sign_stage_bundle [OF b] obtain sd where sd: "b = Some sd" "spd_decision sd = decision" "i64_ok (spd_signed_at_unix_ms sd)" by blast
  have "spd_decision sd = RequireQuorum d pid t n sid hits" using sd(2) dec assms(1) by simp
  from enclave_stage_quorum [OF en [unfolded sd(1)] this sd(3) assms(3)] have "t = 0" .
  with assms(2) show False by simp
qed

subsection \<open>Who counts towards a quorum\<close>

text \<open>A recorded approval is that of a registered approver that is not revoked, and it verifies.\<close>

lemma record_approval_Ok:
  assumes "service_record_approval cr (server_service wi sg timeout) a who h s = Some (Ok out, s')"
  shows "(\<exists>rec now. get_approver who (wo_registry (ss_world s)) = Ok rec \<and> rec_identity rec = ap_approver a \<and> rec_status rec \<noteq> Revoked \<and>
      approval_verify (sv_sign cr) (sv_ulid cr) a (ap_request_id a) h now = Ok ()) \<and>
    wo_registry (ss_world s') = wo_registry (ss_world s) \<and>
    record_approval a who (wo_approvals (ss_world s)) = (Ok out, wo_approvals (ss_world s'))"
proof -
  from assms obtain rec where rec: "get_approver who (wo_registry (ss_world s)) = Ok rec"
      "rec_identity rec = ap_approver a" "rec_status rec \<noteq> Revoked"
    and rest: "pbind (service_unix_ms (server_service wi sg timeout)) (\<lambda>now.
       pbind (plift (map_err (ServiceQuorum \<circ> quorum_error.InvalidApproval)
         (approval_verify (sv_sign cr) (sv_ulid cr) a (ap_request_id a) h now))) (\<lambda>_.
       pmap_err (duplicate_error cr) (on_world (be_record_approval (wired wi) a who)))) s = Some (Ok out, s')"
    by (auto simp: service_record_approval_def proc_simps on_world_def wired_stores outcome_simps split: if_splits)
  from rest obtain now where "approval_verify (sv_sign cr) (sv_ulid cr) a (ap_request_id a) h now = Ok ()"
    "wo_registry (ss_world s') = wo_registry (ss_world s)" "record_approval a who (wo_approvals (ss_world s)) = (Ok out, wo_approvals (ss_world s'))"
    by (auto simp: proc_simps on_world_def service_unix_ms_def wired_rest wired_stores outcome_simps prod_eq_iff)
  with rec show ?thesis by blast
qed

lemma recorded_ballots:
  assumes "pmap (\<lambda>(a, who). service_record_approval cr (server_service wi sg timeout) a who h) votes s = Some (Ok outs, s')"
    and "memory_inv (wo_approvals (ss_world s))" "\<forall>(a, who) \<in> set votes. ap_request_id a = rid"
    and "distinct (map snd votes)" "fst ` set (memory_ballots (wo_approvals (ss_world s)) rid) \<inter> snd ` set votes = {}"
  shows "memory_inv (wo_approvals (ss_world s')) \<and>
    memory_ballots (wo_approvals (ss_world s')) rid = memory_ballots (wo_approvals (ss_world s)) rid @ map (\<lambda>(a, who). (who, a)) votes"
  using assms
proof (induction votes arbitrary: s outs)
  case Nil
  then show ?case by (simp add: proc_simps)
next
  case (Cons v votes)
  obtain a who where v: "v = (a, who)" by (cases v)
  from Cons.prems(1) obtain out outs' s1 where one: "service_record_approval cr (server_service wi sg timeout) a who h s = Some (Ok out, s1)"
    and rest: "pmap (\<lambda>(a, who). service_record_approval cr (server_service wi sg timeout) a who h) votes s1 = Some (Ok outs', s')"
    unfolding v pmap_Ok_Cons by auto
  have rid: "ap_request_id a = rid" using Cons.prems(3) by (simp add: v)
  have "who \<notin> fst ` set (memory_ballots (wo_approvals (ss_world s)) (ap_request_id a))" using Cons.prems(5) rid by (auto simp: v)
  from memory_store.first_vote [OF Cons.prems(2) this] record_approval_Ok [OF one]
  have s1: "memory_inv (wo_approvals (ss_world s1))"
    "memory_ballots (wo_approvals (ss_world s1)) rid = memory_ballots (wo_approvals (ss_world s)) rid @ [(who, a)]" by (auto simp: rid)
  have "fst ` set (memory_ballots (wo_approvals (ss_world s1)) rid) \<inter> snd ` set votes = {}"
    using Cons.prems(4,5) by (auto simp: s1(2) v)
  with Cons.IH [OF rest s1(1)] Cons.prems(3,4) show ?case by (auto simp: s1(2) v)
qed

subsection \<open>A running server\<close>

lemma ed25519_wallet_generated:
  assumes "enclave_laws cr" "attestation_key_ok (en_att cr) (mock_attestation_key self)"
    and "gen_scheme g = Ed25519" "2 \<le> gen_threshold g" "gen_threshold g \<le> gen_total g" "gen_master_hd_path g = None"
  shows "\<exists>r. generate_wallet cr self entropy rng t nonce g = Ok r"
proof -
  let ?seed = "map entropy [0..<64]" and ?ps = "\<lparr>sp_threshold = gen_threshold g, sp_total = gen_total g\<rparr>"
  have v: "shamir_validate ?ps = Ok ()" using assms(4,5) by (simp add: shamir_validate_Ok word_le_nat_alt)
  have spec: "sss_spec (en_sss cr)" and att: "att_laws (en_att cr)" using assms(1) by (simp_all add: enclave_laws_def)
  obtain shares where shares: "split_secret (en_sss cr) rng ?seed ?ps = Ok shares"
    using split_secret_combines [OF spec v, of ?seed rng] by auto
  have "length (take 32 ?seed) = 32" by simp
  then obtain pk where pk: "sg_public_key (signer_of (en_sign cr) Ed25519) (SecretBytes (take 32 ?seed)) = Ok pk"
    by (simp add: signer_defs ed25519_public_key_def ed_signing_key_def)
  obtain doc where "sign_attestation (en_att cr) t (mock_attestation_key self) nonce
      (as_bytes (hv_ulid (en_hybrid cr) (wallet_ulid (gen_wallet_id g))) @ as_bytes ''|'' @ sha256 (en_sign cr) pk @ as_bytes ''|'' @ map ss_index shares) = Ok doc"
    using sign_attestation_verifies [OF att assms(2)] by blast
  moreover have "derive_signing_key (en_hd cr) Ed25519 (SecretBytes ?seed) None = Ok (SecretBytes (take 32 ?seed))"
    by (simp add: derive_signing_key_def is_classical_def secret_len_def fail_if_simps)
  moreover have "\<not> (gen_threshold g < 2 \<or> gen_total g < gen_threshold g)" using assms(4,5) by auto
  ultimately show ?thesis
    using shares pk
    by (simp add: generate_wallet_def assms(3,6) is_post_quantum_def is_classical_def signer_for_scheme_def fail_if_simps Let_def)
qed

lemma emit_ticks: "audit_emit (server_service wi sg timeout) d s = Some (r, s') \<Longrightarrow> wo_tick (ss_world s') = wo_tick (ss_world s) + 1"
  by (auto simp: audit_emit_def pmap_err_def on_world_def wired_rest wired_emit_def split: prod.splits)

lemma create_succeeds:
  assumes "log_works wi (ss_world s)" "enclave_laws (wi_enclave wi)" "attestation_key_ok (en_att (wi_enclave wi)) (mock_attestation_key (wi_mock wi))"
    and "cfg_scheme config = Ed25519" "2 \<le> cfg_threshold config" "cfg_threshold config \<le> cfg_total config"
  shows "succeeds (create_wallet cr (server_service wi sg timeout) config owner) s (\<lambda>rec s'.
    ss_wallets s' (wr_wallet_id rec) = Some rec \<and> wr_config rec = config \<and> wr_status rec = WalletActive \<and>
    wo_tick (ss_world s') = wo_tick (ss_world s) + 4)"
proof -
  let ?svc = "server_service wi sg timeout"
  have gen: "\<exists>r. generate_wallet (wi_enclave wi) (wi_mock wi) e rng t n \<lparr>gen_wallet_id = wid, gen_scheme = cfg_scheme config,
      gen_threshold = cfg_threshold config, gen_total = cfg_total config, gen_master_hd_path = None\<rparr> = Ok r" for e rng t n wid
    by (rule ed25519_wallet_generated) (use assms in simp_all)
  have ulid: "succeeds (fresh_ulid ?svc) s (\<lambda>_ s1. wo_tick (ss_world s1) = wo_tick (ss_world s) + 1)"
    by (simp add: succeeds_def fresh_ulid_def on_world_def wired_rest)
  have generate: "succeeds (pmap_err ServiceEnclave (on_world (be_generate_wallet (wired wi) \<lparr>gen_wallet_id = wid, gen_scheme = cfg_scheme config,
      gen_threshold = cfg_threshold config, gen_total = cfg_total config, gen_master_hd_path = None\<rparr>))) s1
      (\<lambda>_ s2. wo_tick (ss_world s2) = wo_tick (ss_world s) + 2)" if "wo_tick (ss_world s1) = wo_tick (ss_world s) + 1" for s1 wid
    using gen [of "env_entropy (wi_env wi) (wo_tick (ss_world s1))" "env_rng (wi_env wi) (wo_tick (ss_world s1))" "env_clock (wi_env wi) (wo_tick (ss_world s1))"
        "env_nonce (wi_env wi) (wo_tick (ss_world s1))" wid] that
    by (auto simp: succeeds_def pmap_err_def on_world_def wired_enclave)
  have clock: "succeeds (service_unix_ms ?svc) s2 (\<lambda>_ s3. wo_tick (ss_world s3) = wo_tick (ss_world s) + 3)" if "wo_tick (ss_world s2) = wo_tick (ss_world s) + 2" for s2
    using that by (simp add: succeeds_def service_unix_ms_def on_world_def wired_rest)
  have put: "succeeds (pmap (store_share ?svc wid now) shs) s3 (\<lambda>_ s4. wo_tick (ss_world s4) = wo_tick (ss_world s) + 3)" if "wo_tick (ss_world s3) = wo_tick (ss_world s) + 3" for s3 wid now shs
    using that by (simp add: succeeds_def store_all)
  have ins: "succeeds (insert_wallet rec) s4 (\<lambda>_ s5. ss_wallets s5 (wr_wallet_id rec) = Some rec \<and> wo_tick (ss_world s5) = wo_tick (ss_world s) + 3)" if "wo_tick (ss_world s4) = wo_tick (ss_world s) + 3" for s4 rec
    using that by (simp add: succeeds_def insert_wallet_def)
  have emit: "succeeds (audit_emit ?svc d) s5 (\<lambda>_ s6. ss_wallets s6 (wr_wallet_id rec) = Some rec \<and> wo_tick (ss_world s6) = wo_tick (ss_world s) + 4)"
    if "ss_wallets s5 (wr_wallet_id rec) = Some rec \<and> wo_tick (ss_world s5) = wo_tick (ss_world s) + 3" for s5 rec d
  proof -
    have "log_works wi (ss_world s5)" using assms(1) that by (simp add: log_works_def)
    from emit_succeeds [OF this, of sg timeout d] emit_ticks [of wi sg timeout d s5] that show ?thesis
      by (auto simp: succeeds_def same_store_def)
  qed
  show ?thesis unfolding create_wallet_def Let_def server_service_fields
    by (rule succeeds_seq [OF ulid], rule succeeds_seq [OF generate], assumption, rule succeeds_seq [OF clock], assumption,
        rule succeeds_seq [OF put], assumption, rule succeeds_seq [OF ins], assumption, rule succeeds_seq [OF emit], assumption) simp
qed

text \<open>A concrete server as the binary wires it, with one wallet.\<close>

definition demo_environment :: "unit environment" where
  "demo_environment = \<lparr>env_ulid = word_of_nat, env_clock = (\<lambda>n. int n), env_entropy = (\<lambda>n i. word_of_nat (n + i)), env_rng = (\<lambda>_ _. ()),
     env_nonce = (\<lambda>_. []), env_fault = (\<lambda>_. None)\<rparr>"

definition demo_wiring :: "(unit, u256, unit, unit) wiring" where
  "demo_wiring = main_wiring full_audit_crates ref_enclave_crates (mock_new_with_seed ref_att_crates (replicate 32 5)) (PolicyId 1) (\<lambda>_. [])
     demo_environment (\<lambda>_ q _. q) (\<lambda>_ n. n)"

definition demo_service_crates :: service_crates where
  "demo_service_crates = \<lparr>sv_sign = ref_sign_crates, sv_ulid = crockford, sv_scheme = (\<lambda>_. JNull), sv_decision = (\<lambda>_. JNull), sv_typed = (\<lambda>_. None),
     sv_deny_debug = (\<lambda>_. []), sv_enclave_text = (\<lambda>_. []), sv_registry_text = (\<lambda>_. []), sv_signer_text = (\<lambda>_. []), sv_store_text = (\<lambda>_. [])\<rparr>"

definition demo_state :: "unit world service_state" where
  "demo_state = \<lparr>ss_wallets = Map.empty, ss_world = \<lparr>wo_sink = demo_sink, wo_log = None, wo_shares = mock_new, wo_policy = (), wo_registry = registry_new,
     wo_approvals = approval_store_new, wo_quorum = \<lparr>mq_submitted = Map.empty, mq_notified = Map.empty\<rparr>, wo_tick = 0\<rparr>\<rparr>"

definition demo_config :: wallet_config where
  "demo_config = \<lparr>cfg_display_name = ''hot'', cfg_owner_id = OwnerId ''acme'', cfg_scheme = Ed25519, cfg_threshold = 2, cfg_total = 3,
     cfg_policy_id = PolicyId 1, cfg_max_value_per_tx = None, cfg_contract_allowlist = [], cfg_chain_allowlist = []\<rparr>"

definition demo_context :: signing_context where
  "demo_context = \<lparr>ctx_chain_id = None, ctx_vm_type = None, ctx_extra = JNull\<rparr>"

lemma demo_wiring_fields:
  "wi_audit demo_wiring = full_audit_crates" "wi_enclave demo_wiring = ref_enclave_crates" "wi_env demo_wiring = demo_environment"
  "wi_mock demo_wiring = mock_new_with_seed ref_att_crates (replicate 32 5)"
  by (simp_all add: demo_wiring_def main_wiring_def)

lemma demo_attestation_ok: "attestation_key_ok (en_att (wi_enclave demo_wiring)) (mock_attestation_key (wi_mock demo_wiring))"
  by (simp add: attestation_key_ok_def demo_wiring_fields mock_new_with_seed_def attestation_key_from_seed_def ref_enclave_crates_def)

lemma demo_log_works: "log_works demo_wiring w"
  by (simp add: log_works_def demo_wiring_fields demo_environment_def full_audit_crates_def event_to_vec_def)

lemma demo_allows:
  obtains d pid hits where "policy_answer demo_wiring s wid payload rq hd_path = Ok (Allow d pid hits)"
  by (cases "chain_id_of payload")
    (auto simp: policy_answer_def demo_wiring_def main_wiring_def static_evaluate_def allow_all_def static_default_def Let_def)

lemma demo_world_inv: "world_inv demo_wiring (ss_world demo_state)"
  using new_sink_synced [OF demo_opens, of full_audit_crates]
  by (simp add: world_inv_def demo_wiring_fields full_audit_laws demo_state_def)

lemma demo_created:
  obtains rec s where "create_wallet demo_service_crates (server_service demo_wiring None 120000) demo_config ActorSystem demo_state = Some (Ok rec, s)"
    "ss_wallets s (wr_wallet_id rec) = Some rec" "wr_config rec = demo_config" "wr_status rec = WalletActive"
    "fresh_ids demo_wiring (ss_world s)" "reachable demo_wiring demo_service_crates None 120000 s" "world_inv demo_wiring (ss_world s)"
proof -
  let ?svc = "server_service demo_wiring None 120000"
  have "succeeds (create_wallet demo_service_crates ?svc demo_config ActorSystem) demo_state (\<lambda>rec s.
      ss_wallets s (wr_wallet_id rec) = Some rec \<and> wr_config rec = demo_config \<and> wr_status rec = WalletActive \<and>
      wo_tick (ss_world s) = wo_tick (ss_world demo_state) + 4)"
    by (rule create_succeeds [OF demo_log_works _ demo_attestation_ok]) (simp_all add: demo_wiring_fields ref_enclave_laws demo_config_def)
  then obtain rec s where c: "create_wallet demo_service_crates ?svc demo_config ActorSystem demo_state = Some (Ok rec, s)"
    and s: "ss_wallets s (wr_wallet_id rec) = Some rec" "wr_config rec = demo_config" "wr_status rec = WalletActive" "wo_tick (ss_world s) = 4"
    by (auto simp: succeeds_def demo_state_def)
  have "fresh_ids demo_wiring (ss_world s)"
    unfolding fresh_ids_def s(4) demo_wiring_fields by (rule inj_onI) (auto simp: demo_environment_def word_of_nat_eq_iff take_bit_nat_eq_self)
  moreover have "reachable demo_wiring demo_service_crates None 120000 s"
    by (rule reachable.create [OF reachable.start c]) (simp_all add: demo_state_def)
  moreover have "world_inv demo_wiring (ss_world s)"
    using leavesD [OF server.create_wallet_leaves demo_world_inv c] .
  ultimately show thesis using that [OF c s(1-3)] by blast
qed

text \<open>
  The same server with a policy that demands two approvals, a service that signs its decisions and an enclave that checks them,
  and two approvals already handed in for the next request.
\<close>

definition quorum_wiring :: "(unit, u256, unit, unit) wiring" where
  "quorum_wiring = demo_wiring\<lparr>wi_mock := demo_enclave, wi_evaluate := \<lambda>d p req. (Ok (RequireQuorum d (PolicyId 1) 2 3 (ApproverSetId 1) []), p),
     wi_decision_json := hv_decision_json ref_hybrid_crates, wi_env := demo_environment\<lparr>env_clock := \<lambda>_. 0\<rparr>\<rparr>"

definition approved_state :: "unit world service_state \<Rightarrow> unit world service_state" where
  "approved_state s = s\<lparr>ss_world := (ss_world s)\<lparr>wo_registry := registry_new, wo_approvals := approval_store_new,
     wo_quorum := fold mock_submit [(demo_approval [1])\<lparr>ap_request_id := RequestId 4\<rparr>, (demo_approval [2])\<lparr>ap_request_id := RequestId 4\<rparr>]
       \<lparr>mq_submitted = Map.empty, mq_notified = Map.empty\<rparr>\<rparr>\<rparr>"

lemma quorum_wiring_fields:
  "wi_audit quorum_wiring = full_audit_crates" "wi_enclave quorum_wiring = ref_enclave_crates" "wi_mock quorum_wiring = demo_enclave"
  "wi_env quorum_wiring = demo_environment\<lparr>env_clock := \<lambda>_. 0\<rparr>" "wi_decision_json quorum_wiring = hv_decision_json ref_hybrid_crates"
  "wi_request quorum_wiring = mock_request_approval"
  "wi_collect quorum_wiring t rid threshold wait (q, a) = map_option (\<lambda>r. (r, q, a)) (mock_collect_from (\<lambda>_. q) (\<lambda>n. n) rid threshold wait 0)"
  by (simp_all add: quorum_wiring_def demo_wiring_def main_wiring_def)

lemma quorum_pinned: "mock_policy_service_pubkey (wi_mock quorum_wiring) = Some (replicate 32 7)"
  by (simp add: quorum_wiring_fields demo_enclave_def mock_with_require_signed_decision_def with_policy_service_pubkey_def)

lemma quorum_asked:
  "policy_answer quorum_wiring s wid payload rq hd_path =
     Ok (RequireQuorum (DecisionId (word_of_nat (wo_tick (ss_world s) + 3))) (PolicyId 1) 2 3 (ApproverSetId 1) [])"
  by (simp add: policy_answer_def quorum_wiring_def demo_environment_def Let_def)

lemma quorum_log_works: "log_works quorum_wiring w"
  by (simp add: log_works_def quorum_wiring_fields demo_environment_def full_audit_crates_def event_to_vec_def)

lemma emit_runs:
  assumes "log_works wi (ss_world s)"
  obtains e s1 where "audit_emit (server_service wi sg timeout) d s = Some (Ok e, s1)" "steps 1 s s1"
  using stages_succeed(1) [OF assms steps_refl, of sg timeout d] by (auto simp: succeeds_def)

lemma emits_run:
  assumes "\<forall>w. log_works wi w"
  shows "succeeds (pmap (\<lambda>a. audit_emit (server_service wi sg timeout) (f a)) as) s (\<lambda>_ s'. same_store s s')"
proof (induction "as" arbitrary: s)
  case Nil
  then show ?case by (simp add: succeeds_def proc_simps same_store_def)
next
  case (Cons a "as")
  obtain e s1 where e: "audit_emit (server_service wi sg timeout) (f a) s = Some (Ok e, s1)" "steps 1 s s1"
    using emit_runs [of wi s] assms by blast
  with Cons.IH [of s1] show ?case
    using same_store_trans [OF steps_same_store [OF e(2)]] by (auto simp: succeeds_def pbind_def preturn_def)
qed

lemma quorum_reached:
  assumes "wo_quorum (ss_world s) = wo_quorum (ss_world (approved_state s0))" "wo_registry (ss_world s) = registry_new"
  shows "succeeds (quorum_stage cr (server_service quorum_wiring sg timeout) (RequestId 4) wid h 2 (ApproverSetId 1)) s (\<lambda>_ s'. same_store s s')"
proof -
  let ?svc = "server_service quorum_wiring sg timeout"
  define votes where "votes = map (\<lambda>n. (demo_approval [n])\<lparr>ap_request_id := RequestId 4\<rparr>) [1, 2]"
  note logs = quorum_log_works
  have subs: "mq_submitted (wo_quorum (ss_world s)) (RequestId 4) = Some votes"
    by (simp add: assms(1) approved_state_def mock_submit_def votes_def)
  have yes: "collect_decision 2 votes = Some votes" "find (\<lambda>a. ap_decision a = Reject) votes = None"
    by (simp_all add: collect_decision_def demo_approval_def Let_def votes_def)
  define s1 where "s1 = s\<lparr>ss_world := (ss_world s)\<lparr>wo_quorum := snd (mock_request_approval
    \<lparr>ar_request_id = RequestId 4, ar_message_hash = h, ar_approver_set = [], ar_threshold = 2\<rparr> (wo_quorum (ss_world s)))\<rparr>\<rparr>"
  have asks: "fst (mock_request_approval req q) = Ok ()" for req q by (simp add: mock_request_approval_def)
  have s1: "same_store s s1" "mq_submitted (wo_quorum (ss_world s1)) (RequestId 4) = Some votes"
    using subs by (simp_all add: s1_def same_store_def mock_request_approval_def)
  obtain e2 s2 where s2: "audit_emit ?svc (notified_event cr (RequestId 4) wid 2 (ApproverSetId 1)) s1 = Some (Ok e2, s2)" "steps 1 s1 s2"
    by (rule emit_runs [OF logs])
  have got: "mock_collect_from (\<lambda>_. wo_quorum (ss_world s2)) (\<lambda>n. n) (RequestId 4) 2 wait 0 = Some (Ok votes)" for wait
    using s1(2) s2(2) yes(1) by (subst mock_collect_from.simps) (simp add: steps_def)
  define s3 where "s3 = s2\<lparr>ss_world := (advance 1 (ss_world s2))\<lparr>wo_quorum := wo_quorum (ss_world s2), wo_approvals := wo_approvals (ss_world s2)\<rparr>\<rparr>"
  have s3: "same_store s2 s3" by (simp add: s3_def same_store_def)
  obtain es s4 where s4: "pmap (\<lambda>a. audit_emit ?svc (approval_event cr (RequestId 4) wid a)) votes s3 = Some (Ok es, s4)" "same_store s3 s4"
    using emits_run [of quorum_wiring sg timeout "approval_event cr (RequestId 4) wid" votes s3] logs unfolding succeeds_def by blast
  obtain e5 s5 where s5: "audit_emit ?svc (reached_event (RequestId 4) wid 2 votes) s4 = Some (Ok e5, s5)" "steps 1 s4 s5"
    by (rule emit_runs [OF logs])
  have "get_approver_set (ApproverSetId 1) (wo_registry (ss_world s)) = Err (ApproverSetNotFound (ApproverSetId 1))"
    by (simp add: assms(2) get_approver_set_def registry_new_def)
  then have "quorum_stage cr ?svc (RequestId 4) wid h 2 (ApproverSetId 1) s = Some (Ok votes, s5)"
    using s2(1) got s4(1) s5(1) yes(2) asks
    by (simp add: quorum_stage_def pbind_def ptry_def on_world_def wired_stores wired_rest pmap_err_def preturn_def resolve_identities_def
        quorum_wiring_fields s1_def s3_def Let_def)
  moreover have "same_store s s5"
    using same_store_trans [OF s1(1) same_store_trans [OF steps_same_store [OF s2(2)] same_store_trans [OF s3 same_store_trans [OF s4(2) steps_same_store [OF s5(2)]]]]] .
  ultimately show ?thesis by (simp add: succeeds_def)
qed

lemma enclave_stage_refuses:
  assumes "stores_inv wi s" "ss_wallets s wid = Some rec" "\<forall>w. log_works wi w" "sss_spec (en_sss (wi_enclave wi))"
    and "\<forall>shares m n. mock_verify (en_hybrid (wi_enclave wi)) (wi_mock wi) (env_clock (wi_env wi) m) (env_clock (wi_env wi) n)
      (enclave_request rec rid wid payload message hd_path ctx alg bndl shares) = Err e"
  shows "\<exists>s'. enclave_stage cr (server_service wi sg timeout) rec rid wid payload message hd_path ctx alg bndl s = Some (Err (ServiceEnclave e), s')"
proof -
  let ?svc = "server_service wi sg timeout"
  obtain sts where fetch: "fetch_shares ?svc rec (cfg_threshold (wr_config rec)) s = Some (Ok sts, s)"
    using fetch_backed [OF assms(1,2,4), of sg timeout] by metis
  obtain e1 s1 where s1: "audit_emit ?svc (request_event rid wid ActorSystem SigningAttempted (JObj [])) s = Some (Ok e1, s1)"
    using emit_runs [of wi s] assms(3) by blast
  define s2 where "s2 = s1\<lparr>ss_world := advance 3 (ss_world s1)\<rparr>"
  have s2: "ptry (on_world (be_sign_in_enclave (wired wi) (enclave_request rec rid wid payload message hd_path ctx alg bndl sts))) s1 =
      (Some (Ok (Err e), s2) :: ((service_error, _) outcome \<times> _) option)"
    using assms(5) by (simp add: ptry_def on_world_def wired_enclave sign_in_enclave_def s2_def)
  obtain e3 s3 where "audit_emit ?svc (request_event rid wid ActorEnclave SigningFailed (JObj [(''error'', JStr (sv_enclave_text cr e))])) s2 = Some (Ok e3, s3)"
    using emit_runs [of wi s2] assms(3) by blast
  with fetch s1 s2 show ?thesis by (simp add: enclave_stage_def pbind_def pthrow_def)
qed

definition quorum_bundle :: "policy_decision \<Rightarrow> wallet_id \<Rightarrow> signed_policy_decision" where
  "quorum_bundle dec wid =
     (let raw = build_preimage (hv_decision_json ref_hybrid_crates) crockford dec (RequestId 4) wid 0 MAX_DECISION_AGE_SECS_DEFAULT in
      \<lparr>spd_decision = dec, spd_request_id = RequestId 4, spd_wallet_id = wid, spd_raw_payload = raw,
       spd_signature = ed_sign ref_sign_crates (replicate 32 7) raw, spd_signed_at_unix_ms = 0, spd_max_age_secs = MAX_DECISION_AGE_SECS_DEFAULT\<rparr>)"

lemma quorum_bundle_signed:
  "succeeds (sign_stage cr (server_service quorum_wiring (Some (replicate 32 7)) timeout) (RequestId 4) wid dec) s
     (\<lambda>b s'. b = Some (quorum_bundle dec wid) \<and> same_store s s')"
proof -
  let ?svc = "server_service quorum_wiring (Some (replicate 32 7)) timeout"
  define s1 where "s1 = s\<lparr>ss_world := advance 1 (ss_world s)\<rparr>"
  obtain e s2 where s2: "audit_emit ?svc (signed_event cr (RequestId 4) wid dec (pss_public_key (local_signer quorum_wiring (replicate 32 7))) (quorum_bundle dec wid)) s1 =
      Some (Ok e, s2)" "steps 1 s1 s2"
    by (rule emit_runs [OF quorum_log_works])
  have "on_world (pss_sign_decision (local_signer quorum_wiring (replicate 32 7)) dec (RequestId 4) wid MAX_DECISION_AGE_SECS_DEFAULT) s =
      Some (Ok (quorum_bundle dec wid), s1)"
    by (simp add: on_world_def local_signer_sign quorum_wiring_fields sign_decision_def current_unix_ms_def whole_units_def i64_ok_def quorum_bundle_def
        ref_enclave_crates_def ref_hybrid_crates_def Let_def s1_def)
  moreover have "same_store s s2" using steps_same_store [OF s2(2)] by (simp add: s1_def same_store_def)
  ultimately show ?thesis using s2(1) by (simp add: succeeds_def sign_stage_def pbind_def pmap_err_def preturn_def)
qed

lemma quorum_bundle_refused:
  assumes "dec = RequireQuorum d pid 2 n sid hits"
  shows "mock_verify (en_hybrid ref_enclave_crates) demo_enclave 0 0
     (enclave_request rec (RequestId 4) wid payload message hd_path ctx alg (Some (quorum_bundle dec wid)) shares) =
     Err (HybridVerification (NotEnoughApprovals 0 2))"
proof -
  have crates: "en_hybrid ref_enclave_crates = ref_hybrid_crates" "hv_sign ref_hybrid_crates = ref_sign_crates" "hv_ulid ref_hybrid_crates = crockford"
    by (simp_all add: ref_enclave_crates_def ref_hybrid_crates_def)
  have "verify_ed25519 ref_sign_crates (replicate 32 7) raw (ed_sign ref_sign_crates (replicate 32 7) raw) = Ok ()" for raw
    by (simp add: verify_ed25519_def ref_sign_crates_def)
  moreover have "check_approvals ref_hybrid_crates [] req 2 now = Err (NotEnoughApprovals 0 2)" for req now
    by (simp add: check_approvals_def Let_def)
  ultimately show ?thesis
    by (simp add: mock_verify_def demo_enclave_def mock_with_require_signed_decision_def with_policy_service_pubkey_def crates
        hybrid_verify_def check_signed_def quorum_bundle_def enclave_request_def request_ceilings_def config_ceilings_def verifier_request_def
        with_require_signed_decision_def hybrid_new_def attestation_now_def whole_units_def i64_ok_def i64_saturating_sub_def age_secs_of_def
        i64_saturate_def build_preimage_def assms Let_def)
qed

lemma quorum_run:
  obtains rec s s1 where
    "create_wallet demo_service_crates (server_service quorum_wiring (Some (replicate 32 7)) 120000) demo_config ActorSystem demo_state = Some (Ok rec, s)"
    "service_sign demo_service_crates (server_service quorum_wiring (Some (replicate 32 7)) 120000) (wr_wallet_id rec) (Raw [1]) (ApiKey ''k'') None
       demo_context HashNone (approved_state s) = Some (Err (ServiceEnclave (HybridVerification (NotEnoughApprovals 0 2))), s1)"
proof -
  let ?svc = "server_service quorum_wiring (Some (replicate 32 7)) 120000"
  have "succeeds (create_wallet demo_service_crates ?svc demo_config ActorSystem) demo_state (\<lambda>rec s.
      ss_wallets s (wr_wallet_id rec) = Some rec \<and> wr_config rec = demo_config \<and> wr_status rec = WalletActive \<and>
      wo_tick (ss_world s) = wo_tick (ss_world demo_state) + 4)"
    by (rule create_succeeds [OF quorum_log_works]) (simp_all add: quorum_wiring_fields demo_key_ok ref_enclave_laws demo_config_def)
  then obtain rec s where c: "create_wallet demo_service_crates ?svc demo_config ActorSystem demo_state = Some (Ok rec, s)"
    and s: "ss_wallets s (wr_wallet_id rec) = Some rec" "wr_config rec = demo_config" "wr_status rec = WalletActive" "wo_tick (ss_world s) = 4"
    by (auto simp: succeeds_def demo_state_def)
  let ?s = "approved_state s" and ?rid = "RequestId 4" and ?wid = "wr_wallet_id rec" and ?m = "canonical_message_bytes demo_service_crates (Raw [1])"
  let ?dec = "RequireQuorum (DecisionId 7) (PolicyId 1) 2 3 (ApproverSetId 1) []"
  have "reachable quorum_wiring demo_service_crates (Some (replicate 32 7)) 120000 s"
    by (rule reachable.create [OF reachable.start c]) (simp_all add: demo_state_def)
  from reachable_inv [OF reachable.admin [OF this]] have "service_inv quorum_wiring ?s"
    by (simp add: approved_state_def quorum_wiring_fields ref_enclave_crates_def ref_sss_spec)
  moreover have "fresh_ids quorum_wiring (ss_world ?s)"
    unfolding fresh_ids_def quorum_wiring_fields
    by (rule inj_onI) (auto simp: approved_state_def s(4) demo_environment_def word_of_nat_eq_iff take_bit_nat_eq_self)
  ultimately have inv: "stores_inv quorum_wiring ?s" by (simp add: service_inv_def)
  have st: "wo_tick (ss_world ?s) = 4" "ss_wallets ?s = ss_wallets s" "wo_registry (ss_world ?s) = registry_new"
    by (simp_all add: approved_state_def s(4))
  have asked: "policy_answer quorum_wiring ?s ?wid (Raw [1]) (ApiKey ''k'') None = Ok ?dec"
    using quorum_asked [of ?s] by (simp add: st(1))
  have rid: "?rid = RequestId (env_ulid (wi_env quorum_wiring) (wo_tick (ss_world ?s)))"
    by (simp add: quorum_wiring_fields demo_environment_def st(1))
  obtain s1 where s1: "same_store ?s s1" "wo_quorum (ss_world s1) = wo_quorum (ss_world ?s)" "wo_registry (ss_world s1) = wo_registry (ss_world ?s)"
    and run: "sign_request demo_service_crates ?svc rec ?wid (Raw [1]) (ApiKey ''k'') None demo_context HashNone ?s =
      pbind (decision_stage demo_service_crates ?svc ?rid ?wid (message_hash_for (sv_sign demo_service_crates) ?m) ?dec) (\<lambda>_.
      pbind (sign_stage demo_service_crates ?svc ?rid ?wid ?dec) (\<lambda>bundle.
      enclave_stage demo_service_crates ?svc rec ?rid ?wid (Raw [1]) ?m None demo_context HashNone bundle)) s1"
    by (rule sign_request_goes_on [OF quorum_log_works asked rid])
  obtain approvals s2 where s2: "decision_stage demo_service_crates ?svc ?rid ?wid (message_hash_for (sv_sign demo_service_crates) ?m) ?dec s1 = Some (Ok approvals, s2)"
      "same_store s1 s2"
    using quorum_reached [OF s1(2)] s1(3) st(3) by (fastforce simp: succeeds_def decision_stage_def)
  obtain s3 where s3: "sign_stage demo_service_crates ?svc ?rid ?wid ?dec s2 = Some (Ok (Some (quorum_bundle ?dec ?wid)), s3)" "same_store s2 s3"
    using quorum_bundle_signed [of demo_service_crates 120000 ?wid ?dec s2] by (auto simp: succeeds_def)
  have wallets: "ss_wallets s3 ?wid = Some rec" and inv3: "stores_inv quorum_wiring s3"
    using s1(1) s2(2) s3(2) s(1) st(2) stores_inv_mono [OF inv, of s3] by (simp_all add: same_store_def)
  have "\<exists>s'. enclave_stage demo_service_crates ?svc rec ?rid ?wid (Raw [1]) ?m None demo_context HashNone (Some (quorum_bundle ?dec ?wid)) s3 =
      Some (Err (ServiceEnclave (HybridVerification (NotEnoughApprovals 0 2))), s')"
    by (rule enclave_stage_refuses [OF inv3 wallets])
      (simp_all add: quorum_log_works quorum_wiring_fields quorum_bundle_refused, simp add: ref_enclave_crates_def ref_sss_spec)
  then show thesis
    using that [OF c] s(1,3) st(2) s2(1) s3(1) run by (auto simp: service_sign_def pbind_def get_wallet_def)
qed

subsection \<open>Properties\<close>

text \<open>C1. Every wallet a server lists can sign. In any state reached from an empty server by creating wallets, signing and approving,
  in any order and with any failures in between, each wallet that is not revoked signs a message that the policy, asked about this
  very request in this state, allows: the call returns a signature that verifies under the public key in the wallet's record and an
  attestation that verifies. The request is for the wallet's own key, without a derivation path, and names a hash its scheme supports.
  The server runs as the binary starts it, without a policy signer and with an enclave that has no pinned policy key; identifiers have
  been unique so far, and the log accepts writes.\<close>

theorem listed_wallet_signs:
  assumes "reachable wi cr None timeout s" "fresh_ids wi (ss_world s)" "ss_wallets s wid = Some rec" "wr_status rec \<noteq> WalletStatusRevoked"
    and "enclave_laws (wi_enclave wi)" "attestation_key_ok (en_att (wi_enclave wi)) (mock_attestation_key (wi_mock wi))"
    and "mock_policy_service_pubkey (wi_mock wi) = None" "log_works wi (ss_world s)" "supports_hash (cfg_scheme (wr_config rec)) alg"
    and "policy_answer wi s wid payload rq None = Ok (Allow d pid hits)"
  shows "\<exists>r s'. service_sign cr (server_service wi None timeout) wid payload rq None ctx alg s = Some (Ok r, s') \<and>
    sg_verify (signer_of (en_sign (wi_enclave wi)) (cfg_scheme (wr_config rec))) (wr_master_public_key rec)
      (canonical_message_bytes cr payload) (resp_signature r) alg = Ok () \<and>
    attestation_verify (en_att (wi_enclave wi)) (resp_attestation r) = Ok ()"
proof -
  have "sss_spec (en_sss (wi_enclave wi))" using assms(5) by (simp add: enclave_laws_def)
  then have "stores_inv wi s" using reachable_inv [OF assms(1)] assms(2) by (simp add: service_inv_def)
  from sign_succeeds [OF this assms(3,4,8,5,6,7,9,10)] show ?thesis unfolding succeeds_def by blast
qed

theorem listed_wallet_signs_witness:
  "\<exists>rec s r s'. create_wallet demo_service_crates (server_service demo_wiring None 120000) demo_config ActorSystem demo_state = Some (Ok rec, s) \<and>
     service_sign demo_service_crates (server_service demo_wiring None 120000) (wr_wallet_id rec) (Raw [1, 2, 3]) (ApiKey ''k'') None demo_context HashNone s =
       Some (Ok r, s')"
proof -
  obtain rec s where d: "create_wallet demo_service_crates (server_service demo_wiring None 120000) demo_config ActorSystem demo_state = Some (Ok rec, s)"
    "ss_wallets s (wr_wallet_id rec) = Some rec" "wr_config rec = demo_config" "wr_status rec = WalletActive"
    "fresh_ids demo_wiring (ss_world s)" "reachable demo_wiring demo_service_crates None 120000 s" by (rule demo_created)
  have "\<exists>r s'. service_sign demo_service_crates (server_service demo_wiring None 120000) (wr_wallet_id rec) (Raw [1, 2, 3]) (ApiKey ''k'') None demo_context HashNone s = Some (Ok r, s') \<and>
    sg_verify (signer_of (en_sign (wi_enclave demo_wiring)) (cfg_scheme (wr_config rec))) (wr_master_public_key rec)
      (canonical_message_bytes demo_service_crates (Raw [1, 2, 3])) (resp_signature r) HashNone = Ok () \<and>
    attestation_verify (en_att (wi_enclave demo_wiring)) (resp_attestation r) = Ok ()"
    by (rule demo_allows, rule listed_wallet_signs [OF d(6,5,2) _ _ demo_attestation_ok _ demo_log_works])
      (simp_all add: d demo_wiring_fields ref_enclave_laws mock_new_with_seed_def demo_config_def supports_hash_def is_secp_def)
  with d(1) show ?thesis by blast
qed

text \<open>C5. No signature without its trail. When a signing request returns a signature, the wallet exists and is not revoked, the
  policy was asked about exactly this request and did not deny it, where it required a quorum the collected approvals are all
  approvals, the enclave signed the canonical message of the payload, and the audit log has grown by exactly the events of
  these stages, in their order, ending with the success of this signature; the grown log passes the offline verifier.\<close>

theorem signed_request_is_logged:
  assumes "world_inv wi (ss_world s)"
    and "service_sign cr (server_service wi sg timeout) wid payload rq hd_path ctx alg s = Some (Ok r, s')"
  shows "\<exists>wallet rid received decision approvals bndl shares.
    ss_wallets s wid = Some wallet \<and> wr_status wallet \<noteq> WalletStatusRevoked \<and>
    returned (be_evaluate (wired wi) \<lparr>sr_request_id = rid, sr_wallet_id = wid, sr_requester = rq, sr_payload = payload,
      sr_hd_path = hd_path, sr_received_at_unix_ms = received\<rparr>) decision \<and>
    collected (server_service wi sg timeout) rid decision approvals \<and>
    returned (be_sign_in_enclave (wired wi)
      (enclave_request wallet rid wid payload (canonical_message_bytes cr payload) hd_path ctx alg bndl shares)) r \<and>
    logged wi (ss_world s') = logged wi (ss_world s) @
      signing_trail cr (server_service wi sg timeout) rid wid payload rq hd_path decision approvals bndl r \<and>
    (\<forall>c. wo_log (ss_world s') = Some c \<longrightarrow>
      replay_verify (wi_audit wi) (LogContent c) (server_public_key (wi_audit wi) (wo_sink (ss_world s'))) = Ok (event_count (wo_sink (ss_world s'))))"
proof -
  from assms(2) obtain wallet where w: "ss_wallets s wid = Some wallet" "wr_status wallet \<noteq> WalletStatusRevoked"
    and run: "sign_request cr (server_service wi sg timeout) wallet wid payload rq hd_path ctx alg s = Some (Ok r, s')"
    by (auto simp: service_sign_def proc_simps get_wallet_def outcome_simps split: if_splits)
  obtain l where inv: "world_inv wi (ss_world s')" and l: "logged wi (ss_world s') = logged wi (ss_world s) @ l"
    and L: "\<exists>rid received decision approvals bndl shares.
       returned (be_evaluate (ws_backends (server_service wi sg timeout)) \<lparr>sr_request_id = rid, sr_wallet_id = wid, sr_requester = rq,
         sr_payload = payload, sr_hd_path = hd_path, sr_received_at_unix_ms = received\<rparr>) decision \<and>
       collected (server_service wi sg timeout) rid decision approvals \<and>
       returned (be_sign_in_enclave (ws_backends (server_service wi sg timeout))
         (enclave_request wallet rid wid payload (canonical_message_bytes cr payload) hd_path ctx alg bndl shares)) r \<and>
       l = signing_trail cr (server_service wi sg timeout) rid wid payload rq hd_path decision approvals bndl r"
    by (rule leavesD [OF server.sign_leaves assms(1) run])
  have "replay_verify (wi_audit wi) (LogContent c) (server_public_key (wi_audit wi) (wo_sink (ss_world s'))) = Ok (event_count (wo_sink (ss_world s')))"
    if "wo_log (ss_world s') = Some c" for c
    using synced_replays [of "wi_audit wi" "wo_sink (ss_world s')" c] inv that by (simp add: world_inv_def event_count_def)
  with w l L show ?thesis unfolding server_service_fields by blast
qed

theorem signed_request_is_logged_witness:
  "\<exists>(rec :: wallet_record) s r s' rid decision approvals bndl.
     service_sign demo_service_crates (server_service demo_wiring None 120000) (wr_wallet_id rec) (Raw [1, 2, 3]) (ApiKey ''k'') None demo_context HashNone s =
       Some (Ok r, s') \<and>
     logged demo_wiring (ss_world s') = logged demo_wiring (ss_world s) @
       signing_trail demo_service_crates (server_service demo_wiring None 120000) rid (wr_wallet_id rec) (Raw [1, 2, 3]) (ApiKey ''k'') None decision approvals bndl r"
proof -
  obtain rec s where d: "ss_wallets s (wr_wallet_id rec) = Some rec" "wr_config rec = demo_config" "wr_status rec = WalletActive"
    "fresh_ids demo_wiring (ss_world s)" "reachable demo_wiring demo_service_crates None 120000 s" "world_inv demo_wiring (ss_world s)" by (rule demo_created)
  have inv: "stores_inv demo_wiring s"
    using reachable_inv [OF d(5)] d(4) by (simp add: service_inv_def demo_wiring_fields ref_enclave_crates_def ref_sss_spec)
  have "succeeds (service_sign demo_service_crates (server_service demo_wiring None 120000) (wr_wallet_id rec) (Raw [1, 2, 3]) (ApiKey ''k'') None demo_context HashNone) s (\<lambda>r s'.
    sg_verify (signer_of (en_sign (wi_enclave demo_wiring)) (cfg_scheme (wr_config rec))) (wr_master_public_key rec)
      (canonical_message_bytes demo_service_crates (Raw [1, 2, 3])) (resp_signature r) HashNone = Ok () \<and>
    attestation_verify (en_att (wi_enclave demo_wiring)) (resp_attestation r) = Ok ())"
    by (rule demo_allows, rule sign_succeeds [OF inv d(1) _ demo_log_works _ demo_attestation_ok])
      (simp_all add: d demo_wiring_fields ref_enclave_laws mock_new_with_seed_def demo_config_def supports_hash_def is_secp_def)
  then obtain r s' where "service_sign demo_service_crates (server_service demo_wiring None 120000) (wr_wallet_id rec) (Raw [1, 2, 3]) (ApiKey ''k'') None demo_context HashNone s =
      Some (Ok r, s')" by (auto simp: succeeds_def)
  from this signed_request_is_logged [OF d(6) this] show ?thesis by blast
qed

text \<open>C38. A quorum never helps. When the service signs its decisions and the enclave has the policy service's key pinned, a request for
  which the policy demands a quorum of at least one approval is never signed: the service passes an empty list of approvals to the
  enclave, whatever approvals were collected and logged.\<close>

theorem quorum_requests_never_signed:
  assumes "policy_answer wi s wid payload rq hd_path = Ok (RequireQuorum d pid t n sid hits)" "0 < t"
    and "mock_policy_service_pubkey (wi_mock wi) = Some pk"
  shows "service_sign cr (server_service wi (Some key) timeout) wid payload rq hd_path ctx alg s \<noteq> Some (Ok r, s')"
  using assms by (rule quorum_never_signs)

theorem quorum_requests_never_signed_witness:
  "\<exists>rec s s1. create_wallet demo_service_crates (server_service quorum_wiring (Some (replicate 32 7)) 120000) demo_config ActorSystem demo_state = Some (Ok rec, s) \<and>
     service_sign demo_service_crates (server_service quorum_wiring (Some (replicate 32 7)) 120000) (wr_wallet_id rec) (Raw [1]) (ApiKey ''k'') None
       demo_context HashNone (approved_state s) = Some (Err (ServiceEnclave (HybridVerification (NotEnoughApprovals 0 2))), s1) \<and>
     (\<forall>r s'. service_sign demo_service_crates (server_service quorum_wiring (Some (replicate 32 7)) 120000) (wr_wallet_id rec) (Raw [1]) (ApiKey ''k'') None
       demo_context HashNone (approved_state s) \<noteq> Some (Ok r, s'))"
proof -
  obtain rec s s1 where run: "create_wallet demo_service_crates (server_service quorum_wiring (Some (replicate 32 7)) 120000) demo_config ActorSystem demo_state = Some (Ok rec, s)"
    "service_sign demo_service_crates (server_service quorum_wiring (Some (replicate 32 7)) 120000) (wr_wallet_id rec) (Raw [1]) (ApiKey ''k'') None
       demo_context HashNone (approved_state s) = Some (Err (ServiceEnclave (HybridVerification (NotEnoughApprovals 0 2))), s1)"
    by (rule quorum_run)
  have "service_sign demo_service_crates (server_service quorum_wiring (Some (replicate 32 7)) 120000) (wr_wallet_id rec) (Raw [1]) (ApiKey ''k'') None
      demo_context HashNone (approved_state s) \<noteq> Some (Ok r, s')" for r s'
    by (rule quorum_requests_never_signed [OF quorum_asked _ quorum_pinned]) simp
  with run show ?thesis by blast
qed

text \<open>C39. Membership in the approver set is not enforced. If registered approvers, none of them a member of the set the policy named,
  have their approvals of a request accepted by the service, the collector that reads the approval store reports them as a quorum.\<close>

theorem outsiders_meet_quorum:
  assumes "memory_inv (wo_approvals (ss_world s))" "memory_ballots (wo_approvals (ss_world s)) rid = []"
    and "pmap (\<lambda>(a, who). service_record_approval cr (server_service wi sg timeout) a who h) votes s = Some (Ok outs, s')"
    and "\<forall>(a, who) \<in> set votes. ap_request_id a = rid \<and> ap_decision a = Approve" "distinct (map snd votes)" "unat threshold \<le> length votes"
    and "get_approver_set sid (wo_registry (ss_world s)) = Ok aset" "set (set_members aset) \<inter> snd ` set votes = {}"
  shows "collect_approvals (store_polls (\<lambda>_. wo_approvals (ss_world s')) rid) elapsed threshold wait = Some (Ok (map fst votes))"
proof -
  have b: "memory_inv (wo_approvals (ss_world s'))" "memory_ballots (wo_approvals (ss_world s')) rid = map (\<lambda>(a, who). (who, a)) votes"
    using recorded_ballots [OF assms(3,1) _ assms(5), of rid] assms(2,4) by (auto simp: case_prod_unfold)
  have eq: "map snd (map (\<lambda>(a, who). (who, a)) votes) = map fst votes" by (simp add: case_prod_unfold)
  have "filter (\<lambda>a. ap_decision a = Approve) (map fst votes) = map fst votes" using assms(4) by (auto simp: filter_id_conv case_prod_unfold)
  moreover have "find (\<lambda>a. ap_decision a = Reject) (map fst votes) = None" using assms(4) by (auto simp: find_None_iff case_prod_unfold)
  ultimately have "collect_decision threshold (map snd (map (\<lambda>(a, who). (who, a)) votes)) = Some (map fst votes)"
    using assms(6) unfolding eq by (simp add: collect_decision_def Let_def)
  with memory_store.votes [OF b(1), of rid] b(2) show ?thesis
    by (simp add: collect_approvals_def collect_from.simps store_polls_def)
qed

definition outsider_vote :: signed_approval where
  "outsider_vote = demo_approval (replicate 32 7 @ toy_hash (approval_preimage crockford (demo_approval [])))"

definition outsider_state :: "unit world service_state" where
  "outsider_state = demo_state\<lparr>ss_world := (ss_world demo_state)\<lparr>wo_tick := 1000000000, wo_registry :=
     \<lparr>reg_approvers = [(ApproverId 1, \<lparr>rec_approver_id = ApproverId 1, rec_identity = ap_approver outsider_vote, rec_scheme = Ed25519,
         rec_label = ''outsider'', rec_owner_id = OwnerId ''other'', rec_webhook_url = None, rec_status = Active, rec_added_at_unix_ms = 0\<rparr>)],
      reg_sets = [(ApproverSetId 1, \<lparr>set_id = ApproverSetId 1, set_name = ''treasury'', set_owner_id = OwnerId ''acme'', set_members = [ApproverId 2],
         set_threshold = 1, set_total = 1, set_quorum_timeout_secs = None, set_created_at_unix_ms = 0\<rparr>)]\<rparr>\<rparr>\<rparr>"

lemma outsider_verifies: "approval_verify ref_sign_crates crockford outsider_vote (RequestId 2) (replicate 32 9) 1000 = Ok ()"
proof -
  have "approval_preimage crockford outsider_vote = approval_preimage crockford (demo_approval [])"
    by (simp add: approval_preimage_def outsider_vote_def demo_approval_def)
  then have "sg_verify (signer_of ref_sign_crates Ed25519) (replicate 32 7) (approval_preimage crockford outsider_vote) (ap_signature outsider_vote) HashNone = Ok ()"
    by (simp add: signer_defs ref_sign_crates_def outsider_vote_def demo_approval_def)
  then show ?thesis
    using approval_verify_Ok [of 1000 outsider_vote ref_sign_crates crockford "RequestId 2" "replicate 32 9"]
    by (simp add: i64_ok_def outsider_vote_def demo_approval_def hash_alg_for_def)
qed

lemma outsider_accepted:
  "\<exists>s'. service_record_approval demo_service_crates (server_service demo_wiring None 120000) outsider_vote (ApproverId 1) (replicate 32 9) outsider_state =
     Some (Ok Inserted, s')"
proof -
  have req: "ap_request_id outsider_vote = RequestId 2" by (simp add: outsider_vote_def demo_approval_def)
  have clock: "whole_units 1000000 (env_clock demo_environment 1000000000) = 1000" "i64_ok 1000"
    by (simp_all add: demo_environment_def whole_units_def i64_ok_def)
  have rec: "fst (record_approval outsider_vote (ApproverId 1) approval_store_new) = Ok Inserted"
    by (simp add: record_approval_def approval_store_new_def Let_def)
  show ?thesis
    by (simp add: service_record_approval_def pbind_def pmap_err_def on_world_def wired_stores service_unix_ms_def wired_rest plift_def
        outsider_state_def demo_state_def get_approver_def demo_wiring_fields clock demo_service_crates_def req outsider_verifies rec)
qed

theorem outsiders_meet_quorum_witness:
  "\<exists>s'. service_record_approval demo_service_crates (server_service demo_wiring None 120000) outsider_vote (ApproverId 1) (replicate 32 9) outsider_state =
       Some (Ok Inserted, s') \<and>
     collect_approvals (store_polls (\<lambda>_. wo_approvals (ss_world s')) (RequestId 2)) (\<lambda>n. n) 1 1000 = Some (Ok [outsider_vote])"
proof -
  obtain s' where s': "service_record_approval demo_service_crates (server_service demo_wiring None 120000) outsider_vote (ApproverId 1) (replicate 32 9) outsider_state =
      Some (Ok Inserted, s')" using outsider_accepted by blast
  then have "pmap (\<lambda>(a, who). service_record_approval demo_service_crates (server_service demo_wiring None 120000) a who (replicate 32 9))
      [(outsider_vote, ApproverId 1)] outsider_state = Some (Ok [Inserted], s')" by (simp add: pbind_def preturn_def)
  moreover have "get_approver_set (ApproverSetId 1) (wo_registry (ss_world outsider_state)) = Ok (snd (hd (reg_sets (wo_registry (ss_world outsider_state)))))"
    by (simp add: outsider_state_def get_approver_set_def)
  moreover have "memory_inv (wo_approvals (ss_world outsider_state))" "memory_ballots (wo_approvals (ss_world outsider_state)) (RequestId 2) = []"
    using memory_inv_new by (simp_all add: outsider_state_def demo_state_def memory_ballots_def approval_store_new_def)
  ultimately have "collect_approvals (store_polls (\<lambda>_. wo_approvals (ss_world s')) (RequestId 2)) (\<lambda>n. n) 1 1000 = Some (Ok (map fst [(outsider_vote, ApproverId 1)]))"
    by (intro outsiders_meet_quorum) (auto simp: outsider_vote_def demo_approval_def outsider_state_def)
  with s' show ?thesis by simp
qed

end
