(* ===== verification/Http_Api.thy ===== *)
theory Http_Api
  imports Http_Schemas Server_Guarantees
begin

text \<open>
  The HTTP interface (\<open>api/auth.rs\<close>, \<open>api/handlers.rs\<close>, \<open>api/mod.rs\<close>) on the wired server.

  A request is the value of its header \<open>X-API-Key\<close> and one constructor per route, which carries the path
  segment, query or body that axum has extracted. A handler is a procedure on the state of the service with
  errors of type \<open>api_error\<close>; the router turns its result into a status and a body.
\<close>

subsection \<open>API keys (auth.rs)\<close>

definition load_api_keys :: "string \<Rightarrow> string set" where
  "load_api_keys raw = set (filter (\<lambda>s. s \<noteq> []) (map trim (split_on (CHR '','') raw)))"

definition is_allowed :: "string set \<Rightarrow> string \<Rightarrow> bool" where
  "is_allowed keys presented \<longleftrightarrow> (\<exists>k \<in> keys. length k = length presented \<and> k = presented)"

definition require_api_key :: "api_crates \<Rightarrow> string set \<Rightarrow> bytes option \<Rightarrow> (api_error, unit) outcome" where
  "require_api_key cr keys header =
     (case header of
        None \<Rightarrow> Err (Unauthorized ''missing X-API-Key header'')
      | Some hv \<Rightarrow>
          (case hc_header_to_str cr hv of
             None \<Rightarrow> Err (Unauthorized ''invalid X-API-Key encoding'')
           | Some presented \<Rightarrow>
               if is_allowed keys presented then Ok () else Err (Unauthorized ''invalid API key'')))"

subsection \<open>Application state\<close>

text \<open>
  What the handlers call beside the service: the rest of the registry and of the approval store, which the
  service hands out, and the audit file at \<open>audit_path\<close>.
\<close>

record 'w admin_backends =
  ad_add_approver :: "approver_create \<Rightarrow> ('w, registry_error, approver_record) proc"
  ad_revoke_approver :: "approver_id \<Rightarrow> ('w, registry_error, unit) proc"
  ad_list_approvers_by_owner :: "owner_id \<Rightarrow> bool \<Rightarrow> ('w, registry_error, approver_record list) proc"
  ad_create_approver_set :: "approver_set_create \<Rightarrow> ('w, registry_error, approver_set) proc"
  ad_list_approver_sets :: "owner_id \<Rightarrow> ('w, registry_error, approver_set list) proc"
  ad_list_for_request :: "request_id \<Rightarrow> ('w, approval_store_error, signed_approval list) proc"
  ad_read_log :: "'w \<Rightarrow> log_read"

record 'w app_state =
  st_service :: "'w wallet_service"
  st_admin :: "'w admin_backends"
  st_api_keys :: "string set"

subsection \<open>Handlers (handlers.rs)\<close>

definition api_create_wallet :: "api_crates \<Rightarrow> 'w app_state \<Rightarrow> create_wallet_request \<Rightarrow> ('w service_state, api_error, wallet_view) proc" where
  "api_create_wallet cr st req =
     pbind (into_config cr (st_service st) req) (\<lambda>config.
     pbind (pmap_err (from_service_error cr) (create_wallet (hc_service cr) (st_service st) config ActorSystem)) (\<lambda>rec.
     preturn (wallet_view_from cr rec)))"

definition api_get_wallet :: "api_crates \<Rightarrow> string \<Rightarrow> ('w service_state, api_error, wallet_view) proc" where
  "api_get_wallet cr i =
     pbind (plift (parse_field cr ''wallet_id'' WalletId i)) (\<lambda>wid.
     pbind (pmap_err (from_service_error cr) (get_wallet wid)) (\<lambda>rec.
     preturn (wallet_view_from cr rec)))"

definition api_sign :: "api_crates \<Rightarrow> 'w app_state \<Rightarrow> string \<Rightarrow> sign_request_dto \<Rightarrow> ('w service_state, api_error, sign_response) proc" where
  "api_sign cr st i req =
     pbind (plift (parse_field cr ''wallet_id'' WalletId i)) (\<lambda>wid.
     pbind (plift (hd_path_parsed cr req)) (\<lambda>hd_path.
     let alg = hash_alg_from_dto (srd_hash_alg req);
         ctx = context_from_dto (case srd_context req of Some c \<Rightarrow> c | None \<Rightarrow> context_default) in
     pbind (plift (requester_into_domain cr (srd_requester req))) (\<lambda>requester.
     pbind (plift (payload_into_domain cr (srd_payload req))) (\<lambda>payload.
     pbind (pmap_err (from_service_error cr) (service_sign (hc_service cr) (st_service st) wid payload requester hd_path ctx alg)) (\<lambda>resp.
     pbind (plift (case hc_attestation_json cr (resp_attestation resp) of
         Inl e \<Rightarrow> Err (ApiInternal (''attestation encode: '' @ e))
       | Inr j \<Rightarrow> Ok j)) (\<lambda>attestation.
     preturn \<lparr>sre_signature_hex = hex_encode (resp_signature resp), sre_public_key_hex = hex_encode (resp_public_key resp),
              sre_attestation = attestation\<rparr>))))))"

text \<open>
  \<open>read_line\<close> takes the bytes up to the next newline and fails unless they are UTF-8. Well-formed byte
  sequences are those of the Unicode standard.
\<close>

definition utf8_tail :: "u8 \<Rightarrow> bool" where
  "utf8_tail b \<longleftrightarrow> 0x80 \<le> b \<and> b \<le> 0xBF"

fun utf8_valid :: "bytes \<Rightarrow> bool" where
  "utf8_valid [] = True"
| "utf8_valid (b # rest) =
     (if b < 0x80 then utf8_valid rest
      else if 0xC2 \<le> b \<and> b \<le> 0xDF then (case rest of c # r \<Rightarrow> utf8_tail c \<and> utf8_valid r | _ \<Rightarrow> False)
      else if 0xE0 \<le> b \<and> b \<le> 0xEF then
        (case rest of c # d # r \<Rightarrow>
           utf8_tail c \<and> (b = 0xE0 \<longrightarrow> 0xA0 \<le> c) \<and> (b = 0xED \<longrightarrow> c \<le> 0x9F) \<and> utf8_tail d \<and> utf8_valid r
         | _ \<Rightarrow> False)
      else if 0xF0 \<le> b \<and> b \<le> 0xF4 then
        (case rest of c # d # e # r \<Rightarrow>
           utf8_tail c \<and> (b = 0xF0 \<longrightarrow> 0x90 \<le> c) \<and> (b = 0xF4 \<longrightarrow> c \<le> 0x8F) \<and> utf8_tail d \<and> utf8_tail e \<and> utf8_valid r
         | _ \<Rightarrow> False)
      else False)"

fun scan_events :: "audit_crates \<Rightarrow> wallet_id option \<Rightarrow> bytes list \<Rightarrow> (api_error, audit_event list) outcome" where
  "scan_events au wallet_filter [] = Ok []"
| "scan_events au wallet_filter (l # ls) =
     (if \<not> utf8_valid l then Err (ApiInternal ''audit read: stream did not contain valid UTF-8'')
      else if l = [] then scan_events au wallet_filter ls
      else case au_from_slice au l of
        Inl e \<Rightarrow> Err (ApiInternal (''audit parse: '' @ e))
      | Inr event \<Rightarrow>
          obind (scan_events au wallet_filter ls) (\<lambda>events.
          Ok (if wallet_filter \<noteq> None \<and> ev_wallet_id event \<noteq> wallet_filter then events else event # events)))"

definition read_audit_events :: "audit_crates \<Rightarrow> log_read \<Rightarrow> wallet_id option \<Rightarrow> nat \<Rightarrow> (api_error, audit_event list) outcome" where
  "read_audit_events au rd wallet_filter limit =
     (case rd of
        LogNotFound \<Rightarrow> Ok []
      | LogReadError e \<Rightarrow> Err (ApiInternal (''audit open: '' @ e))
      | LogContent content \<Rightarrow>
          obind (scan_events au wallet_filter (split_on 10 content)) (\<lambda>events.
          Ok (if length events > limit then drop (length events - limit) events else events)))"

definition list_audit_events :: "api_crates \<Rightarrow> audit_crates \<Rightarrow> 'w app_state \<Rightarrow> audit_events_query \<Rightarrow>
   ('w service_state, api_error, audit_event_view list) proc" where
  "list_audit_events cr au st q =
     pbind (plift (case aeq_wallet_id q of
         Some s \<Rightarrow> obind (parse_field cr ''wallet_id'' WalletId s) (\<lambda>w. Ok (Some w))
       | None \<Rightarrow> Ok None)) (\<lambda>wallet_filter.
     let limit = min (case aeq_limit q of Some n \<Rightarrow> n | None \<Rightarrow> 100) 1000 in
     (\<lambda>s. pbind (plift (read_audit_events au (ad_read_log (st_admin st) (ss_world s)) wallet_filter limit)) (\<lambda>events.
       preturn (map (audit_event_view_from cr) events)) s))"

definition health :: string where "health = ''ok''"

definition metrics :: string where "metrics = ''# placeholder for M2 P5'' @ [CHR 0x0A]"

fun map_registry_err :: "api_crates \<Rightarrow> registry_error \<Rightarrow> api_error" where
  "map_registry_err cr (ApproverNotFound i) = ApiNotFound (sv_registry_text (hc_service cr) (ApproverNotFound i))"
| "map_registry_err cr (ApproverSetNotFound i) = ApiNotFound (sv_registry_text (hc_service cr) (ApproverSetNotFound i))"
| "map_registry_err cr (RegistryIo m) = ApiInternal (sv_registry_text (hc_service cr) (RegistryIo m))"
| "map_registry_err cr e = UnprocessableEntity (sv_registry_text (hc_service cr) e)"

definition api_create_approver :: "api_crates \<Rightarrow> 'w app_state \<Rightarrow> create_approver_request \<Rightarrow> ('w service_state, api_error, approver_view) proc" where
  "api_create_approver cr st body =
     pbind (plift (identity_into_domain cr (car_identity body))) (\<lambda>identity.
     pbind (pmap_err (map_registry_err cr) (on_world (ad_add_approver (st_admin st)
       \<lparr>ac_identity = identity, ac_label = car_label body, ac_owner_id = OwnerId (car_owner_id body),
        ac_webhook_url = car_webhook_url body\<rparr>))) (\<lambda>record.
     preturn (approver_view_from cr record)))"

definition api_revoke_approver :: "api_crates \<Rightarrow> 'w app_state \<Rightarrow> string \<Rightarrow> ('w service_state, api_error, unit) proc" where
  "api_revoke_approver cr st i =
     pbind (plift (parse_field cr ''approver_id'' ApproverId i)) (\<lambda>who.
     pmap_err (map_registry_err cr) (on_world (ad_revoke_approver (st_admin st) who)))"

definition api_get_approver :: "api_crates \<Rightarrow> 'w app_state \<Rightarrow> string \<Rightarrow> ('w service_state, api_error, approver_view) proc" where
  "api_get_approver cr st i =
     pbind (plift (parse_field cr ''approver_id'' ApproverId i)) (\<lambda>who.
     pbind (pmap_err (map_registry_err cr) (on_world (be_get_approver (ws_backends (st_service st)) who))) (\<lambda>rec.
     preturn (approver_view_from cr rec)))"

definition api_list_approvers :: "api_crates \<Rightarrow> 'w app_state \<Rightarrow> string \<Rightarrow> bool option \<Rightarrow> ('w service_state, api_error, approver_view list) proc" where
  "api_list_approvers cr st owner include_revoked =
     pbind (pmap_err (map_registry_err cr) (on_world (ad_list_approvers_by_owner (st_admin st) (OwnerId owner)
       (case include_revoked of Some b \<Rightarrow> b | None \<Rightarrow> False)))) (\<lambda>recs.
     preturn (map (approver_view_from cr) recs))"

definition api_create_approver_set :: "api_crates \<Rightarrow> 'w app_state \<Rightarrow> create_approver_set_request \<Rightarrow> ('w service_state, api_error, approver_set_view) proc" where
  "api_create_approver_set cr st req =
     pbind (plift (set_into_domain cr req)) (\<lambda>domain.
     pbind (pmap_err (map_registry_err cr) (on_world (ad_create_approver_set (st_admin st) domain))) (\<lambda>aset.
     preturn (approver_set_view_from cr aset)))"

definition api_get_approver_set :: "api_crates \<Rightarrow> 'w app_state \<Rightarrow> string \<Rightarrow> ('w service_state, api_error, approver_set_view) proc" where
  "api_get_approver_set cr st i =
     pbind (plift (parse_field cr ''approver_set_id'' ApproverSetId i)) (\<lambda>sid.
     pbind (pmap_err (map_registry_err cr) (on_world (be_get_approver_set (ws_backends (st_service st)) sid))) (\<lambda>aset.
     preturn (approver_set_view_from cr aset)))"

definition api_list_approver_sets :: "api_crates \<Rightarrow> 'w app_state \<Rightarrow> string \<Rightarrow> ('w service_state, api_error, approver_set_view list) proc" where
  "api_list_approver_sets cr st owner =
     pbind (pmap_err (map_registry_err cr) (on_world (ad_list_approver_sets (st_admin st) (OwnerId owner)))) (\<lambda>sets.
     preturn (map (approver_set_view_from cr) sets))"

definition str_contains :: "string \<Rightarrow> string \<Rightarrow> bool" where
  "str_contains hay needle \<longleftrightarrow> (\<exists>n \<in> set [0..<Suc (length hay)]. take (length needle) (drop n hay) = needle)"

fun map_submit_err :: "api_crates \<Rightarrow> service_error \<Rightarrow> api_error" where
  "map_submit_err cr (ServiceQuorum (quorum_error.InvalidApproval inner)) =
     UnprocessableEntity (''approval verification failed: '' @ hc_verify_text cr inner)"
| "map_submit_err cr (ServiceQuorum (UnknownApprover msg)) = ApiNotFound msg"
| "map_submit_err cr (ServiceQuorum (Transport msg)) =
     (if str_contains msg ''duplicate approval'' then Conflict msg else ApiInternal msg)"
| "map_submit_err cr other = from_service_error cr other"

definition api_submit_approval :: "api_crates \<Rightarrow> 'w app_state \<Rightarrow> string \<Rightarrow> submit_approval_request \<Rightarrow>
   ('w service_state, api_error, submit_approval_response) proc" where
  "api_submit_approval cr st i req =
     pbind (plift (parse_field cr ''request_id'' RequestId i)) (\<lambda>rid.
     pbind (plift (into_signed cr req rid)) (\<lambda>(approval, who).
     pbind (plift (hash_field cr (sar_message_hash_hex req))) (\<lambda>expected_hash.
     pbind (pmap_err (map_submit_err cr) (service_record_approval (hc_service cr) (st_service st) approval who expected_hash)) (\<lambda>result.
     preturn \<lparr>sap_recorded = (result = Inserted), sap_approval_id = sar_approval_id req\<rparr>))))"

definition api_list_approvals :: "api_crates \<Rightarrow> 'w app_state \<Rightarrow> string \<Rightarrow> ('w service_state, api_error, approval_view list) proc" where
  "api_list_approvals cr st i =
     pbind (plift (parse_field cr ''request_id'' RequestId i)) (\<lambda>rid.
     pbind (pmap_err (\<lambda>e. ApiInternal (''approval store: '' @ sv_store_text (hc_service cr) e))
       (on_world (ad_list_for_request (st_admin st) rid))) (\<lambda>approvals.
     preturn (map (approval_view_from cr) approvals)))"

subsection \<open>Routes (mod.rs)\<close>

datatype http_request =
    PostWallets create_wallet_request
  | GetWallet string
  | PostSign string sign_request_dto
  | GetAuditEvents audit_events_query
  | PostApprovers create_approver_request
  | GetApprovers string "bool option"
  | GetApprover string
  | DeleteApprover string
  | PostApproverSets create_approver_set_request
  | GetApproverSets string
  | GetApproverSet string
  | PostApprovals string submit_approval_request
  | GetApprovals string
  | GetHealth
  | GetMetrics
  | GetRoot
  | GetDocs string
  | GetOpenapi

datatype http_body =
    WalletBody wallet_view
  | SignBody sign_response
  | EventsBody "audit_event_view list"
  | ApproverBody approver_view
  | ApproversBody "approver_view list"
  | SetBody approver_set_view
  | SetsBody "approver_set_view list"
  | SubmitBody submit_approval_response
  | ApprovalsBody "approval_view list"
  | ErrorBody api_error_body
  | TextBody string
  | RedirectTo string
  | NoBody

record http_response =
  hr_status :: nat
  hr_body :: http_body

definition into_response :: "api_error \<Rightarrow> http_response" where
  "into_response e = (case error_parts e of (status, code, hint) \<Rightarrow>
     \<lparr>hr_status = status, hr_body = ErrorBody \<lparr>eb_error = code, eb_hint = hint\<rparr>\<rparr>)"

definition respond :: "nat \<Rightarrow> ('a \<Rightarrow> http_body) \<Rightarrow> ('w, api_error, 'a) proc \<Rightarrow> ('w, unit, http_response) proc" where
  "respond status body m w =
     (case m w of
        None \<Rightarrow> None
      | Some (Ok x, w') \<Rightarrow> Some (Ok \<lparr>hr_status = status, hr_body = body x\<rparr>, w')
      | Some (Err e, w') \<Rightarrow> Some (Ok (into_response e), w')
      | Some (Panic p, w') \<Rightarrow> Some (Panic p, w'))"

text \<open>The routes merged without the authentication layer: the three of the service and the two the Swagger crate registers.\<close>

definition is_public :: "http_request \<Rightarrow> bool" where
  "is_public req =
     (case req of GetHealth \<Rightarrow> True | GetMetrics \<Rightarrow> True | GetRoot \<Rightarrow> True | GetDocs _ \<Rightarrow> True | GetOpenapi \<Rightarrow> True | _ \<Rightarrow> False)"

definition dispatch_http :: "api_crates \<Rightarrow> audit_crates \<Rightarrow> 'w app_state \<Rightarrow> http_request \<Rightarrow> ('w service_state, unit, http_response) proc" where
  "dispatch_http cr au st req =
     (case req of
        PostWallets body \<Rightarrow> respond 201 WalletBody (api_create_wallet cr st body)
      | GetWallet i \<Rightarrow> respond 200 WalletBody (api_get_wallet cr i)
      | PostSign i body \<Rightarrow> respond 200 SignBody (api_sign cr st i body)
      | GetAuditEvents q \<Rightarrow> respond 200 EventsBody (list_audit_events cr au st q)
      | PostApprovers body \<Rightarrow> respond 201 ApproverBody (api_create_approver cr st body)
      | GetApprovers owner include_revoked \<Rightarrow> respond 200 ApproversBody (api_list_approvers cr st owner include_revoked)
      | GetApprover i \<Rightarrow> respond 200 ApproverBody (api_get_approver cr st i)
      | DeleteApprover i \<Rightarrow> respond 204 (\<lambda>_. NoBody) (api_revoke_approver cr st i)
      | PostApproverSets body \<Rightarrow> respond 201 SetBody (api_create_approver_set cr st body)
      | GetApproverSets owner \<Rightarrow> respond 200 SetsBody (api_list_approver_sets cr st owner)
      | GetApproverSet i \<Rightarrow> respond 200 SetBody (api_get_approver_set cr st i)
      | PostApprovals i body \<Rightarrow> respond 200 SubmitBody (api_submit_approval cr st i body)
      | GetApprovals i \<Rightarrow> respond 200 ApprovalsBody (api_list_approvals cr st i)
      | GetHealth \<Rightarrow> preturn \<lparr>hr_status = 200, hr_body = TextBody health\<rparr>
      | GetMetrics \<Rightarrow> preturn \<lparr>hr_status = 200, hr_body = TextBody metrics\<rparr>
      | GetRoot \<Rightarrow> preturn \<lparr>hr_status = 308, hr_body = RedirectTo ''/docs''\<rparr>
      | GetDocs path \<Rightarrow> preturn \<lparr>hr_status = fst (hc_docs cr path), hr_body = TextBody (snd (hc_docs cr path))\<rparr>
      | GetOpenapi \<Rightarrow> preturn \<lparr>hr_status = 200, hr_body = TextBody (hc_openapi cr)\<rparr>)"

definition router :: "api_crates \<Rightarrow> audit_crates \<Rightarrow> 'w app_state \<Rightarrow> bytes option \<Rightarrow> http_request \<Rightarrow> ('w service_state, unit, http_response) proc" where
  "router cr au st header req =
     (if is_public req then dispatch_http cr au st req
      else case require_api_key cr (st_api_keys st) header of
        Ok _ \<Rightarrow> dispatch_http cr au st req
      | Err e \<Rightarrow> preturn (into_response e)
      | Panic p \<Rightarrow> plift (Panic p))"

subsection \<open>The server behind the routes (main.rs)\<close>

definition wired_admin :: "('x, 'sc, 'r, 'p) wiring \<Rightarrow> 'p world admin_backends" where
  "wired_admin wi = (let env = wi_env wi in
     \<lparr>ad_add_approver = (\<lambda>create w. case add_approver (ApproverId (env_ulid env (wo_tick w))) (env_clock env (wo_tick w)) create (wo_registry w) of
        (r, reg) \<Rightarrow> Some (r, (advance 1 w)\<lparr>wo_registry := reg\<rparr>)),
      ad_revoke_approver = (\<lambda>who w. case revoke_approver who (wo_registry w) of (r, reg) \<Rightarrow> Some (r, w\<lparr>wo_registry := reg\<rparr>)),
      ad_list_approvers_by_owner = (\<lambda>owner include_revoked w. Some (list_approvers_by_owner owner include_revoked (wo_registry w), w)),
      ad_create_approver_set = (\<lambda>create w. map_option (\<lambda>(r, reg). (r, (advance 1 w)\<lparr>wo_registry := reg\<rparr>))
        (create_approver_set (ApproverSetId (env_ulid env (wo_tick w))) (env_clock env (wo_tick w)) create (wo_registry w))),
      ad_list_approver_sets = (\<lambda>owner w. Some (list_approver_sets owner (wo_registry w), w)),
      ad_list_for_request = (\<lambda>rid w. Some (list_for_request rid (wo_approvals w), w)),
      ad_read_log = (\<lambda>w. read_log (wo_log w))\<rparr>)"

definition http_app :: "('x, 'sc, 'r, 'p) wiring \<Rightarrow> bytes option \<Rightarrow> nat \<Rightarrow> string \<Rightarrow> 'p world app_state" where
  "http_app wi sg timeout raw_keys =
     \<lparr>st_service = server_service wi sg timeout, st_admin = wired_admin wi, st_api_keys = load_api_keys raw_keys\<rparr>"

definition serve_http :: "api_crates \<Rightarrow> ('x, 'sc, 'r, 'p) wiring \<Rightarrow> bytes option \<Rightarrow> nat \<Rightarrow> string \<Rightarrow> bytes option \<Rightarrow> http_request \<Rightarrow>
   ('p world service_state, unit, http_response) proc" where
  "serve_http cr wi sg timeout raw_keys header req = router cr (wi_audit wi) (http_app wi sg timeout raw_keys) header req"

subsection \<open>Which errors a handler gives\<close>

definition errs_in :: "('e \<Rightarrow> bool) \<Rightarrow> ('w, 'e, 'a) proc \<Rightarrow> bool" where
  "errs_in E m \<longleftrightarrow> (\<forall>w e w'. m w = Some (Err e, w') \<longrightarrow> E e)"

lemma errs_in_return [simp]: "errs_in E (preturn x)"
  by (simp add: errs_in_def preturn_def)

lemma errs_in_lift: "(\<And>e. r = Err e \<Longrightarrow> E e) \<Longrightarrow> errs_in E (plift r)"
  by (simp add: errs_in_def plift_def)

lemma errs_in_bind: "errs_in E m \<Longrightarrow> (\<And>x. errs_in E (f x)) \<Longrightarrow> errs_in E (pbind m f)"
  unfolding errs_in_def pbind_def by (fastforce split: option.splits outcome.splits)

lemma errs_in_map_err: "(\<And>e. E (g e)) \<Longrightarrow> errs_in E (pmap_err g m)"
  unfolding errs_in_def pmap_err_def by (auto simp: outcome_simps)

lemma errs_in_call: "errs_in E (fresh_ulid self)"
  by (auto simp: errs_in_def fresh_ulid_def on_world_def split: prod.splits)

definition not_401 :: "api_error \<Rightarrow> bool" where
  "not_401 e \<longleftrightarrow> fst (error_parts e) \<noteq> 401"

lemma not_401_simps [simp]:
  "not_401 (BadRequest m)" "not_401 (Forbidden m)" "not_401 (ApiNotFound m)" "not_401 (Conflict m)"
  "not_401 (UnprocessableEntity m)" "not_401 (ApiInternal m)" "\<not> not_401 (Unauthorized m)"
  by (simp_all add: not_401_def)

lemma mapped_not_401 [simp]:
  "not_401 (from_service_error cr e)" "not_401 (map_registry_err cr r)" "not_401 (map_submit_err cr e)"
proof -
  show *: "not_401 (from_service_error cr e)" for e by (cases e) simp_all
  show "not_401 (map_registry_err cr r)" by (cases r) simp_all
  show "not_401 (map_submit_err cr e)" by (cases "(cr, e)" rule: map_submit_err.cases) (simp_all add: *)
qed

lemma field_not_401:
  "parse_field cr f con s = Err e \<Longrightarrow> not_401 e" "hex_field cr f s = Err e \<Longrightarrow> not_401 e" "hash_field cr s = Err e \<Longrightarrow> not_401 e"
  by (auto simp: parse_field_def hex_field_def hash_field_def outcome_simps split: sum.splits if_splits)

lemma omap_Err: "omap f xs = Err e \<Longrightarrow> \<exists>x \<in> set xs. f x = Err e"
  by (induction xs) (auto simp: outcome_simps)

lemma input_not_401:
  "requester_into_domain cr q = Err e \<Longrightarrow> not_401 e" "payload_into_domain cr p = Err e \<Longrightarrow> not_401 e"
  "identity_into_domain cr i = Err e \<Longrightarrow> not_401 e" "hd_path_parsed cr req = Err e \<Longrightarrow> not_401 e"
  "set_into_domain cr aset = Err e \<Longrightarrow> not_401 e" "into_signed cr sub rid = Err e \<Longrightarrow> not_401 e"
proof -
  show "requester_into_domain cr q = Err e \<Longrightarrow> not_401 e" by (cases q) (auto simp: outcome_simps dest: field_not_401)
  show "payload_into_domain cr p = Err e \<Longrightarrow> not_401 e"
    by (cases p) (auto simp: outcome_simps dest: field_not_401 split: option.splits)
  show ident: "identity_into_domain cr i = Err e \<Longrightarrow> not_401 e" for i by (cases i) (auto simp: outcome_simps dest: field_not_401)
  show "hd_path_parsed cr req = Err e \<Longrightarrow> not_401 e" by (auto simp: hd_path_parsed_def outcome_simps split: option.splits)
  show "set_into_domain cr aset = Err e \<Longrightarrow> not_401 e" by (auto simp: set_into_domain_def outcome_simps dest!: omap_Err dest: field_not_401)
  show "into_signed cr sub rid = Err e \<Longrightarrow> not_401 e" by (auto simp: into_signed_def outcome_simps dest: field_not_401 ident)
qed

lemma events_not_401: "read_audit_events au rd flt limit = Err e \<Longrightarrow> not_401 e"
proof -
  have scan: "scan_events au flt ls = Err e \<Longrightarrow> not_401 e" for ls
    by (induction ls) (auto simp: outcome_simps split: if_splits sum.splits)
  show "read_audit_events au rd flt limit = Err e \<Longrightarrow> not_401 e"
    by (auto simp: read_audit_events_def outcome_simps split: log_read.splits dest: scan)
qed

lemmas handler_defs = api_create_wallet_def api_get_wallet_def api_sign_def api_create_approver_def api_revoke_approver_def
  api_get_approver_def api_list_approvers_def api_create_approver_set_def api_get_approver_set_def api_list_approver_sets_def
  api_submit_approval_def api_list_approvals_def

lemma list_events_not_401: "errs_in not_401 (list_audit_events cr au st q)"
proof -
  have "errs_in not_401 (\<lambda>s. pbind (plift (read_audit_events au (rd s) flt n)) (\<lambda>events. preturn (map (audit_event_view_from cr) events)) s)" for rd flt n
    by (auto simp: errs_in_def pbind_def plift_def preturn_def split: outcome.splits dest: events_not_401)
  then show ?thesis unfolding list_audit_events_def Let_def
    by (intro errs_in_bind errs_in_lift) (auto simp: outcome_simps split: option.splits dest: field_not_401)
qed

lemma handlers_not_401:
  "errs_in not_401 (api_create_wallet cr st b1)" "errs_in not_401 (api_get_wallet cr i)" "errs_in not_401 (api_sign cr st i b2)"
  "errs_in not_401 (api_create_approver cr st b3)" "errs_in not_401 (api_revoke_approver cr st i)" "errs_in not_401 (api_get_approver cr st i)"
  "errs_in not_401 (api_list_approvers cr st i b4)" "errs_in not_401 (api_create_approver_set cr st b5)" "errs_in not_401 (api_get_approver_set cr st i)"
  "errs_in not_401 (api_list_approver_sets cr st i)" "errs_in not_401 (api_submit_approval cr st i b6)" "errs_in not_401 (api_list_approvals cr st i)"
proof -
  have "errs_in not_401 (into_config cr self b1)" for self
    unfolding into_config_def
    by (cases "cwr_policy_id b1") (auto intro!: errs_in_bind errs_in_lift errs_in_call dest: field_not_401)
  then show "errs_in not_401 (api_create_wallet cr st b1)" unfolding handler_defs by (auto intro!: errs_in_bind errs_in_map_err)
qed (auto simp: handler_defs Let_def intro!: errs_in_bind errs_in_lift errs_in_map_err dest: field_not_401 input_not_401 split: prod.split sum.splits)

definition never_401 :: "('w, 'e, http_response) proc \<Rightarrow> bool" where
  "never_401 p \<longleftrightarrow> (\<forall>w resp w'. p w = Some (Ok resp, w') \<longrightarrow> hr_status resp \<noteq> 401)"

lemma never_401_respond: "errs_in not_401 m \<Longrightarrow> status \<noteq> 401 \<Longrightarrow> never_401 (respond status body m)"
  unfolding never_401_def respond_def into_response_def errs_in_def not_401_def
  by (fastforce split: option.splits outcome.splits prod.splits)

lemma never_401_return [simp]: "never_401 (preturn resp) \<longleftrightarrow> hr_status resp \<noteq> 401"
  by (simp add: never_401_def preturn_def)

lemma dispatch_not_401: "\<not> is_public req \<Longrightarrow> never_401 (dispatch_http cr au st req)"
  unfolding dispatch_http_def
  by (cases req) (simp_all add: never_401_respond handlers_not_401 list_events_not_401 is_public_def)

subsection \<open>What every request keeps\<close>

lemma keeps_respond: "keeps P m \<Longrightarrow> keeps P (respond status body m)"
  unfolding keeps_def respond_def by (auto split: option.splits outcome.splits)

lemma admin_off_shares:
  "off_shares (ad_add_approver (wired_admin wi) create)" "off_shares (ad_revoke_approver (wired_admin wi) who)"
  "off_shares (ad_list_approvers_by_owner (wired_admin wi) owner rv)" "off_shares (ad_create_approver_set (wired_admin wi) sc)"
  "off_shares (ad_list_approver_sets (wired_admin wi) owner)" "off_shares (ad_list_for_request (wired_admin wi) rid)"
  by (auto simp: off_shares_def wired_admin_def Let_def split: prod.splits)

lemma http_app_fields [simp]:
  "st_service (http_app wi sg timeout raw) = server_service wi sg timeout" "st_admin (http_app wi sg timeout raw) = wired_admin wi"
  "st_api_keys (http_app wi sg timeout raw) = load_api_keys raw"
  by (simp_all add: http_app_def)

lemma into_config_keeps: "keeps (service_inv wi) (into_config cr (server_service wi sg timeout) req)"
  unfolding into_config_def by (cases "cwr_policy_id req") (auto intro!: keeps_bind keeps_parts)

lemma list_events_keeps: "keeps P (list_audit_events cr au st q)"
proof -
  have "keeps P (\<lambda>s. pbind (plift (f s)) (\<lambda>events. preturn (g events)) s)" for f :: "'b service_state \<Rightarrow> (api_error, 'c) outcome" and g :: "'c \<Rightarrow> 'd" and P
    by (auto simp: keeps_def pbind_def plift_def preturn_def split: outcome.splits)
  then show ?thesis unfolding list_audit_events_def Let_def by (intro keeps_bind) auto
qed

lemma dispatch_keeps:
  assumes "sss_spec (en_sss (wi_enclave wi))"
  shows "keeps (service_inv wi) (dispatch_http cr au (http_app wi sg timeout raw) req)"
  unfolding dispatch_http_def
  by (cases req) (auto simp: handler_defs Let_def split: prod.split
    intro!: keeps_respond keeps_bind keeps_map_err into_config_keeps list_events_keeps create_keeps [OF assms] sign_keeps approve_keeps keeps_parts
      off_shares_keeps admin_off_shares wired_off_shares)

lemma serve_http_keeps:
  assumes "sss_spec (en_sss (wi_enclave wi))"
  shows "keeps (service_inv wi) (serve_http cr wi sg timeout raw header req)"
  unfolding serve_http_def router_def using dispatch_keeps [OF assms]
  by (cases "require_api_key cr (st_api_keys (http_app wi sg timeout raw)) header") auto

lemma authorised_dispatch:
  assumes "hc_header_to_str cr hv = Some key" "key \<in> load_api_keys raw"
  shows "serve_http cr wi sg timeout raw (Some hv) req = dispatch_http cr (wi_audit wi) (http_app wi sg timeout raw) req"
  using assms by (auto simp: serve_http_def router_def require_api_key_def is_allowed_def)

subsection \<open>The audit query\<close>

text \<open>Every line of the log was written by the encoder.\<close>

definition log_written :: "('x, 'sc, 'r, 'p) wiring \<Rightarrow> 'p world \<Rightarrow> bool" where
  "log_written wi w \<longleftrightarrow> (\<forall>l \<in> set (log_lines (log_bytes (wo_log w))). \<exists>e. au_to_vec (wi_audit wi) e = Inr l)"

definition text_inv :: "('x, 'sc, 'r, 'p) wiring \<Rightarrow> 'p world \<Rightarrow> bool" where
  "text_inv wi w \<longleftrightarrow> world_inv wi w \<and> log_written wi w"

lemma text_inv_same:
  "wo_sink w' = wo_sink w \<Longrightarrow> wo_log w' = wo_log w \<Longrightarrow> text_inv wi w \<Longrightarrow> text_inv wi w' \<and> logged wi w' = logged wi w"
  by (simp add: text_inv_def log_written_def world_inv_def logged_def)

lemma off_log_texts: "off_log m \<Longrightarrow> silent (text_inv wi) (logged wi) m"
  unfolding off_log_def silent_def by (metis text_inv_same)

lemma wired_emit_written:
  assumes "text_inv wi w" "wired_emit wi d w = Some (Ok e, w')"
  shows "log_written wi w'"
proof -
  from assms(2) obtain sink log where em: "emit (wi_audit wi) (env_fault (wi_env wi) (wo_tick w)) (EventId (env_ulid (wi_env wi) (wo_tick w)))
      (env_clock (wi_env wi) (wo_tick w)) d (wo_sink w) (wo_log w) = (Ok e, sink, log)" and w': "wo_log w' = log"
    by (auto simp: wired_emit_def split: prod.splits)
  from emit_Ok_no_fault [OF em] em obtain l where l: "au_to_vec (wi_audit wi) e = Inr l" "log = Some (log_bytes (wo_log w) @ l @ [10])"
    by (auto simp: emit_no_fault)
  have laws: "audit_laws (wi_audit wi)" and t: "terminated (log_bytes (wo_log w))" and old: "log_written wi w"
    using assms(1) by (auto simp: text_inv_def world_inv_def sink_synced_def)
  have "log_lines (log_bytes (wo_log w')) = log_lines (log_bytes (wo_log w)) @ [l]"
    using emitted_line(1) [OF laws l(1)] t by (simp add: w' l(2) log_bytes_def [of "Some _"] log_lines_append)
  then show ?thesis using old l(1) by (auto simp: log_written_def)
qed

interpretation texts: audit_trail "server_service wi sg timeout" "text_inv wi" "logged wi"
  for wi :: "('x, 'sc, 'r, 'p) wiring" and sg timeout
proof unfold_locales
  fix w d e w'
  assume "text_inv wi w" "be_emit (ws_backends (server_service wi sg timeout)) d w = Some (Ok e, w')"
  then show "text_inv wi w' \<and> logged wi w' = logged wi w @ [d]"
    using wired_emit_logs [of wi w d e w'] wired_emit_written [of wi w d e w'] by (simp add: wired_rest text_inv_def)
next
  fix sgn dec rq wlt age
  assume "ws_policy_service_signer (server_service wi sg timeout) = Some sgn"
  then show "silent (text_inv wi) (logged wi) (pss_sign_decision sgn dec rq wlt age)"
    by (auto intro: off_log_texts wired_off_log)
next
  fix w u w'
  assume "text_inv wi w" "be_ulid (ws_backends (server_service wi sg timeout)) w = (u, w')"
  then show "text_inv wi w' \<and> logged wi w' = logged wi w" using text_inv_same [of w' w wi] by (auto simp: wired_rest)
next
  fix w t w'
  assume "text_inv wi w" "be_clock (ws_backends (server_service wi sg timeout)) w = (t, w')"
  then show "text_inv wi w' \<and> logged wi w' = logged wi w" using text_inv_same [of w' w wi] by (auto simp: wired_rest)
qed (simp_all add: off_log_texts wired_off_log)

text \<open>The query reads a log back: the events of the wallet, in the order of the file.\<close>

definition of_wallet :: "wallet_id option \<Rightarrow> audit_event \<Rightarrow> bool" where
  "of_wallet flt e \<longleftrightarrow> flt = None \<or> ev_wallet_id e = flt"

lemma scan_events_Ok:
  "\<forall>l \<in> set ls. utf8_valid l \<Longrightarrow> omap (parse_event au) (filter (\<lambda>l. l \<noteq> []) ls) = Ok es \<Longrightarrow>
   scan_events au flt ls = Ok (filter (of_wallet flt) es)"
proof (induction ls arbitrary: es)
  case Nil
  then show ?case by simp
next
  case (Cons l ls)
  show ?case
  proof (cases "l = []")
    case True
    then show ?thesis using Cons by simp
  next
    case False
    with Cons.prems(2) obtain e es' where e: "parse_event au l = Ok e" "omap (parse_event au) (filter (\<lambda>l. l \<noteq> []) ls) = Ok es'" "es = e # es'"
      by (auto simp: outcome_simps)
    from e(1) have "au_from_slice au l = Inr e" by (simp add: parse_event_def split: sum.splits)
    moreover have "scan_events au flt ls = Ok (filter (of_wallet flt) es')" using Cons.IH [OF _ e(2)] Cons.prems(1) by simp
    moreover have "of_wallet flt e \<longleftrightarrow> \<not> (flt \<noteq> None \<and> ev_wallet_id e \<noteq> flt)" by (auto simp: of_wallet_def)
    ultimately show ?thesis using Cons.prems(1) False by (simp add: e(3))
  qed
qed

lemma written_events:
  assumes "text_inv wi w" "\<forall>e b. au_to_vec (wi_audit wi) e = Inr b \<longrightarrow> utf8_valid b"
  obtains es where "map draft_of es = logged wi w"
    "\<forall>flt n. read_audit_events (wi_audit wi) (read_log (wo_log w)) flt n =
       Ok (drop (length (filter (of_wallet flt) es) - n) (filter (of_wallet flt) es))"
proof -
  let ?c = "log_bytes (wo_log w)"
  obtain es where es: "omap (parse_event (wi_audit wi)) (log_lines ?c) = Ok es"
    using assms(1) replayed_parses unfolding text_inv_def world_inv_def sink_synced_def by blast
  have "\<forall>l \<in> set (split_on 10 ?c). utf8_valid l"
  proof
    fix l assume "l \<in> set (split_on 10 ?c)"
    then have "l = [] \<or> l \<in> set (log_lines ?c)" by (auto simp: log_lines_def)
    then show "utf8_valid l" using assms by (auto simp: text_inv_def log_written_def)
  qed
  from scan_events_Ok [OF this es [unfolded log_lines_def]]
  have scan: "scan_events (wi_audit wi) flt (split_on 10 ?c) = Ok (filter (of_wallet flt) es)" for flt .
  have "read_audit_events (wi_audit wi) (read_log (wo_log w)) flt n =
      Ok (drop (length (filter (of_wallet flt) es) - n) (filter (of_wallet flt) es))" for flt n
  proof (cases "wo_log w")
    case None
    then have "es = []" using es by (simp add: log_bytes_def)
    then show ?thesis by (simp add: None read_audit_events_def read_log_def)
  next
    case (Some c)
    then show ?thesis using scan by (simp add: read_audit_events_def read_log_def log_bytes_def)
  qed
  moreover have "map draft_of es = logged wi w" by (simp add: logged_def es)
  ultimately show thesis using that by blast
qed

lemma list_events_written:
  assumes "read_audit_events au (ad_read_log (st_admin st) (ss_world s)) flt (min (case aeq_limit q of Some n \<Rightarrow> n | None \<Rightarrow> 100) 1000) = Ok es"
    and "(case aeq_wallet_id q of Some s \<Rightarrow> obind (parse_field cr ''wallet_id'' WalletId s) (\<lambda>w. Ok (Some w)) | None \<Rightarrow> Ok None) = Ok flt"
  shows "respond 200 EventsBody (list_audit_events cr au st q) s =
    Some (Ok \<lparr>hr_status = 200, hr_body = EventsBody (map (audit_event_view_from cr) es)\<rparr>, s)"
  using assms by (simp add: respond_def list_audit_events_def pbind_def plift_def preturn_def Let_def)

subsection \<open>Signing over HTTP\<close>

lemma api_sign_Ok:
  assumes "api_sign cr st i body s = Some (Ok r, s')"
  obtains u payload rq hd_path ctx alg resp where "hc_ulid_parse cr i = Inr u" "sre_signature_hex r = hex_encode (resp_signature resp)"
    "service_sign (hc_service cr) (st_service st) (WalletId u) payload rq hd_path ctx alg s = Some (Ok resp, s')"
proof -
  from assms obtain wid payload rq hd_path ctx alg resp j where *: "parse_field cr ''wallet_id'' WalletId i = Ok wid"
    "service_sign (hc_service cr) (st_service st) wid payload rq hd_path ctx alg s = Some (Ok resp, s')"
    "r = \<lparr>sre_signature_hex = hex_encode (resp_signature resp), sre_public_key_hex = hex_encode (resp_public_key resp), sre_attestation = j\<rparr>"
    unfolding api_sign_def Let_def proc_simps by blast
  from *(1) obtain u where u: "hc_ulid_parse cr i = Inr u" "wid = WalletId u" by (auto simp: parse_field_def split: sum.splits)
  with * show thesis by (intro that [of u resp payload rq hd_path ctx alg]) simp_all
qed

lemma respond_Ok:
  "respond status body m s = Some (Ok \<lparr>hr_status = n, hr_body = body x\<rparr>, s') \<Longrightarrow> (\<And>y b. body y \<noteq> ErrorBody b) \<Longrightarrow> inj body \<Longrightarrow> m s = Some (Ok x, s')"
  by (auto simp: respond_def into_response_def inj_eq split: option.splits outcome.splits prod.splits) metis

lemma succeeds_lift [simp]: "succeeds (plift (Ok x)) w Q \<longleftrightarrow> Q x w"
  by (simp add: succeeds_def plift_def)

lemma api_sign_succeeds:
  assumes "api_laws cr" "payload_into_domain cr (srd_payload body) = Ok payload" "requester_into_domain cr (srd_requester body) = Ok rq" "srd_hd_path body = None"
    and "\<forall>d. \<exists>j. hc_attestation_json cr d = Inr j"
    and "succeeds (service_sign (hc_service cr) (st_service st) wid payload rq None
      (context_from_dto (case srd_context body of Some c \<Rightarrow> c | None \<Rightarrow> context_default)) (hash_alg_from_dto (srd_hash_alg body))) s Q"
  shows "\<exists>resp j s'. respond 200 SignBody (api_sign cr st (hc_ulid cr (wallet_ulid wid)) body) s =
    Some (Ok \<lparr>hr_status = 200, hr_body = SignBody \<lparr>sre_signature_hex = hex_encode (resp_signature resp),
      sre_public_key_hex = hex_encode (resp_public_key resp), sre_attestation = j\<rparr>\<rparr>, s') \<and> Q resp s'"
proof -
  from assms(6) obtain resp s' where run: "service_sign (hc_service cr) (st_service st) wid payload rq None
      (context_from_dto (case srd_context body of Some c \<Rightarrow> c | None \<Rightarrow> context_default)) (hash_alg_from_dto (srd_hash_alg body)) s = Some (Ok resp, s')"
    and Q: "Q resp s'" unfolding succeeds_def by blast
  obtain j where "hc_attestation_json cr (resp_attestation resp) = Inr j" using assms(5) by blast
  then show ?thesis
    using run Q by (intro exI [of _ resp] exI [of _ j] exI [of _ s'])
      (simp add: respond_def api_sign_def pbind_def plift_def preturn_def pmap_err_def hd_path_parsed_def Let_def parse_field_text [OF assms(1)] assms(2-4))
qed

lemma http_sign_answers:
  assumes "stores_inv wi s" "ss_wallets s wid = Some rec" "wr_status rec \<noteq> WalletStatusRevoked"
    and "api_laws cr" "hc_header_to_str cr hv = Some key" "key \<in> load_api_keys raw" "\<forall>d. \<exists>j. hc_attestation_json cr d = Inr j"
    and "payload_into_domain cr (srd_payload body) = Ok payload" "requester_into_domain cr (srd_requester body) = Ok rq" "srd_hd_path body = None"
    and "enclave_laws (wi_enclave wi)" "attestation_key_ok (en_att (wi_enclave wi)) (mock_attestation_key (wi_mock wi))"
    and "mock_policy_service_pubkey (wi_mock wi) = None" "log_works wi (ss_world s)"
    and "supports_hash (cfg_scheme (wr_config rec)) (hash_alg_from_dto (srd_hash_alg body))"
    and "policy_answer wi s wid payload rq None = Ok (Allow d pid hits)"
  shows "\<exists>sig pk j s'. serve_http cr wi None timeout raw (Some hv) (PostSign (hc_ulid cr (wallet_ulid wid)) body) s =
      Some (Ok \<lparr>hr_status = 200, hr_body = SignBody \<lparr>sre_signature_hex = hex_encode sig, sre_public_key_hex = hex_encode pk, sre_attestation = j\<rparr>\<rparr>, s') \<and>
    sg_verify (signer_of (en_sign (wi_enclave wi)) (cfg_scheme (wr_config rec))) (wr_master_public_key rec)
      (canonical_message_bytes (hc_service cr) payload) sig (hash_alg_from_dto (srd_hash_alg body)) = Ok ()"
proof -
  let ?ctx = "context_from_dto (case srd_context body of Some c \<Rightarrow> c | None \<Rightarrow> context_default)"
  from sign_succeeds [OF assms(1) assms(2,3,14,11,12,13,15,16), of "hc_service cr" timeout ?ctx]
  have "succeeds (service_sign (hc_service cr) (st_service (http_app wi None timeout raw)) wid payload rq None ?ctx (hash_alg_from_dto (srd_hash_alg body))) s (\<lambda>r s'.
      sg_verify (signer_of (en_sign (wi_enclave wi)) (cfg_scheme (wr_config rec))) (wr_master_public_key rec)
        (canonical_message_bytes (hc_service cr) payload) (resp_signature r) (hash_alg_from_dto (srd_hash_alg body)) = Ok ())"
    unfolding http_app_fields by (rule succeeds_weaken) blast
  from api_sign_succeeds [OF assms(4,8,9,10,7) this] show ?thesis
    by (auto simp: authorised_dispatch [OF assms(5,6)] dispatch_http_def)
qed

lemma unknown_approver_response:
  assumes "parse_field cr ''request_id'' RequestId i = Ok rid" "into_signed cr body rid = Ok (a, who)"
    and "get_approver who (wo_registry (ss_world s)) = Err e"
    and "\<not> str_contains (''registry: '' @ sv_registry_text (hc_service cr) e) ''duplicate approval''"
  shows "respond 200 SubmitBody (api_submit_approval cr (http_app wi sg timeout raw) i body) s =
    Some (Ok (into_response (ApiInternal (''registry: '' @ sv_registry_text (hc_service cr) e))), s)"
proof -
  obtain h where h: "hash_field cr (sar_message_hash_hex body) = Ok h"
    using assms(2) by (auto simp: into_signed_def outcome_simps)
  show ?thesis
    using assms h
    by (simp add: respond_def api_submit_approval_def pbind_def plift_def pmap_err_def service_record_approval_def on_world_def wired_stores)
qed

subsection \<open>A concrete interface\<close>

definition base32_value :: "string \<Rightarrow> nat" where
  "base32_value s = foldl (\<lambda>a c. 32 * a + length (takeWhile (\<lambda>d. d \<noteq> c) ''0123456789ABCDEFGHJKMNPQRSTVWXYZ'')) 0 s"

definition ulid_parse_ref :: "string \<Rightarrow> string + ulid" where
  "ulid_parse_ref s =
     (if length s = 26 \<and> set s \<subseteq> set ''0123456789ABCDEFGHJKMNPQRSTVWXYZ'' \<and> base32_value s < 2 ^ 128
      then Inr (word_of_nat (base32_value s)) else Inl ''invalid character'')"

lemma takeWhile_index: "distinct xs \<Longrightarrow> n < length xs \<Longrightarrow> length (takeWhile (\<lambda>d. d \<noteq> xs ! n) xs) = n"
proof (induction xs arbitrary: n)
  case (Cons x xs)
  then show ?case by (cases n) auto
qed simp

lemma base32_value_base32: "x < 32 ^ n \<Longrightarrow> base32_value (base32 n x) = x"
proof (induction n arbitrary: x)
  case 0
  then show ?case by (simp add: base32_value_def)
next
  case (Suc n)
  then have "x div 32 < 32 ^ n" by (simp add: less_mult_imp_div_less mult.commute)
  note Suc.IH [OF this]
  moreover have "length (takeWhile (\<lambda>d. d \<noteq> base32_char (x mod 32)) ''0123456789ABCDEFGHJKMNPQRSTVWXYZ'') = x mod 32"
    unfolding base32_char_def by (rule takeWhile_index) simp_all
  ultimately show ?case unfolding base32_value_def base32.simps foldl_append by simp
qed

lemma ulid_parse_crockford: "ulid_parse_ref (crockford u) = Inr u"
proof -
  have l: "unat u < 2 ^ 128" using unat_lt [of u] by simp
  moreover have "base32_value (crockford u) = unat u"
    unfolding crockford_def by (rule base32_value_base32) (use l in simp)
  ultimately show ?thesis
    using base32_chars [of 26 "unat u"] unfolding ulid_parse_ref_def by (simp add: crockford_def)
qed

definition header_text :: "bytes \<Rightarrow> string option" where
  "header_text b = (if \<forall>w \<in> set b. 32 \<le> w \<and> w < 127 \<or> w = 9 then Some (map (\<lambda>w. char_of (unat w)) b) else None)"

definition demo_api_crates :: api_crates where
  "demo_api_crates = \<lparr>hc_service = demo_service_crates, hc_ulid_parse = ulid_parse_ref,
     hc_hex_decode = (\<lambda>s. case hex_decode_ref s of None \<Rightarrow> Inl ''Invalid string length'' | Some b \<Rightarrow> Inr b), hc_header_to_str = header_text,
     hc_actor_json = (\<lambda>_. Some JNull), hc_attestation_json = (\<lambda>_. Inr JNull), hc_path_text = (\<lambda>_. []), hc_quorum_text = (\<lambda>_. []),
     hc_verify_text = (\<lambda>_. []), hc_audit_text = (\<lambda>_. []), hc_share_text = (\<lambda>_. []), hc_policy_text = (\<lambda>_. []),
     hc_docs = (\<lambda>_. (200, ''swagger'')), hc_openapi = ''{}''\<rparr>"

lemma demo_api_service: "hc_service demo_api_crates = demo_service_crates"
  by (simp add: demo_api_crates_def)

lemma demo_api_ulid [simp]: "hc_ulid demo_api_crates = crockford"
  by (simp add: demo_api_crates_def demo_service_crates_def)

lemma demo_api_laws: "api_laws demo_api_crates"
  unfolding api_laws_def demo_api_ulid
  using hex_decode_spec_ref by (simp add: ulid_text_crockford demo_api_crates_def ulid_parse_crockford hex_decode_spec_def)

definition demo_keys :: string where "demo_keys = '' alpha ,beta''"

lemma demo_key: "hc_header_to_str demo_api_crates (as_bytes ''beta'') = Some ''beta''" "''beta'' \<in> load_api_keys demo_keys"
proof -
  have "header_text (as_bytes ''beta'') = Some ''beta''" by code_simp
  then show "hc_header_to_str demo_api_crates (as_bytes ''beta'') = Some ''beta''" by (simp add: demo_api_crates_def)
  show "''beta'' \<in> load_api_keys demo_keys" by (simp add: load_api_keys_def demo_keys_def trim_graphic is_graphic_def)
qed

definition demo_sign_body :: sign_request_dto where
  "demo_sign_body = \<lparr>srd_payload = RawDto (hex_encode [1, 2, 3]), srd_requester = ApiKeyDto ''k'', srd_hd_path = None,
     srd_hash_alg = HashNoneDto, srd_context = None\<rparr>"

lemma demo_body:
  "payload_into_domain demo_api_crates (srd_payload demo_sign_body) = Ok (Raw [1, 2, 3])"
  "requester_into_domain demo_api_crates (srd_requester demo_sign_body) = Ok (ApiKey ''k'')" "srd_hd_path demo_sign_body = None"
  using hex_field_text [OF demo_api_laws] by (simp_all add: demo_sign_body_def)

lemma demo_attestation_json: "\<forall>d. \<exists>j. hc_attestation_json demo_api_crates d = Inr j"
  by (simp add: demo_api_crates_def)

definition demo_create_body :: create_wallet_request where
  "demo_create_body = \<lparr>cwr_scheme = Ed25519Dto, cwr_threshold = 2, cwr_total = 3, cwr_display_name = ''hot'', cwr_owner_id = ''acme'',
     cwr_policy_id = Some (crockford 1)\<rparr>"

abbreviation demo_http :: "http_request \<Rightarrow> (unit world service_state, unit, http_response) proc" where
  "demo_http \<equiv> serve_http demo_api_crates demo_wiring None 120000 demo_keys (Some (as_bytes ''beta''))"

lemma demo_events_utf8: "\<forall>e b. au_to_vec (wi_audit demo_wiring) e = Inr b \<longrightarrow> utf8_valid b"
proof -
  have ascii: "\<forall>w \<in> set b. w < 0x80 \<Longrightarrow> utf8_valid b" for b by (induction b) auto
  have "\<forall>w \<in> set (as_bytes (write_tokens ts)). w < 0x80" for ts
  proof
    fix w assume "w \<in> set (as_bytes (write_tokens ts))"
    then obtain c where c: "c \<in> set (write_tokens ts)" "w = word_of_nat (of_char c)" by (auto simp: as_bytes_def)
    then have n: "of_char c < (128 :: nat)" using write_tokens_chars [OF c(1)] by (auto simp: is_digit_def)
    then have "unat w = of_char c" unfolding c(2) unat_of_nat by simp
    then show "w < 0x80" using n by (simp add: word_less_nat_alt)
  qed
  then show ?thesis using ascii by (auto simp: demo_wiring_fields full_audit_crates_def event_to_vec_def)
qed

lemma demo_text_inv: "text_inv demo_wiring (ss_world demo_state)"
  using demo_world_inv by (simp add: text_inv_def log_written_def demo_state_def log_bytes_def)

text \<open>A server that has created one wallet over HTTP.\<close>

lemma demo_posted:
  obtains rec s where "demo_http (PostWallets demo_create_body) demo_state =
      Some (Ok \<lparr>hr_status = 201, hr_body = WalletBody (wallet_view_from demo_api_crates rec)\<rparr>, s)"
    "ss_wallets s (wr_wallet_id rec) = Some rec" "wr_config rec = demo_config" "wr_status rec = WalletActive"
    "fresh_ids demo_wiring (ss_world s)" "stores_inv demo_wiring s" "text_inv demo_wiring (ss_world s)"
proof -
  obtain rec s where d: "create_wallet demo_service_crates (server_service demo_wiring None 120000) demo_config ActorSystem demo_state = Some (Ok rec, s)"
    "ss_wallets s (wr_wallet_id rec) = Some rec" "wr_config rec = demo_config" "wr_status rec = WalletActive" "fresh_ids demo_wiring (ss_world s)"
    by (rule demo_created)
  have "into_config demo_api_crates (server_service demo_wiring None 120000) demo_create_body demo_state = Some (Ok demo_config, demo_state)"
    using parse_field_text [OF demo_api_laws, of "''policy_id''" PolicyId 1]
    by (simp add: into_config_def demo_create_body_def demo_config_def pbind_def plift_def preturn_def)
  then have post: "demo_http (PostWallets demo_create_body) demo_state = Some (Ok \<lparr>hr_status = 201, hr_body = WalletBody (wallet_view_from demo_api_crates rec)\<rparr>, s)"
    using d(1) by (simp add: authorised_dispatch [OF demo_key] dispatch_http_def respond_def api_create_wallet_def pbind_def pmap_err_def preturn_def demo_api_service)
  moreover have "stores_inv demo_wiring s"
  proof -
    have "service_inv demo_wiring demo_state" by (simp add: service_inv_def stores_inv_def demo_state_def mock_new_def)
    moreover have "sss_spec (en_sss (wi_enclave demo_wiring))" by (simp add: demo_wiring_fields ref_enclave_crates_def ref_sss_spec)
    ultimately show ?thesis using keepsD [OF serve_http_keeps _ post] d(5) by (simp add: service_inv_def)
  qed
  moreover have "text_inv demo_wiring (ss_world s)" using leavesD [OF texts.create_wallet_leaves demo_text_inv d(1)] .
  ultimately show thesis using that d(2-5) by blast
qed

subsection \<open>Properties\<close>

text \<open>A key is accepted when it is one of the comma-separated entries of the configuration, without surrounding white space, and not empty.\<close>

definition authorised :: "api_crates \<Rightarrow> string \<Rightarrow> bytes option \<Rightarrow> bool" where
  "authorised cr raw header \<longleftrightarrow> (\<exists>hv key. header = Some hv \<and> hc_header_to_str cr hv = Some key \<and> key \<noteq> [] \<and>
     key \<in> trim ` set (split_on (CHR '','') raw))"

lemma require_api_key_Ok: "require_api_key cr (load_api_keys raw) header = Ok () \<longleftrightarrow> authorised cr raw header"
  by (auto simp: require_api_key_def authorised_def is_allowed_def load_api_keys_def split: option.splits if_splits)

lemma require_api_key_Err: "\<not> authorised cr raw header \<Longrightarrow> \<exists>m. require_api_key cr (load_api_keys raw) header = Err (Unauthorized m)"
  unfolding require_api_key_Ok [symmetric] by (auto simp: require_api_key_def split: option.splits)

lemma public_response:
  assumes "is_public req"
  obtains resp where "serve_http cr wi sg timeout raw header req = preturn resp" "serve_http cr wi sg timeout raw None req = preturn resp"
  using assms by (cases req) (simp_all add: serve_http_def router_def dispatch_http_def is_public_def)



lemma signing_trail_last:
  "signing_trail cr self rid wid payload rq hd_path decision approvals bndl r =
     butlast (signing_trail cr self rid wid payload rq hd_path decision approvals bndl r) @ [succeeded_event cr rid wid r]"
  by (simp add: signing_trail_def butlast_append)

text \<open>C11. A signature is on record at once. When a signing request over HTTP is answered with a signature, the audit query for that wallet that
  follows, with any positive limit and any valid key, that of the signer or another, is answered with at most that many events (and never more than 1000), the last of which
  is the success of this very signature, identified by its hash.\<close>

theorem http_signature_is_audited:
  assumes "text_inv wi (ss_world s)" "\<forall>e b. au_to_vec (wi_audit wi) e = Inr b \<longrightarrow> utf8_valid b"
    and "hc_header_to_str cr hv = Some key" "key \<in> load_api_keys raw" "1 \<le> n"
    and "serve_http cr wi sg timeout raw header (PostSign i body) s = Some (Ok \<lparr>hr_status = 200, hr_body = SignBody r\<rparr>, s')"
  shows "\<exists>u sig views v. hc_ulid_parse cr i = Inr u \<and> sre_signature_hex r = hex_encode sig \<and>
    serve_http cr wi sg timeout raw (Some hv) (GetAuditEvents \<lparr>aeq_wallet_id = Some i, aeq_limit = Some n\<rparr>) s' =
      Some (Ok \<lparr>hr_status = 200, hr_body = EventsBody (views @ [v])\<rparr>, s') \<and> length (views @ [v]) \<le> min n 1000 \<and>
    aev_kind v = SigningSucceededDto \<and> aev_wallet_id v = Some (hc_ulid cr u) \<and>
    aev_details v = JObj [(''signature_hash_hex'', JStr (hex_encode (sha256 (sv_sign (hc_service cr)) sig)))]"
proof -
  let ?st = "http_app wi sg timeout raw" and ?svc = "server_service wi sg timeout"
  from assms(6) have "respond 200 SignBody (api_sign cr ?st i body) s = Some (Ok \<lparr>hr_status = 200, hr_body = SignBody r\<rparr>, s')"
    by (auto simp: serve_http_def router_def dispatch_http_def is_public_def preturn_def plift_def into_response_def split: outcome.splits prod.splits)
  then have "api_sign cr ?st i body s = Some (Ok r, s')" by (rule respond_Ok) (auto intro: injI)
  then obtain u payload rq hd_path ctx alg resp where u: "hc_ulid_parse cr i = Inr u" "sre_signature_hex r = hex_encode (resp_signature resp)"
    and run: "service_sign (hc_service cr) (st_service ?st) (WalletId u) payload rq hd_path ctx alg s = Some (Ok resp, s')"
    by (rule api_sign_Ok)
  from run [unfolded http_app_fields] obtain wallet where "sign_request (hc_service cr) ?svc wallet (WalletId u) payload rq hd_path ctx alg s = Some (Ok resp, s')"
    by (auto simp: service_sign_def proc_simps get_wallet_def outcome_simps split: if_splits)
  from leavesD [OF texts.sign_leaves assms(1) this] obtain l rid where inv: "text_inv wi (ss_world s')"
    and l: "logged wi (ss_world s') = l @ [succeeded_event (hc_service cr) rid (WalletId u) resp]"
    by (metis (no_types, lifting) signing_trail_last append_assoc)
  obtain es where es: "map draft_of es = logged wi (ss_world s')" and rd: "\<forall>flt n. read_audit_events (wi_audit wi) (read_log (wo_log (ss_world s'))) flt n =
      Ok (drop (length (filter (of_wallet flt) es) - n) (filter (of_wallet flt) es))"
    by (rule written_events [OF inv assms(2)])
  from es l obtain es' e where e: "es = es' @ [e]" "draft_of e = succeeded_event (hc_service cr) rid (WalletId u) resp"
    by (auto simp: map_eq_append_conv)
  have w: "ev_wallet_id e = Some (WalletId u)" "ev_kind e = SigningSucceeded"
    "ev_details e = JObj [(''signature_hash_hex'', JStr (hex_encode (sha256 (sv_sign (hc_service cr)) (resp_signature resp))))]"
    using e(2) by (simp_all add: draft_of_def succeeded_event_def request_event_def)
  define old where "old = filter (of_wallet (Some (WalletId u))) es'"
  have "filter (of_wallet (Some (WalletId u))) es = old @ [e]" by (simp add: e(1) old_def of_wallet_def w)
  with rd [rule_format, of "Some (WalletId u)" "min n 1000"] assms(5)
  have read: "read_audit_events (wi_audit wi) (ad_read_log (st_admin ?st) (ss_world s')) (Some (WalletId u)) (min n 1000) =
      Ok (drop (length old + 1 - min n 1000) old @ [e])" by (simp add: wired_admin_def Let_def)
  have "serve_http cr wi sg timeout raw (Some hv) (GetAuditEvents \<lparr>aeq_wallet_id = Some i, aeq_limit = Some n\<rparr>) s' =
      Some (Ok \<lparr>hr_status = 200, hr_body = EventsBody (map (audit_event_view_from cr) (drop (length old + 1 - min n 1000) old) @ [audit_event_view_from cr e])\<rparr>, s')"
    using list_events_written [where cr = cr and q = "\<lparr>aeq_wallet_id = Some i, aeq_limit = Some n\<rparr>", simplified, OF read] u(1)
    by (simp add: authorised_dispatch [OF assms(3,4)] dispatch_http_def parse_field_def)
  then show ?thesis
    using u w assms(5) by (intro exI [of _ u] exI [of _ "resp_signature resp"] exI conjI) (auto simp: audit_event_view_from_def)
qed

theorem http_signature_is_audited_witness:
  "\<exists>i s r s' views v. demo_http (PostSign i demo_sign_body) s = Some (Ok \<lparr>hr_status = 200, hr_body = SignBody r\<rparr>, s') \<and>
     demo_http (GetAuditEvents \<lparr>aeq_wallet_id = Some i, aeq_limit = Some 1\<rparr>) s' = Some (Ok \<lparr>hr_status = 200, hr_body = EventsBody (views @ [v])\<rparr>, s') \<and>
     aev_kind v = SigningSucceededDto"
proof -
  obtain rec s where d: "ss_wallets s (wr_wallet_id rec) = Some rec" "wr_config rec = demo_config" "wr_status rec = WalletActive"
    "stores_inv demo_wiring s" "text_inv demo_wiring (ss_world s)" by (rule demo_posted)
  let ?i = "hc_ulid demo_api_crates (wallet_ulid (wr_wallet_id rec))"
  have "succeeds (service_sign (hc_service demo_api_crates) (st_service (http_app demo_wiring None 120000 demo_keys)) (wr_wallet_id rec) (Raw [1, 2, 3]) (ApiKey ''k'') None
      (context_from_dto (case srd_context demo_sign_body of Some c \<Rightarrow> c | None \<Rightarrow> context_default)) (hash_alg_from_dto (srd_hash_alg demo_sign_body))) s (\<lambda>r s'.
    sg_verify (signer_of (en_sign (wi_enclave demo_wiring)) (cfg_scheme (wr_config rec))) (wr_master_public_key rec)
      (canonical_message_bytes (hc_service demo_api_crates) (Raw [1, 2, 3])) (resp_signature r) (hash_alg_from_dto (srd_hash_alg demo_sign_body)) = Ok () \<and>
    attestation_verify (en_att (wi_enclave demo_wiring)) (resp_attestation r) = Ok ())"
    unfolding http_app_fields by (rule demo_allows, rule sign_succeeds [OF d(4,1) _ demo_log_works _ demo_attestation_ok])
      (simp_all add: d demo_wiring_fields ref_enclave_laws mock_new_with_seed_def demo_config_def supports_hash_def is_secp_def demo_sign_body_def)
  from api_sign_succeeds [OF demo_api_laws demo_body demo_attestation_json this]
  obtain r s' where r: "demo_http (PostSign ?i demo_sign_body) s = Some (Ok \<lparr>hr_status = 200, hr_body = SignBody r\<rparr>, s')"
    by (auto simp: authorised_dispatch [OF demo_key] dispatch_http_def)
  from r http_signature_is_audited [OF d(5) demo_events_utf8 demo_key _ r, of 1] show ?thesis by fastforce
qed

lemma submitted_view:
  assumes "api_laws cr" "length (ap_message_hash a) = 32"
  shows "into_signed cr \<lparr>sar_approver_id = hc_ulid cr (approver_ulid who), sar_approval_id = hc_ulid cr (approval_ulid (ap_approval_id a)),
      sar_decision = decision_to_dto (ap_decision a), sar_signature_hex = hex_encode (ap_signature a), sar_timestamp_unix_ms = ap_timestamp_unix_ms a,
      sar_message_hash_hex = hex_encode (ap_message_hash a), sar_identity = identity_to_dto cr (ap_approver a)\<rparr> (ap_request_id a) = Ok (a, who)"
  using assms by (simp add: into_signed_def hash_field_text identity_dto_round_trip)

text \<open>A vote of an approver the registry does not know is answered with status 500 and is not recorded. The interface's
  documentation promises 404 for it.\<close>

theorem unknown_approver_gets_500:
  assumes "hc_header_to_str cr hv = Some key" "key \<in> load_api_keys raw"
    and "parse_field cr ''request_id'' RequestId i = Ok rid" "into_signed cr body rid = Ok (a, who)"
    and "map_of (reg_approvers (wo_registry (ss_world s))) who = None"
    and "\<not> str_contains (''registry: '' @ sv_registry_text (hc_service cr) (ApproverNotFound who)) ''duplicate approval''"
  shows "\<exists>b. serve_http cr wi sg timeout raw (Some hv) (PostApprovals i body) s = Some (Ok \<lparr>hr_status = 500, hr_body = ErrorBody b\<rparr>, s)"
proof -
  have "get_approver who (wo_registry (ss_world s)) = Err (ApproverNotFound who)" using assms(5) by (simp add: get_approver_def)
  from unknown_approver_response [OF assms(3,4) this assms(6), of wi sg timeout raw] show ?thesis
    by (simp add: authorised_dispatch [OF assms(1,2)] dispatch_http_def into_response_def)
qed

theorem unknown_approver_gets_500_witness:
  "\<exists>body b. demo_http (PostApprovals (crockford 2) body) demo_state = Some (Ok \<lparr>hr_status = 500, hr_body = ErrorBody b\<rparr>, demo_state)"
proof -
  have "\<exists>body. into_signed demo_api_crates body (RequestId 2) = Ok (outsider_vote, ApproverId 1)"
    using submitted_view [OF demo_api_laws, of outsider_vote "ApproverId 1"] by (auto simp: outsider_vote_def demo_approval_def)
  then obtain body where "into_signed demo_api_crates body (RequestId 2) = Ok (outsider_vote, ApproverId 1)" by blast
  moreover have "parse_field demo_api_crates ''request_id'' RequestId (crockford 2) = Ok (RequestId 2)"
    using parse_field_text [OF demo_api_laws, of "''request_id''" RequestId 2] by simp
  moreover have "\<not> str_contains (''registry: '' @ sv_registry_text (hc_service demo_api_crates) (ApproverNotFound (ApproverId 1))) ''duplicate approval''"
    by (simp add: demo_api_service demo_service_crates_def str_contains_def upt_rec)
  ultimately show ?thesis
    using unknown_approver_gets_500 [OF demo_key, where s = demo_state and who = "ApproverId 1"]
    by (fastforce simp: demo_state_def registry_new_def)
qed

end
