(* ===== verification/Grpc_Api.thy ===== *)
theory Grpc_Api
  imports Http_Api Audit_Postgres
begin

text \<open>
  The gRPC interface (\<open>grpc/convert.rs\<close>, \<open>grpc/auth.rs\<close>, \<open>grpc/wallet.rs\<close>, \<open>grpc/approver.rs\<close>,
  \<open>grpc/mod.rs\<close>) on the same application state as the HTTP routes.

  Messages are the ones of the three \<open>.proto\<close> files, as prost decodes them: an enumeration field is an
  integer, a \<open>oneof\<close> or message field is optional, an absent scalar is zero or empty. A message with one
  scalar field is that field. The encoding on the wire is prost's.
\<close>

subsection \<open>Status (tonic)\<close>

datatype grpc_code =
    Unauthenticated | InvalidArgument | PermissionDenied | GrpcNotFound | AlreadyExists | FailedPrecondition
  | Aborted | GrpcInternal

datatype grpc_status = Status (gs_code: grpc_code) (gs_message: string)

text \<open>What the conversions use of serde\_json: reading and writing JSON text.\<close>

record grpc_crates =
  gc_api :: api_crates
  gc_json_parse :: "string \<Rightarrow> string + json"
  gc_json_text :: "json \<Rightarrow> string option"
  gc_actor_text :: "actor \<Rightarrow> string option"
  gc_attestation_text :: "attestation_doc \<Rightarrow> string + string"

abbreviation gc_service :: "grpc_crates \<Rightarrow> service_crates" where
  "gc_service gc \<equiv> hc_service (gc_api gc)"

abbreviation gc_ulid :: "grpc_crates \<Rightarrow> ulid \<Rightarrow> string" where
  "gc_ulid gc \<equiv> sv_ulid (gc_service gc)"

subsection \<open>Messages (common.proto, wallet.proto, approver.proto)\<close>

datatype proto_payload =
    ProtoRaw bytes
  | ProtoPersonalSign bytes
  | ProtoTypedData string
  | ProtoVmTransaction int u64 "bytes option" bytes

datatype proto_requester =
    ProtoApiKey string
  | ProtoOAuthSubject string
  | ProtoNestedWalletRequester string
  | ProtoOnChainContract u64 bytes

datatype proto_identity =
    ProtoChain u64 bytes bytes int
  | ProtoExternal string bytes int
  | ProtoHardware string bytes int
  | ProtoNestedWallet string bytes int

record proto_context =
  pctx_chain_id :: "u64 option"
  pctx_vm_type :: "string option"
  pctx_extra_json :: string

record proto_create_wallet =
  pcw_scheme :: int
  pcw_threshold :: u32
  pcw_total :: u32
  pcw_display_name :: string
  pcw_owner_id :: string
  pcw_policy_id :: string

record proto_wallet_view =
  pwv_wallet_id :: string
  pwv_scheme :: int
  pwv_threshold :: u32
  pwv_total :: u32
  pwv_display_name :: string
  pwv_owner_id :: string
  pwv_policy_id :: string
  pwv_master_public_key :: bytes
  pwv_status :: int
  pwv_created_at_unix_ms :: i64

text \<open>A message field of a message, and the \<open>oneof\<close> inside it, are both optional.\<close>

record proto_sign_request =
  psr_wallet_id :: string
  psr_payload :: "proto_payload option option"
  psr_requester :: "proto_requester option option"
  psr_hd_path :: string
  psr_hash_alg :: int
  psr_context :: "proto_context option"

record proto_sign_response =
  psp_signature :: bytes
  psp_public_key :: bytes
  psp_attestation_json :: string

record proto_audit_event =
  pae_event_id :: string
  pae_prev_event_hash :: bytes
  pae_timestamp_unix_ms :: i64
  pae_actor_json :: string
  pae_kind :: int
  pae_request_id :: string
  pae_wallet_id :: string
  pae_details_json :: string
  pae_server_signature :: bytes

record proto_approver_view =
  pav_approver_id :: string
  pav_identity :: "proto_identity option option"
  pav_scheme :: int
  pav_label :: string
  pav_owner_id :: string
  pav_webhook_url :: string
  pav_status :: int
  pav_added_at_unix_ms :: i64

record proto_register_approver =
  pra_identity :: "proto_identity option option"
  pra_label :: string
  pra_owner_id :: string
  pra_webhook_url :: string

record proto_approver_set_view =
  psv_approver_set_id :: string
  psv_name :: string
  psv_owner_id :: string
  psv_members :: "string list"
  psv_threshold :: u32
  psv_total :: u32
  psv_quorum_timeout_secs :: u32
  psv_created_at_unix_ms :: i64

record proto_create_set =
  pcs_name :: string
  pcs_owner_id :: string
  pcs_members :: "string list"
  pcs_threshold :: u32
  pcs_total :: u32
  pcs_quorum_timeout_secs :: u32

record proto_submit_approval =
  psa_request_id :: string
  psa_approver_id :: string
  psa_approval_id :: string
  psa_decision :: int
  psa_signature :: bytes
  psa_timestamp_unix_ms :: i64
  psa_message_hash :: bytes
  psa_identity :: "proto_identity option option"

record proto_approval_view =
  ppv_approval_id :: string
  ppv_request_id :: string
  ppv_approver :: "proto_identity option option"
  ppv_approver_key :: string
  ppv_decision :: int
  ppv_message_hash :: bytes
  ppv_timestamp_unix_ms :: i64
  ppv_signature :: bytes

subsection \<open>Helpers (convert.rs)\<close>

definition require_field :: "string \<Rightarrow> 'a option \<Rightarrow> (grpc_status, 'a) outcome" where
  "require_field field v = ok_or v (Status InvalidArgument (''missing required field: '' @ field))"

definition grpc_parse_ulid :: "grpc_crates \<Rightarrow> string \<Rightarrow> (ulid \<Rightarrow> 'a) \<Rightarrow> string \<Rightarrow> (grpc_status, 'a) outcome" where
  "grpc_parse_ulid gc field con s =
     (case hc_ulid_parse (gc_api gc) s of
        Inl e \<Rightarrow> Err (Status InvalidArgument (''invalid '' @ field @ '': invalid ULID: '' @ e))
      | Inr u \<Rightarrow> Ok (con u))"

definition require_32_bytes :: "string \<Rightarrow> bytes \<Rightarrow> (grpc_status, bytes) outcome" where
  "require_32_bytes field b =
     (if length b = 32 then Ok b else Err (Status InvalidArgument (field @ '' must be exactly 32 bytes'')))"

text \<open>
  Enumerations. The numbers are those of \<open>common.proto\<close>; zero is the unspecified value, and a number that is
  not in the enumeration is unknown.
\<close>

primrec scheme_number :: "signing_scheme \<Rightarrow> int" where
  "scheme_number Ed25519 = 1"
| "scheme_number Secp256k1 = 2"
| "scheme_number Secp256k1Recoverable = 3"
| "scheme_number MlDsa44 = 4"
| "scheme_number MlDsa65 = 5"
| "scheme_number MlDsa87 = 6"

primrec hash_alg_number :: "hash_alg \<Rightarrow> int" where
  "hash_alg_number HashNone = 1"
| "hash_alg_number Sha256 = 2"
| "hash_alg_number Keccak256 = 3"
| "hash_alg_number Blake3 = 4"

primrec vm_type_number :: "vm_type \<Rightarrow> int" where
  "vm_type_number Evm = 1"
| "vm_type_number Qvm = 2"
| "vm_type_number Wasm = 3"

primrec decision_number :: "approval_decision \<Rightarrow> int" where
  "decision_number Approve = 1"
| "decision_number Reject = 2"

primrec wallet_status_number :: "wallet_status \<Rightarrow> int" where
  "wallet_status_number WalletActive = 1"
| "wallet_status_number WalletFrozen = 2"
| "wallet_status_number WalletStatusRevoked = 3"

primrec approver_status_number :: "approver_status \<Rightarrow> int" where
  "approver_status_number Active = 1"
| "approver_status_number Revoked = 2"

primrec audit_kind_number :: "audit_kind \<Rightarrow> int" where
  "audit_kind_number WalletCreated = 1"
| "audit_kind_number WalletRevoked = 2"
| "audit_kind_number SigningRequested = 3"
| "audit_kind_number SigningEvaluated = 4"
| "audit_kind_number QuorumNotified = 5"
| "audit_kind_number QuorumApprovalReceived = 6"
| "audit_kind_number QuorumApprovalRejected = 7"
| "audit_kind_number QuorumTimedOut = 8"
| "audit_kind_number QuorumThresholdReached = 9"
| "audit_kind_number SigningAttempted = 10"
| "audit_kind_number SigningSucceeded = 11"
| "audit_kind_number SigningFailed = 12"
| "audit_kind_number PolicyChanged = 13"
| "audit_kind_number ApproverSetChanged = 14"
| "audit_kind_number SystemError = 15"
| "audit_kind_number EnclaveAttested = 16"
| "audit_kind_number PolicyDecisionSigned = 17"

definition from_i32 :: "string \<Rightarrow> string \<Rightarrow> ('a \<Rightarrow> int) \<Rightarrow> 'a list \<Rightarrow> int \<Rightarrow> (grpc_status, 'a) outcome" where
  "from_i32 type_name field number variants v =
     (if v = 0 then Err (Status InvalidArgument (field @ '' must be specified''))
      else ok_or (find (\<lambda>x. number x = v) variants)
        (Status InvalidArgument (''unknown '' @ type_name @ '' variant: '' @ show_int v)))"

definition scheme_from_i32 :: "int \<Rightarrow> (grpc_status, signing_scheme) outcome" where
  "scheme_from_i32 = from_i32 ''SigningScheme'' ''scheme'' scheme_number [Ed25519, Secp256k1, Secp256k1Recoverable, MlDsa44, MlDsa65, MlDsa87]"

definition hash_alg_from_i32 :: "int \<Rightarrow> (grpc_status, hash_alg) outcome" where
  "hash_alg_from_i32 = from_i32 ''HashAlg'' ''hash_alg'' hash_alg_number [HashNone, Sha256, Keccak256, Blake3]"

definition vm_type_from_i32 :: "int \<Rightarrow> (grpc_status, vm_type) outcome" where
  "vm_type_from_i32 = from_i32 ''VmType'' ''vm_type'' vm_type_number [Evm, Qvm, Wasm]"

definition approval_decision_from_i32 :: "int \<Rightarrow> (grpc_status, approval_decision) outcome" where
  "approval_decision_from_i32 = from_i32 ''ApprovalDecision'' ''decision'' decision_number [Approve, Reject]"

definition u8_try_from :: "string \<Rightarrow> u32 \<Rightarrow> (grpc_status, u8) outcome" where
  "u8_try_from field n =
     (if n < 256 then Ok (ucast n) else Err (Status InvalidArgument (field @ '' out of u8 range'')))"

subsection \<open>Lowering requests (convert.rs)\<close>

definition lower_payload :: "grpc_crates \<Rightarrow> proto_payload option \<Rightarrow> (grpc_status, signing_payload) outcome" where
  "lower_payload gc p =
     obind (require_field ''payload.kind'' p) (\<lambda>payload.
     case payload of
       ProtoRaw b \<Rightarrow> Ok (Raw b)
     | ProtoPersonalSign b \<Rightarrow> Ok (PersonalSign b)
     | ProtoTypedData s \<Rightarrow>
         (case gc_json_parse gc s of
            Inl e \<Rightarrow> Err (Status InvalidArgument (''invalid typed_data.json: '' @ e))
          | Inr j \<Rightarrow> Ok (TypedData j))
     | ProtoVmTransaction vm chain t raw \<Rightarrow>
         obind (vm_type_from_i32 vm) (\<lambda>vm. Ok (VmTransaction vm chain t raw)))"

definition lower_requester :: "grpc_crates \<Rightarrow> proto_requester option \<Rightarrow> (grpc_status, requester) outcome" where
  "lower_requester gc r =
     obind (require_field ''requester.kind'' r) (\<lambda>inner.
     case inner of
       ProtoApiKey key \<Rightarrow> Ok (ApiKey key)
     | ProtoOAuthSubject sub \<Rightarrow> Ok (OAuthSubject sub)
     | ProtoNestedWalletRequester s \<Rightarrow>
         obind (grpc_parse_ulid gc ''nested_wallet.wallet_id'' WalletId s) (\<lambda>w. Ok (NestedWalletRequester w))
     | ProtoOnChainContract chain a \<Rightarrow> Ok (OnChainContract chain a))"

definition lower_context :: "grpc_crates \<Rightarrow> proto_context option \<Rightarrow> (grpc_status, signing_context) outcome" where
  "lower_context gc c =
     (case c of
        None \<Rightarrow> Ok \<lparr>ctx_chain_id = None, ctx_vm_type = None, ctx_extra = JNull\<rparr>
      | Some c \<Rightarrow>
          obind (if pctx_extra_json c = [] then Ok JNull
                 else case gc_json_parse gc (pctx_extra_json c) of
                   Inl e \<Rightarrow> Err (Status InvalidArgument (''invalid context.extra_json: '' @ e))
                 | Inr j \<Rightarrow> Ok j) (\<lambda>extra.
          Ok \<lparr>ctx_chain_id = pctx_chain_id c, ctx_vm_type = pctx_vm_type c, ctx_extra = extra\<rparr>))"

definition lower_hd_path :: "grpc_crates \<Rightarrow> string \<Rightarrow> (grpc_status, hd_path option) outcome" where
  "lower_hd_path gc s =
     (if s = [] then Ok None
      else obind (map_err (\<lambda>e. Status InvalidArgument (''invalid hd_path: '' @ hc_path_text (gc_api gc) e)) (hd_path_from_str s)) (\<lambda>p. Ok (Some p)))"

definition lower_create_wallet :: "grpc_crates \<Rightarrow> 'w wallet_service \<Rightarrow> proto_create_wallet \<Rightarrow> ('w service_state, grpc_status, wallet_config) proc" where
  "lower_create_wallet gc self req =
     pbind (plift (scheme_from_i32 (pcw_scheme req))) (\<lambda>scheme.
     pbind (plift (u8_try_from ''threshold'' (pcw_threshold req))) (\<lambda>threshold.
     pbind (plift (u8_try_from ''total'' (pcw_total req))) (\<lambda>n.
     pbind (if pcw_policy_id req = [] then pbind (fresh_ulid self) (\<lambda>u. preturn (PolicyId u))
            else plift (grpc_parse_ulid gc ''policy_id'' PolicyId (pcw_policy_id req))) (\<lambda>policy.
     preturn \<lparr>cfg_display_name = pcw_display_name req, cfg_owner_id = OwnerId (pcw_owner_id req), cfg_scheme = scheme,
       cfg_threshold = threshold, cfg_total = n, cfg_policy_id = policy, cfg_max_value_per_tx = None,
       cfg_contract_allowlist = [], cfg_chain_allowlist = []\<rparr>))))"

definition lower_approver_identity :: "grpc_crates \<Rightarrow> proto_identity option \<Rightarrow> (grpc_status, approver_identity) outcome" where
  "lower_approver_identity gc p =
     obind (require_field ''identity.kind'' p) (\<lambda>inner.
     case inner of
       ProtoChain chain a pk scheme \<Rightarrow> obind (scheme_from_i32 scheme) (\<lambda>s. Ok (ChainAccount chain a pk s))
     | ProtoExternal i pk scheme \<Rightarrow> obind (scheme_from_i32 scheme) (\<lambda>s. Ok (ExternalKey i pk s))
     | ProtoHardware h pk scheme \<Rightarrow>
         obind (scheme_from_i32 scheme) (\<lambda>s. Ok (Hardware \<lparr>hah_handle = h, hah_public_key = pk, hah_scheme = s\<rparr>))
     | ProtoNestedWallet w pk scheme \<Rightarrow>
         obind (grpc_parse_ulid gc ''nested_wallet.wallet_id'' WalletId w) (\<lambda>w.
         obind (scheme_from_i32 scheme) (\<lambda>s. Ok (NestedWallet w pk s))))"

definition lower_create_approver_set :: "grpc_crates \<Rightarrow> proto_create_set \<Rightarrow> (grpc_status, approver_set_create) outcome" where
  "lower_create_approver_set gc req =
     obind (omap (grpc_parse_ulid gc ''member approver_id'' ApproverId) (pcs_members req)) (\<lambda>members.
     obind (u8_try_from ''threshold'' (pcs_threshold req)) (\<lambda>threshold.
     obind (u8_try_from ''total'' (pcs_total req)) (\<lambda>n.
     Ok \<lparr>sc_name = pcs_name req, sc_owner_id = OwnerId (pcs_owner_id req), sc_members = members, sc_threshold = threshold, sc_total = n,
         sc_quorum_timeout_secs = (if pcs_quorum_timeout_secs req = 0 then None else Some (pcs_quorum_timeout_secs req))\<rparr>)))"

definition lower_submit_approval :: "grpc_crates \<Rightarrow> proto_submit_approval \<Rightarrow> (grpc_status, signed_approval \<times> approver_id \<times> bytes) outcome" where
  "lower_submit_approval gc req =
     obind (grpc_parse_ulid gc ''request_id'' RequestId (psa_request_id req)) (\<lambda>rid.
     obind (grpc_parse_ulid gc ''approver_id'' ApproverId (psa_approver_id req)) (\<lambda>who.
     obind (grpc_parse_ulid gc ''approval_id'' ApprovalId (psa_approval_id req)) (\<lambda>aid.
     obind (require_32_bytes ''message_hash'' (psa_message_hash req)) (\<lambda>hash.
     obind (approval_decision_from_i32 (psa_decision req)) (\<lambda>decision.
     obind (require_field ''identity'' (psa_identity req)) (\<lambda>inner.
     obind (lower_approver_identity gc inner) (\<lambda>identity.
     Ok (\<lparr>ap_approval_id = aid, ap_approver = identity, ap_request_id = rid, ap_message_hash = hash, ap_decision = decision,
          ap_timestamp_unix_ms = psa_timestamp_unix_ms req, ap_signature = psa_signature req\<rparr>, who, hash))))))))"

subsection \<open>Raising responses (convert.rs)\<close>

definition raise_wallet_view :: "grpc_crates \<Rightarrow> wallet_record \<Rightarrow> proto_wallet_view" where
  "raise_wallet_view gc r =
     \<lparr>pwv_wallet_id = gc_ulid gc (wallet_ulid (wr_wallet_id r)), pwv_scheme = scheme_number (cfg_scheme (wr_config r)),
      pwv_threshold = ucast (cfg_threshold (wr_config r)), pwv_total = ucast (cfg_total (wr_config r)),
      pwv_display_name = cfg_display_name (wr_config r), pwv_owner_id = owner_str (cfg_owner_id (wr_config r)),
      pwv_policy_id = gc_ulid gc (policy_ulid (cfg_policy_id (wr_config r))), pwv_master_public_key = wr_master_public_key r,
      pwv_status = wallet_status_number (wr_status r), pwv_created_at_unix_ms = wr_created_at_unix_ms r\<rparr>"

definition raise_audit_event :: "grpc_crates \<Rightarrow> audit_event \<Rightarrow> proto_audit_event" where
  "raise_audit_event gc e =
     \<lparr>pae_event_id = gc_ulid gc (event_ulid (ev_event_id e)), pae_prev_event_hash = ev_prev_event_hash e,
      pae_timestamp_unix_ms = ev_timestamp_unix_ms e,
      pae_actor_json = (case gc_actor_text gc (ev_actor e) of Some t \<Rightarrow> t | None \<Rightarrow> ''null''), pae_kind = audit_kind_number (ev_kind e),
      pae_request_id = (case ev_request_id e of Some r \<Rightarrow> gc_ulid gc (request_ulid r) | None \<Rightarrow> []),
      pae_wallet_id = (case ev_wallet_id e of Some w \<Rightarrow> gc_ulid gc (wallet_ulid w) | None \<Rightarrow> []),
      pae_details_json = (case gc_json_text gc (ev_details e) of Some t \<Rightarrow> t | None \<Rightarrow> ''null''),
      pae_server_signature = ev_server_signature e\<rparr>"

definition raise_approver_identity :: "grpc_crates \<Rightarrow> approver_identity \<Rightarrow> proto_identity option" where
  "raise_approver_identity gc i = Some
     (case i of
        ChainAccount chain a pk s \<Rightarrow> ProtoChain chain a pk (scheme_number s)
      | ExternalKey i pk s \<Rightarrow> ProtoExternal i pk (scheme_number s)
      | Hardware h \<Rightarrow> ProtoHardware (hah_handle h) (hah_public_key h) (scheme_number (hah_scheme h))
      | NestedWallet w pk s \<Rightarrow> ProtoNestedWallet (gc_ulid gc (wallet_ulid w)) pk (scheme_number s))"

definition raise_approver_record :: "grpc_crates \<Rightarrow> approver_record \<Rightarrow> proto_approver_view" where
  "raise_approver_record gc r =
     \<lparr>pav_approver_id = gc_ulid gc (approver_ulid (rec_approver_id r)), pav_identity = Some (raise_approver_identity gc (rec_identity r)),
      pav_scheme = scheme_number (rec_scheme r), pav_label = rec_label r, pav_owner_id = owner_str (rec_owner_id r),
      pav_webhook_url = (case rec_webhook_url r of Some u \<Rightarrow> u | None \<Rightarrow> []), pav_status = approver_status_number (rec_status r),
      pav_added_at_unix_ms = rec_added_at_unix_ms r\<rparr>"

definition raise_approver_set :: "grpc_crates \<Rightarrow> approver_set \<Rightarrow> proto_approver_set_view" where
  "raise_approver_set gc s =
     \<lparr>psv_approver_set_id = gc_ulid gc (approver_set_ulid (set_id s)), psv_name = set_name s, psv_owner_id = owner_str (set_owner_id s),
      psv_members = map (\<lambda>m. gc_ulid gc (approver_ulid m)) (set_members s), psv_threshold = ucast (set_threshold s), psv_total = ucast (set_total s),
      psv_quorum_timeout_secs = (case set_quorum_timeout_secs s of Some t \<Rightarrow> t | None \<Rightarrow> 0), psv_created_at_unix_ms = set_created_at_unix_ms s\<rparr>"

definition raise_signed_approval :: "grpc_crates \<Rightarrow> signed_approval \<Rightarrow> proto_approval_view" where
  "raise_signed_approval gc a =
     \<lparr>ppv_approval_id = gc_ulid gc (approval_ulid (ap_approval_id a)), ppv_request_id = gc_ulid gc (request_ulid (ap_request_id a)),
      ppv_approver = Some (raise_approver_identity gc (ap_approver a)), ppv_approver_key = identity_key (gc_ulid gc) (ap_approver a),
      ppv_decision = decision_number (ap_decision a), ppv_message_hash = ap_message_hash a,
      ppv_timestamp_unix_ms = ap_timestamp_unix_ms a, ppv_signature = ap_signature a\<rparr>"

subsection \<open>Errors (convert.rs)\<close>

fun map_service_error :: "grpc_crates \<Rightarrow> service_error \<Rightarrow> grpc_status" where
  "map_service_error gc (WalletNotFound wid) = Status GrpcNotFound (''wallet '' @ gc_ulid gc (wallet_ulid wid) @ '' not found'')"
| "map_service_error gc (PolicyDenied msg) = Status PermissionDenied msg"
| "map_service_error gc (ServiceQuorum (quorum_error.InvalidApproval inner)) =
     Status FailedPrecondition (''approval verification failed: '' @ hc_verify_text (gc_api gc) inner)"
| "map_service_error gc (ServiceQuorum (UnknownApprover msg)) = Status GrpcNotFound msg"
| "map_service_error gc (ServiceQuorum (Transport msg)) =
     (if str_contains msg ''duplicate approval'' then Status AlreadyExists msg else Status GrpcInternal msg)"
| "map_service_error gc (ServiceQuorum other) = Status Aborted (hc_quorum_text (gc_api gc) other)"
| "map_service_error gc (ServiceEnclave e) = Status GrpcInternal (''enclave: '' @ sv_enclave_text (gc_service gc) e)"
| "map_service_error gc (ServiceAudit e) = Status GrpcInternal (''audit: '' @ hc_audit_text (gc_api gc) e)"
| "map_service_error gc (ServiceStore e) = Status GrpcInternal (''store: '' @ hc_share_text (gc_api gc) e)"
| "map_service_error gc (ServicePolicy e) = Status GrpcInternal (''policy: '' @ hc_policy_text (gc_api gc) e)"
| "map_service_error gc (InsufficientShares e) = Status GrpcInternal (''shares: '' @ e)"
| "map_service_error gc (ServiceInternal msg) = Status GrpcInternal msg"

fun map_registry_error :: "grpc_crates \<Rightarrow> registry_error \<Rightarrow> grpc_status" where
  "map_registry_error gc (ApproverNotFound i) = Status GrpcNotFound (sv_registry_text (gc_service gc) (ApproverNotFound i))"
| "map_registry_error gc (ApproverSetNotFound i) = Status GrpcNotFound (sv_registry_text (gc_service gc) (ApproverSetNotFound i))"
| "map_registry_error gc (RegistryIo m) = Status GrpcInternal (sv_registry_text (gc_service gc) (RegistryIo m))"
| "map_registry_error gc e = Status FailedPrecondition (sv_registry_text (gc_service gc) e)"

subsection \<open>Keys (auth.rs)\<close>

definition interceptor_check :: "grpc_crates \<Rightarrow> string set \<Rightarrow> bytes option \<Rightarrow> (grpc_status, unit) outcome" where
  "interceptor_check gc keys metadata =
     (case metadata of
        None \<Rightarrow> Err (Status Unauthenticated ''missing x-api-key metadata'')
      | Some hv \<Rightarrow>
          (case hc_header_to_str (gc_api gc) hv of
             None \<Rightarrow> Err (Status Unauthenticated ''invalid x-api-key encoding'')
           | Some presented \<Rightarrow>
               if is_allowed keys presented then Ok () else Err (Status Unauthenticated ''invalid x-api-key'')))"

subsection \<open>The wallet service (wallet.rs)\<close>

definition grpc_create_wallet :: "grpc_crates \<Rightarrow> 'w app_state \<Rightarrow> proto_create_wallet \<Rightarrow> ('w service_state, grpc_status, proto_wallet_view) proc" where
  "grpc_create_wallet gc st req =
     pbind (lower_create_wallet gc (st_service st) req) (\<lambda>config.
     pbind (pmap_err (map_service_error gc) (create_wallet (gc_service gc) (st_service st) config ActorSystem)) (\<lambda>record.
     preturn (raise_wallet_view gc record)))"

definition grpc_get_wallet :: "grpc_crates \<Rightarrow> string \<Rightarrow> ('w service_state, grpc_status, proto_wallet_view) proc" where
  "grpc_get_wallet gc wid =
     pbind (plift (grpc_parse_ulid gc ''wallet_id'' WalletId wid)) (\<lambda>wid.
     pbind (pmap_err (map_service_error gc) (get_wallet wid)) (\<lambda>record.
     preturn (raise_wallet_view gc record)))"

definition grpc_sign :: "grpc_crates \<Rightarrow> 'w app_state \<Rightarrow> proto_sign_request \<Rightarrow> ('w service_state, grpc_status, proto_sign_response) proc" where
  "grpc_sign gc st req =
     pbind (plift (grpc_parse_ulid gc ''wallet_id'' WalletId (psr_wallet_id req))) (\<lambda>wid.
     pbind (plift (obind (require_field ''payload'' (psr_payload req)) (lower_payload gc))) (\<lambda>payload.
     pbind (plift (obind (require_field ''requester'' (psr_requester req)) (lower_requester gc))) (\<lambda>requester.
     pbind (plift (lower_hd_path gc (psr_hd_path req))) (\<lambda>hd_path.
     pbind (plift (hash_alg_from_i32 (psr_hash_alg req))) (\<lambda>alg.
     pbind (plift (lower_context gc (psr_context req))) (\<lambda>ctx.
     pbind (pmap_err (map_service_error gc) (service_sign (gc_service gc) (st_service st) wid payload requester hd_path ctx alg)) (\<lambda>resp.
     pbind (plift (case gc_attestation_text gc (resp_attestation resp) of
         Inl e \<Rightarrow> Err (Status GrpcInternal (''attestation encode: '' @ e))
       | Inr t \<Rightarrow> Ok t)) (\<lambda>attestation.
     preturn \<lparr>psp_signature = resp_signature resp, psp_public_key = resp_public_key resp, psp_attestation_json = attestation\<rparr>))))))))"

fun grpc_scan_events :: "audit_crates \<Rightarrow> wallet_id option \<Rightarrow> bytes list \<Rightarrow> (string, audit_event list) outcome" where
  "grpc_scan_events au wallet_filter [] = Ok []"
| "grpc_scan_events au wallet_filter (l # ls) =
     (if \<not> utf8_valid l then Err ''audit read: stream did not contain valid UTF-8''
      else if l = [] then grpc_scan_events au wallet_filter ls
      else case au_from_slice au l of
        Inl e \<Rightarrow> Err (''audit parse: '' @ e)
      | Inr event \<Rightarrow>
          obind (grpc_scan_events au wallet_filter ls) (\<lambda>events.
          Ok (if wallet_filter \<noteq> None \<and> ev_wallet_id event \<noteq> wallet_filter then events else event # events)))"

definition grpc_read_audit_events :: "audit_crates \<Rightarrow> log_read \<Rightarrow> wallet_id option \<Rightarrow> nat \<Rightarrow> (string, audit_event list) outcome" where
  "grpc_read_audit_events au rd wallet_filter limit =
     (case rd of
        LogNotFound \<Rightarrow> Ok []
      | LogReadError e \<Rightarrow> Err (''audit open: '' @ e)
      | LogContent content \<Rightarrow>
          obind (grpc_scan_events au wallet_filter (split_on 10 content)) (\<lambda>events.
          Ok (if length events > limit then drop (length events - limit) events else events)))"

definition grpc_get_audit_events :: "grpc_crates \<Rightarrow> audit_crates \<Rightarrow> 'w app_state \<Rightarrow> string \<Rightarrow> u32 \<Rightarrow>
   ('w service_state, grpc_status, proto_audit_event list) proc" where
  "grpc_get_audit_events gc au st wid limit_field =
     pbind (plift (if wid = [] then Ok None
       else obind (grpc_parse_ulid gc ''wallet_id'' WalletId wid) (\<lambda>w. Ok (Some w)))) (\<lambda>wallet_filter.
     let limit = min (unat (if limit_field = 0 then 100 else limit_field)) 1000 in
     (\<lambda>s. pbind (plift (map_err (\<lambda>e. Status GrpcInternal (''audit read: '' @ e))
         (grpc_read_audit_events au (ad_read_log (st_admin st) (ss_world s)) wallet_filter limit))) (\<lambda>events.
       preturn (map (raise_audit_event gc) events)) s))"

subsection \<open>The approver service (approver.rs)\<close>

definition grpc_register_approver :: "grpc_crates \<Rightarrow> 'w app_state \<Rightarrow> proto_register_approver \<Rightarrow> ('w service_state, grpc_status, proto_approver_view) proc" where
  "grpc_register_approver gc st req =
     pbind (plift (obind (require_field ''identity'' (pra_identity req)) (lower_approver_identity gc))) (\<lambda>identity.
     pbind (pmap_err (map_registry_error gc) (on_world (ad_add_approver (st_admin st)
       \<lparr>ac_identity = identity, ac_label = pra_label req, ac_owner_id = OwnerId (pra_owner_id req),
        ac_webhook_url = (if pra_webhook_url req = [] then None else Some (pra_webhook_url req))\<rparr>))) (\<lambda>record.
     preturn (raise_approver_record gc record)))"

definition grpc_revoke_approver :: "grpc_crates \<Rightarrow> 'w app_state \<Rightarrow> string \<Rightarrow> ('w service_state, grpc_status, unit) proc" where
  "grpc_revoke_approver gc st i =
     pbind (plift (grpc_parse_ulid gc ''approver_id'' ApproverId i)) (\<lambda>who.
     pmap_err (map_registry_error gc) (on_world (ad_revoke_approver (st_admin st) who)))"

definition grpc_get_approver :: "grpc_crates \<Rightarrow> 'w app_state \<Rightarrow> string \<Rightarrow> ('w service_state, grpc_status, proto_approver_view) proc" where
  "grpc_get_approver gc st i =
     pbind (plift (grpc_parse_ulid gc ''approver_id'' ApproverId i)) (\<lambda>who.
     pbind (pmap_err (map_registry_error gc) (on_world (be_get_approver (ws_backends (st_service st)) who))) (\<lambda>rec.
     preturn (raise_approver_record gc rec)))"

definition grpc_list_approvers :: "grpc_crates \<Rightarrow> 'w app_state \<Rightarrow> string \<Rightarrow> bool \<Rightarrow> ('w service_state, grpc_status, proto_approver_view list) proc" where
  "grpc_list_approvers gc st owner include_revoked =
     pbind (pmap_err (map_registry_error gc) (on_world (ad_list_approvers_by_owner (st_admin st) (OwnerId owner) include_revoked))) (\<lambda>recs.
     preturn (map (raise_approver_record gc) recs))"

definition grpc_create_approver_set :: "grpc_crates \<Rightarrow> 'w app_state \<Rightarrow> proto_create_set \<Rightarrow> ('w service_state, grpc_status, proto_approver_set_view) proc" where
  "grpc_create_approver_set gc st req =
     pbind (plift (lower_create_approver_set gc req)) (\<lambda>create.
     pbind (pmap_err (map_registry_error gc) (on_world (ad_create_approver_set (st_admin st) create))) (\<lambda>aset.
     preturn (raise_approver_set gc aset)))"

definition grpc_get_approver_set :: "grpc_crates \<Rightarrow> 'w app_state \<Rightarrow> string \<Rightarrow> ('w service_state, grpc_status, proto_approver_set_view) proc" where
  "grpc_get_approver_set gc st i =
     pbind (plift (grpc_parse_ulid gc ''approver_set_id'' ApproverSetId i)) (\<lambda>sid.
     pbind (pmap_err (map_registry_error gc) (on_world (be_get_approver_set (ws_backends (st_service st)) sid))) (\<lambda>aset.
     preturn (raise_approver_set gc aset)))"

definition grpc_list_approver_sets :: "grpc_crates \<Rightarrow> 'w app_state \<Rightarrow> string \<Rightarrow> ('w service_state, grpc_status, proto_approver_set_view list) proc" where
  "grpc_list_approver_sets gc st owner =
     pbind (pmap_err (map_registry_error gc) (on_world (ad_list_approver_sets (st_admin st) (OwnerId owner)))) (\<lambda>sets.
     preturn (map (raise_approver_set gc) sets))"

definition grpc_submit_approval :: "grpc_crates \<Rightarrow> 'w app_state \<Rightarrow> proto_submit_approval \<Rightarrow> ('w service_state, grpc_status, bool \<times> string) proc" where
  "grpc_submit_approval gc st req =
     pbind (plift (lower_submit_approval gc req)) (\<lambda>(approval, who, expected_hash).
     pbind (pmap_err (map_service_error gc) (service_record_approval (gc_service gc) (st_service st) approval who expected_hash)) (\<lambda>result.
     preturn (result = Inserted, psa_approval_id req)))"

definition grpc_list_approvals :: "grpc_crates \<Rightarrow> 'w app_state \<Rightarrow> string \<Rightarrow> ('w service_state, grpc_status, proto_approval_view list) proc" where
  "grpc_list_approvals gc st i =
     pbind (plift (grpc_parse_ulid gc ''request_id'' RequestId i)) (\<lambda>rid.
     pbind (pmap_err (\<lambda>e. Status GrpcInternal (''approval store: '' @ sv_store_text (gc_service gc) e))
       (on_world (ad_list_for_request (st_admin st) rid))) (\<lambda>approvals.
     preturn (map (raise_signed_approval gc) approvals)))"

subsection \<open>The server (mod.rs)\<close>

datatype grpc_request =
    CreateWalletRpc proto_create_wallet
  | GetWalletRpc string
  | SignRpc proto_sign_request
  | GetAuditEventsRpc string u32
  | RegisterApproverRpc proto_register_approver
  | RevokeApproverRpc string
  | GetApproverRpc string
  | ListApproversRpc string bool
  | CreateApproverSetRpc proto_create_set
  | GetApproverSetRpc string
  | ListApproverSetsRpc string
  | SubmitApprovalRpc proto_submit_approval
  | ListApprovalsRpc string

datatype grpc_response =
    WalletReply proto_wallet_view
  | SignReply proto_sign_response
  | AuditReply "proto_audit_event list"
  | ApproverReply proto_approver_view
  | ApproversReply "proto_approver_view list"
  | SetReply proto_approver_set_view
  | SetsReply "proto_approver_set_view list"
  | SubmitReply bool string
  | ApprovalsReply "proto_approval_view list"
  | RevokedReply

definition preply :: "('a \<Rightarrow> 'b) \<Rightarrow> ('w, 'e, 'a) proc \<Rightarrow> ('w, 'e, 'b) proc" where
  "preply f m = pbind m (\<lambda>x. preturn (f x))"

definition dispatch_grpc :: "grpc_crates \<Rightarrow> audit_crates \<Rightarrow> 'w app_state \<Rightarrow> grpc_request \<Rightarrow> ('w service_state, grpc_status, grpc_response) proc" where
  "dispatch_grpc gc au st req =
     (case req of
        CreateWalletRpc m \<Rightarrow> preply WalletReply (grpc_create_wallet gc st m)
      | GetWalletRpc i \<Rightarrow> preply WalletReply (grpc_get_wallet gc i)
      | SignRpc m \<Rightarrow> preply SignReply (grpc_sign gc st m)
      | GetAuditEventsRpc i n \<Rightarrow> preply AuditReply (grpc_get_audit_events gc au st i n)
      | RegisterApproverRpc m \<Rightarrow> preply ApproverReply (grpc_register_approver gc st m)
      | RevokeApproverRpc i \<Rightarrow> preply (\<lambda>_. RevokedReply) (grpc_revoke_approver gc st i)
      | GetApproverRpc i \<Rightarrow> preply ApproverReply (grpc_get_approver gc st i)
      | ListApproversRpc owner include_revoked \<Rightarrow> preply ApproversReply (grpc_list_approvers gc st owner include_revoked)
      | CreateApproverSetRpc m \<Rightarrow> preply SetReply (grpc_create_approver_set gc st m)
      | GetApproverSetRpc i \<Rightarrow> preply SetReply (grpc_get_approver_set gc st i)
      | ListApproverSetsRpc owner \<Rightarrow> preply SetsReply (grpc_list_approver_sets gc st owner)
      | SubmitApprovalRpc m \<Rightarrow> preply (\<lambda>(b, i). SubmitReply b i) (grpc_submit_approval gc st m)
      | ListApprovalsRpc i \<Rightarrow> preply ApprovalsReply (grpc_list_approvals gc st i))"

definition grpc_router :: "grpc_crates \<Rightarrow> audit_crates \<Rightarrow> 'w app_state \<Rightarrow> bytes option \<Rightarrow> grpc_request \<Rightarrow> ('w service_state, grpc_status, grpc_response) proc" where
  "grpc_router gc au st metadata req = pbind (plift (interceptor_check gc (st_api_keys st) metadata)) (\<lambda>_. dispatch_grpc gc au st req)"

definition serve_grpc :: "grpc_crates \<Rightarrow> ('x, 'sc, 'r, 'p) wiring \<Rightarrow> bytes option \<Rightarrow> nat \<Rightarrow> string \<Rightarrow> bytes option \<Rightarrow> grpc_request \<Rightarrow>
   ('p world service_state, grpc_status, grpc_response) proc" where
  "serve_grpc gc wi sg timeout raw_keys metadata req = grpc_router gc (wi_audit wi) (http_app wi sg timeout raw_keys) metadata req"

subsection \<open>The two interfaces agree\<close>

lemma preply_Ok: "preply f m s = Some (Ok y, s') \<longleftrightarrow> (\<exists>x. m s = Some (Ok x, s') \<and> y = f x)"
  by (auto simp: preply_def proc_simps)

lemma interceptor_check_Ok: "interceptor_check gc (load_api_keys raw) md = Ok () \<longleftrightarrow> authorised (gc_api gc) raw md"
  unfolding require_api_key_Ok [symmetric]
  by (auto simp: interceptor_check_def require_api_key_def split: option.splits if_splits)

lemma serve_grpc_Ok:
  "serve_grpc gc wi sg timeout raw md req s = Some (Ok reply, s') \<longleftrightarrow>
   authorised (gc_api gc) raw md \<and> dispatch_grpc gc (wi_audit wi) (http_app wi sg timeout raw) req s = Some (Ok reply, s')"
  by (auto simp: serve_grpc_def grpc_router_def proc_simps interceptor_check_Ok)

lemma serve_http_Ok:
  assumes "\<not> is_public req" "hr_status resp \<noteq> 401"
  shows "serve_http cr wi sg timeout raw md req s = Some (Ok resp, s') \<longleftrightarrow>
    authorised cr raw md \<and> dispatch_http cr (wi_audit wi) (http_app wi sg timeout raw) req s = Some (Ok resp, s')"
proof (cases "authorised cr raw md")
  case True
  then show ?thesis using require_api_key_Ok [of cr raw md] assms(1) by (simp add: serve_http_def router_def)
next
  case False
  from require_api_key_Err [OF this] show ?thesis using False assms by (auto simp: serve_http_def router_def preturn_def into_response_def)
qed

lemma respond_iff:
  assumes "\<And>y b. body y \<noteq> ErrorBody b" "inj body"
  shows "respond status body m s = Some (Ok \<lparr>hr_status = status, hr_body = body x\<rparr>, s') \<longleftrightarrow> m s = Some (Ok x, s')"
proof
  assume "respond status body m s = Some (Ok \<lparr>hr_status = status, hr_body = body x\<rparr>, s')"
  then show "m s = Some (Ok x, s')" by (rule respond_Ok) (use assms in auto)
qed (simp add: respond_def)

lemma respond_success:
  assumes "respond status body m s = Some (Ok \<lparr>hr_status = 200, hr_body = b\<rparr>, s')"
  shows "\<exists>x. m s = Some (Ok x, s')"
proof -
  have "into_response e \<noteq> \<lparr>hr_status = 200, hr_body = b\<rparr>" for e by (cases e) (simp_all add: into_response_def)
  then show ?thesis using assms by (auto simp: respond_def split: option.splits outcome.splits)
qed

lemma grpc_scan_events_eq:
  "grpc_scan_events au flt ls = map_err (\<lambda>e. snd (snd (error_parts e))) (scan_events au flt ls)"
proof (induction ls)
  case (Cons l ls)
  then show ?case by (cases "scan_events au flt ls") (auto split: sum.split)
qed simp

lemma obind_map_err: "obind (map_err g r) (\<lambda>x. Ok (f x)) = map_err g (obind r (\<lambda>x. Ok (f x)))"
  by (cases r) simp_all

lemma grpc_read_audit_events_eq:
  "grpc_read_audit_events au rd flt n = map_err (\<lambda>e. snd (snd (error_parts e))) (read_audit_events au rd flt n)"
  by (cases rd) (auto simp: grpc_read_audit_events_def read_audit_events_def grpc_scan_events_eq obind_map_err)

lemma hex_encode_eq: "hex_encode a = hex_encode b \<longleftrightarrow> a = b"
  using hex_decode_spec_ref unfolding hex_decode_spec_def by (metis option.inject)

text \<open>
  The HTTP body that asks for what a gRPC message asks for, field by field: bytes in hexadecimal, JSON text as the value it
  denotes, enumerations by the numbers of \<open>common.proto\<close>, an empty path as no path. A message that lacks a required field,
  has a number out of its enumeration or text that is not JSON has no such body.
\<close>

definition payload_body :: "grpc_crates \<Rightarrow> proto_payload \<Rightarrow> signing_payload_dto option" where
  "payload_body gc p =
     (case p of
        ProtoRaw b \<Rightarrow> Some (RawDto (hex_encode b))
      | ProtoPersonalSign b \<Rightarrow> Some (PersonalSignDto (hex_encode b))
      | ProtoTypedData s \<Rightarrow> (case gc_json_parse gc s of Inl e \<Rightarrow> None | Inr j \<Rightarrow> Some (TypedDataDto j))
      | ProtoVmTransaction vm chain t raw \<Rightarrow>
          map_option (\<lambda>v. VmTransactionDto v chain (map_option hex_encode t) (hex_encode raw)) (map_of [(1, EvmDto), (2, QvmDto), (3, WasmDto)] vm))"

definition requester_body :: "proto_requester \<Rightarrow> requester_dto" where
  "requester_body r =
     (case r of
        ProtoApiKey key \<Rightarrow> ApiKeyDto key
      | ProtoOAuthSubject sub \<Rightarrow> OauthSubjectDto sub
      | ProtoNestedWalletRequester w \<Rightarrow> NestedWalletRequesterDto w
      | ProtoOnChainContract chain a \<Rightarrow> OnChainContractDto chain (hex_encode a))"

definition context_body :: "grpc_crates \<Rightarrow> proto_context option \<Rightarrow> signing_context_dto option option" where
  "context_body gc c =
     (case c of
        None \<Rightarrow> Some None
      | Some c \<Rightarrow> map_option (\<lambda>j. Some \<lparr>scd_chain_id = pctx_chain_id c, scd_vm_type = pctx_vm_type c, scd_extra = j\<rparr>)
          (if pctx_extra_json c = [] then Some JNull else case gc_json_parse gc (pctx_extra_json c) of Inl e \<Rightarrow> None | Inr j \<Rightarrow> Some j))"

definition hash_body :: "int \<Rightarrow> hash_alg_dto option" where
  "hash_body = map_of [(1, HashNoneDto), (2, Sha256Dto), (3, Keccak256Dto), (4, Blake3Dto)]"

definition message_body :: "grpc_crates \<Rightarrow> proto_sign_request \<Rightarrow> sign_request_dto option" where
  "message_body gc m =
     Option.bind (psr_payload m) (\<lambda>p. Option.bind p (\<lambda>p. Option.bind (payload_body gc p) (\<lambda>payload.
     Option.bind (psr_requester m) (\<lambda>r. Option.bind r (\<lambda>r.
     Option.bind (hash_body (psr_hash_alg m)) (\<lambda>alg.
     Option.bind (context_body gc (psr_context m)) (\<lambda>ctx.
     Some \<lparr>srd_payload = payload, srd_requester = requester_body r, srd_hd_path = (if psr_hd_path m = [] then None else Some (psr_hd_path m)),
       srd_hash_alg = alg, srd_context = ctx\<rparr>)))))))"

lemma grpc_parse_ulid_Ok: "grpc_parse_ulid gc f con i = Ok w \<longleftrightarrow> parse_field (gc_api gc) g con i = Ok w"
  by (auto simp: grpc_parse_ulid_def parse_field_def split: sum.splits)

lemma lowered_payload:
  assumes "api_laws (gc_api gc)"
  shows "obind (require_field f p) (lower_payload gc) = Ok x \<longleftrightarrow>
    (\<exists>q b. p = Some (Some q) \<and> payload_body gc q = Some b \<and> payload_into_domain (gc_api gc) b = Ok x)"
proof -
  have vm: "vm_type_from_i32 n = Ok v \<longleftrightarrow> (\<exists>d. map_of [(1, EvmDto), (2, QvmDto), (3, WasmDto)] n = Some d \<and> v = vm_type_from_dto d)" for n v
    by (cases v) (auto simp: vm_type_from_i32_def from_i32_def outcome_simps split: if_splits)
  have "obind (case map_option hex_encode t of None \<Rightarrow> Ok None | Some s \<Rightarrow> obind (hex_field (gc_api gc) f s) (\<lambda>b. Ok (Some b))) g = g t" for t f and g :: "bytes option \<Rightarrow> (api_error, signing_payload) outcome"
    by (cases t) (simp_all add: hex_field_text [OF assms])
  then have "lower_payload gc (Some q) = Ok x \<longleftrightarrow> (\<exists>b. payload_body gc q = Some b \<and> payload_into_domain (gc_api gc) b = Ok x)" for q
    by (cases q) (auto simp: lower_payload_def require_field_def payload_body_def hex_field_text [OF assms] outcome_simps vm split: sum.splits)
  then show ?thesis by (cases p; cases "the p") (auto simp: require_field_def lower_payload_def outcome_simps)
qed

lemma lowered_requester:
  assumes "api_laws (gc_api gc)"
  shows "obind (require_field f p) (lower_requester gc) = Ok x \<longleftrightarrow> (\<exists>q. p = Some (Some q) \<and> requester_into_domain (gc_api gc) (requester_body q) = Ok x)"
proof -
  have "lower_requester gc (Some q) = Ok x \<longleftrightarrow> requester_into_domain (gc_api gc) (requester_body q) = Ok x" for q
    using grpc_parse_ulid_Ok [of gc "''nested_wallet.wallet_id''" WalletId _ _ "''wallet_id''"]
    by (cases q) (auto simp: lower_requester_def require_field_def requester_body_def hex_field_text [OF assms] outcome_simps)
  then show ?thesis by (cases p; cases "the p") (auto simp: require_field_def lower_requester_def outcome_simps)
qed

lemma lowered_rest:
  "hash_alg_from_i32 n = Ok alg \<longleftrightarrow> (\<exists>d. hash_body n = Some d \<and> alg = hash_alg_from_dto d)"
  "lower_context gc c = Ok ctx \<longleftrightarrow> (\<exists>d. context_body gc c = Some d \<and> ctx = context_from_dto (case d of Some c \<Rightarrow> c | None \<Rightarrow> context_default))"
  subgoal by (cases alg) (auto simp: hash_alg_from_i32_def from_i32_def hash_body_def outcome_simps split: if_splits)
  subgoal by (cases c) (auto simp: lower_context_def context_body_def context_from_dto_def context_default_def outcome_simps split: sum.splits if_splits)
  done

lemma lowered_path:
  "srd_hd_path body = (if p = [] then None else Some p) \<Longrightarrow> lower_hd_path gc p = Ok path \<longleftrightarrow> hd_path_parsed (gc_api gc) body = Ok path"
  by (auto simp: lower_hd_path_def hd_path_parsed_def outcome_simps)

lemma message_body_Some:
  "message_body gc m = Some body \<longleftrightarrow> (\<exists>q payload r alg ctx. psr_payload m = Some (Some q) \<and> payload_body gc q = Some payload \<and>
     psr_requester m = Some (Some r) \<and> hash_body (psr_hash_alg m) = Some alg \<and> context_body gc (psr_context m) = Some ctx \<and>
     body = \<lparr>srd_payload = payload, srd_requester = requester_body r, srd_hd_path = (if psr_hd_path m = [] then None else Some (psr_hd_path m)),
       srd_hash_alg = alg, srd_context = ctx\<rparr>)"
  unfolding message_body_def bind_eq_Some_conv by blast

lemma lowered_message:
  assumes "api_laws (gc_api gc)"
  shows "obind (require_field f (psr_payload m)) (lower_payload gc) = Ok payload \<and> obind (require_field g (psr_requester m)) (lower_requester gc) = Ok rq \<and>
     lower_hd_path gc (psr_hd_path m) = Ok path \<and> hash_alg_from_i32 (psr_hash_alg m) = Ok alg \<and> lower_context gc (psr_context m) = Ok ctx \<longleftrightarrow>
    (\<exists>body. message_body gc m = Some body \<and> payload_into_domain (gc_api gc) (srd_payload body) = Ok payload \<and>
       requester_into_domain (gc_api gc) (srd_requester body) = Ok rq \<and> hd_path_parsed (gc_api gc) body = Ok path \<and>
       alg = hash_alg_from_dto (srd_hash_alg body) \<and> ctx = context_from_dto (case srd_context body of Some c \<Rightarrow> c | None \<Rightarrow> context_default))"
    (is "?L \<longleftrightarrow> (\<exists>body. ?R body)")
proof
  assume ?L
  then obtain q pl r alg' c where "psr_payload m = Some (Some q)" "payload_body gc q = Some pl" "payload_into_domain (gc_api gc) pl = Ok payload"
    "psr_requester m = Some (Some r)" "requester_into_domain (gc_api gc) (requester_body r) = Ok rq" "lower_hd_path gc (psr_hd_path m) = Ok path"
    "hash_body (psr_hash_alg m) = Some alg'" "alg = hash_alg_from_dto alg'" "context_body gc (psr_context m) = Some c"
    "ctx = context_from_dto (case c of Some c \<Rightarrow> c | None \<Rightarrow> context_default)"
    unfolding lowered_payload [OF assms] lowered_requester [OF assms] lowered_rest(1,2) by blast
  then have "?R \<lparr>srd_payload = pl, srd_requester = requester_body r, srd_hd_path = (if psr_hd_path m = [] then None else Some (psr_hd_path m)),
      srd_hash_alg = alg', srd_context = c\<rparr>"
    unfolding message_body_Some by (auto simp: lower_hd_path_def hd_path_parsed_def outcome_simps split: if_splits)
  then show "\<exists>body. ?R body" by blast
next
  assume "\<exists>body. ?R body"
  then show ?L
    unfolding message_body_Some lowered_payload [OF assms] lowered_requester [OF assms] lowered_rest(1,2) 
    by (elim exE conjE) (auto simp: lower_hd_path_def hd_path_parsed_def outcome_simps split: if_splits)
qed

lemma sign_interfaces_agree:
  assumes "api_laws (gc_api gc)" "\<forall>d. \<exists>t. gc_attestation_text gc d = Inr t" "\<forall>d. \<exists>j. hc_attestation_json (gc_api gc) d = Inr j"
  shows "(\<exists>t. grpc_sign gc st m s = Some (Ok \<lparr>psp_signature = sig, psp_public_key = pk, psp_attestation_json = t\<rparr>, s')) \<longleftrightarrow>
    (\<exists>body j. message_body gc m = Some body \<and> api_sign (gc_api gc) st (psr_wallet_id m) body s =
       Some (Ok \<lparr>sre_signature_hex = hex_encode sig, sre_public_key_hex = hex_encode pk, sre_attestation = j\<rparr>, s'))"
proof -
  let ?run = "\<lambda>payload rq path alg ctx. \<exists>wid resp. parse_field (gc_api gc) ''wallet_id'' WalletId (psr_wallet_id m) = Ok wid \<and>
    service_sign (gc_service gc) (st_service st) wid payload rq path ctx alg s = Some (Ok resp, s') \<and> resp_signature resp = sig \<and> resp_public_key resp = pk"
  obtain f h where att: "gc_attestation_text gc d = Inr (f d)" "hc_attestation_json (gc_api gc) d = Inr (h d)" for d using assms(2,3) by metis
  note wid = grpc_parse_ulid_Ok [of gc "''wallet_id''" WalletId "psr_wallet_id m" _ "''wallet_id''"]
  have grpc: "(\<exists>t. grpc_sign gc st m s = Some (Ok \<lparr>psp_signature = sig, psp_public_key = pk, psp_attestation_json = t\<rparr>, s')) \<longleftrightarrow>
      (\<exists>payload rq path alg ctx. (obind (require_field ''payload'' (psr_payload m)) (lower_payload gc) = Ok payload \<and>
        obind (require_field ''requester'' (psr_requester m)) (lower_requester gc) = Ok rq \<and> lower_hd_path gc (psr_hd_path m) = Ok path \<and>
        hash_alg_from_i32 (psr_hash_alg m) = Ok alg \<and> lower_context gc (psr_context m) = Ok ctx) \<and> ?run payload rq path alg ctx)"
    by (simp add: grpc_sign_def proc_simps att wid) (rule iffI, (elim exE conjE, intro exI conjI, (assumption | rule refl | erule sym)+)+)
  have http: "(\<exists>j. api_sign (gc_api gc) st (psr_wallet_id m) body s =
       Some (Ok \<lparr>sre_signature_hex = hex_encode sig, sre_public_key_hex = hex_encode pk, sre_attestation = j\<rparr>, s')) \<longleftrightarrow>
      (\<exists>payload rq path. payload_into_domain (gc_api gc) (srd_payload body) = Ok payload \<and> requester_into_domain (gc_api gc) (srd_requester body) = Ok rq \<and>
        hd_path_parsed (gc_api gc) body = Ok path \<and>
        ?run payload rq path (hash_alg_from_dto (srd_hash_alg body)) (context_from_dto (case srd_context body of Some c \<Rightarrow> c | None \<Rightarrow> context_default)))" for body
    by (simp add: api_sign_def Let_def proc_simps att hex_encode_eq) (rule iffI, (elim exE conjE, intro exI conjI, (assumption | rule refl | erule sym)+)+)
  show ?thesis unfolding grpc lowered_message [OF assms(1)] ex_simps http
    by (rule iffI, (elim exE conjE, hypsubst?, intro exI conjI, (assumption | rule refl)+)+)
qed

subsection \<open>What every request keeps\<close>

lemma keeps_preply: "keeps P m \<Longrightarrow> keeps P (preply f m)"
  unfolding preply_def by (intro keeps_bind) simp_all

lemma lower_create_wallet_keeps: "keeps (service_inv wi) (lower_create_wallet gc (server_service wi sg timeout) req)"
  unfolding lower_create_wallet_def by (cases "pcw_policy_id req") (auto intro!: keeps_bind keeps_parts)

lemma get_audit_events_keeps: "keeps P (grpc_get_audit_events gc au st i n)"
proof -
  have "keeps P (\<lambda>s. pbind (plift (f s)) (\<lambda>events. preturn (g events)) s)" for f :: "'b service_state \<Rightarrow> (grpc_status, 'c) outcome" and g :: "'c \<Rightarrow> 'd" and P
    by (auto simp: keeps_def pbind_def plift_def preturn_def split: outcome.splits)
  then show ?thesis unfolding grpc_get_audit_events_def Let_def by (intro keeps_bind) auto
qed

lemmas rpc_defs = grpc_create_wallet_def grpc_get_wallet_def grpc_sign_def grpc_register_approver_def grpc_revoke_approver_def
  grpc_get_approver_def grpc_list_approvers_def grpc_create_approver_set_def grpc_get_approver_set_def grpc_list_approver_sets_def
  grpc_submit_approval_def grpc_list_approvals_def

lemma serve_grpc_keeps:
  assumes "sss_spec (en_sss (wi_enclave wi))"
  shows "keeps (service_inv wi) (serve_grpc gc wi sg timeout raw md req)"
proof -
  have "keeps (service_inv wi) (dispatch_grpc gc au (http_app wi sg timeout raw) req)" for au
    unfolding dispatch_grpc_def
    by (cases req) (auto simp: rpc_defs split: prod.split
      intro!: keeps_preply keeps_bind keeps_map_err lower_create_wallet_keeps get_audit_events_keeps create_keeps [OF assms] sign_keeps approve_keeps keeps_parts
        off_shares_keeps admin_off_shares wired_off_shares)
  then show ?thesis unfolding serve_grpc_def grpc_router_def by (intro keeps_bind) simp_all
qed

text \<open>The states of a server that starts empty and answers any requests, over HTTP and gRPC in any order.\<close>

inductive served :: "grpc_crates \<Rightarrow> ('x, 'sc, 'r, 'p) wiring \<Rightarrow> nat \<Rightarrow> string \<Rightarrow> 'p world service_state \<Rightarrow> bool"
  for gc wi timeout raw where
  start: "ss_wallets s = Map.empty \<Longrightarrow> wo_shares (ss_world s) = mock_new \<Longrightarrow> served gc wi timeout raw s"
| http: "served gc wi timeout raw s \<Longrightarrow> serve_http (gc_api gc) wi None timeout raw header req s = Some (res, s') \<Longrightarrow> served gc wi timeout raw s'"
| grpc: "served gc wi timeout raw s \<Longrightarrow> serve_grpc gc wi None timeout raw metadata rpc s = Some (res', s') \<Longrightarrow> served gc wi timeout raw s'"

lemma served_inv:
  assumes "served gc wi timeout raw s" "sss_spec (en_sss (wi_enclave wi))"
  shows "service_inv wi s"
  using assms(1)
proof (induction rule: served.induct)
  case (start s)
  then show ?case by (simp add: service_inv_def stores_inv_def mock_new_def)
next
  case http
  then show ?case using keepsD [OF serve_http_keeps [OF assms(2)]] by blast
next
  case grpc
  then show ?case using keepsD [OF serve_grpc_keeps [OF assms(2)]] by blast
qed

subsection \<open>A concrete interface\<close>

definition demo_grpc_crates :: grpc_crates where
  "demo_grpc_crates = \<lparr>gc_api = demo_api_crates, gc_json_parse = (\<lambda>_. Inr JNull), gc_json_text = (\<lambda>_. Some ''null''), gc_actor_text = (\<lambda>_. Some ''null''),
     gc_attestation_text = (\<lambda>_. Inr ''null'')\<rparr>"

definition demo_sign_message :: "string \<Rightarrow> proto_sign_request" where
  "demo_sign_message i = \<lparr>psr_wallet_id = i, psr_payload = Some (Some (ProtoRaw [1, 2, 3])), psr_requester = Some (Some (ProtoApiKey ''k'')),
     psr_hd_path = [], psr_hash_alg = 1, psr_context = None\<rparr>"

lemma demo_grpc_fields: "gc_api demo_grpc_crates = demo_api_crates" "\<forall>d. \<exists>t. gc_attestation_text demo_grpc_crates d = Inr t"
  by (simp_all add: demo_grpc_crates_def)

lemma demo_message_body: "message_body demo_grpc_crates (demo_sign_message i) = Some demo_sign_body"
  by (simp add: message_body_def payload_body_def requester_body_def context_body_def hash_body_def demo_sign_message_def demo_sign_body_def)

lemma message_body_path: "message_body gc m = Some body \<Longrightarrow> psr_hd_path m = [] \<Longrightarrow> srd_hd_path body = None"
  by (auto simp: message_body_def bind_eq_Some_conv)

subsection \<open>Properties\<close>

text \<open>C10. Signing works over both interfaces. After any sequence of HTTP and gRPC requests to a server that started empty, whatever their
  outcome, each wallet it lists and has not revoked signs: with a valid key, a message without a derivation path and the HTTP body that says the same,
  HTTP answers 200 and gRPC answers with a reply, with the same signature, which verifies under the wallet's public key for the message of the payload.
  The policy, asked about this very request in this state, allows it, and the request names a hash the wallet's scheme supports. The server runs
  as the binary starts it, without a policy signer and with an enclave that has no pinned policy key; identifiers have been unique so far,
  and the log accepts writes.\<close>

theorem served_wallet_signs:
  assumes "served gc wi timeout raw s" "fresh_ids wi (ss_world s)" "ss_wallets s wid = Some rec" "wr_status rec \<noteq> WalletStatusRevoked"
    and "api_laws (gc_api gc)" "hc_header_to_str (gc_api gc) hv = Some key" "key \<in> load_api_keys raw"
    and "\<forall>d. \<exists>j. hc_attestation_json (gc_api gc) d = Inr j" "\<forall>d. \<exists>t. gc_attestation_text gc d = Inr t"
    and "message_body gc m = Some body" "psr_hd_path m = []" "psr_wallet_id m = gc_ulid gc (wallet_ulid wid)"
    and "payload_into_domain (gc_api gc) (srd_payload body) = Ok payload" "requester_into_domain (gc_api gc) (srd_requester body) = Ok rq"
    and "enclave_laws (wi_enclave wi)" "attestation_key_ok (en_att (wi_enclave wi)) (mock_attestation_key (wi_mock wi))"
    and "mock_policy_service_pubkey (wi_mock wi) = None" "log_works wi (ss_world s)"
    and "supports_hash (cfg_scheme (wr_config rec)) (hash_alg_from_dto (srd_hash_alg body))"
    and "policy_answer wi s wid payload rq None = Ok (Allow d pid hits)"
  shows "\<exists>sig pk j t s'.
    serve_http (gc_api gc) wi None timeout raw (Some hv) (PostSign (gc_ulid gc (wallet_ulid wid)) body) s =
      Some (Ok \<lparr>hr_status = 200, hr_body = SignBody \<lparr>sre_signature_hex = hex_encode sig, sre_public_key_hex = hex_encode pk, sre_attestation = j\<rparr>\<rparr>, s') \<and>
    serve_grpc gc wi None timeout raw (Some hv) (SignRpc m) s =
      Some (Ok (SignReply \<lparr>psp_signature = sig, psp_public_key = pk, psp_attestation_json = t\<rparr>), s') \<and>
    sg_verify (signer_of (en_sign (wi_enclave wi)) (cfg_scheme (wr_config rec))) (wr_master_public_key rec)
      (canonical_message_bytes (gc_service gc) payload) sig (hash_alg_from_dto (srd_hash_alg body)) = Ok ()"
proof -
  have "sss_spec (en_sss (wi_enclave wi))" using assms(15) by (simp add: enclave_laws_def)
  then have inv: "stores_inv wi s" using served_inv [OF assms(1)] assms(2) by (simp add: service_inv_def)
  from http_sign_answers [OF inv assms(3,4,5,6,7,8,13,14) message_body_path [OF assms(10,11)] assms(15-20)] obtain sig pk j s' where
    http: "serve_http (gc_api gc) wi None timeout raw (Some hv) (PostSign (gc_ulid gc (wallet_ulid wid)) body) s =
      Some (Ok \<lparr>hr_status = 200, hr_body = SignBody \<lparr>sre_signature_hex = hex_encode sig, sre_public_key_hex = hex_encode pk, sre_attestation = j\<rparr>\<rparr>, s')"
    and ver: "sg_verify (signer_of (en_sign (wi_enclave wi)) (cfg_scheme (wr_config rec))) (wr_master_public_key rec)
      (canonical_message_bytes (gc_service gc) payload) sig (hash_alg_from_dto (srd_hash_alg body)) = Ok ()" by blast
  from http have "respond 200 SignBody (api_sign (gc_api gc) (http_app wi None timeout raw) (psr_wallet_id m) body) s =
      Some (Ok \<lparr>hr_status = 200, hr_body = SignBody \<lparr>sre_signature_hex = hex_encode sig, sre_public_key_hex = hex_encode pk, sre_attestation = j\<rparr>\<rparr>, s')"
    by (simp add: authorised_dispatch [OF assms(6,7)] dispatch_http_def assms(12))
  then have "api_sign (gc_api gc) (http_app wi None timeout raw) (psr_wallet_id m) body s =
      Some (Ok \<lparr>sre_signature_hex = hex_encode sig, sre_public_key_hex = hex_encode pk, sre_attestation = j\<rparr>, s')"
    by (rule respond_Ok) (auto intro: injI)
  with sign_interfaces_agree [OF assms(5,9,8)] assms(10) obtain t where
    "grpc_sign gc (http_app wi None timeout raw) m s = Some (Ok \<lparr>psp_signature = sig, psp_public_key = pk, psp_attestation_json = t\<rparr>, s')" by blast
  moreover have "authorised (gc_api gc) raw (Some hv)" using assms(6,7) by (auto simp: authorised_def load_api_keys_def)
  ultimately have "serve_grpc gc wi None timeout raw (Some hv) (SignRpc m) s =
      Some (Ok (SignReply \<lparr>psp_signature = sig, psp_public_key = pk, psp_attestation_json = t\<rparr>), s')"
    by (simp add: serve_grpc_Ok dispatch_grpc_def preply_Ok)
  with http ver show ?thesis by blast
qed

theorem served_wallet_signs_witness:
  "\<exists>rec s sig pk j t s'. demo_http (PostWallets demo_create_body) demo_state =
       Some (Ok \<lparr>hr_status = 201, hr_body = WalletBody (wallet_view_from demo_api_crates rec)\<rparr>, s) \<and>
     demo_http (PostSign (crockford (wallet_ulid (wr_wallet_id rec))) demo_sign_body) s =
       Some (Ok \<lparr>hr_status = 200, hr_body = SignBody \<lparr>sre_signature_hex = hex_encode sig, sre_public_key_hex = hex_encode pk, sre_attestation = j\<rparr>\<rparr>, s') \<and>
     serve_grpc demo_grpc_crates demo_wiring None 120000 demo_keys (Some (as_bytes ''beta''))
         (SignRpc (demo_sign_message (crockford (wallet_ulid (wr_wallet_id rec))))) s =
       Some (Ok (SignReply \<lparr>psp_signature = sig, psp_public_key = pk, psp_attestation_json = t\<rparr>), s')"
proof -
  obtain rec s where d: "demo_http (PostWallets demo_create_body) demo_state =
      Some (Ok \<lparr>hr_status = 201, hr_body = WalletBody (wallet_view_from demo_api_crates rec)\<rparr>, s)"
    "ss_wallets s (wr_wallet_id rec) = Some rec" "wr_config rec = demo_config" "wr_status rec = WalletActive"
    "fresh_ids demo_wiring (ss_world s)" by (rule demo_posted)
  have "served demo_grpc_crates demo_wiring 120000 demo_keys demo_state" by (rule served.start) (simp_all add: demo_state_def)
  then have sv: "served demo_grpc_crates demo_wiring 120000 demo_keys s" by (rule served.http) (use d(1) in \<open>simp add: demo_grpc_fields\<close>)
  let ?m = "demo_sign_message (crockford (wallet_ulid (wr_wallet_id rec)))"
  obtain dec pid hits where ok: "policy_answer demo_wiring s (wr_wallet_id rec) (Raw [1, 2, 3]) (ApiKey ''k'') None = Ok (Allow dec pid hits)" by (rule demo_allows)
  from served_wallet_signs [where hv = "as_bytes ''beta''" and key = "''beta''" and payload = "Raw [1, 2, 3]" and rq = "ApiKey ''k''",
      OF sv d(5,2) _ _ _ _ _ _ demo_message_body [of "crockford (wallet_ulid (wr_wallet_id rec))"] _ _ _ _ _ _ _ _ _ ok]
  have "\<exists>sig pk j t s'. demo_http (PostSign (crockford (wallet_ulid (wr_wallet_id rec))) demo_sign_body) s =
       Some (Ok \<lparr>hr_status = 200, hr_body = SignBody \<lparr>sre_signature_hex = hex_encode sig, sre_public_key_hex = hex_encode pk, sre_attestation = j\<rparr>\<rparr>, s') \<and>
     serve_grpc demo_grpc_crates demo_wiring None 120000 demo_keys (Some (as_bytes ''beta'')) (SignRpc ?m) s =
       Some (Ok (SignReply \<lparr>psp_signature = sig, psp_public_key = pk, psp_attestation_json = t\<rparr>), s')"
    using demo_key demo_api_laws demo_attestation_json demo_grpc_fields(2) demo_attestation_ok demo_log_works demo_body
    by (simp add: demo_grpc_fields(1) d demo_wiring_fields ref_enclave_laws mock_new_with_seed_def demo_config_def supports_hash_def is_secp_def demo_sign_body_def
        demo_sign_message_def) blast
  with d(1) show ?thesis by blast
qed

text \<open>C13. The two interfaces give the same answers. A signing message over gRPC is answered with a signature exactly when it says what some HTTP
  body says, field by field, and that body, posted with the same key, is answered with status 200 and this signature in hexadecimal;
  both leave the server in the same state. This holds whatever key is presented and whatever the policy and the enclave answer.\<close>

theorem grpc_sign_matches_http:
  assumes "api_laws (gc_api gc)" "\<forall>d. \<exists>t. gc_attestation_text gc d = Inr t" "\<forall>d. \<exists>j. hc_attestation_json (gc_api gc) d = Inr j"
  shows "(\<exists>t. serve_grpc gc wi sg timeout raw md (SignRpc m) s =
      Some (Ok (SignReply \<lparr>psp_signature = sig, psp_public_key = pk, psp_attestation_json = t\<rparr>), s')) \<longleftrightarrow>
    (\<exists>body j. message_body gc m = Some body \<and> serve_http (gc_api gc) wi sg timeout raw md (PostSign (psr_wallet_id m) body) s =
      Some (Ok \<lparr>hr_status = 200, hr_body = SignBody \<lparr>sre_signature_hex = hex_encode sig, sre_public_key_hex = hex_encode pk, sre_attestation = j\<rparr>\<rparr>, s'))"
proof -
  let ?st = "http_app wi sg timeout raw"
  have http: "serve_http (gc_api gc) wi sg timeout raw md (PostSign (psr_wallet_id m) body) s = Some (Ok \<lparr>hr_status = 200, hr_body = SignBody r\<rparr>, s') \<longleftrightarrow>
      authorised (gc_api gc) raw md \<and> api_sign (gc_api gc) ?st (psr_wallet_id m) body s = Some (Ok r, s')" for body r
    by (simp add: serve_http_Ok is_public_def dispatch_http_def respond_iff inj_def)
  show ?thesis
    using sign_interfaces_agree [OF assms, of ?st m s sig pk s'] by (auto simp: http serve_grpc_Ok dispatch_grpc_def preply_Ok)
qed

theorem grpc_sign_matches_http_witness:
  "\<exists>m (s :: unit world service_state) sig pk t s'. serve_grpc demo_grpc_crates demo_wiring None 120000 demo_keys (Some (as_bytes ''beta'')) (SignRpc m) s =
     Some (Ok (SignReply \<lparr>psp_signature = sig, psp_public_key = pk, psp_attestation_json = t\<rparr>), s')"
proof -
  obtain rec s where d: "ss_wallets s (wr_wallet_id rec) = Some rec" "wr_config rec = demo_config" "wr_status rec = WalletActive" "stores_inv demo_wiring s"
    by (rule demo_posted)
  have "\<exists>sig pk j s'. demo_http (PostSign (hc_ulid demo_api_crates (wallet_ulid (wr_wallet_id rec))) demo_sign_body) s =
       Some (Ok \<lparr>hr_status = 200, hr_body = SignBody \<lparr>sre_signature_hex = hex_encode sig, sre_public_key_hex = hex_encode pk, sre_attestation = j\<rparr>\<rparr>, s') \<and>
     sg_verify (signer_of (en_sign (wi_enclave demo_wiring)) (cfg_scheme (wr_config rec))) (wr_master_public_key rec)
      (canonical_message_bytes (hc_service demo_api_crates) (Raw [1, 2, 3])) sig (hash_alg_from_dto (srd_hash_alg demo_sign_body)) = Ok ()"
    by (rule demo_allows, rule http_sign_answers [OF d(4,1) _ demo_api_laws demo_key demo_attestation_json demo_body _ demo_attestation_ok _ demo_log_works])
      (simp_all add: d demo_wiring_fields ref_enclave_laws mock_new_with_seed_def demo_config_def supports_hash_def is_secp_def demo_sign_body_def)
  then obtain sig pk j s' where "demo_http (PostSign (psr_wallet_id (demo_sign_message (crockford (wallet_ulid (wr_wallet_id rec))))) demo_sign_body) s =
       Some (Ok \<lparr>hr_status = 200, hr_body = SignBody \<lparr>sre_signature_hex = hex_encode sig, sre_public_key_hex = hex_encode pk, sre_attestation = j\<rparr>\<rparr>, s')"
    by (auto simp: demo_sign_message_def)
  with grpc_sign_matches_http [of demo_grpc_crates, unfolded demo_grpc_fields(1), OF demo_api_laws demo_grpc_fields(2) demo_attestation_json,
      where wi = demo_wiring and sg = None and timeout = 120000 and raw = demo_keys and md = "Some (as_bytes ''beta'')" and s = s] demo_message_body
  show ?thesis by blast
qed

text \<open>C37. The two audit queries give the same events. For a wallet and a positive limit, either both interfaces answer, with the views of one and
  the same list of events, or neither does.\<close>

theorem grpc_audit_matches_http:
  assumes "i \<noteq> []" "0 < n"
  shows "let g = serve_grpc gc wi sg timeout raw md (GetAuditEventsRpc i n) s;
             h = serve_http (gc_api gc) wi sg timeout raw md (GetAuditEvents \<lparr>aeq_wallet_id = Some i, aeq_limit = Some (unat n)\<rparr>) s in
    (\<exists>es. g = Some (Ok (AuditReply (map (raise_audit_event gc) es)), s) \<and>
       h = Some (Ok \<lparr>hr_status = 200, hr_body = EventsBody (map (audit_event_view_from (gc_api gc)) es)\<rparr>, s)) \<or>
    (\<nexists>reply s'. g = Some (Ok reply, s')) \<and> (\<nexists>body s'. h = Some (Ok \<lparr>hr_status = 200, hr_body = body\<rparr>, s'))"
proof -
  let ?st = "http_app wi sg timeout raw" and ?q = "\<lparr>aeq_wallet_id = Some i, aeq_limit = Some (unat n)\<rparr>"
  let ?read = "\<lambda>w. read_audit_events (wi_audit wi) (ad_read_log (st_admin ?st) (ss_world s)) (Some w) (min (unat n) 1000)"
  have lim: "unat (if n = 0 then 100 else n) = unat n" using assms(2) by auto
  show ?thesis
  proof (cases "\<exists>w es. authorised (gc_api gc) raw md \<and> parse_field (gc_api gc) ''wallet_id'' WalletId i = Ok w \<and> ?read w = Ok es")
    case True
    then obtain w es where w: "authorised (gc_api gc) raw md" "parse_field (gc_api gc) ''wallet_id'' WalletId i = Ok w" "?read w = Ok es" by blast
    have "grpc_get_audit_events gc (wi_audit wi) ?st i n s = Some (Ok (map (raise_audit_event gc) es), s)"
      using w(2,3) assms(1) grpc_parse_ulid_Ok [of gc "''wallet_id''" WalletId i w "''wallet_id''"]
      by (simp add: grpc_get_audit_events_def lim grpc_read_audit_events_eq pbind_def plift_def preturn_def Let_def)
    moreover have "respond 200 EventsBody (list_audit_events (gc_api gc) (wi_audit wi) ?st ?q) s =
        Some (Ok \<lparr>hr_status = 200, hr_body = EventsBody (map (audit_event_view_from (gc_api gc)) es)\<rparr>, s)"
      by (rule list_events_written [where flt = "Some w"]) (use w in simp_all)
    ultimately show ?thesis
      using w(1) by (auto simp: Let_def serve_grpc_Ok serve_http_Ok is_public_def dispatch_grpc_def dispatch_http_def preply_Ok)
  next
    case False
    have "\<nexists>reply s'. serve_grpc gc wi sg timeout raw md (GetAuditEventsRpc i n) s = Some (Ok reply, s')"
      using False assms(1) grpc_parse_ulid_Ok [of gc "''wallet_id''" WalletId i _ "''wallet_id''"]
      by (auto simp: serve_grpc_Ok dispatch_grpc_def preply_Ok grpc_get_audit_events_def lim grpc_read_audit_events_eq proc_simps Let_def outcome_simps)
    moreover have "\<nexists>body s'. serve_http (gc_api gc) wi sg timeout raw md (GetAuditEvents ?q) s = Some (Ok \<lparr>hr_status = 200, hr_body = body\<rparr>, s')"
    proof -
      have no: "list_audit_events (gc_api gc) (wi_audit wi) ?st ?q s \<noteq> Some (Ok x, s')" if "authorised (gc_api gc) raw md" for x s'
        using False that by (auto simp: list_audit_events_def proc_simps Let_def outcome_simps)
      then show ?thesis by (auto simp: serve_http_Ok is_public_def dispatch_http_def dest!: respond_success)
    qed
    ultimately show ?thesis by (simp add: Let_def)
  qed
qed

theorem grpc_audit_matches_http_witness:
  "\<exists>es. serve_grpc demo_grpc_crates demo_wiring None 120000 demo_keys (Some (as_bytes ''beta'')) (GetAuditEventsRpc (crockford 1) 5) demo_state =
       Some (Ok (AuditReply (map (raise_audit_event demo_grpc_crates) es)), demo_state) \<and>
     demo_http (GetAuditEvents \<lparr>aeq_wallet_id = Some (crockford 1), aeq_limit = Some 5\<rparr>) demo_state =
       Some (Ok \<lparr>hr_status = 200, hr_body = EventsBody (map (audit_event_view_from demo_api_crates) es)\<rparr>, demo_state)"
proof -
  have "parse_field demo_api_crates ''wallet_id'' WalletId (crockford 1) = Ok (WalletId 1)"
    using parse_field_text [OF demo_api_laws, of "''wallet_id''" WalletId 1] by simp
  then have "demo_http (GetAuditEvents \<lparr>aeq_wallet_id = Some (crockford 1), aeq_limit = Some 5\<rparr>) demo_state = Some (Ok \<lparr>hr_status = 200, hr_body = EventsBody []\<rparr>, demo_state)"
    by (simp add: authorised_dispatch [OF demo_key] dispatch_http_def respond_def list_audit_events_def pbind_def plift_def preturn_def read_audit_events_def
        wired_admin_def Let_def demo_state_def read_log_def)
  moreover have "crockford 1 \<noteq> []" using ulid_text_length [OF ulid_text_crockford, of 1] by auto
  ultimately show ?thesis
    using grpc_audit_matches_http [of "crockford 1" 5 demo_grpc_crates demo_wiring None 120000 demo_keys "Some (as_bytes ''beta'')" demo_state]
    by (simp add: Let_def demo_grpc_fields(1))
qed

end
