(* ===== verification/Cose_Envelope.thy ===== *)
theory Cose_Envelope
  imports Signers
begin

text \<open>
  Nitro attestation envelopes (\<open>qfc-enclave/src/cose.rs\<close>): the COSE_Sign1 wrapper, the CBOR map inside it, and
  the two signature checks. CBOR, COSE, X.509 and P-384 are crates: the model has their parsed data as
  types and their functions as the fields of \<open>cose_crates\<close>, with their documented behaviour in \<open>cose_laws\<close>.
\<close>

subsection \<open>What the crates hand over\<close>

datatype cbor =
    VInteger int
  | VBytes bytes
  | VFloat u64
  | VText string
  | VBool bool
  | VNull
  | VTag u64 cbor
  | VArray "cbor list"
  | VMap "(cbor \<times> cbor) list"

datatype cose_alg = ES384 | EdDSA | OtherAlg int

text \<open>\<open>cs_headers\<close> stands for the protected and unprotected headers other than the algorithm.\<close>

record cose_sign1 =
  cs_alg :: "cose_alg option"
  cs_headers :: bytes
  cs_payload :: "bytes option"
  cs_signature :: bytes

text \<open>An X.509 certificate. Bit strings are \<open>None\<close> when not byte-aligned, validity bounds are in Unix
  milliseconds, and \<open>tbs_extra\<close> is everything the sources do not look at (serial, extensions, algorithms).\<close>

record tbs_certificate =
  tbs_issuer :: bytes
  tbs_subject :: bytes
  tbs_not_before :: nat
  tbs_not_after :: nat
  tbs_public_key :: "bytes option"
  tbs_extra :: bytes

record certificate =
  crt_tbs :: tbs_certificate
  crt_signature :: "bytes option"

text \<open>P-384 verifying keys are SEC1 bytes and signatures the 96 bytes \<open>r || s\<close>; \<open>p384_from_der\<close> reads the DER
  form into these.\<close>

record cose_crates =
  co_sign :: sign_crates
  co_from_tagged_slice :: "bytes \<Rightarrow> cose_sign1 option"
  co_from_slice :: "bytes \<Rightarrow> string + cose_sign1"
  co_to_vec :: "cose_sign1 \<Rightarrow> string + bytes"
  co_tbs_data :: "cose_sign1 \<Rightarrow> bytes \<Rightarrow> bytes"
  co_cbor_read :: "bytes \<Rightarrow> string + cbor"
  co_cbor_write :: "cbor \<Rightarrow> string + bytes"
  x509_from_der :: "bytes \<Rightarrow> certificate option"
  x509_to_der :: "certificate \<Rightarrow> bytes option"
  x509_load_pem_chain :: "bytes \<Rightarrow> certificate list option"
  x509_tbs_to_der :: "tbs_certificate \<Rightarrow> bytes option"
  p384_public :: "bytes \<Rightarrow> bytes"
  p384_sign :: "bytes \<Rightarrow> bytes \<Rightarrow> bytes"
  p384_key_ok :: "bytes \<Rightarrow> bool"
  p384_sig_ok :: "bytes \<Rightarrow> bool"
  p384_from_der :: "bytes \<Rightarrow> bytes option"
  p384_verify :: "bytes \<Rightarrow> bytes \<Rightarrow> bytes \<Rightarrow> bool"

subsection \<open>Errors and the attestation payload\<close>

datatype cose_parse_error =
    MalformedEnvelope string
  | MalformedPayload string
  | MissingPayload
  | MissingField string
  | WrongFieldType string

datatype cose_verify_error =
    CoseInvalidPublicKey
  | CoseInvalidSignature
  | CoseMalformedLeafCert
  | MalformedSignature
  | SignatureMismatch
  | AlgorithmNotImplemented string

record cose_envelope =
  env_raw :: bytes
  env_cose :: cose_sign1

record cose_payload =
  cp_module_id :: string
  cp_timestamp :: i64
  cp_digest :: string
  cp_pcrs :: "(u8 \<times> bytes) list"
  cp_certificate :: bytes
  cp_cabundle :: "bytes list"
  cp_public_key :: bytes
  cp_user_data :: bytes
  cp_nonce :: bytes

text \<open>A \<open>BTreeMap\<close> is the list of its entries in key order.\<close>

fun btree_insert :: "'k::linorder \<Rightarrow> 'v \<Rightarrow> ('k \<times> 'v) list \<Rightarrow> ('k \<times> 'v) list" where
  "btree_insert k v [] = [(k, v)]"
| "btree_insert k v ((k', v') # r) =
     (if k < k' then (k, v) # (k', v') # r else if k = k' then (k, v) # r else (k', v') # btree_insert k v r)"

definition btree_ok :: "('k::linorder \<times> 'v) list \<Rightarrow> bool" where
  "btree_ok m \<longleftrightarrow> sorted_wrt (<) (map fst m)"

subsection \<open>Parsing and encoding\<close>

definition parse_cose_sign1 :: "cose_crates \<Rightarrow> bytes \<Rightarrow> (cose_parse_error, cose_envelope) outcome" where
  "parse_cose_sign1 cr b =
     (case co_from_tagged_slice cr b of
        Some c \<Rightarrow> Ok \<lparr>env_raw = b, env_cose = c\<rparr>
      | None \<Rightarrow> (case co_from_slice cr b of
          Inl e \<Rightarrow> Err (MalformedEnvelope e)
        | Inr c \<Rightarrow> Ok \<lparr>env_raw = b, env_cose = c\<rparr>))"

definition payload_value :: "cose_payload \<Rightarrow> cbor" where
  "payload_value p = VMap
     [(VText ''module_id'', VText (cp_module_id p)),
      (VText ''timestamp'', VInteger (cp_timestamp p)),
      (VText ''digest'', VText (cp_digest p)),
      (VText ''pcrs'', VMap (map (\<lambda>(k, v). (VInteger (uint k), VBytes v)) (cp_pcrs p))),
      (VText ''certificate'', VBytes (cp_certificate p)),
      (VText ''cabundle'', VArray (map VBytes (cp_cabundle p))),
      (VText ''public_key'', VBytes (cp_public_key p)),
      (VText ''user_data'', VBytes (cp_user_data p)),
      (VText ''nonce'', VBytes (cp_nonce p))]"

definition encode_payload :: "cose_crates \<Rightarrow> cose_payload \<Rightarrow> (cose_parse_error, bytes) outcome" where
  "encode_payload cr p = (case co_cbor_write cr (payload_value p) of Inl e \<Rightarrow> Err (MalformedPayload e) | Inr b \<Rightarrow> Ok b)"

definition as_text :: "cbor \<Rightarrow> string \<Rightarrow> (cose_parse_error, string) outcome" where
  "as_text v field = (case v of VText s \<Rightarrow> Ok s | _ \<Rightarrow> Err (WrongFieldType field))"

definition value_bytes :: "cbor \<Rightarrow> string \<Rightarrow> (cose_parse_error, bytes) outcome" where
  "value_bytes v field = (case v of VBytes b \<Rightarrow> Ok b | _ \<Rightarrow> Err (WrongFieldType field))"

definition as_optional_bytes :: "cbor \<Rightarrow> string \<Rightarrow> (cose_parse_error, bytes) outcome" where
  "as_optional_bytes v field = (case v of VBytes b \<Rightarrow> Ok b | VNull \<Rightarrow> Ok [] | _ \<Rightarrow> Err (WrongFieldType field))"

definition as_i64 :: "cbor \<Rightarrow> string \<Rightarrow> (cose_parse_error, i64) outcome" where
  "as_i64 v field = (case v of VInteger i \<Rightarrow> if i64_ok i then Ok i else Err (WrongFieldType field) | _ \<Rightarrow> Err (WrongFieldType field))"

definition pcr_entry :: "(u8 \<times> bytes) list \<Rightarrow> cbor \<times> cbor \<Rightarrow> (cose_parse_error, (u8 \<times> bytes) list) outcome" where
  "pcr_entry out kv =
     obind (as_i64 (fst kv) ''pcrs'') (\<lambda>idx.
     obind (fail_if (\<not> (0 \<le> idx \<and> idx < 256)) (WrongFieldType ''pcrs'')) (\<lambda>_.
     obind (value_bytes (snd kv) ''pcrs'') (\<lambda>b. Ok (btree_insert (word_of_int idx) b out))))"

definition decode_pcr_map :: "cbor \<Rightarrow> (cose_parse_error, (u8 \<times> bytes) list) outcome" where
  "decode_pcr_map v = (case v of VMap entries \<Rightarrow> ofold pcr_entry [] entries | _ \<Rightarrow> Err (WrongFieldType ''pcrs''))"

definition decode_cabundle :: "cbor \<Rightarrow> (cose_parse_error, bytes list) outcome" where
  "decode_cabundle v = (case v of VArray entries \<Rightarrow> omap (\<lambda>e. value_bytes e ''cabundle'') entries | _ \<Rightarrow> Err (WrongFieldType ''cabundle''))"

text \<open>The mutable locals of \<open>decode_payload_map\<close>.\<close>

record payload_fields =
  pf_module_id :: "string option"
  pf_timestamp :: "i64 option"
  pf_digest :: "string option"
  pf_pcrs :: "(u8 \<times> bytes) list option"
  pf_certificate :: "bytes option"
  pf_cabundle :: "bytes list option"
  pf_public_key :: bytes
  pf_user_data :: bytes
  pf_nonce :: bytes

definition no_fields :: payload_fields where
  "no_fields = \<lparr>pf_module_id = None, pf_timestamp = None, pf_digest = None, pf_pcrs = None, pf_certificate = None,
     pf_cabundle = None, pf_public_key = [], pf_user_data = [], pf_nonce = []\<rparr>"

definition payload_entry :: "payload_fields \<Rightarrow> cbor \<times> cbor \<Rightarrow> (cose_parse_error, payload_fields) outcome" where
  "payload_entry f kv =
     (case kv of
        (VText key, v) \<Rightarrow>
          if key = ''module_id'' then obind (as_text v key) (\<lambda>x. Ok (f\<lparr>pf_module_id := Some x\<rparr>))
          else if key = ''timestamp'' then obind (as_i64 v key) (\<lambda>x. Ok (f\<lparr>pf_timestamp := Some x\<rparr>))
          else if key = ''digest'' then obind (as_text v key) (\<lambda>x. Ok (f\<lparr>pf_digest := Some x\<rparr>))
          else if key = ''pcrs'' then obind (decode_pcr_map v) (\<lambda>x. Ok (f\<lparr>pf_pcrs := Some x\<rparr>))
          else if key = ''certificate'' then obind (value_bytes v key) (\<lambda>x. Ok (f\<lparr>pf_certificate := Some x\<rparr>))
          else if key = ''cabundle'' then obind (decode_cabundle v) (\<lambda>x. Ok (f\<lparr>pf_cabundle := Some x\<rparr>))
          else if key = ''public_key'' then obind (as_optional_bytes v key) (\<lambda>x. Ok (f\<lparr>pf_public_key := x\<rparr>))
          else if key = ''user_data'' then obind (as_optional_bytes v key) (\<lambda>x. Ok (f\<lparr>pf_user_data := x\<rparr>))
          else if key = ''nonce'' then obind (as_optional_bytes v key) (\<lambda>x. Ok (f\<lparr>pf_nonce := x\<rparr>))
          else Ok f
      | _ \<Rightarrow> Ok f)"

definition required_fields :: "payload_fields \<Rightarrow> (cose_parse_error, cose_payload) outcome" where
  "required_fields f =
     obind (ok_or (pf_module_id f) (MissingField ''module_id'')) (\<lambda>module_id.
     obind (ok_or (pf_timestamp f) (MissingField ''timestamp'')) (\<lambda>timestamp.
     obind (ok_or (pf_digest f) (MissingField ''digest'')) (\<lambda>digest.
     obind (ok_or (pf_pcrs f) (MissingField ''pcrs'')) (\<lambda>pcrs.
     obind (ok_or (pf_certificate f) (MissingField ''certificate'')) (\<lambda>certificate.
     obind (ok_or (pf_cabundle f) (MissingField ''cabundle'')) (\<lambda>cabundle.
     Ok \<lparr>cp_module_id = module_id, cp_timestamp = timestamp, cp_digest = digest, cp_pcrs = pcrs, cp_certificate = certificate,
         cp_cabundle = cabundle, cp_public_key = pf_public_key f, cp_user_data = pf_user_data f, cp_nonce = pf_nonce f\<rparr>))))))"

definition decode_payload_map :: "cose_crates \<Rightarrow> bytes \<Rightarrow> (cose_parse_error, cose_payload) outcome" where
  "decode_payload_map cr b =
     (case co_cbor_read cr b of
        Inl e \<Rightarrow> Err (MalformedPayload e)
      | Inr (VMap entries) \<Rightarrow> obind (ofold payload_entry no_fields entries) required_fields
      | Inr _ \<Rightarrow> Err (MalformedPayload ''outer value is not a map''))"

definition extract_payload :: "cose_crates \<Rightarrow> cose_envelope \<Rightarrow> (cose_parse_error, cose_payload) outcome" where
  "extract_payload cr env = obind (ok_or (cs_payload (env_cose env)) MissingPayload) (decode_payload_map cr)"

subsection \<open>Signatures\<close>

definition verify_cose_signature :: "cose_crates \<Rightarrow> cose_envelope \<Rightarrow> bytes \<Rightarrow> (cose_verify_error, unit) outcome" where
  "verify_cose_signature cr env leaf =
     obind (fail_if (length leaf \<noteq> 32) CoseInvalidPublicKey) (\<lambda>_.
     obind (fail_if (ed_key_error (co_sign cr) leaf \<noteq> None) CoseInvalidPublicKey) (\<lambda>_.
     obind (fail_if (length (cs_signature (env_cose env)) \<noteq> 64) CoseInvalidSignature) (\<lambda>_.
     fail_if (\<not> ed_verify (co_sign cr) leaf (co_tbs_data cr (env_cose env) []) (cs_signature (env_cose env))) CoseInvalidSignature)))"

definition verify_cose_signature_es384 :: "cose_crates \<Rightarrow> cose_envelope \<Rightarrow> bytes \<Rightarrow> (cose_verify_error, unit) outcome" where
  "verify_cose_signature_es384 cr env leaf =
     (let sig = cs_signature (env_cose env) in
     obind (ok_or (x509_from_der cr leaf) CoseMalformedLeafCert) (\<lambda>cert.
     obind (ok_or (tbs_public_key (crt_tbs cert)) CoseMalformedLeafCert) (\<lambda>key.
     obind (fail_if (\<not> p384_key_ok cr key) CoseMalformedLeafCert) (\<lambda>_.
     obind (ok_or (x509_to_der cr cert) CoseMalformedLeafCert) (\<lambda>_.
     obind (fail_if (length sig \<noteq> 96) MalformedSignature) (\<lambda>_.
     obind (fail_if (\<not> p384_sig_ok cr sig) MalformedSignature) (\<lambda>_.
     fail_if (\<not> p384_verify cr key (co_tbs_data cr (env_cose env) []) sig) SignatureMismatch)))))))"

subsection \<open>Building envelopes\<close>

text \<open>The signed envelope: the builder fixes algorithm and payload, then signs the bytes these determine.\<close>

definition signed_cose :: "cose_crates \<Rightarrow> cose_alg \<Rightarrow> bytes \<Rightarrow> (bytes \<Rightarrow> bytes) \<Rightarrow> cose_sign1" where
  "signed_cose cr alg payload signer =
     (let c = \<lparr>cs_alg = Some alg, cs_headers = [], cs_payload = Some payload, cs_signature = []\<rparr>
      in c\<lparr>cs_signature := signer (co_tbs_data cr c [])\<rparr>)"

definition cose_bytes :: "cose_crates \<Rightarrow> cose_sign1 \<Rightarrow> (cose_parse_error, bytes) outcome" where
  "cose_bytes cr c = (case co_to_vec cr c of Inl e \<Rightarrow> Err (MalformedEnvelope e) | Inr b \<Rightarrow> Ok b)"

definition build_test_envelope :: "cose_crates \<Rightarrow> cose_payload \<Rightarrow> bytes \<Rightarrow> (cose_parse_error, bytes) outcome" where
  "build_test_envelope cr p sk =
     obind (encode_payload cr p) (\<lambda>b. cose_bytes cr (signed_cose cr EdDSA b (ed_sign (co_sign cr) sk)))"

definition build_test_envelope_es384 :: "cose_crates \<Rightarrow> cose_payload \<Rightarrow> bytes \<Rightarrow> (cose_parse_error, bytes) outcome" where
  "build_test_envelope_es384 cr p sk =
     obind (encode_payload cr p) (\<lambda>b. cose_bytes cr (signed_cose cr ES384 b (p384_sign cr sk)))"

subsection \<open>What the crates promise\<close>

text \<open>Values of bounded depth without floats and with integers of CBOR's range: these survive writing and
  reading (the reader's recursion limit is 256).\<close>

primrec cbor_plain :: "nat \<Rightarrow> cbor \<Rightarrow> bool" where
  "cbor_plain 0 v = False"
| "cbor_plain (Suc d) v =
     (case v of
        VInteger i \<Rightarrow> - (2 ^ 64) \<le> i \<and> i < 2 ^ 64
      | VFloat f \<Rightarrow> False
      | VTag t w \<Rightarrow> cbor_plain d w
      | VArray vs \<Rightarrow> list_all (cbor_plain d) vs
      | VMap kvs \<Rightarrow> list_all (\<lambda>(k, w). cbor_plain d k \<and> cbor_plain d w) kvs
      | _ \<Rightarrow> True)"

text \<open>\<open>tbs_data\<close> is the RFC 8152 structure, which leaves the signature out; an untagged envelope has no tag 18.\<close>

definition cose_laws :: "cose_crates \<Rightarrow> bool" where
  "cose_laws cr \<longleftrightarrow> ed_laws (co_sign cr) \<and>
     (\<forall>v. cbor_plain 16 v \<longrightarrow> (\<exists>b. co_cbor_write cr v = Inr b \<and> co_cbor_read cr b = Inr v)) \<and>
     (\<forall>c. \<exists>b. co_to_vec cr c = Inr b \<and> co_from_tagged_slice cr b = None \<and> co_from_slice cr b = Inr c) \<and>
     (\<forall>c s aad. co_tbs_data cr (c\<lparr>cs_signature := s\<rparr>) aad = co_tbs_data cr c aad) \<and>
     (\<forall>sk m. length sk = 48 \<longrightarrow> p384_key_ok cr (p384_public cr sk) \<and> length (p384_sign cr sk m) = 96 \<and>
        p384_sig_ok cr (p384_sign cr sk m) \<and> p384_verify cr (p384_public cr sk) m (p384_sign cr sk m))"

lemma cose_lawsD:
  assumes "cose_laws cr"
  shows "ed_laws (co_sign cr)"
    and "cbor_plain 16 v \<Longrightarrow> \<exists>b. co_cbor_write cr v = Inr b \<and> co_cbor_read cr b = Inr v"
    and "\<exists>b. co_to_vec cr c = Inr b \<and> co_from_tagged_slice cr b = None \<and> co_from_slice cr b = Inr c"
    and "co_tbs_data cr (c\<lparr>cs_signature := s\<rparr>) aad = co_tbs_data cr c aad"
    and "length sk = 48 \<Longrightarrow> p384_key_ok cr (p384_public cr sk) \<and> length (p384_sign cr sk m) = 96 \<and>
        p384_sig_ok cr (p384_sign cr sk m) \<and> p384_verify cr (p384_public cr sk) m (p384_sign cr sk m)"
  using assms unfolding cose_laws_def by blast+

subsection \<open>Sorted maps\<close>

lemma btree_insert_last:
  "\<forall>k' \<in> fst ` set m. k' < k \<Longrightarrow> btree_insert k v m = m @ [(k, v)]"
  by (induction m) auto

subsection \<open>Round trips\<close>

lemma uint_ge_neg [simp]: "- numeral n \<le> uint (k :: u8)"
  by (rule order_trans [of _ 0]) simp_all

lemma uint_u8_bounds: "0 \<le> uint (k :: u8) \<and> uint k < 256"
  using uint_lt2p [of k] by simp

lemma decode_pcrs:
  assumes "btree_ok (out @ m)"
  shows "ofold pcr_entry out (map (\<lambda>(k, v). (VInteger (uint k), VBytes v)) m) = Ok (out @ m)"
  using assms
proof (induction m arbitrary: out)
  case (Cons e m)
  obtain k v where e: "e = (k, v)" by (cases e)
  have k: "i64_ok (uint k)" "0 \<le> uint k \<and> uint k < 256"
    using uint_u8_bounds [of k] by (simp_all add: i64_ok_def)
  have "\<forall>k' \<in> fst ` set out. k' < k"
    using Cons.prems e by (auto simp: btree_ok_def sorted_wrt_append)
  from btree_insert_last [OF this, of v] have "pcr_entry out (VInteger (uint k), VBytes v) = Ok (out @ [(k, v)])"
    using k by (simp add: pcr_entry_def as_i64_def value_bytes_def)
  with Cons.IH [of "out @ [(k, v)]"] Cons.prems e show ?case by simp
qed simp

lemma payload_value_plain:
  assumes "i64_ok (cp_timestamp p)"
  shows "cbor_plain 16 (payload_value p)"
proof -
  have pcrs: "list_all (\<lambda>(k, w). cbor_plain (Suc d) k \<and> cbor_plain (Suc d) w) (map (\<lambda>(k, v). (VInteger (uint k), VBytes v)) m)"
    for m :: "(u8 \<times> bytes) list" and d
  proof (induction m)
    case (Cons e m)
    then show ?case using uint_u8_bounds [of "fst e"] by (cases e) simp
  qed simp
  have cab: "list_all (cbor_plain (Suc d)) (map VBytes bs)" for bs d by (induction bs) simp_all
  have "cbor_plain (Suc (Suc (Suc d))) (payload_value p)" for d
    using assms pcrs [of d] cab [of d]
    by (simp only: payload_value_def cbor_plain.simps cbor.case list.pred_inject prod.case i64_ok_def) simp
  from this [of 13] show ?thesis by (simp add: numeral_eq_Suc)
qed

lemma decode_cabundle_bytes: "decode_cabundle (VArray (map VBytes bs)) = Ok bs"
  unfolding decode_cabundle_def cbor.case by (induction bs) (simp_all add: value_bytes_def)

lemma decode_payload_value:
  assumes "i64_ok (cp_timestamp p)" "btree_ok (cp_pcrs p)" "co_cbor_read cr b = Inr (payload_value p)"
  shows "decode_payload_map cr b = Ok p"
proof -
  have pcrs: "decode_pcr_map (VMap (map (\<lambda>(k, v). (VInteger (uint k), VBytes v)) (cp_pcrs p))) = Ok (cp_pcrs p)"
    using decode_pcrs [of "[]" "cp_pcrs p"] assms(2) by (simp add: decode_pcr_map_def)
  show ?thesis
    using assms(1,3) pcrs decode_cabundle_bytes [of "cp_cabundle p"]
    by (simp add: decode_payload_map_def payload_value_def payload_entry_def as_text_def as_i64_def
      value_bytes_def as_optional_bytes_def required_fields_def no_fields_def)
qed

end
