(* ===== verification/Nitro_Attestation.thy ===== *)
theory Nitro_Attestation
  imports Cose_Envelope Mock_Enclave Reference_Codec
begin

text \<open>
  Verification of Nitro attestations (\<open>qfc-enclave/src/verify_attestation.rs\<close>): the document and its three
  signature formats, PCR constraints, the freshness window, and the walk over the certificate chain to the
  root. The embedded AWS root and the JSON reader of the mock format are fields of \<open>nitro_crates\<close>.
  Differences of times wrap around as \<open>i64\<close> does in the release profile.
\<close>

subsection \<open>Documents (verify_attestation.rs)\<close>

datatype root_anchor = AwsNitroG1 | CustomRoot bytes | NoAnchor

record pcr_constraint =
  pcr0 :: "bytes option"
  pcr1 :: "bytes option"
  pcr2 :: "bytes option"
  pcr3 :: "bytes option"
  pcr4 :: "bytes option"

datatype signature_kind = MockSignature | CoseSign1Ed25519 | CoseSign1Es384

record nitro_payload =
  np_module_id :: string
  np_timestamp_unix_ms :: i64
  np_pcrs :: "(u8 \<times> bytes) list"
  np_public_key :: bytes
  np_user_data :: bytes
  np_nonce :: bytes

record nitro_doc =
  nd_cose_sign1 :: bytes
  nd_parsed_payload :: nitro_payload
  nd_leaf_certificate :: bytes
  nd_cabundle :: "bytes list"
  nd_signature :: bytes
  nd_signature_kind :: signature_kind

datatype attestation_verify_error =
    MalformedCose string
  | NitroPayloadMismatch
  | PcrMismatch u8
  | StaleAttestation i64 i64 i64
  | FromTheFuture
  | NitroInvalidSignature
  | CertChain
  | NitroMalformedLeafCert
  | MalformedIntermediate nat
  | MalformedRoot
  | CertChainBroken nat string
  | EmptyCabundle
  | RefusesMockAttestation

record nitro_crates =
  nc_cose :: cose_crates
  nc_att :: att_crates
  nc_aws_root_pem :: bytes
  nc_payload_json :: "bytes \<Rightarrow> nitro_payload option"

definition root_bytes :: "nitro_crates \<Rightarrow> root_anchor \<Rightarrow> bytes option" where
  "root_bytes cr anchor = (case anchor of AwsNitroG1 \<Rightarrow> Some (nc_aws_root_pem cr) | CustomRoot b \<Rightarrow> Some b | NoAnchor \<Rightarrow> None)"

definition pcr_any :: pcr_constraint where
  "pcr_any = \<lparr>pcr0 = None, pcr1 = None, pcr2 = None, pcr3 = None, pcr4 = None\<rparr>"

definition pcr0_only :: "bytes \<Rightarrow> pcr_constraint" where
  "pcr0_only b = pcr_any\<lparr>pcr0 := Some b\<rparr>"

definition pcr_check :: "pcr_constraint \<Rightarrow> (u8 \<times> bytes) list \<Rightarrow> (attestation_verify_error, unit) outcome" where
  "pcr_check self observed =
     oforeach (\<lambda>(idx, expected). case expected of
         None \<Rightarrow> Ok ()
       | Some e \<Rightarrow> obind (ok_or (map_of observed idx) (PcrMismatch idx)) (\<lambda>seen. fail_if (seen \<noteq> e) (PcrMismatch idx)))
       [(0, pcr0 self), (1, pcr1 self), (2, pcr2 self), (3, pcr3 self), (4, pcr4 self)]"

definition nitro_mock :: "bytes \<Rightarrow> nitro_payload \<Rightarrow> bytes \<Rightarrow> bytes list \<Rightarrow> bytes \<Rightarrow> nitro_doc" where
  "nitro_mock raw payload leaf cabundle signature =
     \<lparr>nd_cose_sign1 = raw, nd_parsed_payload = payload, nd_leaf_certificate = leaf, nd_cabundle = cabundle,
      nd_signature = signature, nd_signature_kind = MockSignature\<rparr>"

definition map_parse_err :: "cose_parse_error \<Rightarrow> attestation_verify_error" where
  "map_parse_err e = (case e of
       MissingField f \<Rightarrow> MalformedCose ''missing or mistyped payload field''
     | WrongFieldType f \<Rightarrow> MalformedCose ''missing or mistyped payload field''
     | _ \<Rightarrow> MalformedCose ''CBOR parse'')"

definition signature_kind_from_envelope :: "cose_envelope \<Rightarrow> signature_kind" where
  "signature_kind_from_envelope env = (if cs_alg (env_cose env) = Some ES384 then CoseSign1Es384 else CoseSign1Ed25519)"

definition from_cose_sign1 :: "nitro_crates \<Rightarrow> bytes \<Rightarrow> (attestation_verify_error, nitro_doc) outcome" where
  "from_cose_sign1 cr b =
     obind (map_err map_parse_err (parse_cose_sign1 (nc_cose cr) b)) (\<lambda>env.
     obind (map_err map_parse_err (extract_payload (nc_cose cr) env)) (\<lambda>inner.
     obind (if length (cp_nonce inner) = 32 then Ok (cp_nonce inner)
            else if cp_nonce inner \<noteq> [] then Err (MalformedCose ''nonce length is not 32'')
            else Ok (replicate 32 0)) (\<lambda>nonce.
     Ok \<lparr>nd_cose_sign1 = env_raw env,
         nd_parsed_payload = \<lparr>np_module_id = cp_module_id inner, np_timestamp_unix_ms = cp_timestamp inner, np_pcrs = cp_pcrs inner,
           np_public_key = cp_public_key inner, np_user_data = cp_user_data inner, np_nonce = nonce\<rparr>,
         nd_leaf_certificate = cp_certificate inner, nd_cabundle = cp_cabundle inner,
         nd_signature = cs_signature (env_cose env), nd_signature_kind = signature_kind_from_envelope env\<rparr>)))"

definition nitro_parse :: "nitro_crates \<Rightarrow> bytes \<Rightarrow> (attestation_verify_error, nitro_doc) outcome" where
  "nitro_parse cr b = (case from_cose_sign1 cr b of
       Err e \<Rightarrow> Err (MalformedCose ''input is neither COSE_Sign1 CBOR nor recognized format'')
     | other \<Rightarrow> other)"

subsection \<open>The certificate chain\<close>

definition check_validity :: "certificate \<Rightarrow> nat \<Rightarrow> i64 \<Rightarrow> (attestation_verify_error, unit) outcome" where
  "check_validity cert i now =
     (let not_before = int (tbs_not_before (crt_tbs cert)); not_after = int (tbs_not_after (crt_tbs cert)) in
      obind (fail_if (\<not> i64_ok not_before) (CertChainBroken i ''not_before exceeds i64 millis range'')) (\<lambda>_.
      obind (fail_if (\<not> i64_ok not_after) (CertChainBroken i ''not_after exceeds i64 millis range'')) (\<lambda>_.
      obind (fail_if (now < not_before) (CertChainBroken i ''not yet valid (now < not_before)'')) (\<lambda>_.
      fail_if (now > not_after) (CertChainBroken i ''expired (now > not_after)'')))))"

definition verify_p384_signature :: "cose_crates \<Rightarrow> certificate \<Rightarrow> certificate \<Rightarrow> nat \<Rightarrow> string \<Rightarrow> (attestation_verify_error, unit) outcome" where
  "verify_p384_signature cr child parent i reason =
     obind (ok_or (tbs_public_key (crt_tbs parent)) (CertChainBroken i ''parent SubjectPublicKeyInfo bit string is not byte-aligned'')) (\<lambda>key.
     obind (fail_if (\<not> p384_key_ok cr key) (CertChainBroken i ''parent SubjectPublicKeyInfo is not a P-384 public key'')) (\<lambda>_.
     obind (ok_or (x509_tbs_to_der cr (crt_tbs child)) (CertChainBroken i ''could not re-encode child TBS to DER'')) (\<lambda>tbs.
     obind (ok_or (crt_signature child) (CertChainBroken i ''child signature bit string is not byte-aligned'')) (\<lambda>der.
     obind (ok_or (p384_from_der cr der) (CertChainBroken i ''child signature is not a valid DER ECDSA signature'')) (\<lambda>sig.
     fail_if (\<not> p384_verify cr key tbs sig) (CertChainBroken i reason))))))"

definition check_pair :: "cose_crates \<Rightarrow> certificate \<Rightarrow> certificate \<Rightarrow> nat \<Rightarrow> i64 \<Rightarrow> (attestation_verify_error, unit) outcome" where
  "check_pair cr child parent i now =
     obind (fail_if (tbs_issuer (crt_tbs child) \<noteq> tbs_subject (crt_tbs parent)) (CertChainBroken i ''issuer DN does not match parent subject DN'')) (\<lambda>_.
     obind (check_validity child i now) (\<lambda>_.
     verify_p384_signature cr child parent i ''signature did not verify''))"

fun walk_chain :: "cose_crates \<Rightarrow> i64 \<Rightarrow> nat \<Rightarrow> certificate list \<Rightarrow> (attestation_verify_error, unit) outcome" where
  "walk_chain cr now i (child # parent # r) = obind (check_pair cr child parent i now) (\<lambda>_. walk_chain cr now (Suc i) (parent # r))"
| "walk_chain cr now i _ = Ok ()"

primrec parse_intermediates :: "cose_crates \<Rightarrow> nat \<Rightarrow> bytes list \<Rightarrow> (attestation_verify_error, certificate list) outcome" where
  "parse_intermediates cr i [] = Ok []"
| "parse_intermediates cr i (b # bs) =
     obind (ok_or (x509_from_der cr b) (MalformedIntermediate i)) (\<lambda>c.
     obind (parse_intermediates cr (Suc i) bs) (\<lambda>cs. Ok (c # cs)))"

definition parse_root :: "cose_crates \<Rightarrow> bytes \<Rightarrow> certificate option" where
  "parse_root cr root = (case x509_load_pem_chain cr root of
       Some chain \<Rightarrow> if chain = [] then None else Some (last chain)
     | None \<Rightarrow> x509_from_der cr root)"

definition verify_root_chain :: "cose_crates \<Rightarrow> bytes \<Rightarrow> bytes list \<Rightarrow> bytes \<Rightarrow> i64 \<Rightarrow> (attestation_verify_error, unit) outcome" where
  "verify_root_chain cr leaf_cert cabundle root now =
     obind (ok_or (x509_from_der cr leaf_cert) NitroMalformedLeafCert) (\<lambda>leaf.
     obind (parse_intermediates cr 0 cabundle) (\<lambda>intermediates.
     obind (ok_or (parse_root cr root) MalformedRoot) (\<lambda>root_cert.
     let chain = leaf # intermediates @ [root_cert] in
     obind (walk_chain cr now 0 chain) (\<lambda>_.
     obind (fail_if (tbs_issuer (crt_tbs root_cert) \<noteq> tbs_subject (crt_tbs root_cert))
       (CertChainBroken (length chain - 1) ''root certificate is not self-signed (issuer != subject)'')) (\<lambda>_.
     obind (check_validity root_cert (length chain - 1) now) (\<lambda>_.
     obind (verify_p384_signature cr root_cert root_cert (length chain - 1) ''root self-signature did not verify'') (\<lambda>_.
     obind (ok_or (x509_to_der cr leaf) NitroMalformedLeafCert) (\<lambda>_.
     obind (ok_or (x509_to_der cr root_cert) MalformedRoot) (\<lambda>_. Ok ())))))))))"

definition verify_aws_nitro_root_chain :: "nitro_crates \<Rightarrow> bytes \<Rightarrow> bytes list \<Rightarrow> i64 \<Rightarrow> (attestation_verify_error, unit) outcome" where
  "verify_aws_nitro_root_chain cr leaf cabundle now = verify_root_chain (nc_cose cr) leaf cabundle (nc_aws_root_pem cr) now"

subsection \<open>Verification\<close>

definition i64_wrap :: "int \<Rightarrow> i64" where
  "i64_wrap x = (x + 2 ^ 63) mod 2 ^ 64 - 2 ^ 63"

definition map_verify_err :: "cose_verify_error \<Rightarrow> attestation_verify_error" where
  "map_verify_err e = (case e of
       CoseMalformedLeafCert \<Rightarrow> MalformedCose ''leaf certificate is malformed''
     | AlgorithmNotImplemented a \<Rightarrow> MalformedCose ''signature algorithm not implemented''
     | _ \<Rightarrow> NitroInvalidSignature)"

definition verify_ed25519_signature :: "sign_crates \<Rightarrow> bytes \<Rightarrow> bytes \<Rightarrow> bytes \<Rightarrow> (attestation_verify_error, unit) outcome" where
  "verify_ed25519_signature cr public_key message signature =
     obind (fail_if (length public_key \<noteq> 32) NitroInvalidSignature) (\<lambda>_.
     obind (fail_if (ed_key_error cr public_key \<noteq> None) NitroInvalidSignature) (\<lambda>_.
     obind (fail_if (length signature \<noteq> 64) NitroInvalidSignature) (\<lambda>_.
     fail_if (\<not> ed_verify cr public_key message signature) NitroInvalidSignature)))"

definition check_mirror :: "nitro_crates \<Rightarrow> nitro_doc \<Rightarrow> (attestation_verify_error, unit) outcome" where
  "check_mirror cr doc =
     (let p = nd_parsed_payload doc in
      case nd_signature_kind doc of
        MockSignature \<Rightarrow>
          obind (ok_or (nc_payload_json cr (nd_cose_sign1 doc)) (MalformedCose ''payload not JSON'')) (\<lambda>reparsed.
          fail_if (reparsed \<noteq> p) NitroPayloadMismatch)
      | _ \<Rightarrow>
          obind (map_err map_parse_err (parse_cose_sign1 (nc_cose cr) (nd_cose_sign1 doc))) (\<lambda>env.
          obind (map_err map_parse_err (extract_payload (nc_cose cr) env)) (\<lambda>inner.
          fail_if (cp_module_id inner \<noteq> np_module_id p \<or> cp_timestamp inner \<noteq> np_timestamp_unix_ms p \<or> cp_pcrs inner \<noteq> np_pcrs p \<or>
            cp_public_key inner \<noteq> np_public_key p \<or> cp_user_data inner \<noteq> np_user_data p) NitroPayloadMismatch)))"

definition check_fresh :: "i64 \<Rightarrow> i64 \<Rightarrow> i64 \<Rightarrow> (attestation_verify_error, unit) outcome" where
  "check_fresh ts now max_age =
     obind (fail_if (ts > i64_wrap (now + 60000)) FromTheFuture) (\<lambda>_.
     fail_if (i64_wrap (now - ts) > max_age) (StaleAttestation ts now max_age))"

definition check_doc_signature :: "nitro_crates \<Rightarrow> nitro_doc \<Rightarrow> (attestation_verify_error, unit) outcome" where
  "check_doc_signature cr doc =
     (let envelope = map_err map_parse_err (parse_cose_sign1 (nc_cose cr) (nd_cose_sign1 doc)) in
      case nd_signature_kind doc of
        MockSignature \<Rightarrow> verify_ed25519_signature (co_sign (nc_cose cr)) (nd_leaf_certificate doc) (nd_cose_sign1 doc) (nd_signature doc)
      | CoseSign1Ed25519 \<Rightarrow> obind envelope (\<lambda>env. map_err map_verify_err (verify_cose_signature (nc_cose cr) env (nd_leaf_certificate doc)))
      | CoseSign1Es384 \<Rightarrow> obind envelope (\<lambda>env. map_err map_verify_err (verify_cose_signature_es384 (nc_cose cr) env (nd_leaf_certificate doc))))"

definition verify_attestation_inner :: "nitro_crates \<Rightarrow> nitro_doc \<Rightarrow> pcr_constraint \<Rightarrow> root_anchor \<Rightarrow> i64 \<Rightarrow> i64 \<Rightarrow> (attestation_verify_error, nitro_payload) outcome" where
  "verify_attestation_inner cr doc expected_pcrs anchor now max_age =
     obind (check_mirror cr doc) (\<lambda>_.
     obind (pcr_check expected_pcrs (np_pcrs (nd_parsed_payload doc))) (\<lambda>_.
     obind (check_fresh (np_timestamp_unix_ms (nd_parsed_payload doc)) now max_age) (\<lambda>_.
     obind (check_doc_signature cr doc) (\<lambda>_.
     obind (fail_if (nd_cabundle doc = []) CertChain) (\<lambda>_.
     obind (case root_bytes cr anchor of
         None \<Rightarrow> Ok ()
       | Some root \<Rightarrow> verify_root_chain (nc_cose cr) (nd_leaf_certificate doc) (nd_cabundle doc) root now) (\<lambda>_.
     Ok (nd_parsed_payload doc)))))))"

definition verify_attestation_with_root :: "nitro_crates \<Rightarrow> nitro_doc \<Rightarrow> pcr_constraint \<Rightarrow> root_anchor \<Rightarrow> i64 \<Rightarrow> i64 \<Rightarrow> (attestation_verify_error, nitro_payload) outcome" where
  "verify_attestation_with_root = verify_attestation_inner"

definition verify_attestation :: "nitro_crates \<Rightarrow> nitro_doc \<Rightarrow> pcr_constraint \<Rightarrow> bytes \<Rightarrow> i64 \<Rightarrow> i64 \<Rightarrow> (attestation_verify_error, nitro_payload) outcome" where
  "verify_attestation cr doc expected_pcrs trust_anchor now max_age = verify_attestation_inner cr doc expected_pcrs NoAnchor now max_age"

definition verify_mock_attestation :: "nitro_crates \<Rightarrow> attestation_doc \<Rightarrow> bool \<Rightarrow> (attestation_verify_error, unit) outcome" where
  "verify_mock_attestation cr doc enforce_non_production =
     obind (fail_if (enforce_non_production \<and> atp_backend (atd_payload doc) = ''mock'') RefusesMockAttestation) (\<lambda>_.
     map_err (\<lambda>e. case e of
         PayloadParse m \<Rightarrow> NitroPayloadMismatch
       | PayloadMismatch \<Rightarrow> NitroPayloadMismatch
       | InvalidKey m \<Rightarrow> NitroInvalidSignature
       | InvalidSignature \<Rightarrow> NitroInvalidSignature) (attestation_verify (nc_att cr) doc))"

subsection \<open>What verification means\<close>

text \<open>One certificate vouches for another: names chain, the child is within its validity, and its signature
  verifies under the parent's key.\<close>

definition valid_at :: "i64 \<Rightarrow> certificate \<Rightarrow> bool" where
  "valid_at now c \<longleftrightarrow> int (tbs_not_before (crt_tbs c)) \<le> now \<and> now \<le> int (tbs_not_after (crt_tbs c)) \<and>
     tbs_not_before (crt_tbs c) < 2 ^ 63 \<and> tbs_not_after (crt_tbs c) < 2 ^ 63"

definition signed_by :: "cose_crates \<Rightarrow> certificate \<Rightarrow> certificate \<Rightarrow> bool" where
  "signed_by cr child parent \<longleftrightarrow>
     (case (tbs_public_key (crt_tbs parent), x509_tbs_to_der cr (crt_tbs child), Option.bind (crt_signature child) (p384_from_der cr)) of
        (Some key, Some tbs, Some sig) \<Rightarrow> p384_key_ok cr key \<and> p384_verify cr key tbs sig
      | _ \<Rightarrow> False)"

definition issued_by :: "cose_crates \<Rightarrow> i64 \<Rightarrow> certificate \<Rightarrow> certificate \<Rightarrow> bool" where
  "issued_by cr now child parent \<longleftrightarrow>
     tbs_issuer (crt_tbs child) = tbs_subject (crt_tbs parent) \<and> valid_at now child \<and> signed_by cr child parent"

text \<open>A chain of trust: each certificate is issued by the next, up to a root that issued itself.\<close>

definition trusted_chain :: "cose_crates \<Rightarrow> i64 \<Rightarrow> bytes \<Rightarrow> bytes list \<Rightarrow> bytes \<Rightarrow> bool" where
  "trusted_chain cr now leaf_cert cabundle root \<longleftrightarrow>
     (\<exists>leaf intermediates root_cert. x509_from_der cr leaf_cert = Some leaf \<and>
        map (x509_from_der cr) cabundle = map Some intermediates \<and> parse_root cr root = Some root_cert \<and>
        successively (issued_by cr now) (leaf # intermediates @ [root_cert]) \<and> issued_by cr now root_cert root_cert \<and>
        x509_to_der cr leaf \<noteq> None \<and> x509_to_der cr root_cert \<noteq> None)"

text \<open>The part of the document that its own raw bytes confirm.\<close>

definition mirrors_raw :: "nitro_crates \<Rightarrow> nitro_doc \<Rightarrow> bool" where
  "mirrors_raw cr doc \<longleftrightarrow>
     (let p = nd_parsed_payload doc in
      if nd_signature_kind doc = MockSignature then nc_payload_json cr (nd_cose_sign1 doc) = Some p
      else (\<exists>env inner. parse_cose_sign1 (nc_cose cr) (nd_cose_sign1 doc) = Ok env \<and> extract_payload (nc_cose cr) env = Ok inner \<and>
        cp_module_id inner = np_module_id p \<and> cp_timestamp inner = np_timestamp_unix_ms p \<and> cp_pcrs inner = np_pcrs p \<and>
        cp_public_key inner = np_public_key p \<and> cp_user_data inner = np_user_data p))"

definition signed_by_leaf :: "nitro_crates \<Rightarrow> nitro_doc \<Rightarrow> bool" where
  "signed_by_leaf cr doc \<longleftrightarrow>
     (let leaf = nd_leaf_certificate doc; raw = nd_cose_sign1 doc; sg = co_sign (nc_cose cr) in
      case nd_signature_kind doc of
        MockSignature \<Rightarrow> length leaf = 32 \<and> ed_key_error sg leaf = None \<and> length (nd_signature doc) = 64 \<and> ed_verify sg leaf raw (nd_signature doc)
      | CoseSign1Ed25519 \<Rightarrow> (\<exists>env. parse_cose_sign1 (nc_cose cr) raw = Ok env \<and> length leaf = 32 \<and> ed_key_error sg leaf = None \<and>
          length (cs_signature (env_cose env)) = 64 \<and> ed_verify sg leaf (co_tbs_data (nc_cose cr) (env_cose env) []) (cs_signature (env_cose env)))
      | CoseSign1Es384 \<Rightarrow> (\<exists>env cert key. parse_cose_sign1 (nc_cose cr) raw = Ok env \<and> x509_from_der (nc_cose cr) leaf = Some cert \<and>
          tbs_public_key (crt_tbs cert) = Some key \<and> p384_key_ok (nc_cose cr) key \<and> x509_to_der (nc_cose cr) cert \<noteq> None \<and>
          length (cs_signature (env_cose env)) = 96 \<and> p384_sig_ok (nc_cose cr) (cs_signature (env_cose env)) \<and>
          p384_verify (nc_cose cr) key (co_tbs_data (nc_cose cr) (env_cose env) []) (cs_signature (env_cose env))))"

definition pcrs_match :: "pcr_constraint \<Rightarrow> (u8 \<times> bytes) list \<Rightarrow> bool" where
  "pcrs_match c observed \<longleftrightarrow>
     (\<forall>(i, expected) \<in> set [(0, pcr0 c), (1, pcr1 c), (2, pcr2 c), (3, pcr3 c), (4, pcr4 c)].
        expected \<noteq> None \<longrightarrow> map_of observed i = expected)"

lemma check_validity_Ok [outcome_simps]: "check_validity c i now = Ok () \<longleftrightarrow> valid_at now c"
  by (auto simp: check_validity_def Let_def outcome_simps valid_at_def i64_ok_def)

lemma verify_p384_signature_Ok [outcome_simps]: "verify_p384_signature cr c p i m = Ok () \<longleftrightarrow> signed_by cr c p"
  by (auto simp: verify_p384_signature_def outcome_simps signed_by_def split: option.splits bind_splits)

lemma check_pair_Ok [outcome_simps]: "check_pair cr c p i now = Ok () \<longleftrightarrow> issued_by cr now c p"
  by (auto simp: check_pair_def issued_by_def outcome_simps)

lemma walk_chain_Ok [outcome_simps]: "walk_chain cr now i cs = Ok () \<longleftrightarrow> successively (issued_by cr now) cs"
  by (induction cr now i cs rule: walk_chain.induct) (simp_all add: outcome_simps)

lemma parse_intermediates_Ok [outcome_simps]:
  "parse_intermediates cr i bs = Ok cs \<longleftrightarrow> map (x509_from_der cr) bs = map Some cs"
  by (induction bs arbitrary: i cs) (auto simp: outcome_simps Cons_eq_map_conv)

lemma verify_root_chain_Ok: "verify_root_chain cr leaf cab root now = Ok () \<longleftrightarrow> trusted_chain cr now leaf cab root"
  by (auto simp: verify_root_chain_def trusted_chain_def Let_def outcome_simps issued_by_def)

lemma pcr_check_Ok: "pcr_check c observed = Ok () \<longleftrightarrow> pcrs_match c observed"
  by (auto simp: pcr_check_def pcrs_match_def oforeach_eq_Ok outcome_simps split: option.splits)

lemma check_mirror_Ok: "check_mirror cr doc = Ok () \<longleftrightarrow> mirrors_raw cr doc"
  by (cases "nd_signature_kind doc") (auto simp: check_mirror_def mirrors_raw_def Let_def outcome_simps)

lemma verify_cose_signature_Ok:
  "verify_cose_signature cr env leaf = Ok () \<longleftrightarrow> length leaf = 32 \<and> ed_key_error (co_sign cr) leaf = None \<and>
     length (cs_signature (env_cose env)) = 64 \<and> ed_verify (co_sign cr) leaf (co_tbs_data cr (env_cose env) []) (cs_signature (env_cose env))"
  by (auto simp: verify_cose_signature_def outcome_simps)

lemma verify_cose_signature_es384_Ok:
  "verify_cose_signature_es384 cr env leaf = Ok () \<longleftrightarrow>
     (\<exists>cert key. x509_from_der cr leaf = Some cert \<and> tbs_public_key (crt_tbs cert) = Some key \<and> p384_key_ok cr key \<and>
        x509_to_der cr cert \<noteq> None \<and> length (cs_signature (env_cose env)) = 96 \<and> p384_sig_ok cr (cs_signature (env_cose env)) \<and>
        p384_verify cr key (co_tbs_data cr (env_cose env) []) (cs_signature (env_cose env)))"
  by (auto simp: verify_cose_signature_es384_def Let_def outcome_simps)

lemma check_doc_signature_Ok: "check_doc_signature cr doc = Ok () \<longleftrightarrow> signed_by_leaf cr doc"
proof (cases "nd_signature_kind doc")
  case MockSignature
  then show ?thesis
    by (auto simp: check_doc_signature_def signed_by_leaf_def verify_ed25519_signature_def Let_def outcome_simps)
next
  case CoseSign1Ed25519
  then show ?thesis
    by (auto simp: check_doc_signature_def signed_by_leaf_def Let_def outcome_simps verify_cose_signature_Ok)
next
  case CoseSign1Es384
  then show ?thesis
    by (auto simp: check_doc_signature_def signed_by_leaf_def Let_def outcome_simps verify_cose_signature_es384_Ok)
qed

lemma check_fresh_Ok:
  "check_fresh ts now max_age = Ok () \<longleftrightarrow> ts \<le> i64_wrap (now + 60000) \<and> i64_wrap (now - ts) \<le> max_age"
  by (auto simp: check_fresh_def outcome_simps)

lemma verify_attestation_Ok:
  "verify_attestation_inner cr doc c anchor now max_age = Ok p \<longleftrightarrow>
     p = nd_parsed_payload doc \<and> mirrors_raw cr doc \<and> pcrs_match c (np_pcrs p) \<and>
     check_fresh (np_timestamp_unix_ms p) now max_age = Ok () \<and> signed_by_leaf cr doc \<and> nd_cabundle doc \<noteq> [] \<and>
     (\<forall>root. root_bytes cr anchor = Some root \<longrightarrow> trusted_chain (nc_cose cr) now (nd_leaf_certificate doc) (nd_cabundle doc) root)"
  by (auto simp: verify_attestation_inner_def outcome_simps check_mirror_Ok pcr_check_Ok check_doc_signature_Ok
    verify_root_chain_Ok split: option.splits)

lemma i64_wrap_id: "i64_ok x \<Longrightarrow> i64_wrap x = x"
  by (simp add: i64_wrap_def i64_ok_def)

lemma i64_wrap_above: "2 ^ 63 \<le> x \<Longrightarrow> x < 2 ^ 64 + 2 ^ 63 \<Longrightarrow> i64_wrap x = x - 2 ^ 64"
proof -
  assume x: "2 ^ 63 \<le> x" "x < 2 ^ 64 + 2 ^ 63"
  have "x + 2 ^ 63 = (x - 2 ^ 63) + 2 ^ 64" by simp
  then have "(x + 2 ^ 63) mod 2 ^ 64 = (x - 2 ^ 63) mod 2 ^ 64" by (metis mod_add_self2)
  also have "\<dots> = x - 2 ^ 63" using x by (intro mod_pos_pos_trivial) simp_all
  finally show ?thesis by (simp add: i64_wrap_def)
qed

lemma fresh_window:
  assumes "0 \<le> now" "now + 60000 < 2 ^ 63" "i64_ok ts" "0 \<le> max_age"
  shows "check_fresh ts now max_age = Ok () \<longleftrightarrow> ts \<le> now + 60000 \<and> (now - ts \<le> max_age \<or> 2 ^ 63 \<le> now - ts)"
proof -
  have a: "i64_wrap (now + 60000) = now + 60000" using assms by (intro i64_wrap_id) (simp add: i64_ok_def)
  show ?thesis
  proof (cases "2 ^ 63 \<le> now - ts")
    case True
    have "now - ts < 2 ^ 64 + 2 ^ 63" using assms by (simp add: i64_ok_def)
    from i64_wrap_above [OF True this] have "i64_wrap (now - ts) \<le> max_age" using assms by (simp add: i64_ok_def)
    moreover have "ts \<le> now + 60000" using True by simp
    ultimately show ?thesis using True by (simp add: check_fresh_Ok a)
  next
    case False
    then have "i64_wrap (now - ts) = now - ts" if "ts \<le> now + 60000" using assms that by (intro i64_wrap_id) (simp add: i64_ok_def)
    then show ?thesis using False by (auto simp: check_fresh_Ok a)
  qed
qed

subsection \<open>Envelopes that verify\<close>

definition payload_of :: "cose_payload \<Rightarrow> nitro_payload" where
  "payload_of p = \<lparr>np_module_id = cp_module_id p, np_timestamp_unix_ms = cp_timestamp p, np_pcrs = cp_pcrs p,
     np_public_key = cp_public_key p, np_user_data = cp_user_data p, np_nonce = cp_nonce p\<rparr>"

lemma built_es384:
  assumes "cose_laws cr" "i64_ok (cp_timestamp p)" "btree_ok (cp_pcrs p)" "length sk = 48"
  shows "\<exists>b env. build_test_envelope_es384 cr p sk = Ok b \<and> parse_cose_sign1 cr b = Ok env \<and> env_raw env = b \<and>
    extract_payload cr env = Ok p \<and> cs_alg (env_cose env) = Some ES384 \<and>
    length (cs_signature (env_cose env)) = 96 \<and> p384_sig_ok cr (cs_signature (env_cose env)) \<and>
    p384_verify cr (p384_public cr sk) (co_tbs_data cr (env_cose env) []) (cs_signature (env_cose env))"
proof -
  obtain pb where pb: "co_cbor_write cr (payload_value p) = Inr pb" "co_cbor_read cr pb = Inr (payload_value p)"
    using cose_lawsD(2) [OF assms(1) payload_value_plain [OF assms(2)]] by blast
  let ?c = "\<lparr>cs_alg = Some ES384, cs_headers = [], cs_payload = Some pb, cs_signature = []\<rparr>"
  let ?s = "p384_sign cr sk (co_tbs_data cr ?c [])"
  obtain b where b: "co_to_vec cr (?c\<lparr>cs_signature := ?s\<rparr>) = Inr b" "co_from_tagged_slice cr b = None" "co_from_slice cr b = Inr (?c\<lparr>cs_signature := ?s\<rparr>)"
    using cose_lawsD(3) [OF assms(1)] by blast
  have "build_test_envelope_es384 cr p sk = Ok b"
    using pb(1) b(1) by (simp add: build_test_envelope_es384_def encode_payload_def cose_bytes_def signed_cose_def Let_def)
  moreover have "parse_cose_sign1 cr b = Ok \<lparr>env_raw = b, env_cose = ?c\<lparr>cs_signature := ?s\<rparr>\<rparr>"
    using b by (simp add: parse_cose_sign1_def)
  ultimately show ?thesis
    using cose_lawsD(5) [OF assms(1,4), of "co_tbs_data cr ?c []"] cose_lawsD(4) [OF assms(1), where c = ?c and s = ?s and aad = "[]"]
      decode_payload_value [OF assms(2,3) pb(2)]
    by (intro exI conjI) (assumption | simp add: extract_payload_def)+
qed

subsection \<open>An executable instance of the crates\<close>

primrec put_cbor :: "cbor \<Rightarrow> nat list" where
  "put_cbor (VInteger i) = 0 # put_int i"
| "put_cbor (VBytes b) = 1 # put_bytes b"
| "put_cbor (VFloat f) = [2, unat f]"
| "put_cbor (VText s) = 3 # put_string s"
| "put_cbor (VBool b) = [4, of_bool b]"
| "put_cbor VNull = [5]"
| "put_cbor (VTag t v) = 6 # unat t # put_cbor v"
| "put_cbor (VArray vs) = 7 # length vs # concat (map put_cbor vs)"
| "put_cbor (VMap kvs) = 8 # length kvs # concat (map (\<lambda>kv. fst kv @ snd kv) (map (map_prod put_cbor put_cbor) kvs))"

primrec get_cbor :: "nat \<Rightarrow> nat list \<Rightarrow> (cbor \<times> nat list) option" where
  "get_cbor 0 ts = None"
| "get_cbor (Suc f) ts =
     (case ts of
        [] \<Rightarrow> None
      | t # r \<Rightarrow>
          if t = 0 then map_option (map_prod VInteger id) (get_int r)
          else if t = 1 then map_option (map_prod VBytes id) (get_bytes r)
          else if t = 2 then (case r of [] \<Rightarrow> None | n # r' \<Rightarrow> Some (VFloat (word_of_nat n), r'))
          else if t = 3 then map_option (map_prod VText id) (get_string r)
          else if t = 4 then (case r of [] \<Rightarrow> None | b # r' \<Rightarrow> Some (VBool (b = 1), r'))
          else if t = 5 then Some (VNull, r)
          else if t = 6 then (case r of [] \<Rightarrow> None | n # r' \<Rightarrow> map_option (map_prod (VTag (word_of_nat n)) id) (get_cbor f r'))
          else if t = 7 then (case r of [] \<Rightarrow> None | n # r' \<Rightarrow> map_option (map_prod VArray id) (get_many (get_cbor f) n r'))
          else (case r of [] \<Rightarrow> None | n # r' \<Rightarrow> map_option (map_prod VMap id) (get_many
            (\<lambda>ts. Option.bind (get_cbor f ts) (\<lambda>(k, r). Option.bind (get_cbor f r) (\<lambda>(v, r'). Some ((k, v), r')))) n r')))"

lemma get_put_cbor: "length (put_cbor v) \<le> f \<Longrightarrow> get_cbor f (put_cbor v @ rest) = Some (v, rest)"
proof (induction v arbitrary: f rest)
  case (VTag t v)
  then show ?case by (cases f) auto
next
  case (VArray vs)
  from VArray.prems obtain k where f: "f = Suc k" "length (concat (map put_cbor vs)) \<le> k" by (cases f) auto
  have "get_cbor k (put_cbor x @ r) = Some (x, r)" if "x \<in> set vs" for x r
    using VArray.IH [OF that] length_concat_ge [OF that, of put_cbor] f(2) by simp
  from get_many_put [of vs "get_cbor k" put_cbor, OF this] show ?case by (simp add: f(1))
next
  case (VMap kvs)
  let ?p = "\<lambda>kv. put_cbor (fst kv) @ put_cbor (snd kv)"
  from VMap.prems obtain k where f: "f = Suc k" "length (concat (map ?p kvs)) \<le> k" by (cases f) (auto simp: comp_def)
  let ?g = "\<lambda>ts. Option.bind (get_cbor k ts) (\<lambda>(key, r). Option.bind (get_cbor k r) (\<lambda>(v, r'). Some ((key, v), r')))"
  have "?g (?p kv @ r) = Some (kv, r)" if "kv \<in> set kvs" for kv r
  proof -
    have "length (put_cbor (fst kv)) \<le> k" "length (put_cbor (snd kv)) \<le> k" using length_concat_ge [OF that, of ?p] f(2) by simp_all
    then show ?thesis using VMap.IH [OF that, of "fst kv"] VMap.IH [OF that, of "snd kv"] by (simp add: fsts.intros snds.intros)
  qed
  from get_many_put [of kvs ?g ?p, OF this] show ?case by (simp add: f(1) comp_def)
next
  case (VInteger i)
  then show ?case by (cases f) auto
next
  case (VBytes b)
  then show ?case by (cases f) auto
next
  case (VFloat w)
  then show ?case by (cases f) auto
next
  case (VText s)
  then show ?case by (cases f) auto
next
  case (VBool b)
  then show ?case by (cases f) auto
qed (auto simp: gr0_conv_Suc Suc_le_eq)

definition put_opt_bytes :: "bytes option \<Rightarrow> nat list" where
  "put_opt_bytes b = (case b of None \<Rightarrow> 0 # put_bytes [] | Some b \<Rightarrow> 1 # put_bytes b)"

definition get_opt_bytes :: "nat list \<Rightarrow> (bytes option \<times> nat list) option" where
  "get_opt_bytes ts = (case ts of [] \<Rightarrow> None | t # r \<Rightarrow> map_option (map_prod (\<lambda>b. if t = 0 then None else Some b) id) (get_bytes r))"

lemma get_put_opt_bytes [simp]: "get_opt_bytes (put_opt_bytes b @ rest) = Some (b, rest)"
  by (cases b) (simp_all add: get_opt_bytes_def put_opt_bytes_def)

definition put_cose :: "cose_sign1 \<Rightarrow> nat list" where
  "put_cose c = (case cs_alg c of None \<Rightarrow> [0, 0, 0] | Some ES384 \<Rightarrow> [1, 0, 0] | Some EdDSA \<Rightarrow> [2, 0, 0] | Some (OtherAlg a) \<Rightarrow> 3 # put_int a) @
     put_bytes (cs_headers c) @ put_opt_bytes (cs_payload c) @ put_bytes (cs_signature c)"

definition get_cose :: "nat list \<Rightarrow> cose_sign1 option" where
  "get_cose ts = (case ts of [] \<Rightarrow> None | t # r \<Rightarrow>
     Option.bind (get_int r) (\<lambda>(a, r1). Option.bind (get_bytes r1) (\<lambda>(h, r2). Option.bind (get_opt_bytes r2) (\<lambda>(p, r3). Option.bind (get_bytes r3) (\<lambda>(s, r4).
     Some \<lparr>cs_alg = (if t = 0 then None else if t = 1 then Some ES384 else if t = 2 then Some EdDSA else Some (OtherAlg a)),
       cs_headers = h, cs_payload = p, cs_signature = s\<rparr>)))))"

lemma get_put_cose: "get_cose (put_cose c) = Some c"
proof -
  have zero: "get_int (0 # 0 # r) = Some (0, r)" for r by (simp add: get_int_def)
  have last: "get_bytes (put_bytes s) = Some (s, [])" for s using get_put(2) [of s "[]"] by simp
  show ?thesis by (cases c) (simp add: get_cose_def put_cose_def zero last split: option.split cose_alg.split)
qed

definition put_tbs :: "tbs_certificate \<Rightarrow> nat list" where
  "put_tbs t = tbs_not_before t # tbs_not_after t # put_bytes (tbs_issuer t) @ put_bytes (tbs_subject t) @
     put_opt_bytes (tbs_public_key t) @ put_bytes (tbs_extra t)"

definition get_cert :: "nat list \<Rightarrow> certificate option" where
  "get_cert ts = (case ts of nb # na # r0 \<Rightarrow>
     Option.bind (get_bytes r0) (\<lambda>(i, r1). Option.bind (get_bytes r1) (\<lambda>(s, r2). Option.bind (get_opt_bytes r2) (\<lambda>(k, r3).
     Option.bind (get_bytes r3) (\<lambda>(x, r4). Option.bind (get_opt_bytes r4) (\<lambda>(g, r5).
     Some \<lparr>crt_tbs = \<lparr>tbs_issuer = i, tbs_subject = s, tbs_not_before = nb, tbs_not_after = na, tbs_public_key = k, tbs_extra = x\<rparr>, crt_signature = g\<rparr>)))))
   | _ \<Rightarrow> None)"

definition put_cert :: "certificate \<Rightarrow> nat list" where
  "put_cert c = put_tbs (crt_tbs c) @ put_opt_bytes (crt_signature c)"

lemma get_put_cert: "get_cert (put_cert c) = Some c"
proof -
  have last: "get_opt_bytes (put_opt_bytes s) = Some (s, [])" for s using get_put_opt_bytes [of s "[]"] by simp
  show ?thesis by (cases c; cases "crt_tbs c") (simp add: get_cert_def put_cert_def put_tbs_def last)
qed

definition token_bytes :: "nat list \<Rightarrow> bytes" where
  "token_bytes ts = as_bytes (write_tokens ts)"

definition bytes_tokens :: "bytes \<Rightarrow> nat list" where
  "bytes_tokens b = read_tokens (map (\<lambda>w. char_of (unat w)) b)"

lemma bytes_tokens_inverse [simp]: "bytes_tokens (token_bytes ts) = ts"
  by (simp add: bytes_tokens_def token_bytes_def as_bytes_chars)

definition p384_toy_sign :: "bytes \<Rightarrow> bytes \<Rightarrow> bytes" where
  "p384_toy_sign sk m = take 48 (sk @ replicate 48 0) @ take 48 (m @ replicate 48 0)"

definition ref_cose_crates :: cose_crates where
  "ref_cose_crates = \<lparr>co_sign = ref_sign_crates, co_from_tagged_slice = (\<lambda>_. None),
     co_from_slice = (\<lambda>b. case get_cose (bytes_tokens b) of None \<Rightarrow> Inl ''unexpected item'' | Some c \<Rightarrow> Inr c),
     co_to_vec = (\<lambda>c. Inr (token_bytes (put_cose c))),
     co_tbs_data = (\<lambda>c aad. token_bytes (put_cose (c\<lparr>cs_signature := aad\<rparr>))),
     co_cbor_read = (\<lambda>b. case get_cbor (length (bytes_tokens b)) (bytes_tokens b) of None \<Rightarrow> Inl ''end of file'' | Some (v, r) \<Rightarrow> Inr v),
     co_cbor_write = (\<lambda>v. Inr (token_bytes (put_cbor v))),
     x509_from_der = (\<lambda>b. get_cert (bytes_tokens b)), x509_to_der = (\<lambda>c. Some (token_bytes (put_cert c))),
     x509_load_pem_chain = (\<lambda>_. None), x509_tbs_to_der = (\<lambda>t. Some (token_bytes (put_tbs t))),
     p384_public = (\<lambda>sk. sk), p384_sign = p384_toy_sign, p384_key_ok = (\<lambda>k. length k = 48), p384_sig_ok = (\<lambda>_. True),
     p384_from_der = Some, p384_verify = (\<lambda>k m s. s = p384_toy_sign k m)\<rparr>"

lemma length_p384_toy_sign [simp]: "length (p384_toy_sign sk m) = 96"
  by (simp add: p384_toy_sign_def min_def)

lemma ref_cose_laws: "cose_laws ref_cose_crates"
proof -
  have "get_cbor (length (put_cbor v)) (put_cbor v) = Some (v, [])" for v
    using get_put_cbor [of v "length (put_cbor v)" "[]"] by simp
  then show ?thesis
    using ref_sign_laws by (simp add: cose_laws_def ref_cose_crates_def sign_laws_def get_put_cose)
qed

text \<open>A chain of three certificates and an attestation under it.\<close>

definition demo_cert :: "bytes \<Rightarrow> bytes \<Rightarrow> bytes \<Rightarrow> bytes \<Rightarrow> certificate" where
  "demo_cert issuer subject key issuer_key =
     (let tbs = \<lparr>tbs_issuer = issuer, tbs_subject = subject, tbs_not_before = 0, tbs_not_after = 5000, tbs_public_key = Some key, tbs_extra = []\<rparr>
      in \<lparr>crt_tbs = tbs, crt_signature = Some (p384_toy_sign issuer_key (token_bytes (put_tbs tbs)))\<rparr>)"

definition demo_der :: "certificate \<Rightarrow> bytes" where
  "demo_der c = token_bytes (put_cert c)"

definition demo_root :: certificate where "demo_root = demo_cert [1] [1] (replicate 48 1) (replicate 48 1)"
definition demo_ca :: certificate where "demo_ca = demo_cert [1] [2] (replicate 48 2) (replicate 48 1)"
definition demo_leaf :: certificate where "demo_leaf = demo_cert [2] [3] (replicate 48 3) (replicate 48 2)"
definition demo_forged :: certificate where "demo_forged = demo_cert [3] [4] (replicate 48 4) (replicate 48 3)"

definition demo_nitro_crates :: nitro_crates where
  "demo_nitro_crates = \<lparr>nc_cose = ref_cose_crates, nc_att = en_att ref_enclave_crates, nc_aws_root_pem = demo_der demo_root, nc_payload_json = (\<lambda>_. None)\<rparr>"

definition demo_attested :: cose_payload where
  "demo_attested = \<lparr>cp_module_id = ''i-0'', cp_timestamp = 1000, cp_digest = ''SHA384'', cp_pcrs = [(0, replicate 48 7)],
     cp_certificate = demo_der demo_leaf, cp_cabundle = [demo_der demo_ca], cp_public_key = [], cp_user_data = [], cp_nonce = replicate 32 9\<rparr>"

lemma demo_certs:
  "x509_from_der ref_cose_crates (demo_der c) = Some c" "x509_to_der ref_cose_crates c \<noteq> None" "parse_root ref_cose_crates (demo_der c) = Some c"
  by (simp_all add: parse_root_def ref_cose_crates_def demo_der_def get_put_cert)

lemma demo_issued:
  "length ik = 48 \<Longrightarrow> issued_by ref_cose_crates 1000 (demo_cert i s k ik) (demo_cert i' i ik ik')"
  by (simp add: issued_by_def valid_at_def signed_by_def demo_cert_def Let_def ref_cose_crates_def)

lemma demo_chain: "trusted_chain ref_cose_crates 1000 (demo_der demo_leaf) [demo_der demo_ca] (demo_der demo_root)"
  unfolding trusted_chain_def
  by (rule exI [of _ demo_leaf], rule exI [of _ "[demo_ca]"], rule exI [of _ demo_root])
     (simp add: demo_certs demo_root_def demo_ca_def demo_leaf_def demo_issued)

subsection \<open>Properties\<close>

text \<open>C6. The attestation verifier accepts exactly the documents it should: the parsed fields it returns are those of the raw bytes,
  every pinned PCR has the pinned value, the timestamp passes the freshness test, the raw bytes carry a signature
  of the leaf certificate's key, the bundle is not empty and, unless chain validation is switched off, the leaf chains through
  the bundle to the anchor: each certificate is valid now, names the next as its issuer and is signed by it, and
  the root issued itself. For the COSE formats the nonce is not among the fields confirmed.\<close>

theorem attestation_accepted_iff:
  "verify_attestation_with_root cr doc c anchor now max_age = Ok p \<longleftrightarrow>
     p = nd_parsed_payload doc \<and> mirrors_raw cr doc \<and> pcrs_match c (np_pcrs p) \<and>
     np_timestamp_unix_ms p \<le> i64_wrap (now + 60000) \<and> i64_wrap (now - np_timestamp_unix_ms p) \<le> max_age \<and>
     signed_by_leaf cr doc \<and> nd_cabundle doc \<noteq> [] \<and>
     (case root_bytes cr anchor of None \<Rightarrow> True | Some root \<Rightarrow> trusted_chain (nc_cose cr) now (nd_leaf_certificate doc) (nd_cabundle doc) root)"
  by (auto simp: verify_attestation_with_root_def verify_attestation_Ok check_fresh_Ok split: option.splits)

text \<open>C22. An attestation made as the platform makes it verifies: the CBOR payload is encoded, wrapped and signed with the P-384 key of
  a leaf certificate that chains to the anchor; parsing the bytes gives back the payload, and the verifier returns it
  when the PCRs match, the certificates are valid and the timestamp is at most the maximum age old.\<close>

theorem built_attestation_verifies:
  assumes "cose_laws (nc_cose cr)" "btree_ok (cp_pcrs p)" "length sk = 48" "length (cp_nonce p) = 32" "cp_cabundle p \<noteq> []"
    and "x509_from_der (nc_cose cr) (cp_certificate p) = Some cert" "tbs_public_key (crt_tbs cert) = Some (p384_public (nc_cose cr) sk)"
    and "root_bytes cr anchor = Some root" "trusted_chain (nc_cose cr) now (cp_certificate p) (cp_cabundle p) root"
    and "pcrs_match c (cp_pcrs p)" "0 \<le> cp_timestamp p" "cp_timestamp p \<le> now" "now - cp_timestamp p \<le> max_age" "now + 60000 < 2 ^ 63"
  shows "\<exists>b doc. build_test_envelope_es384 (nc_cose cr) p sk = Ok b \<and> nitro_parse cr b = Ok doc \<and> nd_cose_sign1 doc = b \<and>
    verify_attestation_with_root cr doc c anchor now max_age = Ok (payload_of p)"
proof -
  have ts: "i64_ok (cp_timestamp p)" using assms(11,12,14) by (simp add: i64_ok_def)
  obtain b env where b: "build_test_envelope_es384 (nc_cose cr) p sk = Ok b" "parse_cose_sign1 (nc_cose cr) b = Ok env" "env_raw env = b"
    "extract_payload (nc_cose cr) env = Ok p" "cs_alg (env_cose env) = Some ES384"
    and sig: "length (cs_signature (env_cose env)) = 96" "p384_sig_ok (nc_cose cr) (cs_signature (env_cose env))"
      "p384_verify (nc_cose cr) (p384_public (nc_cose cr) sk) (co_tbs_data (nc_cose cr) (env_cose env) []) (cs_signature (env_cose env))"
    using built_es384 [OF assms(1) ts assms(2,3)] by blast
  let ?doc = "\<lparr>nd_cose_sign1 = b, nd_parsed_payload = payload_of p, nd_leaf_certificate = cp_certificate p, nd_cabundle = cp_cabundle p,
    nd_signature = cs_signature (env_cose env), nd_signature_kind = CoseSign1Es384\<rparr>"
  have parsed: "nitro_parse cr b = Ok ?doc"
    using b assms(4) by (simp add: nitro_parse_def from_cose_sign1_def payload_of_def signature_kind_from_envelope_def)
  have mirror: "mirrors_raw cr ?doc" using b by (simp add: mirrors_raw_def payload_of_def)
  have key: "p384_key_ok (nc_cose cr) (p384_public (nc_cose cr) sk)" using cose_lawsD(5) [OF assms(1,3)] by blast
  have der: "x509_to_der (nc_cose cr) cert \<noteq> None" using assms(6,9) by (auto simp: trusted_chain_def)
  have leaf: "signed_by_leaf cr ?doc"
    using b(2) assms(6,7) key der sig by (simp add: signed_by_leaf_def)
  have fresh: "check_fresh (cp_timestamp p) now max_age = Ok ()"
    using fresh_window [OF _ assms(14) ts, of max_age] assms(11-13) by simp
  have "verify_attestation_with_root cr ?doc c anchor now max_age = Ok (payload_of p)"
    unfolding verify_attestation_with_root_def verify_attestation_Ok
    using mirror leaf fresh assms(5,8-10) by (simp add: payload_of_def)
  with b(1) parsed show ?thesis by fastforce
qed

theorem built_attestation_verifies_witness:
  "\<exists>b doc. build_test_envelope_es384 (nc_cose demo_nitro_crates) demo_attested (replicate 48 3) = Ok b \<and> nitro_parse demo_nitro_crates b = Ok doc \<and>
    nd_cose_sign1 doc = b \<and>
    verify_attestation_with_root demo_nitro_crates doc (pcr0_only (replicate 48 7)) AwsNitroG1 1000 500 = Ok (payload_of demo_attested)"
proof (rule built_attestation_verifies [where cert = demo_leaf and root = "demo_der demo_root"])
  show "cose_laws (nc_cose demo_nitro_crates)" by (simp add: demo_nitro_crates_def ref_cose_laws)
  show "trusted_chain (nc_cose demo_nitro_crates) 1000 (cp_certificate demo_attested) (cp_cabundle demo_attested) (demo_der demo_root)"
    using demo_chain by (simp add: demo_nitro_crates_def demo_attested_def)
  show "tbs_public_key (crt_tbs demo_leaf) = Some (p384_public (nc_cose demo_nitro_crates) (replicate 48 3))"
    by (simp add: demo_leaf_def demo_cert_def Let_def demo_nitro_crates_def ref_cose_crates_def)
qed (simp_all add: demo_nitro_crates_def demo_attested_def btree_ok_def demo_certs root_bytes_def pcrs_match_def pcr0_only_def pcr_any_def)

text \<open>The verifier's freshness window is the documented one except for wrap-around: with a sane clock, a timestamp passes exactly when it is at most a minute ahead
  and at most the maximum age old, or so far in the past that the difference no longer fits 64 bits, when it passes as well.\<close>

theorem freshness_window:
  assumes "0 \<le> now" "now + 60000 < 2 ^ 63" "i64_ok ts" "0 \<le> max_age"
  shows "check_fresh ts now max_age = Ok () \<longleftrightarrow> ts \<le> now + 60000 \<and> (now - ts \<le> max_age \<or> 2 ^ 63 \<le> now - ts)"
  by (rule fresh_window [OF assms])

theorem freshness_window_witness:
  "check_fresh (- (2 ^ 63)) 1000 500 = Ok () \<and> check_fresh 400 1000 500 \<noteq> Ok ()"
  using freshness_window [of 1000 "- (2 ^ 63)" 500] freshness_window [of 1000 400 500] by (simp add: i64_ok_def)

text \<open>The nonce of a COSE attestation is not verified: replacing it in an accepted document by any other gives an accepted document
  with that nonce, so a caller that checks the returned nonce against its challenge is not protected from replays.\<close>

theorem nonce_unprotected:
  assumes "verify_attestation_with_root cr doc c anchor now max_age = Ok p" "nd_signature_kind doc \<noteq> MockSignature"
  shows "verify_attestation_with_root cr (doc\<lparr>nd_parsed_payload := p\<lparr>np_nonce := n\<rparr>\<rparr>) c anchor now max_age = Ok (p\<lparr>np_nonce := n\<rparr>)"
proof -
  have "signed_by_leaf cr (doc\<lparr>nd_parsed_payload := q\<rparr>) = signed_by_leaf cr doc" for q
    by (cases "nd_signature_kind doc") (simp_all add: signed_by_leaf_def)
  then show ?thesis
    using assms by (auto simp: verify_attestation_with_root_def verify_attestation_Ok mirrors_raw_def Let_def)
qed

theorem nonce_unprotected_witness:
  "\<exists>doc p. verify_attestation_with_root demo_nitro_crates doc pcr_any AwsNitroG1 1000 500 = Ok p \<and> np_nonce p = replicate 32 9 \<and>
    verify_attestation_with_root demo_nitro_crates (doc\<lparr>nd_parsed_payload := p\<lparr>np_nonce := replicate 32 1\<rparr>\<rparr>) pcr_any AwsNitroG1 1000 500 =
      Ok (p\<lparr>np_nonce := replicate 32 1\<rparr>)"
proof -
  have ts: "i64_ok (cp_timestamp demo_attested)" and pcrs: "btree_ok (cp_pcrs demo_attested)"
    by (simp_all add: demo_attested_def i64_ok_def btree_ok_def)
  obtain b env where b: "parse_cose_sign1 ref_cose_crates b = Ok env" "extract_payload ref_cose_crates env = Ok demo_attested"
    and sig: "length (cs_signature (env_cose env)) = 96" "p384_sig_ok ref_cose_crates (cs_signature (env_cose env))"
      "p384_verify ref_cose_crates (p384_public ref_cose_crates (replicate 48 3)) (co_tbs_data ref_cose_crates (env_cose env) []) (cs_signature (env_cose env))"
    using built_es384 [OF ref_cose_laws ts pcrs, of "replicate 48 3"] by auto
  let ?doc = "\<lparr>nd_cose_sign1 = b, nd_parsed_payload = payload_of demo_attested, nd_leaf_certificate = demo_der demo_leaf, nd_cabundle = [demo_der demo_ca],
    nd_signature = [], nd_signature_kind = CoseSign1Es384\<rparr>"
  have key: "p384_key_ok ref_cose_crates (replicate 48 3)" "p384_public ref_cose_crates (replicate 48 3) = replicate 48 3" by (simp_all add: ref_cose_crates_def)
  have "signed_by_leaf demo_nitro_crates ?doc"
    using b(1) sig key demo_certs [of demo_leaf]
    by (auto simp: signed_by_leaf_def demo_nitro_crates_def demo_leaf_def demo_cert_def Let_def)
  moreover have "mirrors_raw demo_nitro_crates ?doc" using b by (simp add: mirrors_raw_def demo_nitro_crates_def payload_of_def)
  moreover have "check_fresh 1000 1000 500 = Ok ()" using fresh_window [of 1000 1000 500] by (simp add: i64_ok_def)
  ultimately have "verify_attestation_with_root demo_nitro_crates ?doc pcr_any AwsNitroG1 1000 500 = Ok (payload_of demo_attested)"
    using demo_chain unfolding verify_attestation_with_root_def verify_attestation_Ok
    by (simp add: payload_of_def demo_attested_def pcrs_match_def pcr_any_def root_bytes_def demo_nitro_crates_def)
  from nonce_unprotected [OF this, of "replicate 32 1"] this show ?thesis
    by (intro exI [of _ ?doc] exI [of _ "payload_of demo_attested"]) (simp add: payload_of_def demo_attested_def)
qed

text \<open>Every certificate can act as an authority: whoever holds the key of a leaf that chains to the root can issue a further certificate,
  and the chain with the old leaf as an intermediate is accepted. Extensions such as the basic constraints are never examined.\<close>

theorem leaf_can_issue:
  assumes "verify_root_chain cr leaf cab root now = Ok ()" "x509_from_der cr leaf = Some l"
    and "x509_from_der cr forged = Some f" "x509_to_der cr f \<noteq> None" "issued_by cr now f l"
  shows "verify_root_chain cr forged (leaf # cab) root now = Ok ()"
proof -
  obtain cs r where chain: "map (x509_from_der cr) cab = map Some cs" "parse_root cr root = Some r"
    "successively (issued_by cr now) (l # cs @ [r])" "issued_by cr now r r" "x509_to_der cr r \<noteq> None"
    using assms(1,2) by (auto simp: verify_root_chain_Ok trusted_chain_def)
  have "trusted_chain cr now forged (leaf # cab) root"
    unfolding trusted_chain_def
    by (rule exI [of _ f], rule exI [of _ "l # cs"], rule exI [of _ r]) (use chain assms(2-5) in simp)
  then show ?thesis by (simp add: verify_root_chain_Ok)
qed

theorem leaf_can_issue_witness:
  "verify_root_chain ref_cose_crates (demo_der demo_forged) [demo_der demo_leaf, demo_der demo_ca] (demo_der demo_root) 1000 = Ok ()"
proof (rule leaf_can_issue [where l = demo_leaf and f = demo_forged])
  show "verify_root_chain ref_cose_crates (demo_der demo_leaf) [demo_der demo_ca] (demo_der demo_root) 1000 = Ok ()"
    using demo_chain by (simp add: verify_root_chain_Ok)
  show "issued_by ref_cose_crates 1000 demo_forged demo_leaf" by (simp add: demo_forged_def demo_leaf_def demo_issued)
qed (simp_all only: demo_certs not_False_eq_True)

end
