(* ===== verification/Nitro_Enclave.thy ===== *)
theory Nitro_Enclave
  imports Nitro_Attestation
begin

text \<open>
  The Nitro enclave from both ends of its socket: the host's client (\<open>qfc-enclave/src/enclaves/nitro.rs\<close>) and the
  program inside the enclave (\<open>enclave/src/main.rs\<close>). The connection is a parameter, JSON is a pair of functions per
  message type, and clock readings and random bytes are the fields of \<open>boot_inputs\<close>. An error crosses the
  wire as its text, so the text of an error is a parameter too.
\<close>

subsection \<open>Messages (nitro.rs)\<close>

definition VMADDR_CID_PARENT :: u32 where "VMADDR_CID_PARENT = 3"
definition NITRO_DEFAULT_PORT :: u32 where "NITRO_DEFAULT_PORT = 5005"

record vsock_addr =
  va_cid :: u32
  va_port :: u32

record nitro_sign_request =
  nsr_request_id :: request_id
  nsr_wallet_id :: wallet_id
  nsr_shares :: "shamir_share list"
  nsr_scheme :: signing_scheme
  nsr_hd_path :: "hd_path option"
  nsr_message :: bytes
  nsr_hash_alg :: hash_alg
  nsr_context :: signing_context
  nsr_policy_decision :: "signed_policy_decision option"
  nsr_approvals :: "enclave_approval list"

record nitro_generate_request =
  ngr_wallet_id :: wallet_id
  ngr_scheme :: signing_scheme
  ngr_threshold :: u8
  ngr_total :: u8
  ngr_master_hd_path :: "hd_path option"

datatype nitro_wire_request =
    WireAttest bytes
  | WireSign nitro_sign_request
  | WireGenerateWallet nitro_generate_request

datatype nitro_wire_response =
    WireAttested attestation_doc
  | WireSigned bytes bytes attestation_doc
  | WireGenerated "shamir_share list" bytes attestation_doc
  | WireError string

record wire_crates =
  wi_request_to_vec :: "nitro_wire_request \<Rightarrow> string + bytes"
  wi_request_from_slice :: "bytes \<Rightarrow> string + nitro_wire_request"
  wi_response_to_vec :: "nitro_wire_response \<Rightarrow> string + bytes"
  wi_response_from_slice :: "bytes \<Rightarrow> string + nitro_wire_response"

subsection \<open>The program in the enclave (enclave/src/main.rs)\<close>

record boot_config =
  bc_policy_service_pubkey :: bytes

datatype boot_error =
    BootAttestation attestation_error
  | BootVerify hybrid_verify_error
  | BootSss share_error
  | BootDerivation derivation_error
  | BootSigner signer_error
  | BootMessage string

record 'r boot_inputs =
  bi_received_nanos :: int
  bi_now_nanos :: int
  bi_att_nanos :: int
  bi_nonce :: bytes
  bi_entropy :: "nat \<Rightarrow> u8"
  bi_rng :: "nat \<Rightarrow> 'r"

definition boot_unix_ms :: "int \<Rightarrow> i64" where
  "boot_unix_ms nanos = (let ms = whole_units 1000000 nanos in if i64_ok ms then ms else 2 ^ 63 - 1)"

definition signing_request_for_verifier :: "i64 \<Rightarrow> nitro_sign_request \<Rightarrow> signing_request" where
  "signing_request_for_verifier received req =
     \<lparr>sr_request_id = nsr_request_id req, sr_wallet_id = nsr_wallet_id req, sr_requester = ApiKey ''in-enclave'',
      sr_payload = Raw (nsr_message req), sr_hd_path = nsr_hd_path req, sr_received_at_unix_ms = received\<rparr>"

definition boot_signing_key :: "'x hd_crates \<Rightarrow> signing_scheme \<Rightarrow> secret_bytes \<Rightarrow> hd_path option \<Rightarrow> (boot_error, secret_bytes) outcome" where
  "boot_signing_key hc scheme seed hd_path =
     (case hd_path of
        None \<Rightarrow>
          obind (fail_if (secret_len seed < 32) (BootMessage ''seed too short for classical scheme'')) (\<lambda>_.
          Ok (SecretBytes (take 32 (expose seed))))
      | Some path \<Rightarrow> obind (map_err BootDerivation (derive_classical hc scheme seed path)) (\<lambda>d. Ok (cd_secret d)))"

definition no_ceilings :: "wallet_id \<Rightarrow> wallet_ceilings" where
  "no_ceilings w = \<lparr>wc_wallet_id = w, wc_max_value_per_tx = None, wc_contract_allowlist = [], wc_chain_allowlist = []\<rparr>"

definition handle_sign :: "('x, 'sc, 'r) enclave_crates \<Rightarrow> boot_config \<Rightarrow> mock_attestation_key \<Rightarrow> 'r boot_inputs \<Rightarrow> nitro_sign_request \<Rightarrow>
   (boot_error, nitro_wire_response) outcome" where
  "handle_sign cr cfg key inp req =
     obind (map_err BootVerify (hybrid_verify (en_hybrid cr) (hybrid_new (bc_policy_service_pubkey cfg)) (nsr_policy_decision req)
       (nsr_approvals req) (signing_request_for_verifier (boot_unix_ms (bi_received_nanos inp)) req) (no_ceilings (nsr_wallet_id req))
       (boot_unix_ms (bi_now_nanos inp)))) (\<lambda>_.
     obind (map_err BootSss (combine_shares (en_sss cr) (nsr_shares req))) (\<lambda>combined.
     obind (boot_signing_key (en_hd cr) (nsr_scheme req) (SecretBytes combined) (nsr_hd_path req)) (\<lambda>signing_key.
     obind (map_err BootSigner (signer_for_scheme (en_sign cr) (nsr_scheme req))) (\<lambda>signer.
     obind (map_err BootSigner (sg_public_key signer signing_key)) (\<lambda>public_key.
     obind (map_err BootSigner (sg_sign signer signing_key (nsr_message req) (nsr_hash_alg req))) (\<lambda>signature.
     let user_data = as_bytes (hv_ulid (en_hybrid cr) (request_ulid (nsr_request_id req))) @ as_bytes ''|'' @
           as_bytes (hv_ulid (en_hybrid cr) (wallet_ulid (nsr_wallet_id req))) @ as_bytes ''|'' @
           sha256 (en_sign cr) (nsr_message req) @ as_bytes ''|'' @ sha256 (en_sign cr) signature in
     obind (map_err BootAttestation (sign_attestation (en_att cr) (bi_att_nanos inp) key (bi_nonce inp) user_data)) (\<lambda>attestation.
     Ok (WireSigned signature public_key attestation))))))))"

definition handle_generate :: "('x, 'sc, 'r) enclave_crates \<Rightarrow> mock_attestation_key \<Rightarrow> 'r boot_inputs \<Rightarrow> nitro_generate_request \<Rightarrow>
   (boot_error, nitro_wire_response) outcome" where
  "handle_generate cr key inp req =
     obind (fail_if (ngr_threshold req < 2 \<or> ngr_threshold req > ngr_total req) (BootMessage ''invalid (threshold, total)'')) (\<lambda>_.
     obind (fail_if (is_post_quantum (ngr_scheme req)) (BootMessage ''post-quantum schemes not implemented (M5)'')) (\<lambda>_.
     let seed = SecretBytes (map (bi_entropy inp) [0..<64]) in
     obind (case ngr_master_hd_path req of
         None \<Rightarrow> Ok (SecretBytes (take 32 (expose seed)))
       | Some path \<Rightarrow> obind (map_err BootDerivation (derive_classical (en_hd cr) (ngr_scheme req) seed path)) (\<lambda>d. Ok (cd_secret d))) (\<lambda>signing_key.
     obind (map_err BootSigner (signer_for_scheme (en_sign cr) (ngr_scheme req))) (\<lambda>signer.
     obind (map_err BootSigner (sg_public_key signer signing_key)) (\<lambda>public_key.
     obind (map_err BootSss (split_secret (en_sss cr) (bi_rng inp) (expose seed) \<lparr>sp_threshold = ngr_threshold req, sp_total = ngr_total req\<rparr>)) (\<lambda>shares.
     let user_data = as_bytes (hv_ulid (en_hybrid cr) (wallet_ulid (ngr_wallet_id req))) @ as_bytes ''|'' @
           sha256 (en_sign cr) public_key @ as_bytes ''|'' @ map ss_index shares in
     obind (map_err BootAttestation (sign_attestation (en_att cr) (bi_att_nanos inp) key (bi_nonce inp) user_data)) (\<lambda>attestation.
     Ok (WireGenerated shares public_key attestation))))))))"

definition dispatch :: "('x, 'sc, 'r) enclave_crates \<Rightarrow> boot_config \<Rightarrow> mock_attestation_key \<Rightarrow> 'r boot_inputs \<Rightarrow> nitro_wire_request \<Rightarrow>
   (boot_error, nitro_wire_response) outcome" where
  "dispatch cr cfg key inp req =
     (case req of
        WireAttest nonce \<Rightarrow> obind (map_err BootAttestation (sign_attestation (en_att cr) (bi_att_nanos inp) key nonce [])) (\<lambda>doc. Ok (WireAttested doc))
      | WireSign sign_req \<Rightarrow> handle_sign cr cfg key inp sign_req
      | WireGenerateWallet gen_req \<Rightarrow> handle_generate cr key inp gen_req)"

text \<open>One connection: the task reads a frame and answers it. A panicking handler ends the task, and the peer sees the stream close.\<close>

definition serve_vsock :: "(boot_error \<Rightarrow> string) \<Rightarrow> wire_crates \<Rightarrow> ('x, 'sc, 'r) enclave_crates \<Rightarrow> boot_config \<Rightarrow> mock_attestation_key \<Rightarrow>
   'r boot_inputs \<Rightarrow> bytes \<Rightarrow> bytes option" where
  "serve_vsock show_error wc cr cfg key inp body =
     map_option (\<lambda>resp. case wi_response_to_vec wc resp of Inl e \<Rightarrow> [] | Inr b \<Rightarrow> b)
       (case wi_request_from_slice wc body of
          Inl e \<Rightarrow> Some (WireError (''parse: '' @ e))
        | Inr req \<Rightarrow> (case dispatch cr cfg key inp req of
            Ok r \<Rightarrow> Some r
          | Err e \<Rightarrow> Some (WireError (show_error e))
          | Panic m \<Rightarrow> None))"

text \<open>The key from the environment. \<open>from_str_radix\<close> accepts a plus sign before the digits, and slicing a string
  inside a multi-byte character panics.\<close>

definition hex_digit_value :: "char \<Rightarrow> nat option" where
  "hex_digit_value c = (if is_ascii_hexdigit c then Some (let n = of_char (to_ascii_lower c) in if n < 58 then n - 48 else n - 87) else None)"

definition u8_from_hex_pair :: "char \<Rightarrow> char \<Rightarrow> u8 option" where
  "u8_from_hex_pair a b =
     (if a = CHR ''+'' then map_option word_of_nat (hex_digit_value b)
      else Option.bind (hex_digit_value a) (\<lambda>h. Option.bind (hex_digit_value b) (\<lambda>l. Some (word_of_nat (16 * h + l)))))"

definition char_boundary :: "char \<Rightarrow> bool" where
  "char_boundary c \<longleftrightarrow> \<not> (128 \<le> (of_char c :: nat) \<and> (of_char c :: nat) < 192)"

fun boot_hex_pairs :: "string \<Rightarrow> (string, bytes) outcome" where
  "boot_hex_pairs (a # b # r) =
     (if \<not> char_boundary a \<or> (r \<noteq> [] \<and> \<not> char_boundary (hd r)) then Panic ''byte index is not a char boundary''
      else obind (ok_or (u8_from_hex_pair a b) ''invalid digit found in string'') (\<lambda>x. obind (boot_hex_pairs r) (\<lambda>xs. Ok (x # xs))))"
| "boot_hex_pairs r = Ok []"

definition boot_hex_decode :: "string \<Rightarrow> (string, bytes) outcome" where
  "boot_hex_decode s = obind (fail_if (length s mod 2 \<noteq> 0) ''odd hex length'') (\<lambda>_. boot_hex_pairs s)"

definition load_policy_pubkey_from_env :: "string option \<Rightarrow> (string, bytes) outcome" where
  "load_policy_pubkey_from_env env =
     obind (ok_or env ''QFC_POLICY_SERVICE_PUBKEY_HEX env var required'') (\<lambda>v.
     obind (map_err (\<lambda>e. ''invalid pubkey hex: '' @ e) (boot_hex_decode v)) (\<lambda>b.
     obind (fail_if (length b \<noteq> 32) (''policy pubkey must be 32 bytes, got '' @ show_nat (length b))) (\<lambda>_. Ok b)))"

subsection \<open>The host's client (nitro.rs)\<close>

record nitro_enclave =
  ne_vsock_addr :: vsock_addr
  ne_expected_pcrs :: pcr_constraint

record nitro_enclave_builder =
  nb_vsock_addr :: "vsock_addr option"
  nb_expected_pcrs :: "pcr_constraint option"

definition nitro_builder_new :: nitro_enclave_builder where
  "nitro_builder_new = \<lparr>nb_vsock_addr = None, nb_expected_pcrs = None\<rparr>"

definition nitro_builder_vsock :: "nitro_enclave_builder \<Rightarrow> vsock_addr \<Rightarrow> nitro_enclave_builder" where
  "nitro_builder_vsock self addr = self\<lparr>nb_vsock_addr := Some addr\<rparr>"

definition nitro_builder_pcrs :: "nitro_enclave_builder \<Rightarrow> pcr_constraint \<Rightarrow> nitro_enclave_builder" where
  "nitro_builder_pcrs self pcrs = self\<lparr>nb_expected_pcrs := Some pcrs\<rparr>"

definition nitro_build :: "nitro_enclave_builder \<Rightarrow> (enclave_error, nitro_enclave) outcome" where
  "nitro_build self =
     obind (ok_or (nb_vsock_addr self) (InvalidRequest ''vsock_addr not set'')) (\<lambda>addr.
     obind (ok_or (nb_expected_pcrs self) (InvalidRequest ''expected_pcrs not set'')) (\<lambda>pcrs.
     Ok \<lparr>ne_vsock_addr = addr, ne_expected_pcrs = pcrs\<rparr>))"

text \<open>A connection to an address: an error of connecting, or what comes of sending one frame.\<close>

datatype vsock_reply = VsockSendFailed string | VsockClosed | VsockRecvFailed string | VsockReply bytes

record vsock =
  vs_connect_error :: "vsock_addr \<Rightarrow> string option"
  vs_exchange :: "vsock_addr \<Rightarrow> bytes \<Rightarrow> vsock_reply"

definition wire_failure :: "string \<Rightarrow> enclave_error" where
  "wire_failure m = EnclaveAttestation (PayloadParse m)"

definition round_trip :: "wire_crates \<Rightarrow> bool \<Rightarrow> vsock \<Rightarrow> nitro_enclave \<Rightarrow> nitro_wire_request \<Rightarrow> (enclave_error, nitro_wire_response) outcome" where
  "round_trip wc nitro_feature net self req =
     (if \<not> nitro_feature then Err (EnclaveNotImplemented ''nitro feature not enabled - build with --features nitro on a Nitro host'')
      else case vs_connect_error net (ne_vsock_addr self) of
        Some e \<Rightarrow> Err (wire_failure (''vsock connect: '' @ e))
      | None \<Rightarrow> (case wi_request_to_vec wc req of
          Inl e \<Rightarrow> Err (wire_failure e)
        | Inr body \<Rightarrow> (case vs_exchange net (ne_vsock_addr self) body of
            VsockSendFailed e \<Rightarrow> Err (wire_failure (''vsock send: '' @ e))
          | VsockClosed \<Rightarrow> Err (wire_failure ''vsock closed'')
          | VsockRecvFailed e \<Rightarrow> Err (wire_failure (''vsock recv: '' @ e))
          | VsockReply b \<Rightarrow> (case wi_response_from_slice wc b of Inl e \<Rightarrow> Err (wire_failure e) | Inr resp \<Rightarrow> Ok resp))))"

definition nitro_attest :: "wire_crates \<Rightarrow> bool \<Rightarrow> vsock \<Rightarrow> nitro_enclave \<Rightarrow> bytes \<Rightarrow> (enclave_error, attestation_doc) outcome" where
  "nitro_attest wc feature net self nonce =
     obind (round_trip wc feature net self (WireAttest nonce)) (\<lambda>resp. case resp of
       WireAttested doc \<Rightarrow> Ok doc
     | WireError m \<Rightarrow> Err (InvalidRequest m)
     | _ \<Rightarrow> Err (InvalidRequest ''unexpected nitro response''))"

definition wire_sign_request :: "enclave_sign_request \<Rightarrow> nitro_sign_request" where
  "wire_sign_request req =
     \<lparr>nsr_request_id = esr_request_id req, nsr_wallet_id = esr_wallet_id req, nsr_shares = esr_shares req, nsr_scheme = esr_scheme req,
      nsr_hd_path = esr_hd_path req, nsr_message = esr_message req, nsr_hash_alg = esr_hash_alg req, nsr_context = esr_context req,
      nsr_policy_decision = esr_policy_decision req, nsr_approvals = esr_approvals req\<rparr>"

definition nitro_sign_in_enclave :: "wire_crates \<Rightarrow> bool \<Rightarrow> vsock \<Rightarrow> nitro_enclave \<Rightarrow> enclave_sign_request \<Rightarrow> (enclave_error, enclave_sign_response) outcome" where
  "nitro_sign_in_enclave wc feature net self req =
     obind (round_trip wc feature net self (WireSign (wire_sign_request req))) (\<lambda>resp. case resp of
       WireSigned signature public_key doc \<Rightarrow> Ok \<lparr>resp_signature = signature, resp_public_key = public_key, resp_attestation = doc\<rparr>
     | WireError m \<Rightarrow> Err (InvalidRequest m)
     | _ \<Rightarrow> Err (InvalidRequest ''unexpected nitro response''))"

definition wire_generate_request :: "generate_wallet_request \<Rightarrow> nitro_generate_request" where
  "wire_generate_request req =
     \<lparr>ngr_wallet_id = gen_wallet_id req, ngr_scheme = gen_scheme req, ngr_threshold = gen_threshold req, ngr_total = gen_total req,
      ngr_master_hd_path = gen_master_hd_path req\<rparr>"

definition nitro_generate_wallet :: "wire_crates \<Rightarrow> bool \<Rightarrow> vsock \<Rightarrow> nitro_enclave \<Rightarrow> generate_wallet_request \<Rightarrow> (enclave_error, generate_wallet_response) outcome" where
  "nitro_generate_wallet wc feature net self req =
     obind (round_trip wc feature net self (WireGenerateWallet (wire_generate_request req))) (\<lambda>resp. case resp of
       WireGenerated shares public_key doc \<Rightarrow> Ok \<lparr>gresp_shares = shares, gresp_master_public_key = public_key, gresp_attestation = doc\<rparr>
     | WireError m \<Rightarrow> Err (InvalidRequest m)
     | _ \<Rightarrow> Err (InvalidRequest ''unexpected nitro response''))"

subsection \<open>The enclave program and the in-process enclave\<close>

text \<open>The in-process enclave with the same keys, and what is left of a request on the wire.\<close>

definition mirror_enclave :: "boot_config \<Rightarrow> mock_attestation_key \<Rightarrow> mock_enclave" where
  "mirror_enclave cfg key = \<lparr>mock_attestation_key = key, mock_policy_service_pubkey = Some (bc_policy_service_pubkey cfg), mock_require_signed_decision = True\<rparr>"

definition wire_view :: "enclave_sign_request \<Rightarrow> enclave_sign_request" where
  "wire_view req = req\<lparr>esr_wallet_ceilings := None, esr_policy_signing_payload := None\<rparr>"

lemma hybrid_verify_requester:
  "sr_request_id r = sr_request_id r' \<Longrightarrow> sr_payload r = sr_payload r' \<Longrightarrow> hybrid_verify cr self d aps r w now = hybrid_verify cr self d aps r' w now"
proof -
  assume eq: "sr_request_id r = sr_request_id r'" "sr_payload r = sr_payload r'"
  have "check_decision cr aps r now dec = check_decision cr aps r' now dec" for dec
    by (cases dec) (simp_all add: check_approvals_def eq)
  moreover have "check_hard_ceilings cr r w = check_hard_ceilings cr r' w"
    by (simp only: check_hard_ceilings_def check_chain_ceiling_def check_target_ceiling_def check_value_ceiling_def eq)
  ultimately show ?thesis by (simp only: hybrid_verify_def check_signed_def eq)
qed

lemma boot_verify_mirror:
  "map_err HybridVerification (hybrid_verify (en_hybrid cr) (hybrid_new (bc_policy_service_pubkey cfg)) (esr_policy_decision req) (esr_approvals req)
     (signing_request_for_verifier (boot_unix_ms t1) (wire_sign_request req))
     (no_ceilings (esr_wallet_id req)) (boot_unix_ms t2)) =
   mock_verify (en_hybrid cr) (mirror_enclave cfg key) t1 t2 (wire_view req)"
proof -
  have "with_require_signed_decision (hybrid_new pk) True = hybrid_new pk" for pk
    by (simp add: with_require_signed_decision_def hybrid_new_def)
  moreover have "boot_unix_ms = attestation_now" by (simp add: boot_unix_ms_def attestation_now_def fun_eq_iff)
  ultimately show ?thesis
    unfolding mock_verify_def mirror_enclave_def wire_view_def
    by (simp add: request_ceilings_def no_ceilings_def [symmetric], intro arg_cong [where f = "map_err HybridVerification"] hybrid_verify_requester)
      (simp_all add: signing_request_for_verifier_def wire_sign_request_def verifier_request_def)
qed

lemma boot_key_mirror:
  "boot_signing_key hc scheme seed path = Ok k \<longleftrightarrow> derive_signing_key hc scheme seed path = Ok k"
proof -
  have "derive_classical hc scheme seed p \<noteq> Ok d" if "\<not> is_classical scheme" for p d
    using that by (cases scheme) (simp_all add: derive_classical_def is_classical_def)
  then show ?thesis
    by (cases path) (auto simp: boot_signing_key_def derive_signing_key_def outcome_simps ML_DSA_SEED_BYTES_def)
qed

lemma combine_checks_params: "combine_shares cr shares = Ok seed \<Longrightarrow> \<exists>params. check_share_params shares = Ok params"
  by (cases shares) (auto simp: combine_shares_def check_shares_def check_share_params_def outcome_simps Let_def list_ex_iff split: if_splits)

lemma handle_sign_mirror:
  assumes "att_laws (en_att cr)" "attestation_key_ok (en_att cr) key" "\<forall>c. \<exists>b. en_context cr c = Inr b"
  shows "(\<exists>doc. handle_sign cr cfg key inp (wire_sign_request req) = Ok (WireSigned sig pk doc) \<and> attestation_verify (en_att cr) doc = Ok ()) \<longleftrightarrow>
    (\<exists>resp. sign_in_enclave cr (mirror_enclave cfg key) (bi_received_nanos inp) (bi_now_nanos inp) (bi_att_nanos inp) (bi_nonce inp) (wire_view req) = Ok resp \<and>
       resp_signature resp = sig \<and> resp_public_key resp = pk)"
    (is "?boot \<longleftrightarrow> ?mock")
proof -
  let ?steps = "\<exists>seed k. mock_verify (en_hybrid cr) (mirror_enclave cfg key) (bi_received_nanos inp) (bi_now_nanos inp) (wire_view req) = Ok () \<and>
    combine_shares (en_sss cr) (esr_shares req) = Ok seed \<and> derive_signing_key (en_hd cr) (esr_scheme req) (SecretBytes seed) (esr_hd_path req) = Ok k \<and>
    sg_public_key (signer_of (en_sign cr) (esr_scheme req)) k = Ok pk \<and>
    sg_sign (signer_of (en_sign cr) (esr_scheme req)) k (esr_message req) (esr_hash_alg req) = Ok sig"
  have att: "\<exists>doc. sign_attestation (en_att cr) t key n ud = Ok doc \<and> attestation_verify (en_att cr) doc = Ok ()" for t n ud
    using sign_attestation_verifies [OF assms(1,2)] by blast
  have verify: "map_err BootVerify (hybrid_verify (en_hybrid cr) (hybrid_new (bc_policy_service_pubkey cfg)) (esr_policy_decision req) (esr_approvals req)
     (signing_request_for_verifier (boot_unix_ms t1) (wire_sign_request req))
     (no_ceilings (esr_wallet_id req)) (boot_unix_ms t2)) = Ok () \<longleftrightarrow>
     mock_verify (en_hybrid cr) (mirror_enclave cfg key) t1 t2 (wire_view req) = Ok ()" for t1 t2
    unfolding boot_verify_mirror [symmetric] by (simp add: outcome_simps)
  have wire: "nsr_wallet_id (wire_sign_request req) = esr_wallet_id req" "nsr_policy_decision (wire_sign_request req) = esr_policy_decision req"
    "nsr_approvals (wire_sign_request req) = esr_approvals req" "nsr_shares (wire_sign_request req) = esr_shares req"
    "nsr_scheme (wire_sign_request req) = esr_scheme req" "nsr_hd_path (wire_sign_request req) = esr_hd_path req"
    "nsr_message (wire_sign_request req) = esr_message req" "nsr_hash_alg (wire_sign_request req) = esr_hash_alg req"
    by (simp_all add: wire_sign_request_def)
  have boot: "?boot \<longleftrightarrow> ?steps"
    unfolding handle_sign_def Let_def wire obind_eq_Ok signer_for_scheme_def map_err_eq_Ok boot_key_mirror
    using verify att by (auto simp: outcome_simps)
  have ctx: "\<exists>ctx. en_context cr (esr_context req) = Inr ctx" using assms(3) by blast
  have mock: "?mock \<longleftrightarrow> ?steps"
  proof
    assume ?mock
    then show ?steps
      by (auto simp: sign_in_enclave_def outcome_simps wire_view_def dest!: sign_with_shares_Ok)
  next
    assume ?steps
    then obtain seed k where s: "mock_verify (en_hybrid cr) (mirror_enclave cfg key) (bi_received_nanos inp) (bi_now_nanos inp) (wire_view req) = Ok ()"
      "combine_shares (en_sss cr) (esr_shares req) = Ok seed" "derive_signing_key (en_hd cr) (esr_scheme req) (SecretBytes seed) (esr_hd_path req) = Ok k"
      "sg_public_key (signer_of (en_sign cr) (esr_scheme req)) k = Ok pk"
      "sg_sign (signer_of (en_sign cr) (esr_scheme req)) k (esr_message req) (esr_hash_alg req) = Ok sig" by blast
    obtain params c doc where "check_share_params (esr_shares req) = Ok params" "en_context cr (esr_context req) = Inr c"
      "sign_attestation (en_att cr) (bi_att_nanos inp) key (bi_nonce inp) (sign_user_data cr (wire_view req) sig c) = Ok doc"
      using combine_checks_params [OF s(2)] ctx att by blast
    with s have "sign_with_shares cr (mirror_enclave cfg key) (bi_att_nanos inp) (bi_nonce inp) (wire_view req) =
        Ok \<lparr>resp_signature = sig, resp_public_key = pk, resp_attestation = doc\<rparr>"
      by (simp add: sign_with_shares_def wire_view_def signer_for_scheme_def mirror_enclave_def)
    with s(1) show ?mock by (simp add: sign_in_enclave_def)
  qed
  from boot mock show ?thesis by blast
qed

lemma handle_generate_mirror:
  "handle_generate cr key inp (wire_generate_request g) = Ok (WireGenerated shares pk doc) \<longleftrightarrow>
     \<not> is_post_quantum (gen_scheme g) \<and>
     generate_wallet cr (mirror_enclave cfg key) (bi_entropy inp) (bi_rng inp) (bi_att_nanos inp) (bi_nonce inp) g =
       Ok \<lparr>gresp_shares = shares, gresp_master_public_key = pk, gresp_attestation = doc\<rparr>"
proof -
  have key: "(case p of None \<Rightarrow> Ok (SecretBytes (take 32 (expose seed)))
      | Some path \<Rightarrow> obind (map_err BootDerivation (derive_classical hc sc seed path)) (\<lambda>d. Ok (cd_secret d))) = Ok k \<longleftrightarrow>
      derive_signing_key hc sc seed p = Ok k" if "\<not> is_post_quantum sc" "secret_len seed = 64" for p seed hc sc k
    using that by (cases p) (auto simp: derive_signing_key_def outcome_simps is_post_quantum_def)
  have len: "secret_len (SecretBytes (map (bi_entropy inp) [0..<64])) = 64" by (simp add: secret_len_def)
  have wire: "ngr_wallet_id (wire_generate_request g) = gen_wallet_id g" "ngr_scheme (wire_generate_request g) = gen_scheme g"
    "ngr_threshold (wire_generate_request g) = gen_threshold g" "ngr_total (wire_generate_request g) = gen_total g"
    "ngr_master_hd_path (wire_generate_request g) = gen_master_hd_path g"
    by (simp_all add: wire_generate_request_def)
  show ?thesis
  proof (cases "is_post_quantum (gen_scheme g)")
    case False
    then show ?thesis
      unfolding handle_generate_def generate_wallet_def Let_def wire obind_eq_Ok signer_for_scheme_def map_err_eq_Ok fail_if_eq_Ok key [OF False len]
      by (simp add: mirror_enclave_def outcome_simps)
  qed (simp add: handle_generate_def wire outcome_simps)
qed

subsection \<open>Over the wire\<close>

text \<open>
  What the derived JSON code promises. A request is read back as it was written. A response is an internally tagged
  enumeration, which is read through a buffer where the keys of a map are strings: one whose attestation has platform measurements,
  a map with \<open>u8\<close> keys, is refused, and any other is read back. Empty input is not JSON.
\<close>

definition carries_request :: "wire_crates \<Rightarrow> nitro_wire_request \<Rightarrow> bool" where
  "carries_request wc q \<longleftrightarrow> (\<exists>b. wi_request_to_vec wc q = Inr b \<and> wi_request_from_slice wc b = Inr q)"

definition response_docs :: "nitro_wire_response \<Rightarrow> attestation_doc list" where
  "response_docs r = (case r of WireAttested d \<Rightarrow> [d] | WireSigned s k d \<Rightarrow> [d] | WireGenerated ss k d \<Rightarrow> [d] | WireError m \<Rightarrow> [])"

definition tagged_response_laws :: "wire_crates \<Rightarrow> bool" where
  "tagged_response_laws wc \<longleftrightarrow> (\<exists>e. wi_response_from_slice wc [] = Inl e) \<and>
     (\<forall>r b. wi_response_to_vec wc r = Inr b \<longrightarrow>
        (if \<forall>d \<in> set (response_docs r). atp_pcrs (atd_payload d) = [] then wi_response_from_slice wc b = Inr r
         else \<exists>e. wi_response_from_slice wc b = Inl e))"

text \<open>
  The connection to a running enclave. Neither end sends a frame longer than the codec's limit; the enclave ignores the error
  and closes the stream.
\<close>

definition enclave_socket :: "nat \<Rightarrow> (boot_error \<Rightarrow> string) \<Rightarrow> wire_crates \<Rightarrow> ('x, 'sc, 'r) enclave_crates \<Rightarrow> boot_config \<Rightarrow> mock_attestation_key \<Rightarrow>
   'r boot_inputs \<Rightarrow> vsock" where
  "enclave_socket max_frame show_error wc cr cfg key inp =
     \<lparr>vs_connect_error = (\<lambda>_. None),
      vs_exchange = (\<lambda>_ body.
        if length body > max_frame then VsockSendFailed ''frame size too big''
        else case serve_vsock show_error wc cr cfg key inp body of
          None \<Rightarrow> VsockClosed
        | Some b \<Rightarrow> if length b > max_frame then VsockClosed else VsockReply b)\<rparr>"

text \<open>Every attestation of the program lists platform measurements.\<close>

lemma sign_attestation_pcrs: "sign_attestation ac t key n ud = Ok doc \<Longrightarrow> atp_pcrs (atd_payload doc) \<noteq> []"
  by (auto simp: sign_attestation_def mock_payload_def Let_def split: sum.splits)

lemma dispatch_docs: "dispatch cr cfg key inp q = Ok r \<Longrightarrow> \<exists>d \<in> set (response_docs r). atp_pcrs (atd_payload d) \<noteq> []"
  by (cases q) (auto simp: dispatch_def handle_sign_def handle_generate_def response_docs_def outcome_simps Let_def dest!: sign_attestation_pcrs)

text \<open>What the host gets of an answer: a refusal by its text, and of all else a failure to read.\<close>

lemma round_trip_answer:
  assumes "tagged_response_laws wc" "carries_request wc q" "dispatch cr cfg key inp q = Ok r"
  shows "\<exists>m. round_trip wc True (enclave_socket max_frame sh wc cr cfg key inp) self q = Err (wire_failure m)"
proof -
  obtain b where b: "wi_request_to_vec wc q = Inr b" "wi_request_from_slice wc b = Inr q" using assms(2) by (auto simp: carries_request_def)
  have "\<exists>e. wi_response_from_slice wc (case wi_response_to_vec wc r of Inl e \<Rightarrow> [] | Inr x \<Rightarrow> x) = Inl e"
    using assms(1) dispatch_docs [OF assms(3)] by (cases "wi_response_to_vec wc r") (auto simp: tagged_response_laws_def split: if_splits)
  then show ?thesis by (auto simp: round_trip_def enclave_socket_def serve_vsock_def b assms(3))
qed

lemma round_trip_refusal:
  assumes "tagged_response_laws wc" "wi_request_to_vec wc q = Inr b" "wi_request_from_slice wc b = Inr q" "length b \<le> max_frame"
    and "dispatch cr cfg key inp q = Err e" "wi_response_to_vec wc (WireError (sh e)) = Inr b'" "length b' \<le> max_frame"
  shows "round_trip wc True (enclave_socket max_frame sh wc cr cfg key inp) self q = Ok (WireError (sh e))"
proof -
  have "wi_response_from_slice wc b' = Inr (WireError (sh e))" using assms(1,6) by (auto simp: tagged_response_laws_def response_docs_def split: if_splits)
  with assms show ?thesis by (simp add: round_trip_def enclave_socket_def serve_vsock_def)
qed

lemma i64_ok_boot_unix_ms: "i64_ok (boot_unix_ms t)"
  by (simp add: boot_unix_ms_def Let_def i64_ok_def)

subsection \<open>An executable wire\<close>

definition put_share :: "shamir_share \<Rightarrow> nat list" where
  "put_share s = unat (ss_index s) # unat (sp_threshold (ss_params s)) # unat (sp_total (ss_params s)) # put_bytes (ss_blob s)"

definition get_share :: "nat list \<Rightarrow> (shamir_share \<times> nat list) option" where
  "get_share ts = (case ts of i # t # n # r \<Rightarrow> map_option (map_prod (\<lambda>b. \<lparr>ss_index = word_of_nat i,
     ss_params = \<lparr>sp_threshold = word_of_nat t, sp_total = word_of_nat n\<rparr>, ss_blob = b\<rparr>) id) (get_bytes r) | _ \<Rightarrow> None)"

lemma get_put_share [simp]: "get_share (put_share s @ rest) = Some (s, rest)"
  by (cases s; cases "ss_params s") (simp add: get_share_def put_share_def)

definition put_shares :: "shamir_share list \<Rightarrow> nat list" where
  "put_shares ss = length ss # concat (map put_share ss)"

definition get_shares :: "nat list \<Rightarrow> (shamir_share list \<times> nat list) option" where
  "get_shares ts = (case ts of [] \<Rightarrow> None | n # r \<Rightarrow> get_many get_share n r)"

lemma get_put_shares [simp]: "get_shares (put_shares ss @ rest) = Some (ss, rest)"
  using get_many_put [of ss get_share put_share rest] by (simp add: get_shares_def put_shares_def)

definition put_pcr :: "u8 \<times> bytes \<Rightarrow> nat list" where
  "put_pcr p = unat (fst p) # put_bytes (snd p)"

definition get_pcr :: "nat list \<Rightarrow> ((u8 \<times> bytes) \<times> nat list) option" where
  "get_pcr ts = (case ts of [] \<Rightarrow> None | i # r \<Rightarrow> map_option (map_prod (Pair (word_of_nat i)) id) (get_bytes r))"

lemma get_put_pcr [simp]: "get_pcr (put_pcr p @ rest) = Some (p, rest)"
  by (cases p) (simp add: get_pcr_def put_pcr_def)

definition put_doc :: "attestation_doc \<Rightarrow> nat list" where
  "put_doc d = (let p = atd_payload d in put_bytes (atd_raw_payload d) @ put_bytes (atd_signature d) @ put_string (atp_backend p) @
     put_int (atp_timestamp_unix_ms p) @ put_bytes (atp_nonce p) @ put_bytes (atp_attestation_public_key p) @ put_bytes (atp_user_data p) @
     length (atp_pcrs p) # concat (map put_pcr (atp_pcrs p)))"

definition get_doc :: "nat list \<Rightarrow> (attestation_doc \<times> nat list) option" where
  "get_doc ts = Option.bind (get_bytes ts) (\<lambda>(raw, r1). Option.bind (get_bytes r1) (\<lambda>(sig, r2). Option.bind (get_string r2) (\<lambda>(be, r3).
     Option.bind (get_int r3) (\<lambda>(t, r4). Option.bind (get_bytes r4) (\<lambda>(n, r5). Option.bind (get_bytes r5) (\<lambda>(vk, r6). Option.bind (get_bytes r6) (\<lambda>(ud, r7).
     case r7 of [] \<Rightarrow> None | k # r8 \<Rightarrow> Option.bind (get_many get_pcr k r8) (\<lambda>(pcrs, r9).
     Some (\<lparr>atd_raw_payload = raw, atd_payload = \<lparr>atp_backend = be, atp_timestamp_unix_ms = t, atp_nonce = n, atp_pcrs = pcrs,
       atp_attestation_public_key = vk, atp_user_data = ud\<rparr>, atd_signature = sig\<rparr>, r9)))))))))"

lemma get_put_doc [simp]: "get_doc (put_doc d @ rest) = Some (d, rest)"
  using get_many_put [of "atp_pcrs (atd_payload d)" get_pcr put_pcr rest]
  by (cases d; cases "atd_payload d") (simp add: get_doc_def put_doc_def Let_def)

primrec put_response :: "nitro_wire_response \<Rightarrow> nat list" where
  "put_response (WireAttested d) = 0 # put_doc d @ []"
| "put_response (WireSigned s k d) = 1 # put_bytes s @ put_bytes k @ put_doc d @ []"
| "put_response (WireGenerated ss k d) = 2 # put_shares ss @ put_bytes k @ put_doc d @ []"
| "put_response (WireError m) = 3 # put_string m @ []"

definition get_response :: "nat list \<Rightarrow> nitro_wire_response option" where
  "get_response ts = (case ts of [] \<Rightarrow> None | t # r \<Rightarrow>
     if t = 0 then map_option (WireAttested \<circ> fst) (get_doc r)
     else if t = 1 then Option.bind (get_bytes r) (\<lambda>(s, r1). Option.bind (get_bytes r1) (\<lambda>(k, r2). map_option (WireSigned s k \<circ> fst) (get_doc r2)))
     else if t = 2 then Option.bind (get_shares r) (\<lambda>(ss, r1). Option.bind (get_bytes r1) (\<lambda>(k, r2). map_option (WireGenerated ss k \<circ> fst) (get_doc r2)))
     else map_option (WireError \<circ> fst) (get_string r))"

lemma get_put_response: "get_response (put_response r) = Some r"
  by (cases r) (simp_all add: get_response_def del: append_Nil2)

text \<open>The requests of the example: creating its wallet, and its signing request with any shares.\<close>

definition demo_wire :: wire_crates where
  "demo_wire =
     \<lparr>wi_request_to_vec = (\<lambda>q. case q of
          WireGenerateWallet g \<Rightarrow> if g = wire_generate_request demo_generate then Inr [] else Inl ''other''
        | WireSign s \<Rightarrow> if s = wire_sign_request (demo_sign (nsr_shares s)) then Inr (token_bytes (put_shares (nsr_shares s))) else Inl ''other''
        | WireAttest n \<Rightarrow> Inl ''other''),
      wi_request_from_slice = (\<lambda>b. if b = [] then Inr (WireGenerateWallet (wire_generate_request demo_generate))
        else case get_shares (bytes_tokens b) of None \<Rightarrow> Inl ''expected value'' | Some (ss, r) \<Rightarrow> Inr (WireSign (wire_sign_request (demo_sign ss)))),
      wi_response_to_vec = (\<lambda>r. Inr (token_bytes (put_response r))),
      wi_response_from_slice = (\<lambda>b. case get_response (bytes_tokens b) of None \<Rightarrow> Inl ''expected value''
        | Some r \<Rightarrow> if \<forall>d \<in> set (response_docs r). atp_pcrs (atd_payload d) = [] then Inr r else Inl ''invalid type: string, expected u8'')\<rparr>"

lemma demo_wire_carries:
  "carries_request demo_wire (WireGenerateWallet (wire_generate_request demo_generate))"
  "carries_request demo_wire (WireSign (wire_sign_request (demo_sign shares)))" "tagged_response_laws demo_wire"
proof -
  show "carries_request demo_wire (WireGenerateWallet (wire_generate_request demo_generate))" by (simp add: carries_request_def demo_wire_def)
  have "bytes_tokens [] = []" using bytes_tokens_inverse [of "[]"] by (simp add: token_bytes_def write_tokens_def as_bytes_def)
  then have "get_response (bytes_tokens []) = None" by (simp add: get_response_def)
  then show "tagged_response_laws demo_wire" by (simp add: tagged_response_laws_def demo_wire_def get_put_response)
  have "nsr_shares (wire_sign_request (demo_sign shares)) = shares" by (simp add: wire_sign_request_def demo_sign_def)
  moreover have "token_bytes (put_shares shares) \<noteq> []" by (simp add: token_bytes_def as_bytes_def write_tokens_def put_shares_def)
  moreover have "get_shares (put_shares shares) = Some (shares, [])" using get_put_shares [of shares "[]"] by simp
  ultimately show "carries_request demo_wire (WireSign (wire_sign_request (demo_sign shares)))" by (simp add: carries_request_def demo_wire_def)
qed

definition demo_boot :: boot_config where "demo_boot = \<lparr>bc_policy_service_pubkey = replicate 32 7\<rparr>"

definition demo_inputs :: "unit boot_inputs" where
  "demo_inputs = \<lparr>bi_received_nanos = 0, bi_now_nanos = 61999000000, bi_att_nanos = 0, bi_nonce = [], bi_entropy = (\<lambda>_. 7), bi_rng = (\<lambda>_. ())\<rparr>"

definition demo_nitro :: nitro_enclave where
  "demo_nitro = \<lparr>ne_vsock_addr = \<lparr>va_cid = 16, va_port = NITRO_DEFAULT_PORT\<rparr>, ne_expected_pcrs = pcr_any\<rparr>"

abbreviation demo_socket :: vsock where
  "demo_socket \<equiv> enclave_socket 8388608 (\<lambda>_. ''error'') demo_wire ref_enclave_crates demo_boot (mock_attestation_key demo_enclave) demo_inputs"

lemma demo_mirror: "mirror_enclave demo_boot (mock_attestation_key demo_enclave) = demo_enclave"
  by (simp add: mirror_enclave_def demo_boot_def demo_enclave_def mock_with_require_signed_decision_def with_policy_service_pubkey_def mock_new_with_seed_def)

lemma demo_boot_generates:
  obtains r where "generate_wallet ref_enclave_crates demo_enclave (\<lambda>_. 7) (\<lambda>_. ()) 0 [] demo_generate = Ok r"
    "handle_generate ref_enclave_crates (mock_attestation_key demo_enclave) demo_inputs (wire_generate_request demo_generate) =
      Ok (WireGenerated (gresp_shares r) (gresp_master_public_key r) (gresp_attestation r))"
proof -
  obtain r where r: "generate_wallet ref_enclave_crates demo_enclave (\<lambda>_. 7) (\<lambda>_. ()) 0 [] demo_generate = Ok r" using demo_generates by blast
  have "handle_generate ref_enclave_crates (mock_attestation_key demo_enclave) demo_inputs (wire_generate_request demo_generate) =
      Ok (WireGenerated (gresp_shares r) (gresp_master_public_key r) (gresp_attestation r))"
    unfolding handle_generate_mirror [where cfg = demo_boot] demo_mirror using r
    by (simp add: demo_inputs_def) (simp add: demo_generate_def is_post_quantum_def is_classical_def)
  with r show thesis by (rule that)
qed

subsection \<open>Properties\<close>



text \<open>C14. The in-process enclave mirrors the enclave program: for the same keys, inputs and request without ceilings and structured payload, one
  signs exactly when the other does, with the same signature and public key, although the program leaves out the share checks the
  in-process enclave makes first.\<close>

theorem boot_signs_like_mock:
  assumes "enclave_laws cr" "attestation_key_ok (en_att cr) key"
  shows "(\<exists>doc. handle_sign cr cfg key inp (wire_sign_request req) = Ok (WireSigned sig pk doc) \<and> attestation_verify (en_att cr) doc = Ok ()) \<longleftrightarrow>
    (\<exists>resp. sign_in_enclave cr (mirror_enclave cfg key) (bi_received_nanos inp) (bi_now_nanos inp) (bi_att_nanos inp) (bi_nonce inp) (wire_view req) = Ok resp \<and>
       resp_signature resp = sig \<and> resp_public_key resp = pk)"
  by (rule handle_sign_mirror) (use assms in \<open>simp_all add: enclave_laws_def\<close>)

theorem boot_signs_like_mock_witness:
  "\<exists>(r :: generate_wallet_response) sig pk doc. handle_sign ref_enclave_crates demo_boot (mock_attestation_key demo_enclave) demo_inputs
      (wire_sign_request (demo_sign (gresp_shares r))) = Ok (WireSigned sig pk doc) \<and> attestation_verify (en_att ref_enclave_crates) doc = Ok ()"
proof -
  obtain r where r: "generate_wallet ref_enclave_crates demo_enclave (\<lambda>_. 7) (\<lambda>_. ()) 0 [] demo_generate = Ok r" using demo_generates by blast
  let ?req = "wire_view (demo_sign (gresp_shares r))"
  have "mock_verify (en_hybrid ref_enclave_crates) demo_enclave 0 61999000000 ?req = Ok ()"
    using demo_verifies [of "gresp_shares r"]
    by (cases "mock_policy_service_pubkey demo_enclave") (simp_all add: mock_verify_def verifier_request_def request_ceilings_def wire_view_def demo_sign_def)
  then obtain resp where "sign_in_enclave ref_enclave_crates demo_enclave 0 61999000000 0 [] ?req = Ok resp"
    using wallet_shares_sign [OF ref_enclave_laws demo_key_ok r, of ?req] demo_signs [OF r]
    by (force simp: wire_view_def demo_sign_def demo_generate_def supports_hash_def is_secp_def)
  then show ?thesis
    using boot_signs_like_mock [OF ref_enclave_laws demo_key_ok, of demo_boot demo_inputs "demo_sign (gresp_shares r)" "resp_signature resp" "resp_public_key resp"]
    by (auto simp: demo_mirror demo_inputs_def)
qed

end
