(* ===== verification/Approver_Client.thy ===== *)
theory Approver_Client
  imports Http_Api
begin

text \<open>
  The way of an approval request to an approver and of the vote back: the notifiers of \<open>qfc-quorum\<close>
  (\<open>approvers/webhook.rs\<close>, \<open>hardware.rs\<close>, \<open>onchain.rs\<close>) and the reference approver client
  (\<open>clients/approver-rs\<close>: \<open>webhook_handler.rs\<close>, \<open>wire.rs\<close>, \<open>processor.rs\<close>, \<open>prompt.rs\<close>,
  \<open>signer_loader.rs\<close>, \<open>audit.rs\<close>). The client's world is a parameter of its operations: how a record is appended
  to its local log and how a body is posted to the server. JSON text and HMAC are crates; the shape serde gives a
  type is written out, because the two sides do not agree on it.
\<close>

subsection \<open>Crates\<close>

record client_crates =
  cl_api :: api_crates
  cl_hmac :: "bytes \<Rightarrow> bytes \<Rightarrow> bytes"
  cl_to_vec :: "json \<Rightarrow> string + bytes"
  cl_from_slice :: "bytes \<Rightarrow> string + json"
  cl_shape_text :: "json \<Rightarrow> string"
  cl_status_text :: "nat \<Rightarrow> string"
  cl_signer_text :: "signer_error \<Rightarrow> string"

subsection \<open>What the server sends (approval.rs, identity.rs)\<close>

primrec scheme_name :: "signing_scheme \<Rightarrow> string" where
  "scheme_name Ed25519 = ''ed25519''"
| "scheme_name Secp256k1 = ''secp256k1''"
| "scheme_name Secp256k1Recoverable = ''secp256k1_recoverable''"
| "scheme_name MlDsa44 = ''ml_dsa44''"
| "scheme_name MlDsa65 = ''ml_dsa65''"
| "scheme_name MlDsa87 = ''ml_dsa87''"

definition bytes_json :: "bytes \<Rightarrow> json" where
  "bytes_json bs = JArr (map (\<lambda>b. JNum (uint b)) bs)"

fun identity_json :: "client_crates \<Rightarrow> approver_identity \<Rightarrow> json" where
  "identity_json cc (ChainAccount c a pk s) =
     JObj [(''kind'', JStr ''chain''), (''chain_id'', JNum (uint c)), (''address'', bytes_json a), (''public_key'', bytes_json pk),
       (''scheme'', JStr (scheme_name s))]"
| "identity_json cc (ExternalKey i pk s) =
     JObj [(''kind'', JStr ''external''), (''id'', JStr i), (''public_key'', bytes_json pk), (''scheme'', JStr (scheme_name s))]"
| "identity_json cc (Hardware h) =
     JObj [(''kind'', JStr ''hardware''), (''handle'', JStr (hah_handle h)), (''public_key'', bytes_json (hah_public_key h)),
       (''scheme'', JStr (scheme_name (hah_scheme h)))]"
| "identity_json cc (NestedWallet w pk s) =
     JObj [(''kind'', JStr ''nested_wallet''), (''wallet_id'', JStr (hc_ulid (cl_api cc) (wallet_ulid w))), (''public_key'', bytes_json pk),
       (''scheme'', JStr (scheme_name s))]"

definition request_json :: "client_crates \<Rightarrow> approval_request \<Rightarrow> json" where
  "request_json cc req =
     JObj [(''request_id'', JStr (hc_ulid (cl_api cc) (request_ulid (ar_request_id req)))),
       (''message_hash'', JStr (hex_encode (ar_message_hash req))),
       (''approver_set'', JArr (map (identity_json cc) (ar_approver_set req))),
       (''threshold'', JNum (uint (ar_threshold req)))]"

subsection \<open>Notifiers (webhook.rs, hardware.rs, onchain.rs)\<close>

definition WEBHOOK_SIGNATURE_HEADER :: string where "WEBHOOK_SIGNATURE_HEADER = ''x-qfc-signature''"

record notifier_config =
  nc_endpoint :: string
  nc_hmac_secret :: bytes
  nc_timeout_secs :: nat

definition webhook_config :: "string \<Rightarrow> bytes \<Rightarrow> notifier_config" where
  "webhook_config endpoint secret = \<lparr>nc_endpoint = endpoint, nc_hmac_secret = secret, nc_timeout_secs = 5\<rparr>"

definition hmac_sha256_hex :: "client_crates \<Rightarrow> bytes \<Rightarrow> bytes \<Rightarrow> string" where
  "hmac_sha256_hex cc secret payload = hex_encode (cl_hmac cc secret payload)"

type_synonym 'w http_client = "string \<Rightarrow> (string \<times> string) list \<Rightarrow> bytes \<Rightarrow> ('w, string, nat) proc"

text \<open>The two HTTP notifiers differ only in the words of their errors.\<close>

definition post_notice :: "string \<Rightarrow> string \<Rightarrow> client_crates \<Rightarrow> 'w http_client \<Rightarrow> notifier_config \<Rightarrow> approval_request \<Rightarrow>
   ('w, quorum_error, unit) proc" where
  "post_notice send_label answer_label cc client config req =
     pbind (plift (case cl_to_vec cc (request_json cc req) of Inl e \<Rightarrow> Err (Transport (''encode request: '' @ e)) | Inr b \<Rightarrow> Ok b)) (\<lambda>body.
     pbind (pmap_err (\<lambda>e. Transport (send_label @ '': '' @ e))
       (client (nc_endpoint config)
         [(''content-type'', ''application/json''), (WEBHOOK_SIGNATURE_HEADER, hmac_sha256_hex cc (nc_hmac_secret config) body)] body)) (\<lambda>status.
     if 200 \<le> status \<and> status < 300 then preturn () else pthrow (Transport (answer_label @ '' returned '' @ cl_status_text cc status))))"

definition webhook_notify :: "client_crates \<Rightarrow> 'w http_client \<Rightarrow> notifier_config \<Rightarrow> approval_request \<Rightarrow> ('w, quorum_error, unit) proc" where
  "webhook_notify = post_notice ''send webhook'' ''webhook''"

definition hardware_dispatch :: "client_crates \<Rightarrow> 'w http_client \<Rightarrow> notifier_config \<Rightarrow> approval_request \<Rightarrow> ('w, quorum_error, unit) proc" where
  "hardware_dispatch = post_notice ''send hw notify'' ''hw notify''"

record on_chain_event =
  oce_request_id :: request_id
  oce_message_hash :: bytes

text \<open>The broadcast channel is the list of events sent while someone subscribes.\<close>

definition on_chain_emit :: "bool \<Rightarrow> approval_request \<Rightarrow> on_chain_event list \<Rightarrow> on_chain_event list" where
  "on_chain_emit subscribed req sent =
     (if subscribed then sent @ [\<lparr>oce_request_id = ar_request_id req, oce_message_hash = ar_message_hash req\<rparr>] else sent)"

subsection \<open>What the client reads (wire.rs)\<close>

text \<open>
  The wire enumerations have the variants, fields and serde attributes of the server's schemas, so the types of
  \<open>Http_Schemas\<close> stand for both.
\<close>

type_synonym signing_scheme_wire = signing_scheme_dto

type_synonym approver_identity_wire = approver_identity_dto

record approval_request_wire =
  arw_request_id :: string
  arw_message_hash :: string
  arw_approver_set :: "approver_identity_wire list"
  arw_threshold :: u8

record submit_approval_wire =
  saw_approver_id :: string
  saw_approval_id :: string
  saw_decision :: string
  saw_signature_hex :: string
  saw_timestamp_unix_ms :: i64
  saw_message_hash_hex :: string
  saw_identity :: approver_identity_wire

text \<open>
  How a derived reader takes the fields of a struct: from an object that has each of them once and whatever else,
  or from an array in the order of declaration.
\<close>

definition json_struct :: "string list \<Rightarrow> json \<Rightarrow> json list option" where
  "json_struct names j =
     (case j of
        JObj kvs \<Rightarrow> those (map (\<lambda>k. case filter (\<lambda>kv. fst kv = k) kvs of [kv] \<Rightarrow> Some (snd kv) | _ \<Rightarrow> None) names)
      | JArr vs \<Rightarrow> if length vs = length names then Some vs else None
      | _ \<Rightarrow> None)"

definition scheme_of_name :: "string \<Rightarrow> signing_scheme_wire option" where
  "scheme_of_name s =
     map_option scheme_to_dto (find (\<lambda>x. scheme_name x = s) [Ed25519, Secp256k1, Secp256k1Recoverable, MlDsa44, MlDsa65, MlDsa87])"

definition read_scheme_wire :: "json \<Rightarrow> signing_scheme_wire option" where
  "read_scheme_wire j = (case j of JStr s \<Rightarrow> scheme_of_name s | JObj [(s, JNull)] \<Rightarrow> scheme_of_name s | _ \<Rightarrow> None)"

definition read_str :: "json \<Rightarrow> string option" where
  "read_str j = (case j of JStr s \<Rightarrow> Some s | _ \<Rightarrow> None)"

definition read_uint :: "int \<Rightarrow> json \<Rightarrow> int option" where
  "read_uint bound j = (case j of JNum n \<Rightarrow> if 0 \<le> n \<and> n < bound then Some n else None | _ \<Rightarrow> None)"

text \<open>An internally tagged enumeration: the tag is taken out and the rest is read as the variant's fields.\<close>

definition json_tagged :: "json \<Rightarrow> (string \<times> json) option" where
  "json_tagged j =
     (case j of
        JObj kvs \<Rightarrow> (case filter (\<lambda>kv. fst kv = ''kind'') kvs of [(_, JStr k)] \<Rightarrow> Some (k, JObj (filter (\<lambda>kv. fst kv \<noteq> ''kind'') kvs)) | _ \<Rightarrow> None)
      | JArr (JStr k # vs) \<Rightarrow> Some (k, JArr vs)
      | _ \<Rightarrow> None)"

definition read_keyed :: "(string \<Rightarrow> string \<Rightarrow> signing_scheme_wire \<Rightarrow> approver_identity_wire) \<Rightarrow> string \<Rightarrow> json \<Rightarrow> approver_identity_wire option" where
  "read_keyed con name j =
     Option.bind (json_struct [name, ''public_key_hex'', ''scheme''] j) (\<lambda>vs.
     Option.bind (read_str (vs ! 0)) (\<lambda>i. Option.bind (read_str (vs ! 1)) (\<lambda>pk.
     map_option (con i pk) (read_scheme_wire (vs ! 2)))))"

definition read_identity_wire :: "json \<Rightarrow> approver_identity_wire option" where
  "read_identity_wire j =
     Option.bind (json_tagged j) (\<lambda>(k, rest).
     if k = ''chain'' then
       Option.bind (json_struct [''chain_id'', ''address_hex'', ''public_key_hex'', ''scheme''] rest) (\<lambda>vs.
       Option.bind (read_uint (2 ^ 64) (vs ! 0)) (\<lambda>c. Option.bind (read_str (vs ! 1)) (\<lambda>a. Option.bind (read_str (vs ! 2)) (\<lambda>pk.
       map_option (ChainDto (word_of_int c) a pk) (read_scheme_wire (vs ! 3))))))
     else if k = ''external'' then read_keyed ExternalDto ''id'' rest
     else if k = ''hardware'' then read_keyed HardwareDto ''handle'' rest
     else if k = ''nested_wallet'' then read_keyed NestedWalletDto ''wallet_id'' rest
     else None)"

definition read_request_wire :: "json \<Rightarrow> approval_request_wire option" where
  "read_request_wire j =
     Option.bind (json_struct [''request_id'', ''message_hash'', ''approver_set'', ''threshold''] j) (\<lambda>vs.
     Option.bind (read_str (vs ! 0)) (\<lambda>r. Option.bind (read_str (vs ! 1)) (\<lambda>m.
     Option.bind (case vs ! 2 of JArr ids \<Rightarrow> those (map read_identity_wire ids) | _ \<Rightarrow> None) (\<lambda>ids.
     map_option (\<lambda>t. \<lparr>arw_request_id = r, arw_message_hash = m, arw_approver_set = ids, arw_threshold = word_of_int t\<rparr>)
       (read_uint 256 (vs ! 3))))))"

subsection \<open>The signing key (signer_loader.rs)\<close>

datatype signer_load_error = SecretIo string string | SecretLength string nat | SignerFault signer_error

definition load_secret :: "(string \<Rightarrow> string + bytes) \<Rightarrow> string \<Rightarrow> (signer_load_error, secret_bytes) outcome" where
  "load_secret read path =
     (case read path of
        Inl e \<Rightarrow> Err (SecretIo path e)
      | Inr b \<Rightarrow> if length b \<noteq> 32 then Err (SecretLength path (length b)) else Ok (SecretBytes b))"

record approver_signer =
  asg_secret :: secret_bytes
  asg_scheme :: signing_scheme
  asg_public_key :: bytes

definition approver_signer_new :: "sign_crates \<Rightarrow> secret_bytes \<Rightarrow> signing_scheme \<Rightarrow> (signer_load_error, approver_signer) outcome" where
  "approver_signer_new cr secret scheme =
     obind (map_err SignerFault (dispatch_signer cr scheme (\<lambda>s. sg_public_key s secret))) (\<lambda>pk.
     Ok \<lparr>asg_secret = secret, asg_scheme = scheme, asg_public_key = pk\<rparr>)"

definition approver_sign :: "sign_crates \<Rightarrow> approver_signer \<Rightarrow> bytes \<Rightarrow> (signer_load_error, bytes) outcome" where
  "approver_sign cr self preimage =
     (let alg = (case asg_scheme self of
          Ed25519 \<Rightarrow> HashNone | MlDsa44 \<Rightarrow> HashNone | MlDsa65 \<Rightarrow> HashNone | MlDsa87 \<Rightarrow> HashNone
        | Secp256k1 \<Rightarrow> Sha256 | Secp256k1Recoverable \<Rightarrow> Sha256) in
      map_err SignerFault (dispatch_signer cr (asg_scheme self) (\<lambda>s. sg_sign s (asg_secret self) preimage alg)))"

subsection \<open>Deciding (processor.rs, prompt.rs)\<close>

datatype decision = DecideApprove | DecideReject | DecideRefuse

datatype decision_policy = AutoApprove | AutoReject | Interactive | RefuseAll

text \<open>The operator's line is absent at the end of the input and after a read error.\<close>

definition prompt_for_decision :: "string option \<Rightarrow> decision" where
  "prompt_for_decision line =
     (case line of
        None \<Rightarrow> DecideRefuse
      | Some l \<Rightarrow> if to_ascii_lowercase (trim l) \<in> {''y'', ''yes'', ''approve''} then DecideApprove
          else if to_ascii_lowercase (trim l) \<in> {''n'', ''no'', ''reject''} then DecideReject else DecideRefuse)"

definition decide :: "decision_policy \<Rightarrow> string option \<Rightarrow> decision" where
  "decide policy line =
     (case policy of AutoApprove \<Rightarrow> DecideApprove | AutoReject \<Rightarrow> DecideReject | RefuseAll \<Rightarrow> DecideRefuse
      | Interactive \<Rightarrow> prompt_for_decision line)"

subsection \<open>Processing a request (processor.rs, audit.rs)\<close>

record processor_config =
  pcf_server :: string
  pcf_approver_id :: string
  pcf_policy :: decision_policy

record processor =
  pr_signer :: approver_signer
  pr_config :: processor_config
  pr_now_unix_ms_override :: "i64 option"
  pr_identity_override :: "approver_identity_wire option"

definition processor_new :: "approver_signer \<Rightarrow> processor_config \<Rightarrow> processor" where
  "processor_new signer config =
     \<lparr>pr_signer = signer, pr_config = config, pr_now_unix_ms_override = None, pr_identity_override = None\<rparr>"

definition with_identity :: "approver_identity_wire \<Rightarrow> processor \<Rightarrow> processor" where
  "with_identity identity self = self\<lparr>pr_identity_override := Some identity\<rparr>"

definition identity_for_wire :: "processor \<Rightarrow> approver_identity_wire" where
  "identity_for_wire self =
     (case pr_identity_override self of
        Some i \<Rightarrow> i
      | None \<Rightarrow> ExternalDto (pcf_approver_id (pr_config self)) (hex_encode (asg_public_key (pr_signer self))) (scheme_to_dto (asg_scheme (pr_signer self))))"

record client_record =
  clr_timestamp :: string
  clr_event :: string
  clr_request_id :: string
  clr_approver_id :: string
  clr_message_hash_hex :: string
  clr_decision :: string
  clr_signature_hex :: "string option"
  clr_server_status :: "nat option"
  clr_note :: "string option"

record process_outcome =
  po_decision :: decision
  po_server_status :: "nat option"
  po_approval_id :: string

datatype processor_error = ProcessBadRequest string | ProcessSigner string | ProcessHttp string

primrec processor_error_text :: "processor_error \<Rightarrow> string" where
  "processor_error_text (ProcessBadRequest e) = ''bad request: '' @ e"
| "processor_error_text (ProcessSigner e) = ''signer: '' @ e"
| "processor_error_text (ProcessHttp e) = ''http: '' @ e"

primrec signer_load_text :: "client_crates \<Rightarrow> signer_load_error \<Rightarrow> string" where
  "signer_load_text cc (SecretIo path e) = ''read secret file '' @ path @ '': '' @ e"
| "signer_load_text cc (SecretLength path n) = ''secret file '' @ path @ '' is '' @ show_nat n @ '' bytes, expected exactly 32''"
| "signer_load_text cc (SignerFault e) = ''signer failed: '' @ cl_signer_text cc e"

definition decode_msg_hash :: "client_crates \<Rightarrow> string \<Rightarrow> (processor_error, bytes) outcome" where
  "decode_msg_hash cc s =
     (case hc_hex_decode (cl_api cc) s of
        Inl e \<Rightarrow> Err (ProcessBadRequest (''hex: '' @ e))
      | Inr b \<Rightarrow> if length b = 32 then Ok b else Err (ProcessBadRequest ''message_hash must be 32 bytes''))"

text \<open>
  What one run takes from outside: the operator's line, the fresh approval identifier, the clock in seconds and its text.
  The environment appends to the local log (a failure there is ignored) and posts a body to a URL.
\<close>

record client_turn =
  ct_line :: "string option"
  ct_approval_id :: approval_id
  ct_unix_seconds :: int
  ct_now_text :: string

record 'w client_env =
  ce_append :: "client_record \<Rightarrow> 'w \<Rightarrow> 'w"
  ce_post :: "string \<Rightarrow> submit_approval_wire \<Rightarrow> ('w, string, nat) proc"

definition append_record :: "'w client_env \<Rightarrow> client_record \<Rightarrow> ('w, 'e, unit) proc" where
  "append_record env r w = Some (Ok (), ce_append env r w)"

definition base_url :: "string \<Rightarrow> string" where
  "base_url server = rev (dropWhile (\<lambda>c. c = CHR ''/'') (rev server))"

definition approvals_url :: "string \<Rightarrow> string \<Rightarrow> string" where
  "approvals_url server request_id = base_url server @ ''/requests/'' @ request_id @ ''/approvals''"

definition process :: "client_crates \<Rightarrow> 'w client_env \<Rightarrow> processor \<Rightarrow> client_turn \<Rightarrow> approval_request_wire \<Rightarrow>
   ('w, processor_error, process_outcome) proc" where
  "process cc env self turn req =
     (let decision = decide (pcf_policy (pr_config self)) (ct_line turn);
          rec = \<lparr>clr_timestamp = ct_now_text turn, clr_event = ''rejected'', clr_request_id = arw_request_id req,
            clr_approver_id = pcf_approver_id (pr_config self), clr_message_hash_hex = arw_message_hash req, clr_decision = ''refused'',
            clr_signature_hex = None, clr_server_status = None, clr_note = Some ''operator refused''\<rparr> in
      if decision = DecideRefuse then
        pbind (append_record env rec) (\<lambda>_. preturn \<lparr>po_decision = decision, po_server_status = None, po_approval_id = []\<rparr>)
      else
        pbind (plift (case hc_ulid_parse (cl_api cc) (arw_request_id req) of Inl e \<Rightarrow> Err (ProcessBadRequest (''invalid ULID: '' @ e)) | Inr u \<Rightarrow> Ok (RequestId u))) (\<lambda>rid.
        pbind (plift (decode_msg_hash cc (arw_message_hash req))) (\<lambda>message_hash.
        let aid = ct_approval_id turn;
            vote = (if decision = DecideApprove then Approve else Reject);
            now_ms = (case pr_now_unix_ms_override self of Some t \<Rightarrow> t | None \<Rightarrow> ct_unix_seconds turn * 1000);
            preimage = signing_preimage (hc_ulid (cl_api cc)) aid rid message_hash vote now_ms in
        pbind (plift (map_err (ProcessSigner \<circ> signer_load_text cc) (approver_sign (sv_sign (hc_service (cl_api cc))) (pr_signer self) preimage))) (\<lambda>signature.
        let body = \<lparr>saw_approver_id = pcf_approver_id (pr_config self), saw_approval_id = hc_ulid (cl_api cc) (approval_ulid aid),
              saw_decision = (if decision = DecideApprove then ''approve'' else ''reject''), saw_signature_hex = hex_encode signature,
              saw_timestamp_unix_ms = now_ms, saw_message_hash_hex = arw_message_hash req, saw_identity = identity_for_wire self\<rparr> in
        pbind (pmap_err ProcessHttp (ce_post env (approvals_url (pcf_server (pr_config self)) (arw_request_id req)) body)) (\<lambda>status.
        pbind (append_record env (rec\<lparr>clr_event := (if 200 \<le> status \<and> status < 300 then ''posted'' else ''error''), clr_decision := saw_decision body,
          clr_signature_hex := Some (hex_encode signature), clr_server_status := Some status, clr_note := None\<rparr>)) (\<lambda>_.
        preturn \<lparr>po_decision = decision, po_server_status = Some status, po_approval_id = hc_ulid (cl_api cc) (approval_ulid aid)\<rparr>))))))"

subsection \<open>The webhook (webhook_handler.rs)\<close>

record client_state =
  cs_hmac_secret :: bytes
  cs_processor :: processor

datatype webhook_error =
    MissingSignature | MalformedSignature string | BadSignature | BadBody string | ProcessorFailed string

primrec webhook_error_text :: "webhook_error \<Rightarrow> string" where
  "webhook_error_text MissingSignature = ''missing X-QFC-Signature header''"
| "webhook_error_text (MalformedSignature e) = ''malformed X-QFC-Signature header: '' @ e"
| "webhook_error_text BadSignature = ''X-QFC-Signature mismatch''"
| "webhook_error_text (BadBody e) = ''invalid body: '' @ e"
| "webhook_error_text (ProcessorFailed e) = ''processor failed: '' @ e"

definition webhook_into_response :: "webhook_error \<Rightarrow> nat \<times> string" where
  "webhook_into_response self =
     ((case self of MissingSignature \<Rightarrow> 401 | MalformedSignature _ \<Rightarrow> 401 | BadSignature \<Rightarrow> 401 | BadBody _ \<Rightarrow> 400 | ProcessorFailed _ \<Rightarrow> 500),
      webhook_error_text self)"

definition verify_hmac :: "client_crates \<Rightarrow> bytes option \<Rightarrow> bytes \<Rightarrow> bytes \<Rightarrow> (webhook_error, unit) outcome" where
  "verify_hmac cc header secret body =
     obind (ok_or header MissingSignature) (\<lambda>hv.
     obind (ok_or (hc_header_to_str (cl_api cc) hv) (MalformedSignature ''failed to convert header to a str'')) (\<lambda>header_str.
     obind (case hc_hex_decode (cl_api cc) header_str of Inl e \<Rightarrow> Err (MalformedSignature (''hex: '' @ e)) | Inr b \<Rightarrow> Ok b) (\<lambda>provided.
     obind (fail_if (length provided \<noteq> 32) (MalformedSignature (''expected 32 raw bytes, got '' @ show_nat (length provided)))) (\<lambda>_.
     if cl_hmac cc secret body = provided then Ok () else Err BadSignature))))"

definition read_body :: "client_crates \<Rightarrow> bytes \<Rightarrow> (webhook_error, approval_request_wire) outcome" where
  "read_body cc body =
     (case cl_from_slice cc body of
        Inl e \<Rightarrow> Err (BadBody (''json: '' @ e))
      | Inr j \<Rightarrow> (case read_request_wire j of None \<Rightarrow> Err (BadBody (''json: '' @ cl_shape_text cc j)) | Some req \<Rightarrow> Ok req))"

definition handle_webhook :: "client_crates \<Rightarrow> 'w client_env \<Rightarrow> client_state \<Rightarrow> client_turn \<Rightarrow> bytes option \<Rightarrow> bytes \<Rightarrow> ('w, webhook_error, nat) proc" where
  "handle_webhook cc env st turn header body =
     pbind (plift (verify_hmac cc header (cs_hmac_secret st) body)) (\<lambda>_.
     pbind (plift (read_body cc body)) (\<lambda>req.
     pbind (pmap_err (ProcessorFailed \<circ> processor_error_text) (process cc env (cs_processor st) turn req)) (\<lambda>_. preturn 200)))"

text \<open>The status the handler's result becomes; a panic of the handler closes the connection.\<close>

definition client_router :: "client_crates \<Rightarrow> 'w client_env \<Rightarrow> client_state \<Rightarrow> client_turn \<Rightarrow> 'w http_client" where
  "client_router cc env st turn url headers body w =
     map_option (\<lambda>(r, w'). (case r of Ok n \<Rightarrow> Ok n | Err e \<Rightarrow> Ok (fst (webhook_into_response e)) | Panic _ \<Rightarrow> Err ''connection closed'', w'))
       (handle_webhook cc env st turn (map_option as_bytes (map_of headers WEBHOOK_SIGNATURE_HEADER)) body w)"

subsection \<open>The client against the server\<close>

text \<open>
  The server's side of a post: the route of the vote, the body read as the schema of the route, and the answer's status.
  A body that is not of the schema is rejected only behind the key. The header is what the connection carries as the API key.
\<close>

definition read_submission :: "submit_approval_wire \<Rightarrow> submit_approval_request option" where
  "read_submission b =
     map_option (\<lambda>d. \<lparr>sar_approver_id = saw_approver_id b, sar_approval_id = saw_approval_id b, sar_decision = d, sar_signature_hex = saw_signature_hex b,
        sar_timestamp_unix_ms = saw_timestamp_unix_ms b, sar_message_hash_hex = saw_message_hash_hex b, sar_identity = saw_identity b\<rparr>)
       (if saw_decision b = ''approve'' then Some ApproveDto else if saw_decision b = ''reject'' then Some RejectDto else None)"

definition approvals_route :: "string \<Rightarrow> string \<Rightarrow> string option" where
  "approvals_route base url =
     Option.bind (strip_prefix (base @ ''/requests/'') url) (\<lambda>rest.
     let i = takeWhile (\<lambda>c. c \<noteq> CHR ''/'') rest in if rest = i @ ''/approvals'' then Some i else None)"

type_synonym 'p client_world = "'p world service_state \<times> client_record list"

definition server_post :: "api_crates \<Rightarrow> ('x, 'sc, 'r, 'p) wiring \<Rightarrow> bytes option \<Rightarrow> nat \<Rightarrow> string \<Rightarrow> string \<Rightarrow> bytes option \<Rightarrow>
   string \<Rightarrow> submit_approval_wire \<Rightarrow> ('p client_world, string, nat) proc" where
  "server_post cr wi sg timeout raw base header url body w =
     (case approvals_route base url of
        None \<Rightarrow> Some (Ok 404, w)
      | Some i \<Rightarrow>
          (case read_submission body of
             None \<Rightarrow> Some (Ok (if require_api_key cr (load_api_keys raw) header = Ok () then 422 else 401), w)
           | Some req \<Rightarrow>
               map_option (\<lambda>(r, s'). (case r of Ok resp \<Rightarrow> Ok (hr_status resp) | _ \<Rightarrow> Err ''connection closed'', (s', snd w)))
                 (serve_http cr wi sg timeout raw header (PostApprovals i req) (fst w))))"

definition client_of :: "api_crates \<Rightarrow> ('x, 'sc, 'r, 'p) wiring \<Rightarrow> bytes option \<Rightarrow> nat \<Rightarrow> string \<Rightarrow> string \<Rightarrow> bytes option \<Rightarrow>
   'p client_world client_env" where
  "client_of cr wi sg timeout raw base header =
     \<lparr>ce_append = (\<lambda>r w. (fst w, snd w @ [r])), ce_post = server_post cr wi sg timeout raw base header\<rparr>"

subsection \<open>Notifications read by the client\<close>

definition webhook_laws :: "client_crates \<Rightarrow> bool" where
  "webhook_laws cc \<longleftrightarrow> api_laws (cl_api cc) \<and> (\<forall>k m. length (cl_hmac cc k m) = 32) \<and>
     (\<forall>b. hc_header_to_str (cl_api cc) (as_bytes (hex_encode b)) = Some (hex_encode b)) \<and>
     (\<forall>j b. cl_to_vec cc j = Inr b \<longrightarrow> cl_from_slice cc b = Inr j)"

lemma verify_hmac_signed:
  "webhook_laws cc \<Longrightarrow> verify_hmac cc (Some (as_bytes (hmac_sha256_hex cc k body))) secret body =
     (if cl_hmac cc secret body = cl_hmac cc k body then Ok () else Err BadSignature)"
  by (simp add: webhook_laws_def api_laws_def verify_hmac_def hmac_sha256_hex_def)

lemma server_identity_unreadable: "read_identity_wire (identity_json cc i) = None"
  by (cases i) (simp_all add: read_identity_wire_def json_tagged_def read_keyed_def json_struct_def)

lemma those_None: "x \<in> set xs \<Longrightarrow> f x = None \<Longrightarrow> those (map f xs) = None"
  by (induction xs) (auto split: option.splits)

definition wire_of :: "client_crates \<Rightarrow> approval_request \<Rightarrow> approval_request_wire" where
  "wire_of cc req = \<lparr>arw_request_id = hc_ulid (cl_api cc) (request_ulid (ar_request_id req)), arw_message_hash = hex_encode (ar_message_hash req),
     arw_approver_set = [], arw_threshold = ar_threshold req\<rparr>"

lemma read_server_request:
  "read_request_wire (request_json cc req) = (if ar_approver_set req = [] then Some (wire_of cc req) else None)"
proof -
  have "those (map read_identity_wire (map (identity_json cc) xs)) = None" if "xs \<noteq> []" for xs
    using that those_None [of "identity_json cc (hd xs)" "map (identity_json cc) xs" read_identity_wire] by (simp add: server_identity_unreadable)
  moreover have "uint (ar_threshold req) < 256" using uint_lt2p [of "ar_threshold req"] by simp
  ultimately show ?thesis
    by (simp add: read_request_wire_def request_json_def json_struct_def read_str_def read_uint_def wire_of_def)
qed

subsection \<open>Votes read by the server\<close>

lemma approver_sign_verifies:
  assumes "sign_laws cr" "approver_signer_new cr secret scheme = Ok signer"
  shows "\<exists>sig. approver_sign cr signer m = Ok sig \<and>
    sg_verify (signer_of cr (asg_scheme signer)) (asg_public_key signer) m sig (hash_alg_for (asg_scheme signer)) = Ok ()"
proof -
  have alg: "approver_sign cr signer m = map_err SignerFault (sg_sign (signer_of cr (asg_scheme signer)) (asg_secret signer) m (hash_alg_for (asg_scheme signer)))"
    by (cases "asg_scheme signer") (simp_all add: approver_sign_def dispatch_signer_def hash_alg_for_def)
  have key: "sg_public_key (signer_of cr (asg_scheme signer)) (asg_secret signer) = Ok (asg_public_key signer)"
    using assms(2) by (auto simp: approver_signer_new_def dispatch_signer_def outcome_simps)
  note c = signer_contract [OF assms(1), of "asg_scheme signer"]
  from signing_contract.key_only_valid [OF c key] obtain sig where
    sig: "sg_sign (signer_of cr (asg_scheme signer)) (asg_secret signer) m (hash_alg_for (asg_scheme signer)) = Ok sig"
    using signing_contract.sign_total [OF c] supports_hash_alg_for by blast
  with signing_contract.signature_checks [OF c sig key] show ?thesis by (simp add: alg)
qed

lemma strip_own_prefix: "strip_prefix p (p @ s) = Some s"
  by (simp add: strip_prefix_def)

lemma approvals_route_url:
  assumes "CHR ''/'' \<notin> set i"
  shows "approvals_route (base_url server) (approvals_url server i) = Some i"
proof -
  have "takeWhile (\<lambda>c. c \<noteq> CHR ''/'') (i @ ''/approvals'') = i" using assms by (subst takeWhile_append2) auto
  then show ?thesis
    using strip_own_prefix [of "base_url server @ ''/requests/''" "i @ ''/approvals''"] by (simp add: approvals_route_def approvals_url_def)
qed

lemma service_records:
  assumes "get_approver who (wo_registry (ss_world s)) = Ok rec" "rec_identity rec = ap_approver a" "rec_status rec \<noteq> Revoked"
    and "approval_verify (sv_sign cr) (sv_ulid cr) a (ap_request_id a) h (whole_units 1000000 (env_clock (wi_env wi) (wo_tick (ss_world s)))) = Ok ()"
    and "record_approval a who (wo_approvals (ss_world s)) = (Ok Inserted, st)"
    and "i64_ok (whole_units 1000000 (env_clock (wi_env wi) (wo_tick (ss_world s))))"
  shows "\<exists>s'. service_record_approval cr (server_service wi sg timeout) a who h s = Some (Ok Inserted, s') \<and> wo_approvals (ss_world s') = st"
  using assms
  by (simp add: service_record_approval_def pbind_def pmap_err_def on_world_def wired_stores service_unix_ms_def wired_rest plift_def Let_def)

lemma vote_answered:
  assumes "api_laws cr" "hc_header_to_str cr hv = Some key" "key \<in> load_api_keys raw"
    and "length (ap_message_hash a) = 32"
    and "service_record_approval (hc_service cr) (server_service wi sg timeout) a who (ap_message_hash a) s = Some (Ok Inserted, s')"
    and "read_submission body = Some \<lparr>sar_approver_id = hc_ulid cr (approver_ulid who), sar_approval_id = hc_ulid cr (approval_ulid (ap_approval_id a)),
      sar_decision = decision_to_dto (ap_decision a), sar_signature_hex = hex_encode (ap_signature a), sar_timestamp_unix_ms = ap_timestamp_unix_ms a,
      sar_message_hash_hex = hex_encode (ap_message_hash a), sar_identity = identity_to_dto cr (ap_approver a)\<rparr>"
    and "CHR ''/'' \<notin> set (hc_ulid cr (request_ulid (ap_request_id a)))"
  shows "server_post cr wi sg timeout raw (base_url server) (Some hv) (approvals_url server (hc_ulid cr (request_ulid (ap_request_id a)))) body (s, log) =
    Some (Ok 200, (s', log))"
proof -
  obtain r where r: "ap_request_id a = RequestId r" by (cases "ap_request_id a")
  note signed = submitted_view [OF assms(1,4), of who, unfolded r]
  have route: "approvals_route (base_url server) (approvals_url server (hc_ulid cr r)) = Some (hc_ulid cr r)"
    using assms(7) by (intro approvals_route_url) (simp add: r)
  show ?thesis
    using assms(5,6) signed
    by (simp add: server_post_def route authorised_dispatch [OF assms(2,3)] dispatch_http_def respond_def api_submit_approval_def
        r assms(1) pbind_def plift_def pmap_err_def preturn_def hash_field_text [OF assms(1,4)])
qed

subsection \<open>Properties\<close>

text \<open>A vote of the reference client counts. When the connection carries a valid API key and the client echoes the identity it is registered
  under, whatever scheme its key has, an operator's decision to approve or reject is signed, accepted by the server with status 200 and
  recorded as this approver's one vote on the request, and the client logs it as posted. It relies on the client's clock being at most
  an hour behind the server's and not ahead of it.\<close>

theorem client_vote_is_recorded:
  fixes cc :: client_crates and wi :: "('x, 'sc, 'r, 'p) wiring" and s :: "'p world service_state"
  defines "cr \<equiv> cl_api cc"
  assumes "sign_laws (sv_sign (hc_service cr))" "api_laws cr" "\<forall>u. CHR ''/'' \<notin> set (hc_ulid cr u)"
    and "hc_header_to_str cr hv = Some key" "key \<in> load_api_keys raw"
    and "approver_signer_new (sv_sign (hc_service cr)) secret scheme = Ok signer"
    and "get_approver who (wo_registry (ss_world s)) = Ok rec" "rec_status rec \<noteq> Revoked"
    and "identity_public_key (rec_identity rec) = asg_public_key signer" "identity_scheme (rec_identity rec) = asg_scheme signer"
    and "memory_inv (wo_approvals (ss_world s))" "who \<notin> fst ` set (memory_ballots (wo_approvals (ss_world s)) rid)"
    and "i64_ok now" "now = whole_units 1000000 (env_clock (wi_env wi) (wo_tick (ss_world s)))"
    and "i64_ok (ct_unix_seconds turn * 1000)" "ct_unix_seconds turn * 1000 \<le> now" "now < ct_unix_seconds turn * 1000 + 3601000"
    and "length hash = 32" "decide policy (ct_line turn) \<noteq> DecideRefuse"
    and "self = with_identity (identity_to_dto cr (rec_identity rec))
      (processor_new signer \<lparr>pcf_server = server, pcf_approver_id = hc_ulid cr (approver_ulid who), pcf_policy = policy\<rparr>)"
    and "req = \<lparr>arw_request_id = hc_ulid cr (request_ulid rid), arw_message_hash = hex_encode hash, arw_approver_set = ids, arw_threshold = t\<rparr>"
  shows "\<exists>s' r a. process cc (client_of cr wi sg timeout raw (base_url server) (Some hv)) self turn req (s, log) =
      Some (Ok \<lparr>po_decision = decide policy (ct_line turn), po_server_status = Some 200,
        po_approval_id = hc_ulid cr (approval_ulid (ct_approval_id turn))\<rparr>, (s', log @ [r])) \<and>
    clr_event r = ''posted'' \<and> memory_ballots (wo_approvals (ss_world s')) rid = memory_ballots (wo_approvals (ss_world s)) rid @ [(who, a)] \<and>
    ap_approval_id a = ct_approval_id turn \<and> ap_message_hash a = hash \<and> ap_decision a = (if decide policy (ct_line turn) = DecideApprove then Approve else Reject)"
proof -
  let ?t = "ct_unix_seconds turn * 1000" and ?d = "if decide policy (ct_line turn) = DecideApprove then Approve else Reject"
  let ?pre = "signing_preimage (hc_ulid cr) (ct_approval_id turn) rid hash ?d ?t"
  obtain sig where sig: "approver_sign (sv_sign (hc_service cr)) signer ?pre = Ok sig"
    "sg_verify (signer_of (sv_sign (hc_service cr)) (asg_scheme signer)) (asg_public_key signer) ?pre sig (hash_alg_for (asg_scheme signer)) = Ok ()"
    using approver_sign_verifies [OF assms(2,7)] by blast
  define a where "a = \<lparr>ap_approval_id = ct_approval_id turn, ap_approver = rec_identity rec, ap_request_id = rid, ap_message_hash = hash,
    ap_decision = ?d, ap_timestamp_unix_ms = ?t, ap_signature = sig\<rparr>"
  have af: "ap_request_id a = rid" "ap_approver a = rec_identity rec" by (simp_all add: a_def)
  have "approval_verify (sv_sign (hc_service cr)) (hc_ulid cr) a rid hash now = Ok ()"
    using assms(10,11,14,16,17,18) sig(2) by (simp add: approval_verify_Ok a_def approval_preimage_def)
  moreover obtain st where st: "record_approval a who (wo_approvals (ss_world s)) = (Ok Inserted, st)"
    "memory_ballots st rid = memory_ballots (wo_approvals (ss_world s)) rid @ [(who, a)]"
    using memory_store.first_vote [OF assms(12), of who a] assms(13) by (auto simp: a_def)
  ultimately obtain s' where s': "service_record_approval (hc_service cr) (server_service wi sg timeout) a who hash s = Some (Ok Inserted, s')" "wo_approvals (ss_world s') = st"
    using service_records [where a = a and h = hash and cr = "hc_service cr" and wi = wi and sg = sg and timeout = timeout and st = st, OF assms(8) _ assms(9)]
      assms(14) unfolding assms(15) by (auto simp: af)
  let ?body = "\<lparr>saw_approver_id = hc_ulid cr (approver_ulid who), saw_approval_id = hc_ulid cr (approval_ulid (ct_approval_id turn)),
    saw_decision = (if decide policy (ct_line turn) = DecideApprove then ''approve'' else ''reject''), saw_signature_hex = hex_encode sig,
    saw_timestamp_unix_ms = ?t, saw_message_hash_hex = hex_encode hash, saw_identity = identity_to_dto cr (rec_identity rec)\<rparr>"
  have post: "server_post cr wi sg timeout raw (base_url server) (Some hv) (approvals_url server (hc_ulid cr (request_ulid rid))) ?body (s, log) = Some (Ok 200, (s', log))"
    using vote_answered [where a = a and who = who and s = s and s' = s' and wi = wi and sg = sg and timeout = timeout and body = ?body and server = server
      and log = log, OF assms(3,5,6)] s'(1) assms(4,19)
    by (cases "decide policy (ct_line turn) = DecideApprove") (simp_all add: a_def read_submission_def)
  obtain r where r: "rid = RequestId r" by (cases rid)
  have dec: "hc_ulid_parse cr (hc_ulid cr u) = Inr u" "hc_hex_decode cr (hex_encode b) = Inr b" for u b using assms(3) by (simp_all add: api_laws_def)
  show ?thesis
    using post sig(1) st(2) s'(2) assms(19,20)
    by (auto simp: process_def assms(21,22) client_of_def append_record_def with_identity_def processor_new_def identity_for_wire_def decode_msg_hash_def
        cr_def [symmetric] dec r pbind_def plift_def pmap_err_def preturn_def Let_def a_def)
qed

text \<open>A step that leaves the server alone whatever the client's log, and returns only values of a set.\<close>

definition quiet :: "'s \<Rightarrow> ('a \<Rightarrow> bool) \<Rightarrow> ('s \<times> 'l, 'e, 'a) proc \<Rightarrow> bool" where
  "quiet s P m \<longleftrightarrow> (\<forall>l. \<exists>r l'. m (s, l) = Some (r, (s, l')) \<and> (\<forall>x. r = Ok x \<longrightarrow> P x))"

lemma quiet_basic: "P x \<Longrightarrow> quiet s P (preturn x)" "quiet s (\<lambda>x. r = Ok x) (plift r)"
  by (simp_all add: quiet_def preturn_def plift_def)

lemma quiet_bind:
  assumes "quiet s P m" "\<And>x. P x \<Longrightarrow> quiet s Q (f x)"
  shows "quiet s Q (pbind m f)"
  unfolding quiet_def
proof
  fix l
  obtain r l' where r: "m (s, l) = Some (r, (s, l'))" "\<forall>x. r = Ok x \<longrightarrow> P x" using assms(1) unfolding quiet_def by blast
  show "\<exists>r l'. pbind m f (s, l) = Some (r, s, l') \<and> (\<forall>x. r = Ok x \<longrightarrow> Q x)"
  proof (cases r)
    case (Ok x)
    with r assms(2) [of x] show ?thesis by (simp add: pbind_def quiet_def)
  qed (simp_all add: pbind_def r(1))
qed

lemma quiet_map_err: "quiet s P m \<Longrightarrow> quiet s P (pmap_err g m)"
  unfolding quiet_def pmap_err_def by (fastforce simp: outcome_simps)

lemma unkeyed_post: "\<exists>n \<in> {401, 404}. server_post cr wi sg timeout raw base None url body w = Some (Ok n, w)"
  by (simp add: server_post_def serve_http_def router_def is_public_def require_api_key_def preturn_def into_response_def
      split: option.split)

text \<open>The reference client as its operator starts it to approve everything, with one request.\<close>

definition demo_client_crates :: client_crates where
  "demo_client_crates = \<lparr>cl_api = demo_api_crates, cl_hmac = (\<lambda>_ _. replicate 32 0), cl_to_vec = (\<lambda>_. Inr []), cl_from_slice = (\<lambda>_. Inr JNull),
     cl_shape_text = (\<lambda>_. []), cl_status_text = show_nat, cl_signer_text = (\<lambda>_. [])\<rparr>"

definition demo_processor :: processor where
  "demo_processor = processor_new \<lparr>asg_secret = SecretBytes (replicate 32 7), asg_scheme = Ed25519, asg_public_key = replicate 32 7\<rparr>
     \<lparr>pcf_server = ''http://wallet/'', pcf_approver_id = crockford 1, pcf_policy = AutoApprove\<rparr>"

definition demo_turn :: client_turn where
  "demo_turn = \<lparr>ct_line = None, ct_approval_id = ApprovalId 3, ct_unix_seconds = 1, ct_now_text = ''now''\<rparr>"

definition demo_vote_request :: approval_request_wire where
  "demo_vote_request = \<lparr>arw_request_id = crockford 2, arw_message_hash = hex_encode (replicate 32 9), arw_approver_set = [], arw_threshold = 1\<rparr>"

lemma demo_unkeyed_post:
  "server_post demo_api_crates demo_wiring None 120000 demo_keys (base_url ''http://wallet/'') None (approvals_url ''http://wallet/'' (crockford 2)) body w =
     Some (Ok 401, w)"
proof -
  have "CHR ''/'' \<notin> set (crockford 2)" by code_simp
  from approvals_route_url [OF this] show ?thesis
    by (simp add: server_post_def serve_http_def router_def is_public_def require_api_key_def preturn_def into_response_def split: option.split)
qed



text \<open>What becomes of a notification. When server and client share the webhook secret, a notification that names any approver is
  rejected by the client with status 400 and not processed, because the two sides disagree on the form of an identity; one with an empty
  approver set is processed, and the notifier reports exactly whether that succeeded.\<close>

theorem notification_processed_iff_no_approvers:
  assumes "webhook_laws cc" "cl_to_vec cc (request_json cc req) = Inr body" "cs_hmac_secret st = nc_hmac_secret config"
  shows "webhook_notify cc (client_router cc env st turn) config req w =
    (if ar_approver_set req = []
     then map_option (\<lambda>(r, w'). (case r of Ok _ \<Rightarrow> Ok () | Err _ \<Rightarrow> Err (Transport (''webhook returned '' @ cl_status_text cc 500))
        | Panic _ \<Rightarrow> Err (Transport ''send webhook: connection closed''), w')) (process cc env (cs_processor st) turn (wire_of cc req) w)
     else Some (Err (Transport (''webhook returned '' @ cl_status_text cc 400)), w))"
proof -
  have rd: "cl_from_slice cc body = Inr (request_json cc req)" using assms(1,2) by (simp add: webhook_laws_def)
  have "handle_webhook cc env st turn (Some (as_bytes (hmac_sha256_hex cc (nc_hmac_secret config) body))) body w =
    (if ar_approver_set req = []
     then pbind (pmap_err (ProcessorFailed \<circ> processor_error_text) (process cc env (cs_processor st) turn (wire_of cc req))) (\<lambda>_. preturn 200) w
     else Some (Err (BadBody (''json: '' @ cl_shape_text cc (request_json cc req))), w))"
    by (simp add: handle_webhook_def verify_hmac_signed [OF assms(1)] assms(3) read_body_def rd read_server_request pbind_def plift_def)
  then show ?thesis
    by (auto simp: webhook_notify_def post_notice_def assms(2) client_router_def WEBHOOK_SIGNATURE_HEADER_def pbind_def plift_def pmap_err_def pthrow_def
        preturn_def webhook_into_response_def split: option.splits outcome.splits)
qed

end
