(* ===== verification/Spec2Isabelle.thy ===== *)
theory Spec2Isabelle
  imports Decoded_Policy Local_Fs_Store S3_Kms_Store Approver_Registry Approval_Collection
    Chain_Anchor Grpc_Api Nitro_Enclave Approver_Client
begin

text \<open>
  \<^bold>\<open>A verification development for the QFC server wallet.\<close>

  The program is a custodial signing service. The theories follow its crates: \<open>Prelude\<close>,
  \<open>Wallet_Types\<close>, \<open>Policy_Types\<close>, \<open>Float64\<close>, \<open>Rate_Limit\<close>, \<open>Static_Policy\<close> and
  \<open>Rule_Set_Policy\<close>.
\<close>

end
